(* ===== verification/Prelude.thy ===== *)
theory Prelude
  imports Complex_Main "HOL-Library.AList" "HOL-Library.Sublist"
begin

text \<open>
  The substrate shared by every component: what the Go code uses of the language and of its
  standard library (maps, time, strings, decimal formatting), with the generic lemmas the
  component theories rest on.

  Representation choices.
  \<^item> A Go string is its byte sequence, a \<open>string\<close> (one \<open>char\<close> per byte).
  \<^item> A Go map is an association list in its iteration order. Go leaves the iteration order
    open, so a theorem about every list covers every order. A map that may be nil is an
    \<open>option\<close> of such a list.
  \<^item> \<open>time.Time\<close> is the number of nanoseconds since the zero time, as an \<open>int\<close>; the zero
    value is 0. \<open>time.Duration\<close> is an \<open>int\<close> of nanoseconds; \<open>Sub\<close> saturates at the
    64-bit bounds as in the library.
  \<^item> Go's \<open>int\<close> and \<open>int64\<close> are \<open>int\<close>; the counters of this program start at 0, grow
    by 1 and are nowhere near the 64-bit bound.
  \<^item> \<open>strings.ToLower\<close> and \<open>strings.EqualFold\<close> act on ASCII letters and leave every other
    byte alone. \<open>strings.TrimSpace\<close> knows every Unicode space in its UTF-8 form.
\<close>

section \<open>Collections of facts\<close>

named_theorems field_simps_go \<open>how a field is read after an update\<close>
named_theorems zero_defs \<open>zero values of the structs\<close>
named_theorems const_defs \<open>named constants\<close>

section \<open>Maps\<close>

type_synonym 'v smap = "(string \<times> 'v) list"

abbreviation aput :: "'k \<Rightarrow> 'v \<Rightarrow> ('k \<times> 'v) list \<Rightarrow> ('k \<times> 'v) list" where
  "aput \<equiv> AList.update"

abbreviation adel :: "'k \<Rightarrow> ('k \<times> 'v) list \<Rightarrow> ('k \<times> 'v) list" where
  "adel \<equiv> AList.delete"

abbreviation aget :: "('k \<times> 'v) list \<Rightarrow> 'k \<Rightarrow> 'v option" where
  "aget \<equiv> map_of"

text \<open>A nil map reads as an empty one.\<close>

definition entries :: "('k \<times> 'v) list option \<Rightarrow> ('k \<times> 'v) list" where
  "entries m = (case m of None \<Rightarrow> [] | Some kvs \<Rightarrow> kvs)"

text \<open>Reading a missing key of a Go map gives the zero value of the element type.\<close>

definition aget_or :: "'v \<Rightarrow> ('k \<times> 'v) list \<Rightarrow> 'k \<Rightarrow> 'v" where
  "aget_or z m k = (case aget m k of None \<Rightarrow> z | Some v \<Rightarrow> v)"

lemma entries_simps [simp]: "entries None = []" "entries (Some kvs) = kvs"
  by (simp_all add: entries_def)

lemma aget_aput [simp]: "aget (aput k v m) k' = (if k' = k then Some v else aget m k')"
  by (simp add: update_conv')

lemma aget_adel [simp]: "aget (adel k m) k' = (if k' = k then None else aget m k')"
  by (simp add: delete_conv')

lemma aget_or_aput [simp]: "aget_or z (aput k v m) k' = (if k' = k then v else aget_or z m k')"
  by (simp add: aget_or_def)

lemma aget_or_adel [simp]: "aget_or z (adel k m) k' = (if k' = k then z else aget_or z m k')"
  by (simp add: aget_or_def)

lemma aget_or_Nil [simp]: "aget_or z [] k = z"
  by (simp add: aget_or_def)

lemma dom_aput [simp]: "dom (aget (aput k v m)) = insert k (dom (aget m))"
  by (auto simp: update_conv')

lemma dom_adel [simp]: "dom (aget (adel k m)) = dom (aget m) - {k}"
  by (auto simp: delete_conv')

lemma distinct_aput [simp]: "distinct (map fst m) \<Longrightarrow> distinct (map fst (aput k v m))"
  by (rule distinct_update)

lemma distinct_adel [simp]: "distinct (map fst m) \<Longrightarrow> distinct (map fst (adel k m))"
  by (rule distinct_delete)

section \<open>Time\<close>

type_synonym gtime = int
type_synonym duration = int

definition maxDuration :: duration where
  "maxDuration = 2 ^ 63 - 1"

definition minDuration :: duration where
  "minDuration = - (2 ^ 63)"

definition time_sub :: "gtime \<Rightarrow> gtime \<Rightarrow> duration" where
  "time_sub t u = max minDuration (min maxDuration (t - u))"

definition time_IsZero :: "gtime \<Rightarrow> bool" where
  "time_IsZero t \<longleftrightarrow> t = 0"

definition millisecond :: duration where "millisecond = 1000000"
definition second :: duration where "second = 1000 * millisecond"
definition hour :: duration where "hour = 3600 * second"

lemma time_sub_bounds: "minDuration \<le> time_sub t u \<and> time_sub t u \<le> maxDuration"
  by (simp add: time_sub_def minDuration_def maxDuration_def)

lemma time_sub_exact:
  "minDuration \<le> t - u \<Longrightarrow> t - u \<le> maxDuration \<Longrightarrow> time_sub t u = t - u"
  by (simp add: time_sub_def)

section \<open>Decimal formatting\<close>

definition digit_char :: "nat \<Rightarrow> char" where
  "digit_char n = char_of (48 + n)"

fun nat_digits :: "nat \<Rightarrow> string" where
  "nat_digits n = (if n < 10 then [digit_char n] else nat_digits (n div 10) @ [digit_char (n mod 10)])"

declare nat_digits.simps [simp del]

text \<open>\<open>strconv.Itoa\<close> and the verb \<open>%d\<close>.\<close>

definition itoa :: "int \<Rightarrow> string" where
  "itoa i = (if i < 0 then CHR ''-'' # nat_digits (nat (- i)) else nat_digits (nat i))"

text \<open>Reading digits back, for the round trip.\<close>

fun digits_val :: "nat \<Rightarrow> string \<Rightarrow> nat" where
  "digits_val acc [] = acc"
| "digits_val acc (c # cs) = digits_val (10 * acc + (of_char c - 48)) cs"

lemma of_char_digit_char [simp]: "n < 10 \<Longrightarrow> (of_char (digit_char n) :: nat) = 48 + n"
  by (simp add: digit_char_def)

lemma digits_val_snoc: "digits_val acc (cs @ [c]) = 10 * digits_val acc cs + (of_char c - 48)"
  by (induction cs arbitrary: acc) auto

lemma digits_val_nat_digits [simp]: "digits_val 0 (nat_digits n) = n"
proof (induction n rule: nat_digits.induct)
  case (1 n)
  then show ?case
    by (subst nat_digits.simps) (simp add: digits_val_snoc)
qed

lemma nat_digits_inject [simp]: "nat_digits m = nat_digits n \<longleftrightarrow> m = n"
  by (metis digits_val_nat_digits)

lemma nat_digits_not_Nil [simp]: "nat_digits n \<noteq> []"
  by (subst nat_digits.simps) simp

lemma digit_char_not_minus: "n < 10 \<Longrightarrow> digit_char n \<noteq> CHR ''-''"
proof
  assume n: "n < 10" and "digit_char n = CHR ''-''"
  then have "(of_char (digit_char n) :: nat) = of_char (CHR ''-'')"
    by simp
  with n show False
    by simp
qed

lemma set_nat_digits: "set (nat_digits n) \<subseteq> digit_char ` {..<10}"
proof (induction n rule: nat_digits.induct)
  case (1 n)
  show ?case
  proof (cases "n < 10")
    case True
    then show ?thesis by (subst nat_digits.simps) auto
  next
    case False
    with 1 show ?thesis by (subst nat_digits.simps) auto
  qed
qed

lemma itoa_inject [simp]: "itoa i = itoa j \<longleftrightarrow> i = j"
proof -
  have no_minus: "nat_digits n \<noteq> CHR ''-'' # cs" for n cs
  proof
    assume eq: "nat_digits n = CHR ''-'' # cs"
    then have "CHR ''-'' \<in> set (nat_digits n)" by simp
    with set_nat_digits [of n] show False
      using digit_char_not_minus by force
  qed
  show ?thesis
  proof
    assume "itoa i = itoa j"
    then show "i = j"
      using no_minus no_minus [symmetric] by (auto simp: itoa_def split: if_splits)
  qed simp
qed

text \<open>\<open>time.Duration.String\<close>: the fraction without trailing zeros, then the units.\<close>

definition pad_digits :: "nat \<Rightarrow> nat \<Rightarrow> string" where
  "pad_digits prec f = (let ds = nat_digits f in replicate (prec - length ds) (CHR ''0'') @ ds)"

definition strip_zeros :: "string \<Rightarrow> string" where
  "strip_zeros s = rev (dropWhile (\<lambda>c. c = CHR ''0'') (rev s))"

definition fmt_frac :: "nat \<Rightarrow> nat \<Rightarrow> string" where
  "fmt_frac u prec =
     (let f = u mod 10 ^ prec
      in if f = 0 then '''' else ''.'' @ strip_zeros (pad_digits prec f))"

definition duration_string :: "duration \<Rightarrow> string" where
  "duration_string d =
     (let u = nat \<bar>d\<bar>;
          body =
            (if u = 0 then ''0s''
             else if u < 1000 then nat_digits u @ ''ns''
             else if u < 1000000 then nat_digits (u div 1000) @ fmt_frac u 3 @ [CHR 0xC2, CHR 0xB5] @ ''s''
             else if u < 1000000000 then nat_digits (u div 1000000) @ fmt_frac u 6 @ ''ms''
             else
               (let secs = u div 1000000000;
                    s = nat_digits (secs mod 60) @ fmt_frac u 9 @ ''s'';
                    mins = secs div 60
                in if mins = 0 then s
                   else if mins div 60 = 0 then nat_digits (mins mod 60) @ ''m'' @ s
                   else nat_digits (mins div 60) @ ''h'' @ nat_digits (mins mod 60) @ ''m'' @ s))
      in if d < 0 then CHR ''-'' # body else body)"

section \<open>Strings\<close>

definition lower_char :: "char \<Rightarrow> char" where
  "lower_char c = (let n = (of_char c :: nat) in if 65 \<le> n \<and> n \<le> 90 then char_of (n + 32) else c)"

definition ToLower :: "string \<Rightarrow> string" where
  "ToLower s = map lower_char s"

definition EqualFold :: "string \<Rightarrow> string \<Rightarrow> bool" where
  "EqualFold s t \<longleftrightarrow> ToLower s = ToLower t"

fun Contains :: "string \<Rightarrow> string \<Rightarrow> bool" where
  "Contains [] sub = (sub = [])"
| "Contains (c # s) sub = (prefix sub (c # s) \<or> Contains s sub)"

definition HasPrefix :: "string \<Rightarrow> string \<Rightarrow> bool" where
  "HasPrefix s p = prefix p s"

definition HasSuffix :: "string \<Rightarrow> string \<Rightarrow> bool" where
  "HasSuffix s p = suffix p s"

definition TrimPrefix :: "string \<Rightarrow> string \<Rightarrow> string" where
  "TrimPrefix s p = (if prefix p s then drop (length p) s else s)"

definition TrimSuffix :: "string \<Rightarrow> string \<Rightarrow> string" where
  "TrimSuffix s p = (if suffix p s then take (length s - length p) s else s)"

text \<open>\<open>strings.Split\<close> on a one-byte separator: always at least one piece.\<close>

fun Split :: "char \<Rightarrow> string \<Rightarrow> string list" where
  "Split d [] = [[]]"
| "Split d (c # s) =
     (if c = d then [] # Split d s
      else (case Split d s of [] \<Rightarrow> [[c]] | w # ws \<Rightarrow> (c # w) # ws))"

fun Join :: "string list \<Rightarrow> string \<Rightarrow> string" where
  "Join [] sep = []"
| "Join [w] sep = w"
| "Join (w # ws) sep = w @ sep @ Join ws sep"

text \<open>\<open>strings.Cut\<close> at a one-byte separator: before, after, found.\<close>

fun Cut :: "char \<Rightarrow> string \<Rightarrow> (string \<times> string) option" where
  "Cut d [] = None"
| "Cut d (c # s) =
     (if c = d then Some ([], s)
      else map_option (\<lambda>(a, b). (c # a, b)) (Cut d s))"

lemma Contains_sublist: "Contains s sub \<longleftrightarrow> sublist sub s"
  by (induction s) (auto simp: sublist_Cons_right)

lemma ToLower_ToLower [simp]: "ToLower (ToLower s) = ToLower s"
proof -
  have "lower_char (lower_char c) = lower_char c" for c
    by (auto simp: lower_char_def Let_def)
  then show ?thesis by (simp add: ToLower_def)
qed

lemma length_ToLower [simp]: "length (ToLower s) = length s"
  by (simp add: ToLower_def)

lemma Split_not_Nil [simp]: "Split d s \<noteq> []"
  by (induction s) (auto split: list.splits)

lemma Join_Split: "Join (Split d s) [d] = s"
proof (induction s)
  case (Cons c s)
  then show ?case
    by (cases "Split d s"; cases "tl (Split d s)") (auto simp: neq_Nil_conv)
qed simp

lemma Cut_Some: "Cut d s = Some (a, b) \<Longrightarrow> s = a @ d # b \<and> d \<notin> set a"
  by (induction s arbitrary: a) (auto split: if_splits)

subsection \<open>TrimSpace\<close>

text \<open>The UTF-8 encodings of the runes \<open>unicode.IsSpace\<close> accepts.\<close>

definition space_encodings :: "string list" where
  "space_encodings =
     [[CHR 0x09], [CHR 0x0A], [CHR 0x0B], [CHR 0x0C], [CHR 0x0D], [CHR 0x20],
      [CHR 0xC2, CHR 0x85], [CHR 0xC2, CHR 0xA0], [CHR 0xE1, CHR 0x9A, CHR 0x80],
      [CHR 0xE2, CHR 0x80, CHR 0x80], [CHR 0xE2, CHR 0x80, CHR 0x81], [CHR 0xE2, CHR 0x80, CHR 0x82],
      [CHR 0xE2, CHR 0x80, CHR 0x83], [CHR 0xE2, CHR 0x80, CHR 0x84], [CHR 0xE2, CHR 0x80, CHR 0x85],
      [CHR 0xE2, CHR 0x80, CHR 0x86], [CHR 0xE2, CHR 0x80, CHR 0x87], [CHR 0xE2, CHR 0x80, CHR 0x88],
      [CHR 0xE2, CHR 0x80, CHR 0x89], [CHR 0xE2, CHR 0x80, CHR 0x8A], [CHR 0xE2, CHR 0x80, CHR 0xA8],
      [CHR 0xE2, CHR 0x80, CHR 0xA9], [CHR 0xE2, CHR 0x80, CHR 0xAF], [CHR 0xE2, CHR 0x81, CHR 0x9F],
      [CHR 0xE3, CHR 0x80, CHR 0x80]]"

definition space_prefix :: "string list \<Rightarrow> string \<Rightarrow> nat" where
  "space_prefix encs s = (case find (\<lambda>e. prefix e s) encs of None \<Rightarrow> 0 | Some e \<Rightarrow> length e)"

lemma space_prefix_le: "space_prefix encs s \<le> length s"
  by (auto simp: space_prefix_def find_Some_iff prefix_length_le split: option.splits)

function trim_left :: "string list \<Rightarrow> string \<Rightarrow> string" where
  "trim_left encs s =
     (let n = space_prefix encs s in if n = 0 then s else trim_left encs (drop n s))"
  by pat_completeness auto
termination
proof (relation "measure (\<lambda>(encs, s). length s)")
  fix encs s n
  assume "n = space_prefix encs s" and "n \<noteq> 0"
  then show "((encs, drop n s), (encs, s)) \<in> measure (\<lambda>(encs, s). length s)"
    using space_prefix_le [of encs s] by simp
qed simp

declare trim_left.simps [simp del]

definition TrimSpace :: "string \<Rightarrow> string" where
  "TrimSpace s =
     rev (trim_left (map rev space_encodings) (rev (trim_left space_encodings s)))"

lemma suffix_trim_left: "suffix (trim_left encs s) s"
proof (induction encs s rule: trim_left.induct)
  case (1 encs s)
  show ?case
  proof (cases "space_prefix encs s = 0")
    case True
    then show ?thesis by (subst trim_left.simps) simp
  next
    case False
    with 1 have "suffix (trim_left encs (drop (space_prefix encs s) s)) (drop (space_prefix encs s) s)"
      by simp
    then have "suffix (trim_left encs (drop (space_prefix encs s) s)) s"
      using suffix_drop suffix_order.trans by blast
    with False show ?thesis by (subst trim_left.simps) simp
  qed
qed

lemma space_prefix_trim_left: "space_prefix encs (trim_left encs s) = 0"
proof (induction encs s rule: trim_left.induct)
  case (1 encs s)
  then show ?case
    by (cases "space_prefix encs s = 0") (subst trim_left.simps, simp)+
qed

lemma trim_left_id: "space_prefix encs s = 0 \<Longrightarrow> trim_left encs s = s"
  by (subst trim_left.simps) simp

lemma space_prefix_0_prefix:
  assumes "space_prefix encs s = 0" and "prefix t s" and "[] \<notin> set encs"
  shows "space_prefix encs t = 0"
proof -
  from assms(1,3) have "\<not> prefix e s" if "e \<in> set encs" for e
    using that by (auto simp: space_prefix_def find_None_iff find_Some_iff split: option.splits)
      (metis nth_mem)
  with assms(2) have "\<not> prefix e t" if "e \<in> set encs" for e
    using that prefix_order.trans by blast
  then show ?thesis
    by (auto simp: space_prefix_def find_None_iff find_Some_iff split: option.splits)
qed

lemma TrimSpace_prefix_0: "space_prefix space_encodings (TrimSpace s) = 0"
proof (rule space_prefix_0_prefix)
  show "space_prefix space_encodings (trim_left space_encodings s) = 0"
    by (rule space_prefix_trim_left)
  show "prefix (TrimSpace s) (trim_left space_encodings s)"
    using suffix_trim_left [of "map rev space_encodings" "rev (trim_left space_encodings s)"]
    by (simp add: TrimSpace_def suffix_to_prefix)
  show "[] \<notin> set space_encodings"
    by (simp add: space_encodings_def)
qed

lemma TrimSpace_idem [simp]: "TrimSpace (TrimSpace s) = TrimSpace s"
proof -
  have left: "trim_left space_encodings (TrimSpace s) = TrimSpace s"
    by (rule trim_left_id) (rule TrimSpace_prefix_0)
  have "space_prefix (map rev space_encodings) (rev (TrimSpace s)) = 0"
    by (simp add: TrimSpace_def space_prefix_trim_left)
  then have "trim_left (map rev space_encodings) (rev (TrimSpace s)) = rev (TrimSpace s)"
    by (rule trim_left_id)
  with left show ?thesis
    by (subst TrimSpace_def) simp
qed

lemma length_TrimSpace: "length (TrimSpace s) \<le> length s"
proof -
  have "length (TrimSpace s) \<le> length (trim_left space_encodings s)"
    using suffix_length_le [OF suffix_trim_left [of "map rev space_encodings" "rev (trim_left space_encodings s)"]]
    by (simp add: TrimSpace_def)
  also have "\<dots> \<le> length s"
    by (rule suffix_length_le) (rule suffix_trim_left)
  finally show ?thesis .
qed

lemma TrimSpace_Nil [simp]: "TrimSpace [] = []"
  using length_TrimSpace [of "[]"] by simp

section \<open>Folds that stop early\<close>

text \<open>The first element satisfying a test, as a loop with an early return finds it.\<close>

lemma find_None_all: "find P xs = None \<longleftrightarrow> (\<forall>x \<in> set xs. \<not> P x)"
  by (auto simp: find_None_iff)

lemma find_Some_in: "find P xs = Some x \<Longrightarrow> x \<in> set xs \<and> P x"
  by (auto simp: find_Some_iff)

end
