(* ===== verification/Values.thy ===== *)
theory Values
  imports Prelude
begin

text \<open>
  The vocabulary of the SDK (\<^verbatim>\<open>ids.go, lifecycle.go, events.go, metadata.go, runtime.go,
  permissions.go\<close>): the open string types with their constants, the small structs, and the
  dynamic values (\<open>any\<close>) that event payloads and native metadata hold.

  An open Go string type with constants is a datatype: one constructor per constant and one
  for every other text. The zero value of a type with no constant for the empty text is the
  last constructor at the empty string; an abbreviation names it.
\<close>

section \<open>Identifiers (ids.go)\<close>

type_synonym RunID = string
type_synonym SessionID = string
type_synonym TurnID = string
type_synonym EventID = string
type_synonym CorrelationID = string
type_synonym RuntimeKind = string
type_synonym ProviderID = string
type_synonym ModelID = string
type_synonym ArtifactID = string
type_synonym PermissionMode = string
type_synonym SandboxMode = string
type_synonym Capability = string
type_synonym HealthCheckID = string
type_synonym PermissionTool = string

section \<open>Run status (lifecycle.go)\<close>

datatype RunStatus =
    StatusStarting | StatusRunning | StatusValidating | StatusRepairing
  | StatusCompleted | StatusFailed | StatusCancelled
  | RunStatusOther string

abbreviation NoStatus :: RunStatus where "NoStatus \<equiv> RunStatusOther ''''"

fun Terminal :: "RunStatus \<Rightarrow> bool" where
  "Terminal StatusCompleted = True"
| "Terminal StatusFailed = True"
| "Terminal StatusCancelled = True"
| "Terminal _ = False"

fun status_string :: "RunStatus \<Rightarrow> string" where
  "status_string StatusStarting = ''starting''"
| "status_string StatusRunning = ''running''"
| "status_string StatusValidating = ''validating''"
| "status_string StatusRepairing = ''repairing''"
| "status_string StatusCompleted = ''completed''"
| "status_string StatusFailed = ''failed''"
| "status_string StatusCancelled = ''cancelled''"
| "status_string (RunStatusOther s) = s"

text \<open>The Go conversion \<open>RunStatus(s)\<close>.\<close>

definition status_of :: "string \<Rightarrow> RunStatus" where
  "status_of s =
     (if s = ''starting'' then StatusStarting
      else if s = ''running'' then StatusRunning
      else if s = ''validating'' then StatusValidating
      else if s = ''repairing'' then StatusRepairing
      else if s = ''completed'' then StatusCompleted
      else if s = ''failed'' then StatusFailed
      else if s = ''cancelled'' then StatusCancelled
      else RunStatusOther s)"

lemma status_string_of [simp]: "status_string (status_of s) = s"
  by (simp add: status_of_def)

lemma Terminal_iff: "Terminal s \<longleftrightarrow> s \<in> {StatusCompleted, StatusFailed, StatusCancelled}"
  by (cases s) auto

section \<open>Event kinds (events.go)\<close>

datatype EventKind =
    EventLifecycle | EventSession | EventMessage | EventProgress | EventTool | EventArtifact
  | EventPermission | EventBlocking | EventUsage | EventWarning | EventFatalError
  | EventRateLimit | EventValidation | EventRetry | EventFallback | EventFinalResult
  | EventNativeExtension
  | EventKindOther string

abbreviation NoEventKind :: EventKind where "NoEventKind \<equiv> EventKindOther ''''"

fun kind_string :: "EventKind \<Rightarrow> string" where
  "kind_string EventLifecycle = ''lifecycle''"
| "kind_string EventSession = ''session''"
| "kind_string EventMessage = ''message''"
| "kind_string EventProgress = ''progress''"
| "kind_string EventTool = ''tool''"
| "kind_string EventArtifact = ''artifact''"
| "kind_string EventPermission = ''permission''"
| "kind_string EventBlocking = ''blocking''"
| "kind_string EventUsage = ''usage''"
| "kind_string EventWarning = ''warning''"
| "kind_string EventFatalError = ''fatal_error''"
| "kind_string EventRateLimit = ''rate_limit''"
| "kind_string EventValidation = ''validation''"
| "kind_string EventRetry = ''retry''"
| "kind_string EventFallback = ''fallback''"
| "kind_string EventFinalResult = ''final_result''"
| "kind_string EventNativeExtension = ''native_extension''"
| "kind_string (EventKindOther s) = s"

definition known_kinds :: "EventKind list" where
  "known_kinds =
     [EventLifecycle, EventSession, EventMessage, EventProgress, EventTool, EventArtifact,
      EventPermission, EventBlocking, EventUsage, EventWarning, EventFatalError, EventRateLimit,
      EventValidation, EventRetry, EventFallback, EventFinalResult, EventNativeExtension]"

text \<open>The Go conversion \<open>EventKind(s)\<close>.\<close>

definition kind_of :: "string \<Rightarrow> EventKind" where
  "kind_of s = (case find (\<lambda>k. kind_string k = s) known_kinds of Some k \<Rightarrow> k | None \<Rightarrow> EventKindOther s)"

lemma kind_string_of [simp]: "kind_string (kind_of s) = s"
  by (auto simp: kind_of_def split: option.splits dest: find_Some_in)

lemma kind_of_string: "k \<in> set known_kinds \<Longrightarrow> kind_of (kind_string k) = k"
  by (cases k) (simp_all add: kind_of_def known_kinds_def)

section \<open>Session actions and relationships, policy decision kinds\<close>

datatype SessionAction =
    SessionActionDefault | SessionActionFresh | SessionActionContinue | SessionActionFork
  | SessionActionReplace | SessionActionRelease
  | SessionActionOther string

fun action_string :: "SessionAction \<Rightarrow> string" where
  "action_string SessionActionDefault = ''''"
| "action_string SessionActionFresh = ''fresh''"
| "action_string SessionActionContinue = ''continue''"
| "action_string SessionActionFork = ''fork''"
| "action_string SessionActionReplace = ''replace''"
| "action_string SessionActionRelease = ''release''"
| "action_string (SessionActionOther s) = s"

datatype SessionRelationship =
    SessionRelationshipNone | SessionRelationshipFresh | SessionRelationshipSame
  | SessionRelationshipForked | SessionRelationshipReplaced | SessionRelationshipReleased
  | SessionRelationshipUnsupported | SessionRelationshipBestEffort
  | SessionRelationshipOther string

fun relationship_string :: "SessionRelationship \<Rightarrow> string" where
  "relationship_string SessionRelationshipNone = ''''"
| "relationship_string SessionRelationshipFresh = ''fresh''"
| "relationship_string SessionRelationshipSame = ''same''"
| "relationship_string SessionRelationshipForked = ''forked''"
| "relationship_string SessionRelationshipReplaced = ''replaced''"
| "relationship_string SessionRelationshipReleased = ''released''"
| "relationship_string SessionRelationshipUnsupported = ''unsupported''"
| "relationship_string SessionRelationshipBestEffort = ''best_effort''"
| "relationship_string (SessionRelationshipOther s) = s"

datatype PolicyDecisionKind =
    PolicyDecisionStop | PolicyDecisionRetry | PolicyDecisionWait | PolicyDecisionFallback
  | PolicyDecisionOther string

abbreviation NoDecisionKind :: PolicyDecisionKind where "NoDecisionKind \<equiv> PolicyDecisionOther ''''"

fun decision_kind_string :: "PolicyDecisionKind \<Rightarrow> string" where
  "decision_kind_string PolicyDecisionStop = ''stop''"
| "decision_kind_string PolicyDecisionRetry = ''retry''"
| "decision_kind_string PolicyDecisionWait = ''wait''"
| "decision_kind_string PolicyDecisionFallback = ''fallback''"
| "decision_kind_string (PolicyDecisionOther s) = s"

section \<open>Runtime context, artifacts, capabilities (metadata.go, runtime.go)\<close>

record RuntimeContext =
  ctx_RuntimeKind :: RuntimeKind
  ctx_RuntimeName :: string
  ctx_Provider :: ProviderID
  ctx_Model :: ModelID

definition zero_RuntimeContext :: RuntimeContext where
  "zero_RuntimeContext = \<lparr>ctx_RuntimeKind = [], ctx_RuntimeName = [], ctx_Provider = [], ctx_Model = []\<rparr>"

record ArtifactRef =
  art_ID :: ArtifactID
  art_URI :: string
  art_Kind :: string
  art_Description :: string
  art_Metadata :: "string smap option"

record CapabilitySupport =
  cs_Supported :: bool
  cs_Detail :: string

record UnsupportedCapability =
  uc_Capability :: Capability
  uc_Reason :: string

record Capabilities =
  caps_RuntimeKind :: RuntimeKind
  caps_Features :: "(Capability \<times> CapabilitySupport) list option"
  caps_Unsupported :: "UnsupportedCapability list"

definition zero_Capabilities :: Capabilities where
  "zero_Capabilities = \<lparr>caps_RuntimeKind = [], caps_Features = None, caps_Unsupported = []\<rparr>"

definition Supports :: "Capabilities \<Rightarrow> Capability \<Rightarrow> bool" where
  "Supports c capability =
     cs_Supported (aget_or \<lparr>cs_Supported = False, cs_Detail = []\<rparr> (entries (caps_Features c)) capability)"

abbreviation CapabilitySessions :: Capability where "CapabilitySessions \<equiv> ''sessions''"
abbreviation CapabilitySessionContinue :: Capability where "CapabilitySessionContinue \<equiv> ''session_continue''"
abbreviation CapabilitySessionFork :: Capability where "CapabilitySessionFork \<equiv> ''session_fork''"
abbreviation CapabilitySessionReplace :: Capability where "CapabilitySessionReplace \<equiv> ''session_replace''"
abbreviation CapabilitySessionRelease :: Capability where "CapabilitySessionRelease \<equiv> ''session_release''"
abbreviation CapabilityCancellation :: Capability where "CapabilityCancellation \<equiv> ''cancellation''"
abbreviation CapabilityStructuredEvents :: Capability where "CapabilityStructuredEvents \<equiv> ''structured_events''"
abbreviation CapabilityRawPayloads :: Capability where "CapabilityRawPayloads \<equiv> ''raw_payloads''"
abbreviation CapabilityArtifacts :: Capability where "CapabilityArtifacts \<equiv> ''artifacts''"
abbreviation CapabilityPermissions :: Capability where "CapabilityPermissions \<equiv> ''permissions''"
abbreviation CapabilityUsage :: Capability where "CapabilityUsage \<equiv> ''usage''"
abbreviation CapabilityValidationEvents :: Capability where "CapabilityValidationEvents \<equiv> ''validation_events''"
abbreviation CapabilityPromptCacheAdvisory :: Capability where "CapabilityPromptCacheAdvisory \<equiv> ''prompt_cache_advisory''"
abbreviation CapabilityPromptCacheNative :: Capability where "CapabilityPromptCacheNative \<equiv> ''prompt_cache_native''"

section \<open>Permission facts (permissions.go)\<close>

datatype PermissionAction =
    PermissionActionDefault | PermissionActionAllow | PermissionActionDeny | PermissionActionAsk
  | PermissionActionOther string

fun permission_action_string :: "PermissionAction \<Rightarrow> string" where
  "permission_action_string PermissionActionDefault = ''''"
| "permission_action_string PermissionActionAllow = ''allow''"
| "permission_action_string PermissionActionDeny = ''deny''"
| "permission_action_string PermissionActionAsk = ''ask''"
| "permission_action_string (PermissionActionOther s) = s"

datatype PermissionUnsupportedBehavior =
    PermissionUnsupportedFail | PermissionUnsupportedBestEffort
  | PermissionUnsupportedOther string

datatype PermissionEnforcement =
    PermissionEnforcementNative | PermissionEnforcementSDKManaged
  | PermissionEnforcementBestEffort | PermissionEnforcementUnsupported
  | PermissionEnforcementOther string

record PermissionPathRule =
  rule_Path :: string
  rule_Action :: PermissionAction

record PermissionPolicy =
  pp_Default :: PermissionAction
  pp_Tools :: "(PermissionTool \<times> PermissionAction) list option"
  pp_PathRules :: "PermissionPathRule list"
  pp_UnsupportedBehavior :: PermissionUnsupportedBehavior
  pp_Metadata :: "string smap option"

record PermissionFeatureSupport =
  pfs_Feature :: string
  pfs_Enforcement :: PermissionEnforcement
  pfs_Reason :: string

record PermissionAudit =
  pa_Source :: string
  pa_Tool :: PermissionTool
  pa_Action :: PermissionAction
  pa_Enforcement :: PermissionEnforcement
  pa_Reason :: string
  pa_Metadata :: "string smap option"

record PermissionPolicySummary =
  pps_ID :: string
  pps_Default :: PermissionAction
  pps_Tools :: "(PermissionTool \<times> PermissionAction) list option"
  pps_PathRuleCount :: int
  pps_UnsupportedBehavior :: PermissionUnsupportedBehavior
  pps_Metadata :: "string smap option"

record PermissionMetadata =
  pm_Mode :: PermissionMode
  pm_Policy :: PermissionPolicySummary
  pm_PolicyID :: string
  pm_Support :: "PermissionFeatureSupport list"
  pm_Audit :: "PermissionAudit list"
  pm_Unsupported :: "PermissionFeatureSupport list"

definition zero_PermissionPolicySummary :: PermissionPolicySummary where
  "zero_PermissionPolicySummary =
     \<lparr>pps_ID = [], pps_Default = PermissionActionDefault, pps_Tools = None, pps_PathRuleCount = 0,
      pps_UnsupportedBehavior = PermissionUnsupportedFail, pps_Metadata = None\<rparr>"

definition zero_PermissionMetadata :: PermissionMetadata where
  "zero_PermissionMetadata =
     \<lparr>pm_Mode = [], pm_Policy = zero_PermissionPolicySummary, pm_PolicyID = [], pm_Support = [],
      pm_Audit = [], pm_Unsupported = []\<rparr>"

section \<open>Dynamic values\<close>

text \<open>
  A value of Go's type \<open>any\<close> with its dynamic type: what the program stores in payloads and
  metadata maps. \<open>RateLimitInfo\<close> (policy.go) and \<open>Usage\<close> (metadata.go) hold such maps and are
  held in them, so they are defined together with the values. A finite \<open>float64\<close> is a rational.
\<close>

datatype gval =
    GNil
  | GString string
  | GBool bool
  | GInt int
  | GInt64 int
  | GFloat64 rat
  | GTime gtime
  | GMap "(string \<times> gval) list"
  | GList "gval list"
  | GStringMap "(string \<times> string) list"
  | GStringMaps "(string \<times> string) list list"
  | GIntMap "(string \<times> int) list"
  | GBoolMap "(string \<times> bool) list"
  | GStrings "string list"
  | GEventKind EventKind
  | GRunStatus RunStatus
  | GRunID string
  | GProviderID string
  | GModelID string
  | GSessionAction SessionAction
  | GDecisionKind PolicyDecisionKind
  | GContext RuntimeContext
  | GArtifact ArtifactRef
  | GUsage Usage
  | GRateLimitInfo RateLimitInfo
  | GRateLimitPtr "RateLimitInfo option"
  | GPermissionSummary PermissionPolicySummary
  | GPermissionSupport "PermissionFeatureSupport list"
  | GPermissionAudit "PermissionAudit list"
and RateLimitInfo =
  RateLimitInfo
    (rl_Provider: ProviderID) (rl_Model: ModelID) (rl_Scope: string) (rl_LimitName: string)
    (rl_RetryAfter: duration) (rl_ResetAt: gtime) (rl_Remaining: "int option") (rl_Limit: "int option")
    (rl_Source: string) (rl_UserDetail: string) (rl_NativeMetadata: "(string \<times> gval) list option")
and Usage =
  Usage
    (us_InputTokens: "int option") (us_OutputTokens: "int option") (us_TotalTokens: "int option")
    (us_ReasoningTokens: "int option") (us_CacheReadTokens: "int option")
    (us_CacheWriteTokens: "int option") (us_Turns: "int option")
    (us_Native: "(string \<times> gval) list option")

type_synonym anymap = "(string \<times> gval) list"

definition zero_Usage :: Usage where
  "zero_Usage = Usage None None None None None None None None"

text \<open>A missing key of a \<open>map[string]any\<close> reads as nil.\<close>

abbreviation gget :: "anymap \<Rightarrow> string \<Rightarrow> gval" where
  "gget \<equiv> aget_or GNil"

section \<open>Sessions (metadata.go)\<close>

record SessionMetadata =
  ses_ID :: SessionID
  ses_RequestedID :: SessionID
  ses_RequestedAction :: SessionAction
  ses_Relationship :: SessionRelationship
  ses_Retained :: bool
  ses_Continued :: bool
  ses_ForkedFrom :: SessionID
  ses_Replaced :: SessionID
  ses_Unsupported :: "UnsupportedCapability list"
  ses_UnsupportedReason :: string
  ses_BestEffort :: bool

definition zero_SessionMetadata :: SessionMetadata where
  "zero_SessionMetadata =
     \<lparr>ses_ID = [], ses_RequestedID = [], ses_RequestedAction = SessionActionDefault,
      ses_Relationship = SessionRelationshipNone, ses_Retained = False, ses_Continued = False,
      ses_ForkedFrom = [], ses_Replaced = [], ses_Unsupported = [], ses_UnsupportedReason = [],
      ses_BestEffort = False\<rparr>"

end
