(* ===== verification/Redact.thy ===== *)
theory Redact
  imports Values
begin

text \<open>
  Credential redaction (\<^verbatim>\<open>redact.go\<close>). The three regular expressions are matchers on byte
  strings; \<open>replace_all\<close> is \<open>ReplaceAllString\<close> with leftmost non-overlapping matches. Case
  insensitivity is that of Go's \<open>(?i)\<close>: beside the ASCII letters, the Kelvin sign folds to
  k and the long s folds to s, in patterns and in character classes alike.
\<close>

section \<open>The patterns\<close>

text \<open>One pattern character against the front of the input; the rest on success.\<close>

definition fold_head :: "char \<Rightarrow> string \<Rightarrow> string option" where
  "fold_head p s =
     (case s of
        [] \<Rightarrow> None
      | c # s' \<Rightarrow>
          if lower_char c = p then Some s'
          else if p = CHR ''k'' \<and> prefix [CHR 0xE2, CHR 0x84, CHR 0xAA] s then Some (drop 3 s)
          else if p = CHR ''s'' \<and> prefix [CHR 0xC5, CHR 0xBF] s then Some (drop 2 s)
          else None)"

fun fold_match :: "string \<Rightarrow> string \<Rightarrow> string option" where
  "fold_match [] s = Some s"
| "fold_match (p # ps) s = (case fold_head p s of None \<Rightarrow> None | Some s' \<Rightarrow> fold_match ps s')"

fun first_match :: "string list \<Rightarrow> string \<Rightarrow> string option" where
  "first_match [] s = None"
| "first_match (p # ps) s = (case fold_match p s of None \<Rightarrow> first_match ps s | Some r \<Rightarrow> Some r)"

definition assignment_names :: "string list" where
  "assignment_names =
     [''api_key'', ''api-key'', ''apikey'', ''token'', ''secret'', ''password'', ''authorization'', ''credential'']"

definition secret_names :: "string list" where
  "secret_names = assignment_names @ [''bearer'', ''cookie'', ''set-cookie'']"

text \<open>\<open>secretNamePattern.MatchString\<close>: a match anywhere.\<close>

fun secretName :: "string \<Rightarrow> bool" where
  "secretName [] = (first_match secret_names [] \<noteq> None)"
| "secretName (c # s) = (first_match secret_names (c # s) \<noteq> None \<or> secretName s)"

definition is_space_re :: "char \<Rightarrow> bool" where
  "is_space_re c \<longleftrightarrow> c \<in> {CHR 0x09, CHR 0x0A, CHR 0x0C, CHR 0x0D, CHR 0x20}"

definition is_token_char :: "char \<Rightarrow> bool" where
  "is_token_char c \<longleftrightarrow>
     (let n = (of_char c :: nat)
      in (65 \<le> n \<and> n \<le> 90) \<or> (97 \<le> n \<and> n \<le> 122) \<or> (48 \<le> n \<and> n \<le> 57)) \<or>
     c \<in> set ''._~+/=-''"

text \<open>The longest run of the token class at the front is dropped.\<close>

fun drop_token :: "string \<Rightarrow> string" where
  "drop_token [] = []"
| "drop_token (c # s) =
     (if is_token_char c then drop_token s
      else if prefix [CHR 0xE2, CHR 0x84, CHR 0xAA] (c # s) then drop_token (drop 2 s)
      else if prefix [CHR 0xC5, CHR 0xBF] (c # s) then drop_token (drop 1 s)
      else c # s)"

definition bearer_match :: "string \<Rightarrow> (string \<times> string) option" where
  "bearer_match s =
     (case fold_match ''bearer'' s of
        None \<Rightarrow> None
      | Some r \<Rightarrow>
          (let t = dropWhile is_space_re r; u = drop_token t
           in if t = r \<or> u = t then None else Some (''Bearer [REDACTED]'', u)))"

definition value_delim :: "char \<Rightarrow> bool" where
  "value_delim c \<longleftrightarrow>
     c \<in> {CHR '' '', CHR 0x0A, CHR 0x0D, CHR 0x09, CHR '','', CHR 0x22, CHR 0x27, CHR ''}''}"

definition assignment_match :: "string \<Rightarrow> (string \<times> string) option" where
  "assignment_match s =
     (case first_match assignment_names s of
        None \<Rightarrow> None
      | Some r \<Rightarrow>
          (case r of
             [] \<Rightarrow> None
           | e # v \<Rightarrow>
               (let u = dropWhile (\<lambda>c. \<not> value_delim c) v
                in if e \<noteq> CHR ''='' \<or> u = v then None
                   else Some (take (length s - length r) s @ ''=[REDACTED]'', u))))"

function replace_all :: "(string \<Rightarrow> (string \<times> string) option) \<Rightarrow> string \<Rightarrow> string" where
  "replace_all f [] = []"
| "replace_all f (c # s) =
     (case f (c # s) of
        None \<Rightarrow> c # replace_all f s
      | Some (repl, rest) \<Rightarrow>
          if length rest < length (c # s) then repl @ replace_all f rest
          else c # replace_all f s)"
  by pat_completeness auto
termination
  by (relation "measure (\<lambda>(f, s). length s)") auto

section \<open>The operations\<close>

definition RedactString :: "string \<Rightarrow> string" where
  "RedactString v = replace_all assignment_match (replace_all bearer_match v)"

fun RedactMetadata_entries :: "anymap \<Rightarrow> anymap"
  and redactMetadataValue :: "gval \<Rightarrow> gval"
  and redact_list :: "gval list \<Rightarrow> gval list" where
  "RedactMetadata_entries [] = []"
| "RedactMetadata_entries ((key, v) # kvs) =
     (key, if secretName key then GString ''[REDACTED]'' else redactMetadataValue v)
       # RedactMetadata_entries kvs"
| "redactMetadataValue (GString s) = GString (RedactString s)"
| "redactMetadataValue (GMap m) = GMap (RedactMetadata_entries m)"
| "redactMetadataValue (GList vs) = GList (redact_list vs)"
| "redactMetadataValue v = v"
| "redact_list [] = []"
| "redact_list (v # vs) = redactMetadataValue v # redact_list vs"

definition RedactMetadata :: "anymap option \<Rightarrow> anymap option" where
  "RedactMetadata m = map_option RedactMetadata_entries m"

definition RedactStringMap_entry :: "string \<times> string \<Rightarrow> string \<times> string" where
  "RedactStringMap_entry kv =
     (case kv of (key, v) \<Rightarrow> (key, if secretName key then ''[REDACTED]'' else RedactString v))"

definition RedactStringMap :: "string smap option \<Rightarrow> string smap option" where
  "RedactStringMap m = map_option (map RedactStringMap_entry) m"

definition RedactEnv_item :: "string \<Rightarrow> string" where
  "RedactEnv_item item =
     (case Cut (CHR ''='') item of
        None \<Rightarrow> RedactString item
      | Some (name, v) \<Rightarrow>
          if secretName name then name @ ''=[REDACTED]'' else name @ ''='' @ RedactString v)"

definition RedactEnv :: "string list \<Rightarrow> string list" where
  "RedactEnv env = map RedactEnv_item env"

section \<open>Matches consume input\<close>

lemma fold_head_length: "fold_head p s = Some r \<Longrightarrow> length r < length s"
  by (auto simp: fold_head_def split: list.splits if_splits)

lemma fold_match_length: "fold_match ps s = Some r \<Longrightarrow> length r + length ps \<le> length s"
proof (induction ps arbitrary: s)
  case (Cons p ps)
  then obtain s' where "fold_head p s = Some s'" and "fold_match ps s' = Some r"
    by (auto split: option.splits)
  with Cons.IH [of s'] fold_head_length [of p s s'] show ?case by simp
qed simp

lemma first_match_length:
  "first_match ps s = Some r \<Longrightarrow> \<forall>p \<in> set ps. p \<noteq> [] \<Longrightarrow> length r < length s"
proof (induction ps)
  case (Cons p ps)
  then show ?case
    using fold_match_length [of p s r] by (cases p) (auto split: option.splits)
qed simp

lemma drop_token_length: "length (drop_token s) \<le> length s"
  by (induction s rule: drop_token.induct) auto

lemma bearer_match_length:
  assumes "bearer_match s = Some (p, r)" shows "length r < length s"
proof -
  from assms obtain r1 where m: "fold_match ''bearer'' s = Some r1"
    and r: "r = drop_token (dropWhile is_space_re r1)"
    by (auto simp: bearer_match_def Let_def split: option.splits if_splits)
  from m have "length r1 < length s"
    using fold_match_length [of "''bearer''" s r1] by simp
  moreover have "length r \<le> length r1"
    unfolding r using drop_token_length length_dropWhile_le le_trans by blast
  ultimately show ?thesis by simp
qed

lemma assignment_match_length:
  assumes "assignment_match s = Some (p, r)" shows "length r < length s"
proof -
  from assms obtain e v where m: "first_match assignment_names s = Some (e # v)"
    and r: "r = dropWhile (\<lambda>c. \<not> value_delim c) v"
    by (auto simp: assignment_match_def Let_def split: option.splits list.splits if_splits)
  from m have "length (e # v) < length s"
    by (rule first_match_length) (simp add: assignment_names_def)
  moreover have "length r \<le> length v"
    unfolding r by (rule length_dropWhile_le)
  ultimately show ?thesis by simp
qed

section \<open>Structure of the redacted metadata\<close>

text \<open>
  What redaction promises of a dynamic value: below it, through maps and lists, every
  secret-named key holds the placeholder and every other string went through
  \<open>RedactString\<close>.
\<close>

fun redacted_entries :: "anymap \<Rightarrow> bool"
  and redacted_value :: "gval \<Rightarrow> bool"
  and redacted_list :: "gval list \<Rightarrow> bool" where
  "redacted_entries [] = True"
| "redacted_entries ((key, v) # kvs) =
     ((if secretName key then v = GString ''[REDACTED]'' else redacted_value v) \<and> redacted_entries kvs)"
| "redacted_value (GString s) = (s \<in> range RedactString)"
| "redacted_value (GMap m) = redacted_entries m"
| "redacted_value (GList vs) = redacted_list vs"
| "redacted_value v = True"
| "redacted_list [] = True"
| "redacted_list (v # vs) = (redacted_value v \<and> redacted_list vs)"

lemma redact_establishes:
  "redacted_entries (RedactMetadata_entries m)"
  "redacted_value (redactMetadataValue v)"
  "redacted_list (redact_list vs)"
  by (induction m and v and vs rule: RedactMetadata_entries_redactMetadataValue_redact_list.induct) auto

lemma RedactMetadata_keys: "map fst (RedactMetadata_entries m) = map fst m"
  by (induction m) auto

lemma RedactMetadata_entries_get:
  "aget (RedactMetadata_entries m) k =
     map_option (\<lambda>v. if secretName k then GString ''[REDACTED]'' else redactMetadataValue v) (aget m k)"
  by (induction m) auto

lemma RedactStringMap_get:
  "aget (entries (RedactStringMap m)) k =
     map_option (\<lambda>v. if secretName k then ''[REDACTED]'' else RedactString v) (aget (entries m) k)"
proof (cases m)
  case (Some kvs)
  have "aget (map RedactStringMap_entry kvs) k =
          map_option (\<lambda>v. if secretName k then ''[REDACTED]'' else RedactString v) (aget kvs k)"
    by (induction kvs) (auto simp: RedactStringMap_entry_def)
  with Some show ?thesis by (simp add: RedactStringMap_def)
qed (simp add: RedactStringMap_def)

lemma length_redact_list [simp]: "length (redact_list vs) = length vs"
  by (induction vs) auto

end
