(* ===== verification/Errors.thy ===== *)
theory Errors
  imports Redact
begin

text \<open>
  Classified errors (\<^verbatim>\<open>errors.go\<close>) and the part of Go's \<open>error\<close> interface the program
  uses. An \<open>error\<close> value is a \<open>go_error\<close>: a classified \<open>SDKError\<close>, one of the two context
  sentinels, a plain text, a wrapped error (\<open>fmt.Errorf\<close> with \<open>%w\<close>: its whole text and the
  error it wraps), or the decoder's \<open>decodeError\<close> (which has no \<open>Unwrap\<close>). A nil \<open>error\<close> or a
  nil \<open>*SDKError\<close> is \<open>None\<close>.
\<close>

datatype ErrorCategory =
    ErrorConfiguration | ErrorHealth | ErrorRuntimeUnavailable | ErrorProviderUnavailable
  | ErrorModelUnavailable | ErrorAuthentication | ErrorPermission | ErrorRateLimit | ErrorTimeout
  | ErrorCancellation | ErrorMalformedEvent | ErrorRuntimeExit | ErrorValidation
  | ErrorRepairExhausted | ErrorCleanup | ErrorUnknown
  | ErrorCategoryOther string

abbreviation NoErrorCategory :: ErrorCategory where "NoErrorCategory \<equiv> ErrorCategoryOther ''''"

fun category_string :: "ErrorCategory \<Rightarrow> string" where
  "category_string ErrorConfiguration = ''configuration''"
| "category_string ErrorHealth = ''health''"
| "category_string ErrorRuntimeUnavailable = ''runtime_unavailable''"
| "category_string ErrorProviderUnavailable = ''provider_unavailable''"
| "category_string ErrorModelUnavailable = ''model_unavailable''"
| "category_string ErrorAuthentication = ''authentication''"
| "category_string ErrorPermission = ''permission''"
| "category_string ErrorRateLimit = ''rate_limit''"
| "category_string ErrorTimeout = ''timeout''"
| "category_string ErrorCancellation = ''cancellation''"
| "category_string ErrorMalformedEvent = ''malformed_event''"
| "category_string ErrorRuntimeExit = ''runtime_exit''"
| "category_string ErrorValidation = ''validation''"
| "category_string ErrorRepairExhausted = ''repair_exhausted''"
| "category_string ErrorCleanup = ''cleanup''"
| "category_string ErrorUnknown = ''unknown''"
| "category_string (ErrorCategoryOther s) = s"

datatype SDKError =
  SDKError
    (err_Category: ErrorCategory) (err_Operation: string) (err_UserDetail: string)
    (err_DebugDetail: string) (err_StatusCode: int) (err_ResponseHeaders: "string smap option")
    (err_ResponseBody: string) (err_Provider: ProviderID) (err_Model: ModelID)
    (err_RuntimeKind: RuntimeKind) (err_ExitCode: "int option") (err_Signal: string)
    (err_NativeType: string) (err_RetryAfter: duration) (err_Metadata: "string smap option")
    (err_Cause: "go_error option")
and go_error =
    ESDK SDKError
  | ECanceled
  | EDeadlineExceeded
  | EPlain string
  | EWrap string go_error
  | EDecode int string go_error

section \<open>Error text, unwrapping, errors.As, errors.Is\<close>

definition SDKError_Error :: "SDKError \<Rightarrow> string" where
  "SDKError_Error e =
     (if err_Operation e = '''' then category_string (err_Category e) @ '': '' @ err_UserDetail e
      else if err_UserDetail e = '''' then err_Operation e @ '': '' @ category_string (err_Category e)
      else err_Operation e @ '': '' @ category_string (err_Category e) @ '': '' @ err_UserDetail e)"

definition SDKError_Unwrap :: "SDKError option \<Rightarrow> go_error option" where
  "SDKError_Unwrap e = (case e of None \<Rightarrow> None | Some e' \<Rightarrow> err_Cause e')"

fun error_text :: "go_error \<Rightarrow> string" where
  "error_text (ESDK e) = SDKError_Error e"
| "error_text ECanceled = ''context canceled''"
| "error_text EDeadlineExceeded = ''context deadline exceeded''"
| "error_text (EPlain s) = s"
| "error_text (EWrap s e) = s"
| "error_text (EDecode line raw e) = ''decode opencode event line '' @ itoa line @ '': '' @ error_text e"

text \<open>\<open>ErrorAs\<close>: the first \<open>SDKError\<close> of the chain.\<close>

fun ErrorAs :: "go_error \<Rightarrow> SDKError option" where
  "ErrorAs (ESDK e) = Some e"
| "ErrorAs (EWrap s e) = ErrorAs e"
| "ErrorAs _ = None"

text \<open>\<open>errors.Is\<close> against a sentinel: the chain is followed through \<open>Unwrap\<close>.\<close>

fun errors_Is :: "go_error \<Rightarrow> go_error \<Rightarrow> bool" where
  "errors_Is (ESDK (SDKError c op u d sc rh rb p m rk ec sg nt ra md ca)) t =
     (ESDK (SDKError c op u d sc rh rb p m rk ec sg nt ra md ca) = t
      \<or> (case ca of None \<Rightarrow> False | Some e \<Rightarrow> errors_Is e t))"
| "errors_Is (EWrap s e) t = (EWrap s e = t \<or> errors_Is e t)"
| "errors_Is e t = (e = t)"

section \<open>Construction and options\<close>

type_synonym ErrorOption = "SDKError \<Rightarrow> SDKError"

definition NewError ::
  "ErrorCategory \<Rightarrow> string \<Rightarrow> string \<Rightarrow> go_error option \<Rightarrow> ErrorOption list \<Rightarrow> SDKError" where
  "NewError category operation userDetail cause opts =
     foldl (\<lambda>e opt. opt e)
       (SDKError category operation userDetail [] 0 None [] [] [] [] None [] [] 0 None cause) opts"

definition WithDebugDetail :: "string \<Rightarrow> ErrorOption" where
  "WithDebugDetail detail e =
     (case e of SDKError c op u d sc rh rb p m rk ec sg nt ra md ca \<Rightarrow>
        SDKError c op u detail sc rh rb p m rk ec sg nt ra md ca)"

definition WithStatusCode :: "int \<Rightarrow> ErrorOption" where
  "WithStatusCode status e =
     (case e of SDKError c op u d sc rh rb p m rk ec sg nt ra md ca \<Rightarrow>
        SDKError c op u d status rh rb p m rk ec sg nt ra md ca)"

definition WithResponse :: "string smap option \<Rightarrow> string \<Rightarrow> ErrorOption" where
  "WithResponse headers body e =
     (case e of SDKError c op u d sc rh rb p m rk ec sg nt ra md ca \<Rightarrow>
        SDKError c op u d sc (RedactStringMap headers) (RedactString body) p m rk ec sg nt ra md ca)"

definition WithProviderModel :: "ProviderID \<Rightarrow> ModelID \<Rightarrow> ErrorOption" where
  "WithProviderModel provider model e =
     (case e of SDKError c op u d sc rh rb p m rk ec sg nt ra md ca \<Rightarrow>
        SDKError c op u d sc rh rb provider model rk ec sg nt ra md ca)"

definition WithRuntimeKind :: "RuntimeKind \<Rightarrow> ErrorOption" where
  "WithRuntimeKind kind e =
     (case e of SDKError c op u d sc rh rb p m rk ec sg nt ra md ca \<Rightarrow>
        SDKError c op u d sc rh rb p m kind ec sg nt ra md ca)"

definition WithExitCode :: "int \<Rightarrow> ErrorOption" where
  "WithExitCode exitCode e =
     (case e of SDKError c op u d sc rh rb p m rk ec sg nt ra md ca \<Rightarrow>
        SDKError c op u d sc rh rb p m rk (Some exitCode) sg nt ra md ca)"

definition WithSignal :: "string \<Rightarrow> ErrorOption" where
  "WithSignal signal e =
     (case e of SDKError c op u d sc rh rb p m rk ec sg nt ra md ca \<Rightarrow>
        SDKError c op u d sc rh rb p m rk ec signal nt ra md ca)"

definition WithNativeType :: "string \<Rightarrow> ErrorOption" where
  "WithNativeType nativeType e =
     (case e of SDKError c op u d sc rh rb p m rk ec sg nt ra md ca \<Rightarrow>
        SDKError c op u d sc rh rb p m rk ec sg nativeType ra md ca)"

definition WithRetryAfter :: "duration \<Rightarrow> ErrorOption" where
  "WithRetryAfter delay e =
     (case e of SDKError c op u d sc rh rb p m rk ec sg nt ra md ca \<Rightarrow>
        SDKError c op u d sc rh rb p m rk ec sg nt delay md ca)"

definition WithMetadata :: "string smap option \<Rightarrow> ErrorOption" where
  "WithMetadata metadata e =
     (case e of SDKError c op u d sc rh rb p m rk ec sg nt ra md ca \<Rightarrow>
        SDKError c op u d sc rh rb p m rk ec sg nt ra (RedactStringMap metadata) ca)"

lemmas option_defs =
  WithDebugDetail_def WithStatusCode_def WithResponse_def WithProviderModel_def
  WithRuntimeKind_def WithExitCode_def WithSignal_def WithNativeType_def
  WithRetryAfter_def WithMetadata_def

section \<open>Options leave the classification alone\<close>

definition keeps_class :: "ErrorOption \<Rightarrow> bool" where
  "keeps_class opt \<longleftrightarrow>
     (\<forall>e. err_Category (opt e) = err_Category e \<and> err_Operation (opt e) = err_Operation e
        \<and> err_UserDetail (opt e) = err_UserDetail e \<and> err_Cause (opt e) = err_Cause e)"

lemma keeps_class_options [simp, intro]:
  "keeps_class (WithDebugDetail s)" "keeps_class (WithStatusCode i)" "keeps_class (WithResponse h s)"
  "keeps_class (WithProviderModel s t)" "keeps_class (WithRuntimeKind s)" "keeps_class (WithExitCode i)"
  "keeps_class (WithSignal s)" "keeps_class (WithNativeType s)" "keeps_class (WithRetryAfter i)"
  "keeps_class (WithMetadata m)"
  by (simp_all add: keeps_class_def option_defs split: SDKError.splits)

lemma NewError_class:
  assumes "\<forall>opt \<in> set opts. keeps_class opt"
  shows "err_Category (NewError c op u ca opts) = c"
    and "err_Operation (NewError c op u ca opts) = op"
    and "err_UserDetail (NewError c op u ca opts) = u"
    and "err_Cause (NewError c op u ca opts) = ca"
proof -
  have "err_Category (foldl (\<lambda>e opt. opt e) e opts) = err_Category e
      \<and> err_Operation (foldl (\<lambda>e opt. opt e) e opts) = err_Operation e
      \<and> err_UserDetail (foldl (\<lambda>e opt. opt e) e opts) = err_UserDetail e
      \<and> err_Cause (foldl (\<lambda>e opt. opt e) e opts) = err_Cause e" for e
    using assms by (induction opts arbitrary: e) (auto simp: keeps_class_def)
  then show "err_Category (NewError c op u ca opts) = c"
    and "err_Operation (NewError c op u ca opts) = op"
    and "err_UserDetail (NewError c op u ca opts) = u"
    and "err_Cause (NewError c op u ca opts) = ca"
    by (simp_all add: NewError_def)
qed

lemma NewError_simps [simp]:
  "err_Category (NewError c op u ca []) = c"
  "err_Category (NewError c op u ca [WithDebugDetail d]) = c"
  "err_Category (NewError c op u ca [WithMetadata md]) = c"
  "err_Operation (NewError c op u ca []) = op"
  "err_Operation (NewError c op u ca [WithMetadata md]) = op"
  "err_UserDetail (NewError c op u ca []) = u"
  "err_UserDetail (NewError c op u ca [WithMetadata md]) = u"
  by (simp_all add: NewError_class)

section \<open>Context errors\<close>

text \<open>What \<open>ctx.Err()\<close> returns: nil, \<open>context.Canceled\<close> or \<open>context.DeadlineExceeded\<close>.\<close>

datatype ctx_error = CtxCanceled | CtxDeadlineExceeded

fun ctx_go_error :: "ctx_error \<Rightarrow> go_error" where
  "ctx_go_error CtxCanceled = ECanceled"
| "ctx_go_error CtxDeadlineExceeded = EDeadlineExceeded"

text \<open>\<open>ensureSDKError\<close> of policy.go, used by every wrapper.\<close>

definition ensureSDKError :: "go_error option \<Rightarrow> string \<Rightarrow> SDKError option" where
  "ensureSDKError err operation =
     (case err of
        None \<Rightarrow> None
      | Some e \<Rightarrow>
          (case ErrorAs e of
             Some sdk \<Rightarrow> Some sdk
           | None \<Rightarrow>
               Some (NewError ErrorUnknown operation ''runtime attempt failed'' (Some e)
                      [WithDebugDetail (error_text e)])))"

lemma ensureSDKError_None_iff [simp]: "ensureSDKError err op = None \<longleftrightarrow> err = None"
  by (simp add: ensureSDKError_def split: option.splits)

lemma ensureSDKError_SDK [simp]: "ensureSDKError (Some (ESDK e)) op = Some e"
  by (simp add: ensureSDKError_def)

lemma ensureSDKError_None [simp]: "ensureSDKError None op = None"
  by simp

end
