(* ===== verification/Model.thy ===== *)
theory Model
  imports Errors
begin

text \<open>
  The data model of the SDK (\<^verbatim>\<open>events.go, lifecycle_events.go, runtime.go, metadata.go\<close> and
  the structs of \<^verbatim>\<open>cache.go, policy.go, validation.go, pricing.go\<close> that requests and results
  carry), with the event constructors.

  Function and interface values that a caller stores in a struct (a \<open>Runtime\<close>, a \<open>Validator\<close>,
  the callbacks of \<open>RepairConfig\<close>) are references; the component that calls them takes an
  environment that gives each reference its behaviour. This keeps requests, which can hold
  validators, from containing functions over requests.
\<close>

type_synonym RuntimeRef = nat
type_synonym FuncRef = nat

section \<open>Events (events.go)\<close>

record RawPayload =
  raw_Source :: string
  raw_Encoding :: string
  raw_Data :: string
  raw_Safe :: bool

record Event =
  ev_ID :: EventID
  ev_RunID :: RunID
  ev_SessionID :: SessionID
  ev_Time :: gtime
  ev_Type :: string
  ev_Payload :: "anymap option"
  ev_Raw :: "RawPayload option"

definition EventPayloadWithKind :: "EventKind \<Rightarrow> anymap option \<Rightarrow> anymap" where
  "EventPayloadWithKind kind values = aput ''event_kind'' (GEventKind kind) (entries values)"

definition Kind :: "Event \<Rightarrow> EventKind" where
  "Kind e =
     (case ev_Payload e of
        None \<Rightarrow> NoEventKind
      | Some p \<Rightarrow>
          (case gget p ''event_kind'' of
             GEventKind k \<Rightarrow> k
           | GString s \<Rightarrow> kind_of s
           | _ \<Rightarrow> NoEventKind))"

definition stringPayloadValue :: "gval \<Rightarrow> string" where
  "stringPayloadValue v = (case v of GString s \<Rightarrow> s | _ \<Rightarrow> [])"

record ToolObservation =
  tool_CallID :: string
  tool_Name :: string
  tool_Status :: string
  tool_Arguments :: gval
  tool_Result :: gval
  tool_Error :: gval

definition zero_ToolObservation :: ToolObservation where
  "zero_ToolObservation =
     \<lparr>tool_CallID = [], tool_Name = [], tool_Status = [], tool_Arguments = GNil, tool_Result = GNil,
      tool_Error = GNil\<rparr>"

definition put_if :: "bool \<Rightarrow> string \<Rightarrow> gval \<Rightarrow> anymap \<Rightarrow> anymap" where
  "put_if b k v m = (if b then aput k v m else m)"

definition EventPayloadWithToolObservation :: "anymap option \<Rightarrow> ToolObservation \<Rightarrow> anymap" where
  "EventPayloadWithToolObservation values t =
     (let p0 = entries values;
          p1 = put_if (tool_CallID t \<noteq> []) ''tool_call_id'' (GString (tool_CallID t)) p0;
          p2 = put_if (tool_Name t \<noteq> []) ''tool_name'' (GString (tool_Name t)) p1;
          p3 = put_if (tool_Name t \<noteq> []) ''tool'' (GString (tool_Name t)) p2;
          p4 = put_if (tool_Status t \<noteq> []) ''tool_status'' (GString (tool_Status t)) p3;
          p5 = put_if (tool_Arguments t \<noteq> GNil) ''tool_arguments'' (redactMetadataValue (tool_Arguments t)) p4;
          p6 = put_if (tool_Result t \<noteq> GNil) ''tool_result'' (redactMetadataValue (tool_Result t)) p5
      in put_if (tool_Error t \<noteq> GNil) ''tool_error'' (redactMetadataValue (tool_Error t)) p6)"

definition Event_ToolObservation :: "Event \<Rightarrow> ToolObservation \<times> bool" where
  "Event_ToolObservation e =
     (if Kind e \<noteq> EventTool \<or> ev_Payload e = None then (zero_ToolObservation, False)
      else
        (let p = entries (ev_Payload e);
             name0 = stringPayloadValue (gget p ''tool_name'');
             t = \<lparr>tool_CallID = stringPayloadValue (gget p ''tool_call_id''),
                  tool_Name = (if name0 = [] then stringPayloadValue (gget p ''tool'') else name0),
                  tool_Status = stringPayloadValue (gget p ''tool_status''),
                  tool_Arguments = gget p ''tool_arguments'',
                  tool_Result = gget p ''tool_result'',
                  tool_Error = gget p ''tool_error''\<rparr>
         in (t, tool_CallID t \<noteq> [] \<or> tool_Name t \<noteq> [] \<or> tool_Arguments t \<noteq> GNil
                \<or> tool_Result t \<noteq> GNil \<or> tool_Error t \<noteq> GNil)))"

section \<open>Lifecycle events (lifecycle_events.go)\<close>

text \<open>
  \<open>itoa64\<close> fills a 20-byte buffer from its end: \<open>itoa64_loop\<close> carries the bytes written so
  far. A negative argument never enters the loop.
\<close>

fun itoa64_loop :: "nat \<Rightarrow> string \<Rightarrow> string" where
  "itoa64_loop v buf = (if v > 0 then itoa64_loop (v div 10) (digit_char (v mod 10) # buf) else buf)"

declare itoa64_loop.simps [simp del]

definition itoa64 :: "int \<Rightarrow> string" where
  "itoa64 v = (if v = 0 then ''0'' else itoa64_loop (nat v) [])"

definition LifecycleEvent ::
  "RunID \<Rightarrow> SessionID \<Rightarrow> TurnID \<Rightarrow> RuntimeContext \<Rightarrow> int \<Rightarrow> gtime \<Rightarrow> RunStatus \<Rightarrow> RunStatus \<Rightarrow> string \<Rightarrow> Event"
  where
  "LifecycleEvent runID sessionID turnID rctx sq tm fromS toS reason =
     \<lparr>ev_ID = runID @ ''-lifecycle-'' @ itoa64 sq,
      ev_RunID = runID,
      ev_SessionID = sessionID,
      ev_Time = tm,
      ev_Type = ''lifecycle.transition'',
      ev_Payload = Some (EventPayloadWithKind EventLifecycle
        (Some [(''from'', GString (status_string fromS)), (''to'', GString (status_string toS)),
               (''reason'', GString reason), (''turn_id'', GString turnID)])),
      ev_Raw = None\<rparr>"

definition SessionEvent ::
  "RunID \<Rightarrow> SessionID \<Rightarrow> TurnID \<Rightarrow> RuntimeContext \<Rightarrow> int \<Rightarrow> gtime \<Rightarrow> SessionMetadata \<Rightarrow> Event" where
  "SessionEvent runID sessionID turnID rctx sq tm metadata =
     \<lparr>ev_ID = runID @ ''-session-'' @ itoa64 sq,
      ev_RunID = runID,
      ev_SessionID = sessionID,
      ev_Time = tm,
      ev_Type = ''session.relationship'',
      ev_Payload = Some (EventPayloadWithKind EventSession
        (Some [(''requested_action'', GString (action_string (ses_RequestedAction metadata))),
               (''relationship'', GString (relationship_string (ses_Relationship metadata))),
               (''requested_id'', GString (ses_RequestedID metadata)),
               (''session_id'', GString (ses_ID metadata)),
               (''unsupported'', GString (ses_UnsupportedReason metadata)),
               (''best_effort'', GBool (ses_BestEffort metadata)),
               (''turn_id'', GString turnID)])),
      ev_Raw = None\<rparr>"

section \<open>Requests (runtime.go, cache.go, validation.go)\<close>

record PromptCacheDirective =
  pc_Key :: string
  pc_BreakpointBytes :: int
  pc_PrefixSHA256 :: string
  pc_Mode :: string
  pc_RequireNative :: bool

definition zero_PromptCacheDirective :: PromptCacheDirective where
  "zero_PromptCacheDirective =
     \<lparr>pc_Key = [], pc_BreakpointBytes = 0, pc_PrefixSHA256 = [], pc_Mode = [], pc_RequireNative = False\<rparr>"

definition Enabled :: "PromptCacheDirective \<Rightarrow> bool" where
  "Enabled d \<longleftrightarrow>
     pc_Key d \<noteq> [] \<or> pc_BreakpointBytes d \<noteq> 0 \<or> pc_PrefixSHA256 d \<noteq> [] \<or> pc_Mode d \<noteq> []
     \<or> pc_RequireNative d"

datatype ExpectationKind =
    ExpectationFile | ExpectationDirectory | ExpectationArtifact | ExpectationMarkdownTemplate
  | ExpectationJSON | ExpectationMetadata | ExpectationCustom
  | ExpectationKindOther string

fun expectation_kind_string :: "ExpectationKind \<Rightarrow> string" where
  "expectation_kind_string ExpectationFile = ''file''"
| "expectation_kind_string ExpectationDirectory = ''directory''"
| "expectation_kind_string ExpectationArtifact = ''artifact''"
| "expectation_kind_string ExpectationMarkdownTemplate = ''markdown_template''"
| "expectation_kind_string ExpectationJSON = ''json''"
| "expectation_kind_string ExpectationMetadata = ''metadata''"
| "expectation_kind_string ExpectationCustom = ''custom''"
| "expectation_kind_string (ExpectationKindOther s) = s"

abbreviation NoExpectationKind :: ExpectationKind where "NoExpectationKind \<equiv> ExpectationKindOther ''''"

datatype ExpectationSeverity =
    ExpectationRequired | ExpectationOptional | ExpectationSeverityOther string

abbreviation NoSeverity :: ExpectationSeverity where "NoSeverity \<equiv> ExpectationSeverityOther ''''"

record ValidationExpectation =
  exp_ID :: string
  exp_Kind :: ExpectationKind
  exp_Severity :: ExpectationSeverity
  exp_Path :: string
  exp_ArtifactID :: ArtifactID
  exp_ArtifactURI :: string
  exp_TemplatePath :: string
  exp_MetadataKey :: string
  exp_RequiredFields :: "string list"
  exp_RepairHint :: string

record RepairConfig =
  rep_MaxAttempts :: int
  rep_SessionAction :: SessionAction
  rep_AllowFreshSessionFallback :: bool
  rep_FreshSessionFallbackOnError :: bool
  rep_ShouldRepair :: "FuncRef option"
  rep_BuildPrompt :: "FuncRef option"
  rep_OverrideRequest :: "FuncRef option"

record ValidationSpec =
  spec_Expectations :: "ValidationExpectation list"
  spec_Validators :: "FuncRef option list"
  spec_Repair :: RepairConfig

record ModelsRequest =
  mq_Provider :: ProviderID
  mq_WorkDir :: string

record ModelInfo =
  mi_Provider :: ProviderID
  mi_ID :: ModelID
  mi_Name :: string

record RunRequest =
  req_Prompt :: string
  req_WorkDir :: string
  req_SessionID :: SessionID
  req_TurnID :: TurnID
  req_Provider :: ProviderID
  req_Model :: ModelID
  req_Permissions :: PermissionMode
  req_PermissionPolicy :: "PermissionPolicy option"
  req_Sandbox :: SandboxMode
  req_Timeout :: duration
  req_Metadata :: "string smap option"
  req_WantSession :: bool
  req_SessionAction :: SessionAction
  req_RequireCaps :: "Capability list option"
  req_RequireHealth :: "HealthCheckID list option"
  req_Validation :: "ValidationSpec option"
  req_PromptCache :: PromptCacheDirective

definition zero_RunRequest :: RunRequest where
  "zero_RunRequest =
     \<lparr>req_Prompt = [], req_WorkDir = [], req_SessionID = [], req_TurnID = [], req_Provider = [],
      req_Model = [], req_Permissions = [], req_PermissionPolicy = None, req_Sandbox = [],
      req_Timeout = 0, req_Metadata = None, req_WantSession = False,
      req_SessionAction = SessionActionDefault, req_RequireCaps = None, req_RequireHealth = None,
      req_Validation = None, req_PromptCache = zero_PromptCacheDirective\<rparr>"

section \<open>Validation outcomes (validation.go)\<close>

record ValidationCheck =
  chk_ExpectationID :: string
  chk_Kind :: ExpectationKind
  chk_Severity :: ExpectationSeverity
  chk_Passed :: bool
  chk_Skipped :: bool
  chk_Expected :: string
  chk_Observed :: string
  chk_Detail :: string
  chk_RepairHint :: string

record ValidationFailure =
  vf_ExpectationID :: string
  vf_Kind :: ExpectationKind
  vf_Severity :: ExpectationSeverity
  vf_Expected :: string
  vf_Observed :: string
  vf_Detail :: string
  vf_RepairHint :: string

record ValidationResult =
  vr_Passed :: bool
  vr_Skipped :: bool
  vr_PassedCount :: int
  vr_FailedCount :: int
  vr_SkippedCount :: int
  vr_Checks :: "ValidationCheck list"
  vr_Failures :: "ValidationFailure list"
  vr_Errors :: "SDKError list"
  vr_Native :: "anymap option"

definition zero_ValidationResult :: ValidationResult where
  "zero_ValidationResult =
     \<lparr>vr_Passed = False, vr_Skipped = False, vr_PassedCount = 0, vr_FailedCount = 0,
      vr_SkippedCount = 0, vr_Checks = [], vr_Failures = [], vr_Errors = [], vr_Native = None\<rparr>"

section \<open>Metadata (metadata.go)\<close>

record PromptCacheMetadata =
  pcm_Requested :: bool
  pcm_KeySHA256 :: string
  pcm_PrefixSHA256 :: string
  pcm_BreakpointBytes :: int
  pcm_Mode :: string
  pcm_Transport :: string
  pcm_ProviderManaged :: bool
  pcm_NativeRoutingKeyApplied :: bool
  pcm_NativeBreakpointApplied :: bool
  pcm_PromptBytesPreserved :: bool
  pcm_Detail :: string

record AttemptRequest =
  ar_WorkDir :: string
  ar_SessionID :: SessionID
  ar_Provider :: ProviderID
  ar_Model :: ModelID
  ar_Permissions :: PermissionMode
  ar_Sandbox :: SandboxMode
  ar_Timeout :: duration
  ar_WantSession :: bool
  ar_SessionAction :: SessionAction
  ar_RequireCaps :: "Capability list"
  ar_RequireHealth :: "HealthCheckID list"
  ar_MetadataKeys :: "string list"
  ar_PromptCache :: bool

record AttemptSummary =
  at_Attempt :: int
  at_AttemptOnTarget :: int
  at_TargetIndex :: int
  at_RunID :: RunID
  at_ParentRunID :: RunID
  at_Context :: RuntimeContext
  at_Request :: AttemptRequest
  at_Status :: RunStatus
  at_StartedAt :: gtime
  at_FinishedAt :: gtime
  at_Duration :: duration
  at_Session :: SessionMetadata
  at_ErrorCategory :: ErrorCategory
  at_Error :: "SDKError option"
  at_RateLimit :: "RateLimitInfo option"
  at_PolicyDecisionReason :: string
  at_NativeMetadata :: "anymap option"

record PolicyDecisionRecord =
  pd_Attempt :: int
  pd_TargetIndex :: int
  pd_Kind :: PolicyDecisionKind
  pd_Reason :: string
  pd_Detail :: string
  pd_Delay :: duration
  pd_Context :: RuntimeContext
  pd_RateLimit :: "RateLimitInfo option"
  pd_Metadata :: "anymap option"

record PolicyDroppedEvent =
  de_Kind :: EventKind
  de_Type :: string
  de_RunID :: RunID
  de_At :: gtime

record PolicyMetadata =
  pol_LogicalRunID :: RunID
  pol_FinalAttempt :: int
  pol_FinalTargetIndex :: int
  pol_Exhausted :: bool
  pol_ExhaustedReason :: string
  pol_Decisions :: "PolicyDecisionRecord list"
  pol_DroppedEvents :: "PolicyDroppedEvent list"

record CleanupMetadata =
  cl_Attempted :: bool
  cl_Completed :: bool
  cl_Failed :: bool
  cl_Error :: "SDKError option"

record ValidationMetadata =
  vm_Configured :: bool
  vm_Final :: ValidationResult
  vm_History :: "ValidationResult list"

record RepairAttemptSummary =
  ra_Attempt :: int
  ra_RunID :: RunID
  ra_ParentRunID :: RunID
  ra_Request :: AttemptRequest
  ra_Status :: RunStatus
  ra_StartedAt :: gtime
  ra_FinishedAt :: gtime
  ra_Duration :: duration
  ra_Session :: SessionMetadata
  ra_Permissions :: PermissionMetadata
  ra_Validation :: ValidationResult
  ra_ErrorCategory :: ErrorCategory
  ra_Error :: "SDKError option"
  ra_UnsupportedSession :: bool
  ra_PermissionPolicyID :: string
  ra_PolicyDecisionReason :: string

record RepairMetadata =
  rm_Configured :: bool
  rm_Attempted :: bool
  rm_MaxAttempts :: int
  rm_Attempts :: "RepairAttemptSummary list"
  rm_Exhausted :: bool
  rm_ExhaustedReason :: string
  rm_PermissionPolicyID :: string
  rm_PermissionDenied :: bool
  rm_UnsupportedSameSession :: bool

record CostEstimate =
  cost_Amount :: rat
  cost_Currency :: string
  cost_Estimate :: bool

datatype CostSource =
    CostSourceProviderReported | CostSourceModelPriced | CostSourceUnpriced | CostSourceOther string

record RunMetadata =
  md_Context :: RuntimeContext
  md_ParentRunID :: RunID
  md_Attempt :: int
  md_Attempts :: "AttemptSummary list"
  md_Policy :: PolicyMetadata
  md_Status :: RunStatus
  md_StartedAt :: gtime
  md_FinishedAt :: gtime
  md_Duration :: duration
  md_Session :: SessionMetadata
  md_Permissions :: PermissionMetadata
  md_Cleanup :: CleanupMetadata
  md_Validation :: ValidationMetadata
  md_Repair :: RepairMetadata
  md_PromptCache :: PromptCacheMetadata
  md_Artifacts :: "ArtifactRef list"
  md_Warnings :: "string list"
  md_Errors :: "SDKError list"
  md_Usage :: Usage
  md_EstimatedCost :: "CostEstimate option"
  md_CostSource :: CostSource
  md_ThroughputTPS :: "rat option"
  md_NativeMetadata :: "anymap option"

definition zero_PolicyMetadata :: PolicyMetadata where
  "zero_PolicyMetadata =
     \<lparr>pol_LogicalRunID = [], pol_FinalAttempt = 0, pol_FinalTargetIndex = 0, pol_Exhausted = False,
      pol_ExhaustedReason = [], pol_Decisions = [], pol_DroppedEvents = []\<rparr>"

definition zero_CleanupMetadata :: CleanupMetadata where
  "zero_CleanupMetadata = \<lparr>cl_Attempted = False, cl_Completed = False, cl_Failed = False, cl_Error = None\<rparr>"

definition zero_ValidationMetadata :: ValidationMetadata where
  "zero_ValidationMetadata =
     \<lparr>vm_Configured = False, vm_Final = zero_ValidationResult, vm_History = []\<rparr>"

definition zero_RepairMetadata :: RepairMetadata where
  "zero_RepairMetadata =
     \<lparr>rm_Configured = False, rm_Attempted = False, rm_MaxAttempts = 0, rm_Attempts = [],
      rm_Exhausted = False, rm_ExhaustedReason = [], rm_PermissionPolicyID = [],
      rm_PermissionDenied = False, rm_UnsupportedSameSession = False\<rparr>"

definition zero_PromptCacheMetadata :: PromptCacheMetadata where
  "zero_PromptCacheMetadata =
     \<lparr>pcm_Requested = False, pcm_KeySHA256 = [], pcm_PrefixSHA256 = [], pcm_BreakpointBytes = 0,
      pcm_Mode = [], pcm_Transport = [], pcm_ProviderManaged = False,
      pcm_NativeRoutingKeyApplied = False, pcm_NativeBreakpointApplied = False,
      pcm_PromptBytesPreserved = False, pcm_Detail = []\<rparr>"

definition zero_RunMetadata :: RunMetadata where
  "zero_RunMetadata =
     \<lparr>md_Context = zero_RuntimeContext, md_ParentRunID = [], md_Attempt = 0, md_Attempts = [],
      md_Policy = zero_PolicyMetadata, md_Status = NoStatus, md_StartedAt = 0, md_FinishedAt = 0,
      md_Duration = 0, md_Session = zero_SessionMetadata, md_Permissions = zero_PermissionMetadata,
      md_Cleanup = zero_CleanupMetadata, md_Validation = zero_ValidationMetadata,
      md_Repair = zero_RepairMetadata, md_PromptCache = zero_PromptCacheMetadata, md_Artifacts = [],
      md_Warnings = [], md_Errors = [], md_Usage = zero_Usage, md_EstimatedCost = None,
      md_CostSource = CostSourceOther [], md_ThroughputTPS = None, md_NativeMetadata = None\<rparr>"

section \<open>Results (runtime.go)\<close>

record RunResult =
  res_RunID :: RunID
  res_SessionID :: SessionID
  res_TurnID :: TurnID
  res_Status :: RunStatus
  res_TerminalOutput :: string
  res_Metadata :: RunMetadata
  res_Artifacts :: "ArtifactRef list"
  res_Warnings :: "string list"
  res_Usage :: Usage
  res_StartedAt :: gtime
  res_FinishedAt :: gtime
  res_Err :: "SDKError option"

definition zero_RunResult :: RunResult where
  "zero_RunResult =
     \<lparr>res_RunID = [], res_SessionID = [], res_TurnID = [], res_Status = NoStatus,
      res_TerminalOutput = [], res_Metadata = zero_RunMetadata, res_Artifacts = [],
      res_Warnings = [], res_Usage = zero_Usage, res_StartedAt = 0, res_FinishedAt = 0,
      res_Err = None\<rparr>"

text \<open>
  What a wrapper sees of one run of a wrapped runtime: \<open>StartRun\<close> fails, or the run handle
  has an identity, emits events until its channel closes and \<open>Wait\<close> returns a result with
  an error. This is the \<open>Runtime\<close>/\<open>Run\<close> interface of runtime.go seen from outside.
\<close>

record run_outcome =
  out_ID :: RunID
  out_Events :: "Event list"
  out_Result :: RunResult
  out_WaitErr :: "go_error option"

type_synonym start_outcome = "go_error + run_outcome"

section \<open>Helpers shared by the wrappers (policy.go)\<close>

definition firstTime :: "gtime \<Rightarrow> gtime \<Rightarrow> gtime" where
  "firstTime primary fallback = (if \<not> time_IsZero primary then primary else fallback)"

definition cloneStringMap :: "string smap option \<Rightarrow> string smap option" where
  "cloneStringMap values = (case values of None \<Rightarrow> None | Some kvs \<Rightarrow> Some (map (\<lambda>(k, v). (k, v)) kvs))"

definition cloneAnyMap :: "anymap option \<Rightarrow> anymap option" where
  "cloneAnyMap values = (case values of None \<Rightarrow> None | Some kvs \<Rightarrow> Some (map (\<lambda>(k, v). (k, v)) kvs))"

lemma cloneStringMap_id [simp]: "cloneStringMap m = m"
  by (simp add: cloneStringMap_def split: option.splits)

lemma cloneAnyMap_id [simp]: "cloneAnyMap m = m"
  by (simp add: cloneAnyMap_def split: option.splits)

section \<open>Facts about events\<close>

lemma Kind_EventPayloadWithKind [simp]:
  "ev_Payload e = Some (EventPayloadWithKind k vs) \<Longrightarrow> Kind e = k"
  by (simp add: Kind_def EventPayloadWithKind_def)

lemma EventPayloadWithKind_get:
  "aget (EventPayloadWithKind k vs) key =
     (if key = ''event_kind'' then Some (GEventKind k) else aget (entries vs) key)"
  by (simp add: EventPayloadWithKind_def)

lemma itoa64_loop_digits: "itoa64_loop v buf = (if v = 0 then buf else nat_digits v @ buf)"
proof (induction v buf rule: itoa64_loop.induct)
  case (1 v buf)
  show ?case
  proof (cases "v > 0")
    case True
    with 1 have "itoa64_loop (v div 10) (digit_char (v mod 10) # buf) =
        (if v div 10 = 0 then digit_char (v mod 10) # buf
         else nat_digits (v div 10) @ digit_char (v mod 10) # buf)"
      by simp
    with True show ?thesis
      by (subst itoa64_loop.simps, subst nat_digits.simps) auto
  next
    case False
    then show ?thesis by (subst itoa64_loop.simps) simp
  qed
qed

lemma length_nat_digits_bound: "n < 10 ^ k \<Longrightarrow> 0 < k \<Longrightarrow> length (nat_digits n) \<le> k"
proof (induction k arbitrary: n)
  case (Suc k)
  show ?case
  proof (cases "n < 10")
    case True
    then show ?thesis by (subst nat_digits.simps) simp
  next
    case False
    with Suc.prems have "n div 10 < 10 ^ k" and "0 < k"
      by (auto simp: less_mult_imp_div_less mult.commute intro: gr0I)
    then have "length (nat_digits (n div 10)) \<le> k" by (rule Suc.IH)
    with False show ?thesis by (subst nat_digits.simps) simp
  qed
qed simp

end
