(* ===== verification/Policy.thy ===== *)
theory Policy
  imports Model "HOL-Library.List_Lexorder" "HOL-Library.Char_ord"
begin

text \<open>
  Resilience policies (\<^verbatim>\<open>policy.go\<close>, first half): the policy context and decision, the
  built-in \<open>BasicPolicy\<close>, and the pure helpers that build the next request and summarise an
  attempt. The interface \<open>ResiliencePolicy\<close> appears as the locale \<open>bounded_policy\<close> at the end,
  with \<open>BasicPolicy\<close> as its interpretation.
\<close>

section \<open>Data\<close>

record FallbackAlternative =
  fa_Name :: string
  fa_Runtime :: "RuntimeRef option"
  fa_Request :: RunRequest
  fa_Context :: RuntimeContext
  fa_Metadata :: "anymap option"

definition zero_FallbackAlternative :: FallbackAlternative where
  "zero_FallbackAlternative =
     \<lparr>fa_Name = [], fa_Runtime = None, fa_Request = zero_RunRequest, fa_Context = zero_RuntimeContext,
      fa_Metadata = None\<rparr>"

record PolicyContext =
  pctx_OriginalRequest :: RunRequest
  pctx_CurrentRequest :: RunRequest
  pctx_Attempt :: int
  pctx_AttemptOnTarget :: int
  pctx_TargetIndex :: int
  pctx_Target :: FallbackAlternative
  pctx_Alternatives :: "FallbackAlternative list"
  pctx_PriorAttempts :: "AttemptSummary list"
  pctx_CurrentResult :: RunResult
  pctx_Err :: "SDKError option"
  pctx_RateLimit :: "RateLimitInfo option"
  pctx_Validation :: "ValidationResult option"
  pctx_StartedAt :: gtime
  pctx_Elapsed :: duration
  pctx_Metadata :: "string smap option"

record PolicyDecision =
  dec_Kind :: PolicyDecisionKind
  dec_Reason :: string
  dec_Detail :: string
  dec_Delay :: duration
  dec_TargetIndex :: int
  dec_Target :: "FallbackAlternative option"
  dec_Request :: "RunRequest option"
  dec_SessionAction :: SessionAction
  dec_RateLimit :: "RateLimitInfo option"
  dec_Metadata :: "anymap option"
  dec_Err :: "SDKError option"

definition zero_PolicyDecision :: PolicyDecision where
  "zero_PolicyDecision =
     \<lparr>dec_Kind = NoDecisionKind, dec_Reason = [], dec_Detail = [], dec_Delay = 0, dec_TargetIndex = 0,
      dec_Target = None, dec_Request = None, dec_SessionAction = SessionActionDefault,
      dec_RateLimit = None, dec_Metadata = None, dec_Err = None\<rparr>"

record BasicPolicy =
  bp_MaxAttemptsPerTarget :: int
  bp_MaxElapsed :: duration
  bp_Backoff :: "(PolicyContext \<Rightarrow> duration) option"
  bp_RetryRateLimits :: bool
  bp_Fallbacks :: "FallbackAlternative list"
  bp_ShouldRetry :: "(PolicyContext \<Rightarrow> bool) option"
  bp_ShouldFallback :: "(PolicyContext \<Rightarrow> bool) option"

text \<open>\<open>BasicPolicy{}\<close>, the policy a runner without one uses.\<close>

definition zero_BasicPolicy :: BasicPolicy where
  "zero_BasicPolicy =
     \<lparr>bp_MaxAttemptsPerTarget = 0, bp_MaxElapsed = 0, bp_Backoff = None, bp_RetryRateLimits = False,
      bp_Fallbacks = [], bp_ShouldRetry = None, bp_ShouldFallback = None\<rparr>"

section \<open>Backoff\<close>

definition FixedBackoff_Delay :: "duration \<Rightarrow> PolicyContext \<Rightarrow> duration" where
  "FixedBackoff_Delay delayValue pctx = delayValue"

text \<open>
  \<open>ExponentialBackoff\<close> works on \<open>float64\<close>. The operations it needs (conversion from and to
  \<open>int64\<close>, multiplication, comparison with 1) are parameters, because Go leaves the conversion
  of an out-of-range \<open>float64\<close> to the implementation.
\<close>

record 'f float_ops =
  f_of_int :: "int \<Rightarrow> 'f"
  f_mul :: "'f \<Rightarrow> 'f \<Rightarrow> 'f"
  f_less :: "'f \<Rightarrow> 'f \<Rightarrow> bool"
  f_to_int :: "'f \<Rightarrow> int"

fun exp_loop :: "'f float_ops \<Rightarrow> 'f \<Rightarrow> nat \<Rightarrow> 'f \<Rightarrow> 'f" where
  "exp_loop ops factor 0 delay = delay"
| "exp_loop ops factor (Suc n) delay = exp_loop ops factor n (f_mul ops delay factor)"

definition ExponentialBackoff_Delay ::
  "'f float_ops \<Rightarrow> duration \<Rightarrow> 'f \<Rightarrow> duration \<Rightarrow> PolicyContext \<Rightarrow> duration" where
  "ExponentialBackoff_Delay ops initial factor0 maxd pctx =
     (if initial \<le> 0 then 0
      else
        (let factor = (if f_less ops factor0 (f_of_int ops 1) then f_of_int ops 1 else factor0);
             result = f_to_int ops
               (exp_loop ops factor (nat (pctx_AttemptOnTarget pctx - 1)) (f_of_int ops initial))
         in if maxd > 0 \<and> result > maxd then maxd else result))"

section \<open>Classification of failures\<close>

definition defaultRetryable :: "PolicyContext \<Rightarrow> bool" where
  "defaultRetryable pctx =
     (case pctx_Err pctx of
        None \<Rightarrow> False
      | Some err \<Rightarrow>
          (case err_Category err of
             ErrorTimeout \<Rightarrow> True | ErrorRuntimeExit \<Rightarrow> True | ErrorRuntimeUnavailable \<Rightarrow> True
           | ErrorProviderUnavailable \<Rightarrow> True | ErrorModelUnavailable \<Rightarrow> True
           | ErrorMalformedEvent \<Rightarrow> True
           | ErrorRateLimit \<Rightarrow>
               pctx_RateLimit pctx \<noteq> None \<or> err_RetryAfter err > 0 \<or> err_StatusCode err = 429
               \<or> err_StatusCode err = 503
           | _ \<Rightarrow> False))"

definition defaultFallbackable :: "PolicyContext \<Rightarrow> bool" where
  "defaultFallbackable pctx =
     (case pctx_Err pctx of
        None \<Rightarrow> False
      | Some err \<Rightarrow>
          (case err_Category err of
             ErrorAuthentication \<Rightarrow> False | ErrorPermission \<Rightarrow> False | ErrorConfiguration \<Rightarrow> False
           | ErrorCancellation \<Rightarrow> False
           | ErrorRateLimit \<Rightarrow> True | ErrorTimeout \<Rightarrow> True | ErrorRuntimeExit \<Rightarrow> True
           | ErrorRuntimeUnavailable \<Rightarrow> True | ErrorProviderUnavailable \<Rightarrow> True
           | ErrorModelUnavailable \<Rightarrow> True | ErrorMalformedEvent \<Rightarrow> True | ErrorValidation \<Rightarrow> True
           | ErrorUnknown \<Rightarrow> True
           | _ \<Rightarrow> False))"

definition bp_shouldRetry :: "BasicPolicy \<Rightarrow> PolicyContext \<Rightarrow> bool" where
  "bp_shouldRetry p pctx = (case bp_ShouldRetry p of Some f \<Rightarrow> f pctx | None \<Rightarrow> defaultRetryable pctx)"

definition bp_shouldFallback :: "BasicPolicy \<Rightarrow> PolicyContext \<Rightarrow> bool" where
  "bp_shouldFallback p pctx =
     (case bp_ShouldFallback p of Some f \<Rightarrow> f pctx | None \<Rightarrow> defaultFallbackable pctx)"

definition bp_canRetry :: "BasicPolicy \<Rightarrow> PolicyContext \<Rightarrow> bool" where
  "bp_canRetry p pctx =
     (let m = bp_MaxAttemptsPerTarget p in if m \<le> 0 then False else pctx_AttemptOnTarget pctx < m)"

text \<open>The alternatives in force: the policy's own, or those of the run.\<close>

definition bp_fallbacks :: "BasicPolicy \<Rightarrow> PolicyContext \<Rightarrow> FallbackAlternative list" where
  "bp_fallbacks p pctx = (if bp_Fallbacks p = [] then pctx_Alternatives pctx else bp_Fallbacks p)"

definition bp_hasFallback :: "BasicPolicy \<Rightarrow> PolicyContext \<Rightarrow> bool" where
  "bp_hasFallback p pctx \<longleftrightarrow> pctx_TargetIndex pctx + 1 < int (length (bp_fallbacks p pctx)) + 1"

definition bp_delay :: "BasicPolicy \<Rightarrow> gtime \<Rightarrow> PolicyContext \<Rightarrow> duration" where
  "bp_delay p now pctx =
     (let backoff = (case bp_Backoff p of None \<Rightarrow> 0 | Some f \<Rightarrow> f pctx)
      in case pctx_RateLimit pctx of
           None \<Rightarrow> backoff
         | Some rl \<Rightarrow>
             if rl_RetryAfter rl > 0 then rl_RetryAfter rl
             else if \<not> time_IsZero (rl_ResetAt rl) \<and> time_sub (rl_ResetAt rl) now > 0
             then time_sub (rl_ResetAt rl) now
             else backoff)"

definition safeErrDetail :: "SDKError option \<Rightarrow> string" where
  "safeErrDetail err = (case err of None \<Rightarrow> [] | Some e \<Rightarrow> if err_UserDetail e \<noteq> [] then err_UserDetail e else [])"

section \<open>Context errors of the policy runner\<close>

definition contextPolicyError :: "go_error option \<Rightarrow> SDKError option" where
  "contextPolicyError err =
     (case err of
        None \<Rightarrow> None
      | Some e \<Rightarrow>
          Some (NewError (if e = EDeadlineExceeded then ErrorTimeout else ErrorCancellation)
                  ''policy runner'' ''policy run stopped'' (Some e) []))"

lemma contextPolicyError_None_iff [simp]: "contextPolicyError err = None \<longleftrightarrow> err = None"
  by (simp add: contextPolicyError_def split: option.splits)

section \<open>BasicPolicy.Decide\<close>

text \<open>
  A fallback reads the alternative at index \<open>next - 1\<close>; the guard bounds it from above only,
  and a negative target index would make the Go code panic. \<open>None\<close> is that panic.
\<close>

definition bp_fallbackOrStop :: "BasicPolicy \<Rightarrow> PolicyContext \<Rightarrow> string \<Rightarrow> PolicyDecision option" where
  "bp_fallbackOrStop p pctx reason =
     (let fallbacks = bp_fallbacks p pctx;
          nxt = pctx_TargetIndex pctx + 1;
          stop = zero_PolicyDecision\<lparr>dec_Kind := PolicyDecisionStop, dec_Reason := reason,
                   dec_Detail := safeErrDetail (pctx_Err pctx), dec_Err := pctx_Err pctx\<rparr>
      in case pctx_Err pctx of
           None \<Rightarrow> Some stop
         | Some err \<Rightarrow>
             if bp_shouldFallback p pctx \<and> nxt < int (length fallbacks) + 1
             then
               (if nxt - 1 < 0 then None
                else
                  (let target = fallbacks ! nat (nxt - 1)
                   in Some (zero_PolicyDecision\<lparr>dec_Kind := PolicyDecisionFallback,
                        dec_Reason := reason, dec_Detail := err_UserDetail err,
                        dec_TargetIndex := nxt, dec_Target := Some target,
                        dec_SessionAction := req_SessionAction (fa_Request target),
                        dec_RateLimit := pctx_RateLimit pctx\<rparr>)))
             else Some stop)"

definition bp_Decide ::
  "BasicPolicy \<Rightarrow> ctx_error option \<Rightarrow> gtime \<Rightarrow> PolicyContext \<Rightarrow> PolicyDecision option" where
  "bp_Decide p ctxErr now pctx =
     (case ctxErr of
        Some ce \<Rightarrow>
          Some (zero_PolicyDecision\<lparr>dec_Kind := PolicyDecisionStop,
                  dec_Err := contextPolicyError (Some (ctx_go_error ce))\<rparr>)
      | None \<Rightarrow>
          (case pctx_Err pctx of
             None \<Rightarrow> Some (zero_PolicyDecision\<lparr>dec_Kind := PolicyDecisionStop,
                             dec_Reason := ''attempt completed''\<rparr>)
           | Some err \<Rightarrow>
               if bp_MaxElapsed p > 0 \<and> pctx_Elapsed pctx \<ge> bp_MaxElapsed p
               then Some (zero_PolicyDecision\<lparr>dec_Kind := PolicyDecisionStop,
                            dec_Reason := ''max elapsed time exhausted'', dec_Err := pctx_Err pctx\<rparr>)
               else if err_Category err = ErrorRateLimit \<and> \<not> bp_RetryRateLimits p
               then bp_fallbackOrStop p pctx ''rate limit retry disabled''
               else if err_Category err = ErrorRuntimeExit \<and> bp_hasFallback p pctx
                       \<and> bp_shouldFallback p pctx
               then bp_fallbackOrStop p pctx ''runtime exit''
               else if bp_shouldRetry p pctx \<and> bp_canRetry p pctx
               then Some (zero_PolicyDecision\<lparr>dec_Kind := PolicyDecisionRetry,
                            dec_Reason := (if err_Category err = ErrorRateLimit then ''rate limit''
                                           else ''retryable failure''),
                            dec_Detail := err_UserDetail err,
                            dec_Delay := bp_delay p now pctx,
                            dec_TargetIndex := pctx_TargetIndex pctx,
                            dec_SessionAction := SessionActionDefault,
                            dec_RateLimit := pctx_RateLimit pctx\<rparr>)
               else bp_fallbackOrStop p pctx ''retry exhausted''))"

section \<open>The next request\<close>

definition normalizeDecision :: "PolicyDecision \<Rightarrow> PolicyContext \<Rightarrow> PolicyDecision" where
  "normalizeDecision d pctx =
     (let d1 = (if dec_Kind d = NoDecisionKind then d\<lparr>dec_Kind := PolicyDecisionStop\<rparr> else d);
          d2 = (if dec_RateLimit d1 = None then d1\<lparr>dec_RateLimit := pctx_RateLimit pctx\<rparr> else d1)
      in if dec_SessionAction d2 = SessionActionDefault
         then d2\<lparr>dec_SessionAction := SessionActionDefault\<rparr> else d2)"

definition requestForDecision :: "RunRequest \<Rightarrow> PolicyDecision \<Rightarrow> RunRequest" where
  "requestForDecision current d =
     (let nxt = (case dec_Request d of Some r \<Rightarrow> r | None \<Rightarrow> current)
      in if dec_SessionAction d \<noteq> SessionActionDefault
         then nxt\<lparr>req_SessionAction := dec_SessionAction d\<rparr> else nxt)"

text \<open>\<open>append([]T(nil), xs...)\<close>: appending nothing to a nil slice leaves it nil.\<close>

definition append_nil :: "'a list \<Rightarrow> 'a list option" where
  "append_nil xs = (if xs = [] then None else Some xs)"

text \<open>Every field the source tests, in its order; a field it does not name keeps the value of \<open>dst\<close>.\<close>

definition overlayRunRequest :: "RunRequest \<Rightarrow> RunRequest \<Rightarrow> RunRequest" where
  "overlayRunRequest dst src =
     dst\<lparr>req_WorkDir := (if req_WorkDir src \<noteq> [] then req_WorkDir src else req_WorkDir dst),
        req_SessionID := (if req_SessionID src \<noteq> [] then req_SessionID src else req_SessionID dst),
        req_TurnID := (if req_TurnID src \<noteq> [] then req_TurnID src else req_TurnID dst),
        req_Provider := (if req_Provider src \<noteq> [] then req_Provider src else req_Provider dst),
        req_Model := (if req_Model src \<noteq> [] then req_Model src else req_Model dst),
        req_Permissions := (if req_Permissions src \<noteq> [] then req_Permissions src else req_Permissions dst),
        req_Sandbox := (if req_Sandbox src \<noteq> [] then req_Sandbox src else req_Sandbox dst),
        req_Timeout := (if req_Timeout src \<noteq> 0 then req_Timeout src else req_Timeout dst),
        req_Metadata := (if req_Metadata src \<noteq> None then cloneStringMap (req_Metadata src) else req_Metadata dst),
        req_WantSession := (if req_WantSession src then True else req_WantSession dst),
        req_SessionAction :=
          (if req_SessionAction src \<noteq> SessionActionDefault then req_SessionAction src else req_SessionAction dst),
        req_RequireCaps := (case req_RequireCaps src of None \<Rightarrow> req_RequireCaps dst | Some cs \<Rightarrow> append_nil cs),
        req_RequireHealth := (case req_RequireHealth src of None \<Rightarrow> req_RequireHealth dst | Some hs \<Rightarrow> append_nil hs),
        req_PromptCache := (if Enabled (req_PromptCache src) then req_PromptCache src else req_PromptCache dst)\<rparr>"

definition fallbackRequest :: "RunRequest \<Rightarrow> PolicyDecision \<Rightarrow> FallbackAlternative \<Rightarrow> RunRequest" where
  "fallbackRequest original d target =
     (let n0 = original;
          n1 = (if req_Prompt (fa_Request target) \<noteq> [] then n0\<lparr>req_Prompt := req_Prompt (fa_Request target)\<rparr> else n0);
          n2 = overlayRunRequest n1 (fa_Request target);
          n3 = (case dec_Request d of Some r \<Rightarrow> overlayRunRequest n2 r | None \<Rightarrow> n2)
      in if dec_SessionAction d \<noteq> SessionActionDefault
         then n3\<lparr>req_SessionAction := dec_SessionAction d\<rparr> else n3)"

section \<open>Attempt facts\<close>

definition sortedKeys :: "string smap option \<Rightarrow> string list" where
  "sortedKeys values = (if entries values = [] then [] else sort (map fst (entries values)))"

definition attemptRequest :: "RunRequest \<Rightarrow> AttemptRequest" where
  "attemptRequest req =
     \<lparr>ar_WorkDir = req_WorkDir req, ar_SessionID = req_SessionID req, ar_Provider = req_Provider req,
      ar_Model = req_Model req, ar_Permissions = req_Permissions req, ar_Sandbox = req_Sandbox req,
      ar_Timeout = req_Timeout req, ar_WantSession = req_WantSession req,
      ar_SessionAction = req_SessionAction req,
      ar_RequireCaps = (case req_RequireCaps req of None \<Rightarrow> [] | Some cs \<Rightarrow> cs),
      ar_RequireHealth = (case req_RequireHealth req of None \<Rightarrow> [] | Some hs \<Rightarrow> hs),
      ar_MetadataKeys = sortedKeys (req_Metadata req),
      ar_PromptCache = Enabled (req_PromptCache req)\<rparr>"

definition mk_rate_limit :: "RuntimeContext \<Rightarrow> string \<Rightarrow> string \<Rightarrow> RateLimitInfo" where
  "mk_rate_limit c source detail =
     RateLimitInfo (ctx_Provider c) (ctx_Model c) [] [] 0 0 None None source detail None"

definition rateLimitFromResult :: "RunResult \<Rightarrow> RateLimitInfo option" where
  "rateLimitFromResult result =
     (let md = res_Metadata result;
          from_errors =
            (case find (\<lambda>e. err_Category e = ErrorRateLimit) (md_Errors md) of
               None \<Rightarrow> None
             | Some e \<Rightarrow> Some (mk_rate_limit (md_Context md) ''metadata_error'' (err_UserDetail e)));
          from_err =
            (case res_Err result of
               Some e \<Rightarrow>
                 if err_Category e = ErrorRateLimit
                 then Some (mk_rate_limit (md_Context md) ''sdk_error'' (err_UserDetail e))
                 else from_errors
             | None \<Rightarrow> from_errors)
      in case gget (entries (md_NativeMetadata md)) ''rate_limit_info'' of
           GRateLimitPtr (Some info) \<Rightarrow> Some info
         | GRateLimitInfo info \<Rightarrow> Some info
         | _ \<Rightarrow> from_err)"

definition validationFromResult :: "RunResult \<Rightarrow> ValidationResult option" where
  "validationFromResult result =
     (if \<not> vm_Configured (md_Validation (res_Metadata result)) then None
      else Some (vm_Final (md_Validation (res_Metadata result))))"

definition finalTargetIndex :: "AttemptSummary list \<Rightarrow> int" where
  "finalTargetIndex attempts = (if attempts = [] then 0 else at_TargetIndex (last attempts))"

section \<open>What BasicPolicy decides\<close>

lemmas bp_defs = bp_Decide_def bp_fallbackOrStop_def zero_PolicyDecision_def

lemma normalizeDecision_simps [simp]:
  "dec_Kind (normalizeDecision d pctx) = (if dec_Kind d = NoDecisionKind then PolicyDecisionStop else dec_Kind d)"
  "dec_TargetIndex (normalizeDecision d pctx) = dec_TargetIndex d"
  "dec_Target (normalizeDecision d pctx) = dec_Target d"
  "dec_Delay (normalizeDecision d pctx) = dec_Delay d"
  "dec_Err (normalizeDecision d pctx) = dec_Err d"
  "dec_Request (normalizeDecision d pctx) = dec_Request d"
  "dec_Reason (normalizeDecision d pctx) = dec_Reason d"
  "dec_SessionAction (normalizeDecision d pctx) = dec_SessionAction d"
  by (simp_all add: normalizeDecision_def Let_def)

lemma bp_fallbackOrStop_cases:
  assumes "bp_fallbackOrStop p pctx reason = Some d"
  obtains (stop) "dec_Kind d = PolicyDecisionStop" "dec_Err d = pctx_Err pctx" "dec_Delay d = 0"
  | (fallback) "dec_Kind d = PolicyDecisionFallback" "dec_TargetIndex d = pctx_TargetIndex pctx + 1"
      "0 \<le> pctx_TargetIndex pctx"
      "pctx_TargetIndex pctx < int (length (bp_fallbacks p pctx))"
      "dec_Target d = Some (bp_fallbacks p pctx ! nat (pctx_TargetIndex pctx))"
      "bp_shouldFallback p pctx" "pctx_Err pctx \<noteq> None" "dec_Delay d = 0"
  using assms
  by (auto simp: bp_fallbackOrStop_def zero_PolicyDecision_def Let_def split: option.splits if_splits)

lemma bp_Decide_Some: "0 \<le> pctx_TargetIndex pctx \<Longrightarrow> \<exists>d. bp_Decide p c now pctx = Some d"
  by (auto simp: bp_Decide_def bp_fallbackOrStop_def Let_def split: option.splits)

text \<open>The four shapes of a decision.\<close>

lemma bp_Decide_cases:
  assumes "bp_Decide p c now pctx = Some d"
  obtains (stop) "dec_Kind d = PolicyDecisionStop"
  | (retry) "dec_Kind d = PolicyDecisionRetry" "bp_shouldRetry p pctx" "bp_canRetry p pctx" "c = None"
      "dec_TargetIndex d = pctx_TargetIndex pctx" "dec_Delay d = bp_delay p now pctx"
      "\<exists>err. pctx_Err pctx = Some err \<and> (err_Category err = ErrorRateLimit \<longrightarrow> bp_RetryRateLimits p)"
  | (fallback) "dec_Kind d = PolicyDecisionFallback" "dec_TargetIndex d = pctx_TargetIndex pctx + 1"
      "0 \<le> pctx_TargetIndex pctx"
      "pctx_TargetIndex pctx < int (length (bp_fallbacks p pctx))"
      "dec_Target d = Some (bp_fallbacks p pctx ! nat (pctx_TargetIndex pctx))"
      "bp_shouldFallback p pctx" "c = None"
proof (cases c)
  case (Some ce)
  with assms stop show thesis by (auto simp: bp_Decide_def zero_PolicyDecision_def)
next
  case None
  show thesis
  proof (cases "\<exists>reason. bp_fallbackOrStop p pctx reason = Some d")
    case True
    then obtain reason where "bp_fallbackOrStop p pctx reason = Some d" ..
    then show thesis
      using None stop fallback by (cases rule: bp_fallbackOrStop_cases) auto
  next
    case False
    with assms None show thesis
      using stop retry
      by (auto simp: bp_Decide_def zero_PolicyDecision_def split: option.splits if_splits)
  qed
qed

section \<open>The contract of a bounded policy\<close>

text \<open>
  What the runner needs of \<open>ResiliencePolicy\<close> to be sure to end: a policy that sees a target
  in range answers, repeats an attempt on a target only below a limit, and moves on only to a
  later target, of which there are finitely many.
\<close>

locale bounded_policy =
  fixes decide :: "nat \<Rightarrow> PolicyContext \<Rightarrow> (go_error + PolicyDecision) option"
    and perTarget :: int
    and lastTarget :: int
  assumes perTarget_pos: "0 < perTarget"
    and lastTarget_nonneg: "0 \<le> lastTarget"
    and answers: "0 \<le> pctx_TargetIndex pctx \<Longrightarrow> decide t pctx \<noteq> None"
    and retry_below: "decide t pctx = Some (Inr d) \<Longrightarrow>
      dec_Kind d \<in> {PolicyDecisionRetry, PolicyDecisionWait} \<Longrightarrow> pctx_AttemptOnTarget pctx < perTarget"
    and fallback_later: "decide t pctx = Some (Inr d) \<Longrightarrow> dec_Kind d = PolicyDecisionFallback \<Longrightarrow>
      int (length (pctx_Alternatives pctx)) \<le> lastTarget \<Longrightarrow>
      pctx_TargetIndex pctx < dec_TargetIndex d \<and> dec_TargetIndex d \<le> lastTarget"

text \<open>\<open>BasicPolicy\<close> behind the interface: it reads the context and the clock and returns no error.\<close>

definition basic_decide ::
  "(nat \<Rightarrow> ctx_error option) \<Rightarrow> (nat \<Rightarrow> gtime) \<Rightarrow> BasicPolicy \<Rightarrow> nat \<Rightarrow> PolicyContext
     \<Rightarrow> (go_error + PolicyDecision) option" where
  "basic_decide ctxErr now p t pctx = map_option Inr (bp_Decide p (ctxErr t) (now t) pctx)"

interpretation basic: bounded_policy "basic_decide ctxErr now p" "max 1 (bp_MaxAttemptsPerTarget p)"
  "int (max (length (bp_Fallbacks p)) n)" for ctxErr now p n
proof unfold_locales
  fix pctx :: PolicyContext and t d
  show "0 \<le> pctx_TargetIndex pctx \<Longrightarrow> basic_decide ctxErr now p t pctx \<noteq> None"
    using bp_Decide_Some [of pctx p "ctxErr t" "now t"] by (auto simp: basic_decide_def)
  assume "basic_decide ctxErr now p t pctx = Some (Inr d)"
  then have d: "bp_Decide p (ctxErr t) (now t) pctx = Some d"
    by (simp add: basic_decide_def)
  show "dec_Kind d \<in> {PolicyDecisionRetry, PolicyDecisionWait} \<Longrightarrow>
      pctx_AttemptOnTarget pctx < max 1 (bp_MaxAttemptsPerTarget p)"
    using d by (cases rule: bp_Decide_cases) (auto simp: bp_canRetry_def Let_def split: if_splits)
  show "dec_Kind d = PolicyDecisionFallback \<Longrightarrow>
      int (length (pctx_Alternatives pctx)) \<le> int (max (length (bp_Fallbacks p)) n) \<Longrightarrow>
      pctx_TargetIndex pctx < dec_TargetIndex d \<and>
      dec_TargetIndex d \<le> int (max (length (bp_Fallbacks p)) n)"
    using d by (cases rule: bp_Decide_cases) (auto simp: bp_fallbacks_def split: if_splits)
qed simp_all

section \<open>Properties of the decisions and of the next request\<close>

text \<open>
  C5. With the default classification, a failure by authentication, permission, configuration or
  cancellation always stops the run: \<open>BasicPolicy\<close> neither repeats it nor moves to another
  target, and it reports that very failure unless the context has ended.
\<close>

theorem basic_policy_refusals:
  assumes "bp_ShouldRetry p = None" and "bp_ShouldFallback p = None"
    and "pctx_Err pctx = Some err"
    and "err_Category err \<in> {ErrorAuthentication, ErrorPermission, ErrorConfiguration, ErrorCancellation}"
  shows "\<exists>d. bp_Decide p c now pctx = Some d \<and> dec_Kind d = PolicyDecisionStop
      \<and> (c = None \<longrightarrow> dec_Err d = Some err)"
proof -
  have "\<not> bp_shouldRetry p pctx" "\<not> bp_shouldFallback p pctx"
    using assms by (auto simp: bp_shouldRetry_def bp_shouldFallback_def defaultRetryable_def defaultFallbackable_def)
  moreover have "err_Category err \<noteq> ErrorRateLimit"
    using assms(4) by auto
  ultimately show ?thesis
    using assms(3) by (auto simp: bp_defs Let_def split: option.split)
qed

definition sample_failure :: "ErrorCategory \<Rightarrow> PolicyContext" where
  "sample_failure cat =
     \<lparr>pctx_OriginalRequest = zero_RunRequest, pctx_CurrentRequest = zero_RunRequest, pctx_Attempt = 1,
      pctx_AttemptOnTarget = 1, pctx_TargetIndex = 0, pctx_Target = zero_FallbackAlternative,
      pctx_Alternatives = [zero_FallbackAlternative], pctx_PriorAttempts = [],
      pctx_CurrentResult = zero_RunResult,
      pctx_Err = Some (NewError cat ''run'' ''failed'' None []),
      pctx_RateLimit = Some (RateLimitInfo [] [] [] [] 5 0 None None [] [] None),
      pctx_Validation = None, pctx_StartedAt = 1, pctx_Elapsed = 1, pctx_Metadata = None\<rparr>"

theorem basic_policy_refusals_witness:
  "\<exists>d. bp_Decide zero_BasicPolicy None 7 (sample_failure ErrorPermission) = Some d
      \<and> dec_Kind d = PolicyDecisionStop
      \<and> dec_Err d = Some (NewError ErrorPermission ''run'' ''failed'' None [])"
  using basic_policy_refusals [of zero_BasicPolicy "sample_failure ErrorPermission"
      "NewError ErrorPermission ''run'' ''failed'' None []" None 7]
  by (simp add: zero_BasicPolicy_def sample_failure_def)

text \<open>
  C6. A rate limit is never retried unless \<open>RetryRateLimits\<close> is set, and when a retry is decided
  its delay is the provider's \<open>Retry-After\<close> if there is one, else the time to the announced reset
  if that lies ahead, else the configured backoff.
\<close>

theorem basic_policy_rate_limit:
  assumes "bp_Decide p c now pctx = Some d" and "pctx_Err pctx = Some err"
    and "err_Category err = ErrorRateLimit" and "pctx_RateLimit pctx = Some rl"
  shows "dec_Kind d = PolicyDecisionRetry \<longrightarrow>
      bp_RetryRateLimits p \<and> pctx_AttemptOnTarget pctx < bp_MaxAttemptsPerTarget p
      \<and> dec_RateLimit d = Some rl
      \<and> (rl_RetryAfter rl > 0 \<longrightarrow> dec_Delay d = rl_RetryAfter rl)
      \<and> (rl_RetryAfter rl \<le> 0 \<and> rl_ResetAt rl \<noteq> 0 \<and> rl_ResetAt rl > now \<longrightarrow>
           dec_Delay d = min maxDuration (rl_ResetAt rl - now))
      \<and> (rl_RetryAfter rl \<le> 0 \<and> rl_ResetAt rl \<le> now \<longrightarrow>
           dec_Delay d = (case bp_Backoff p of None \<Rightarrow> 0 | Some f \<Rightarrow> f pctx))"
proof
  assume retry: "dec_Kind d = PolicyDecisionRetry"
  have ahead: "(time_sub t now > 0) = (t > now)" for t
    by (auto simp: time_sub_def maxDuration_def minDuration_def max_def min_def)
  have pos: "t > now \<Longrightarrow> time_sub t now = min maxDuration (t - now)" for t
    by (simp add: time_sub_def maxDuration_def minDuration_def)
  have "bp_fallbackOrStop p pctx reason \<noteq> Some d" for reason
    using retry by (auto elim: bp_fallbackOrStop_cases)
  with assms retry have "dec_RateLimit d = Some rl"
    by (auto simp: bp_Decide_def zero_PolicyDecision_def split: option.splits if_splits)
  with assms retry show "bp_RetryRateLimits p \<and> pctx_AttemptOnTarget pctx < bp_MaxAttemptsPerTarget p
      \<and> dec_RateLimit d = Some rl
      \<and> (rl_RetryAfter rl > 0 \<longrightarrow> dec_Delay d = rl_RetryAfter rl)
      \<and> (rl_RetryAfter rl \<le> 0 \<and> rl_ResetAt rl \<noteq> 0 \<and> rl_ResetAt rl > now \<longrightarrow>
           dec_Delay d = min maxDuration (rl_ResetAt rl - now))
      \<and> (rl_RetryAfter rl \<le> 0 \<and> rl_ResetAt rl \<le> now \<longrightarrow>
           dec_Delay d = (case bp_Backoff p of None \<Rightarrow> 0 | Some f \<Rightarrow> f pctx))"
    by (elim bp_Decide_cases)
      (auto simp: bp_canRetry_def bp_delay_def time_IsZero_def ahead pos maxDuration_def Let_def
        split: if_splits)
qed

theorem basic_policy_rate_limit_witness:
  "\<exists>d. bp_Decide (zero_BasicPolicy\<lparr>bp_MaxAttemptsPerTarget := 2, bp_RetryRateLimits := True\<rparr>) None 7
         (sample_failure ErrorRateLimit) = Some d \<and> dec_Kind d = PolicyDecisionRetry \<and> dec_Delay d = 5"
proof -
  let ?p = "zero_BasicPolicy\<lparr>bp_MaxAttemptsPerTarget := 2, bp_RetryRateLimits := True\<rparr>"
  let ?x = "sample_failure ErrorRateLimit"
  obtain d where d: "bp_Decide ?p None 7 ?x = Some d"
    using bp_Decide_Some [of ?x ?p None 7] by (auto simp: sample_failure_def)
  have "dec_Kind d = PolicyDecisionRetry"
    using d by (auto simp: bp_defs zero_BasicPolicy_def sample_failure_def bp_shouldRetry_def
        defaultRetryable_def bp_canRetry_def)
  with basic_policy_rate_limit [OF d, of "NewError ErrorRateLimit ''run'' ''failed'' None []"
      "RateLimitInfo [] [] [] [] 5 0 None None [] [] None"] d show ?thesis
    by (simp add: sample_failure_def)
qed

lemma overlayRunRequest_simps [simp]:
  "req_PermissionPolicy (overlayRunRequest dst src) = req_PermissionPolicy dst"
  "req_Validation (overlayRunRequest dst src) = req_Validation dst"
  "req_Prompt (overlayRunRequest dst src) = req_Prompt dst"
  "req_Provider (overlayRunRequest dst src) = (if req_Provider src \<noteq> [] then req_Provider src else req_Provider dst)"
  by (simp_all add: overlayRunRequest_def)

lemma overlayRunRequest_zero [simp]: "overlayRunRequest dst zero_RunRequest = dst"
  by (simp add: overlayRunRequest_def zero_RunRequest_def Enabled_def zero_PromptCacheDirective_def)

lemma zero_RunRequest_Prompt: "req_Prompt zero_RunRequest = []"
  by (simp add: zero_RunRequest_def)

text \<open>
  The request of a fallback is the original request with the alternative's settings over it: it
  keeps the permission policy and the validation of the original whatever the alternative and the
  decision say, its prompt is the alternative's or the original's, and an alternative that sets
  nothing leaves the request as it was.
\<close>

theorem fallback_request_layers:
  "req_PermissionPolicy (fallbackRequest original d target) = req_PermissionPolicy original
   \<and> req_Validation (fallbackRequest original d target) = req_Validation original
   \<and> req_Prompt (fallbackRequest original d target) =
       (if req_Prompt (fa_Request target) = [] then req_Prompt original else req_Prompt (fa_Request target))
   \<and> req_Provider (fallbackRequest original d target) =
       hd (filter (\<lambda>x. x \<noteq> []) ([req_Provider r. Some r \<leftarrow> [dec_Request d]]
             @ [req_Provider (fa_Request target)]) @ [req_Provider original])
   \<and> (fa_Request target = zero_RunRequest \<and> dec_Request d = None \<and> dec_SessionAction d = SessionActionDefault
       \<longrightarrow> fallbackRequest original d target = original)"
proof (intro conjI impI)
  assume "fa_Request target = zero_RunRequest \<and> dec_Request d = None \<and> dec_SessionAction d = SessionActionDefault"
  then show "fallbackRequest original d target = original"
    by (simp add: fallbackRequest_def Let_def zero_RunRequest_Prompt)
qed (simp_all add: fallbackRequest_def Let_def split: option.split)

theorem fallback_request_layers_witness:
  "fallbackRequest (zero_RunRequest\<lparr>req_Prompt := ''do it'', req_Provider := ''p''\<rparr>) zero_PolicyDecision
     zero_FallbackAlternative = zero_RunRequest\<lparr>req_Prompt := ''do it'', req_Provider := ''p''\<rparr>"
  using fallback_request_layers [of "zero_RunRequest\<lparr>req_Prompt := ''do it'', req_Provider := ''p''\<rparr>"
      zero_PolicyDecision zero_FallbackAlternative]
  by (simp add: zero_FallbackAlternative_def zero_PolicyDecision_def)

end
