(* ===== verification/EventStream.thy ===== *)
theory EventStream
  imports Model
begin

text \<open>
  What the wrappers' event streams have in common: \<open>sendEvent\<close> advances a sequence number, gives an
  event without identity one made of the run's identity and that number, and delivers at most that
  event. The contract is the locale \<open>event_sender\<close>; the policy runner and the validating runtime
  are its interpretations.
\<close>

definition generated_id :: "RunID \<Rightarrow> int \<Rightarrow> EventID" where
  "generated_id rid k = rid @ ''-event-'' @ itoa k"

lemma generated_id_inject [simp]: "generated_id rid j = generated_id rid k \<longleftrightarrow> j = k"
  by (simp add: generated_id_def)

lemma generated_id_nonempty [simp]: "generated_id rid k \<noteq> []"
  by (simp add: generated_id_def)

text \<open>A stream whose identities were all generated, up to number \<open>n\<close>, without repetition.\<close>

definition ids_generated :: "RunID \<Rightarrow> int \<Rightarrow> Event list \<Rightarrow> bool" where
  "ids_generated rid n es \<longleftrightarrow>
     distinct (map ev_ID es) \<and> list_all (\<lambda>e. \<exists>k. 0 < k \<and> k \<le> n \<and> ev_ID e = generated_id rid k) es"

lemma ids_generated_Nil [simp]: "ids_generated rid n []"
  by (simp add: ids_generated_def)

lemma ids_generated_mono: "ids_generated rid n es \<Longrightarrow> n \<le> m \<Longrightarrow> ids_generated rid m es"
  by (force simp: ids_generated_def list_all_iff)

lemma ids_generated_snoc:
  assumes "ids_generated rid n es" and "ev_ID e = generated_id rid (n + 1)" and "0 \<le> n"
  shows "ids_generated rid (n + 1) (es @ [e])"
  using assms by (force simp: ids_generated_def list_all_iff)

locale event_sender =
  fixes send :: "Event \<Rightarrow> 's \<Rightarrow> 's"
    and sent :: "'s \<Rightarrow> Event list"
    and seq :: "'s \<Rightarrow> int"
    and rid :: "'s \<Rightarrow> RunID"
  assumes send_seq: "seq (send e s) = seq s + 1"
    and send_rid: "rid (send e s) = rid s"
    and send_sent: "sent (send e s) = sent s \<or>
      (\<exists>e'. sent (send e s) = sent s @ [e']
        \<and> ev_ID e' = (if ev_ID e = [] then generated_id (rid s) (seq s + 1) else ev_ID e))"
begin

lemma send_generated:
  assumes "ids_generated (rid s) (seq s) (sent s)" and "0 \<le> seq s" and "ev_ID e = []"
  shows "ids_generated (rid (send e s)) (seq (send e s)) (sent (send e s))"
  using send_sent [of e s]
proof
  assume "sent (send e s) = sent s"
  with assms show ?thesis
    by (simp add: send_seq send_rid ids_generated_mono)
next
  assume "\<exists>e'. sent (send e s) = sent s @ [e']
      \<and> ev_ID e' = (if ev_ID e = [] then generated_id (rid s) (seq s + 1) else ev_ID e)"
  with assms show ?thesis
    by (auto simp: send_seq send_rid ids_generated_snoc)
qed

lemma sends_generated:
  assumes "ids_generated (rid s) (seq s) (sent s)" and "0 \<le> seq s"
    and "list_all (\<lambda>e. ev_ID e = []) es"
  shows "ids_generated (rid (fold send es s)) (seq (fold send es s)) (sent (fold send es s))
    \<and> seq (fold send es s) = seq s + int (length es)"
  using assms
proof (induction es arbitrary: s)
  case (Cons e es)
  then show ?case
    using Cons.IH [of "send e s"] send_generated [of s e] by (simp add: send_seq)
qed simp

lemma sends_at_most: "length (sent (fold send es s)) \<le> length (sent s) + length es"
proof (induction es arbitrary: s)
  case (Cons e es)
  then show ?case
    using Cons.IH [of "send e s"] send_sent [of e s] by fastforce
qed simp

end

end
