(* ===== verification/PolicyRun.thy ===== *)
theory PolicyRun
  imports Policy EventStream
begin

text \<open>
  The policy runner (\<^verbatim>\<open>policy.go\<close>, second half): the state of a \<open>policyRun\<close>, its operations, the
  loop of \<open>execute\<close>, and the handle \<open>StartRun\<close> returns.

  What the loop does not compute itself is an oracle of the environment \<open>policy_env\<close>, indexed by
  a counter of observations (\<open>pr_tick\<close>) that grows with every read, so that two reads may differ:
  the clock, the context, whether the event channel has room, which ready case a \<open>select\<close> takes,
  what a runtime does with a request, what the policy decides, how a sleep ends. A theorem for
  every environment therefore holds for every schedule. The forwarding goroutine is joined before
  the attempt is summarised and shares with the loop only the oracles, so it is run in place.
\<close>

section \<open>Environment and state\<close>

record policy_env =
  pe_now :: "nat \<Rightarrow> gtime"
  pe_ctx :: "nat \<Rightarrow> ctx_error option"
  pe_room :: "nat \<Rightarrow> bool"
  pe_pick :: "nat \<Rightarrow> bool"
  pe_start :: "nat \<Rightarrow> RuntimeRef \<Rightarrow> RunRequest \<Rightarrow> start_outcome"
  pe_decide :: "nat \<Rightarrow> PolicyContext \<Rightarrow> (go_error + PolicyDecision) option"
  pe_sleep :: "nat \<Rightarrow> duration \<Rightarrow> go_error option"

record policyRun =
  pr_id :: RunID
  pr_original :: RunRequest
  pr_primary :: RuntimeRef
  pr_alternatives :: "FallbackAlternative list"
  pr_sent :: "Event list"
  pr_done :: bool
  pr_result :: RunResult
  pr_waitErr :: "SDKError option"
  pr_current :: "nat option"
  pr_started :: gtime
  pr_finished :: gtime
  pr_seq :: int
  pr_attempts :: "AttemptSummary list"
  pr_decisions :: "PolicyDecisionRecord list"
  pr_droppedEvents :: "PolicyDroppedEvent list"
  pr_targetCounts :: "(int \<times> int) list"
  pr_tick :: nat

definition pr_observe :: "policyRun \<Rightarrow> policyRun" where
  "pr_observe s = s\<lparr>pr_tick := Suc (pr_tick s)\<rparr>"

definition pr_now :: "policy_env \<Rightarrow> policyRun \<Rightarrow> gtime \<times> policyRun" where
  "pr_now env s = (pe_now env (pr_tick s), pr_observe s)"

section \<open>Events\<close>

definition pr_recordDroppedEvent :: "policy_env \<Rightarrow> Event \<Rightarrow> policyRun \<Rightarrow> policyRun" where
  "pr_recordDroppedEvent env e s =
     (let (now, s1) = pr_now env s
      in s1\<lparr>pr_droppedEvents := pr_droppedEvents s1 @
            [\<lparr>de_Kind = Kind e, de_Type = ev_Type e, de_RunID = ev_RunID e, de_At = now\<rparr>]\<rparr>)"

text \<open>The defaults \<open>sendEvent\<close> fills in, with the sequence number already advanced.\<close>

definition pr_stampEvent :: "policy_env \<Rightarrow> Event \<Rightarrow> policyRun \<Rightarrow> Event \<times> policyRun" where
  "pr_stampEvent env e s =
     (let s1 = s\<lparr>pr_seq := pr_seq s + 1\<rparr>;
          e1 = (if ev_ID e = [] then e\<lparr>ev_ID := pr_id s1 @ ''-event-'' @ itoa (pr_seq s1)\<rparr> else e);
          e2 = (if ev_RunID e1 = [] then e1\<lparr>ev_RunID := pr_id s1\<rparr> else e1)
      in if time_IsZero (ev_Time e2)
         then (let (now, s2) = pr_now env s1 in (e2\<lparr>ev_Time := now\<rparr>, s2))
         else (e2, s1))"

text \<open>
  The \<open>select\<close> of \<open>sendEvent\<close>: a done context and a channel with room are both ready cases, and
  Go picks one; when neither is ready the default case records the event as dropped.
\<close>

definition pr_sendEvent :: "policy_env \<Rightarrow> Event \<Rightarrow> policyRun \<Rightarrow> policyRun" where
  "pr_sendEvent env e s =
     (let (e', s1) = pr_stampEvent env e s;
          t = pr_tick s1;
          s2 = pr_observe s1;
          ctxDone = (pe_ctx env t \<noteq> None);
          room = pe_room env t
      in if ctxDone \<and> (\<not> room \<or> pe_pick env t) then s2
         else if room then s2\<lparr>pr_sent := pr_sent s2 @ [e']\<rparr>
         else pr_recordDroppedEvent env e' s2)"

definition pr_annotate :: "RunID \<Rightarrow> int \<Rightarrow> int \<Rightarrow> Event \<Rightarrow> Event" where
  "pr_annotate rid attempt targetIndex e =
     e\<lparr>ev_Payload := Some (aput ''target_index'' (GInt targetIndex)
         (aput ''attempt'' (GInt attempt)
           (aput ''policy_run_id'' (GRunID rid) (entries (ev_Payload e)))))\<rparr>"

definition pr_forwardEvents :: "policy_env \<Rightarrow> Event list \<Rightarrow> int \<Rightarrow> int \<Rightarrow> policyRun \<Rightarrow> policyRun" where
  "pr_forwardEvents env events attempt targetIndex s =
     fold (\<lambda>e s. pr_sendEvent env (pr_annotate (pr_id s) attempt targetIndex e) s) events s"

section \<open>Targets\<close>

definition pr_applyDecisionTarget :: "PolicyDecision \<Rightarrow> policyRun \<Rightarrow> policyRun" where
  "pr_applyDecisionTarget d s =
     (case dec_Target d of
        None \<Rightarrow> s
      | Some target \<Rightarrow>
          if dec_TargetIndex d \<le> 0 then s
          else
            (let idx = nat (dec_TargetIndex d - 1);
                 alts = pr_alternatives s;
                 padded = alts @ replicate (Suc idx - length alts) zero_FallbackAlternative
             in s\<lparr>pr_alternatives := padded[idx := target]\<rparr>))"

definition pr_runtimeFor :: "policyRun \<Rightarrow> int \<Rightarrow> RuntimeRef" where
  "pr_runtimeFor s index =
     (if index = 0 then pr_primary s
      else
        (let idx = index - 1
         in if idx \<ge> 0 \<and> idx < int (length (pr_alternatives s))
            then (case fa_Runtime (pr_alternatives s ! nat idx) of Some r \<Rightarrow> r | None \<Rightarrow> pr_primary s)
            else pr_primary s))"

definition pr_targetFor :: "policyRun \<Rightarrow> int \<Rightarrow> FallbackAlternative" where
  "pr_targetFor s index =
     (let primary = zero_FallbackAlternative\<lparr>fa_Runtime := Some (pr_primary s),
                                            fa_Request := pr_original s\<rparr>;
          idx = index - 1
      in if index = 0 then primary
         else if idx \<ge> 0 \<and> idx < int (length (pr_alternatives s)) then pr_alternatives s ! nat idx
         else primary)"

definition pr_setCurrent :: "nat \<Rightarrow> policyRun \<Rightarrow> policyRun" where
  "pr_setCurrent run s = s\<lparr>pr_current := Some run\<rparr>"

definition pr_clearCurrent :: "nat \<Rightarrow> policyRun \<Rightarrow> policyRun" where
  "pr_clearCurrent run s = (if pr_current s = Some run then s\<lparr>pr_current := None\<rparr> else s)"

section \<open>Attempt summaries and decision records\<close>

definition pr_summarizeAttempt ::
  "policy_env \<Rightarrow> int \<Rightarrow> int \<Rightarrow> int \<Rightarrow> RunRequest \<Rightarrow> gtime \<Rightarrow> RunResult \<Rightarrow> policyRun
     \<Rightarrow> AttemptSummary \<times> policyRun" where
  "pr_summarizeAttempt env attempt attemptOnTarget targetIndex req started result s =
     (let (finished, s1) =
            (if time_IsZero (res_FinishedAt result) then pr_now env s else (res_FinishedAt result, s));
          status = (if res_Status result = NoStatus
                    then (if res_Err result \<noteq> None then StatusFailed else StatusCompleted)
                    else res_Status result);
          begun = firstTime (res_StartedAt result) started;
          ctx0 = md_Context (res_Metadata result)
      in (\<lparr>at_Attempt = attempt, at_AttemptOnTarget = attemptOnTarget, at_TargetIndex = targetIndex,
           at_RunID = res_RunID result, at_ParentRunID = pr_id s,
           at_Context = (if ctx_RuntimeKind ctx0 = []
                         then zero_RuntimeContext\<lparr>ctx_Provider := req_Provider req, ctx_Model := req_Model req\<rparr>
                         else ctx0),
           at_Request = attemptRequest req,
           at_Status = status,
           at_StartedAt = begun,
           at_FinishedAt = finished,
           at_Duration = time_sub finished begun,
           at_Session = md_Session (res_Metadata result),
           at_ErrorCategory = (case res_Err result of Some e \<Rightarrow> err_Category e | None \<Rightarrow> NoErrorCategory),
           at_Error = res_Err result,
           at_RateLimit = rateLimitFromResult result,
           at_PolicyDecisionReason = [],
           at_NativeMetadata = cloneAnyMap (md_NativeMetadata (res_Metadata result))\<rparr>, s1))"

definition pr_rateLimitEvent :: "policyRun \<Rightarrow> int \<Rightarrow> int \<Rightarrow> RateLimitInfo \<Rightarrow> Event" where
  "pr_rateLimitEvent s attempt targetIndex rl =
     \<lparr>ev_ID = [], ev_RunID = pr_id s, ev_SessionID = [], ev_Time = 0, ev_Type = ''rate_limit'',
      ev_Payload = Some (EventPayloadWithKind EventRateLimit
        (Some [(''attempt'', GInt attempt), (''target_index'', GInt targetIndex),
               (''provider'', GProviderID (rl_Provider rl)), (''model'', GModelID (rl_Model rl)),
               (''retry_after'', GString (duration_string (rl_RetryAfter rl))),
               (''reset_at'', GTime (rl_ResetAt rl)), (''detail'', GString (rl_UserDetail rl))])),
      ev_Raw = None\<rparr>"

definition pr_decisionEvent :: "policyRun \<Rightarrow> int \<Rightarrow> int \<Rightarrow> PolicyDecision \<Rightarrow> Event" where
  "pr_decisionEvent s attempt targetIndex d =
     (let (category, eventType) =
            (if dec_Kind d = PolicyDecisionFallback then (EventFallback, ''fallback'')
             else (EventRetry, ''retry''))
      in \<lparr>ev_ID = [], ev_RunID = pr_id s, ev_SessionID = [], ev_Time = 0, ev_Type = eventType,
          ev_Payload = Some (EventPayloadWithKind category
            (Some [(''attempt'', GInt attempt), (''target_index'', GInt targetIndex),
                   (''decision'', GDecisionKind (dec_Kind d)), (''reason'', GString (dec_Reason d)),
                   (''detail'', GString (dec_Detail d)),
                   (''delay'', GString (duration_string (dec_Delay d))),
                   (''session_action'', GSessionAction (dec_SessionAction d))])),
          ev_Raw = None\<rparr>)"

definition pr_recordDecision ::
  "policy_env \<Rightarrow> int \<Rightarrow> int \<Rightarrow> PolicyDecision \<Rightarrow> PolicyContext \<Rightarrow> policyRun \<Rightarrow> policyRun" where
  "pr_recordDecision env attempt targetIndex d pctx s =
     (let record1 =
            \<lparr>pd_Attempt = attempt, pd_TargetIndex = targetIndex, pd_Kind = dec_Kind d,
             pd_Reason = dec_Reason d, pd_Detail = dec_Detail d, pd_Delay = dec_Delay d,
             pd_Context = md_Context (res_Metadata (pctx_CurrentResult pctx)),
             pd_RateLimit = dec_RateLimit d, pd_Metadata = cloneAnyMap (dec_Metadata d)\<rparr>;
          s1 = s\<lparr>pr_decisions := pr_decisions s @ [record1]\<rparr>
      in if dec_Kind d = PolicyDecisionStop then s1
         else
           (let s2 = (case dec_RateLimit d of
                        None \<Rightarrow> s1
                      | Some rl \<Rightarrow> pr_sendEvent env (pr_rateLimitEvent s attempt targetIndex rl) s1)
            in pr_sendEvent env (pr_decisionEvent s attempt targetIndex d) s2))"

section \<open>Finishing\<close>

definition pr_finish ::
  "policy_env \<Rightarrow> RunResult \<Rightarrow> SDKError option \<Rightarrow> bool \<Rightarrow> string \<Rightarrow> policyRun \<Rightarrow> policyRun" where
  "pr_finish env result err exhausted reason s =
     (let (now, s1) = pr_now env s;
          s2 = s1\<lparr>pr_finished := now\<rparr>;
          n = int (length (pr_attempts s2));
          startedAt = (if time_IsZero (res_StartedAt result) then pr_started s2 else res_StartedAt result);
          finishedAt = (if time_IsZero (res_FinishedAt result) then pr_finished s2 else res_FinishedAt result);
          status = (if res_Status result = NoStatus
                    then (if err \<noteq> None then StatusFailed else StatusCompleted)
                    else res_Status result);
          md = res_Metadata result;
          mdStarted = (if time_IsZero (md_StartedAt md) then startedAt else md_StartedAt md);
          mdFinished = (if time_IsZero (md_FinishedAt md) then finishedAt else md_FinishedAt md);
          policy =
            \<lparr>pol_LogicalRunID = pr_id s2, pol_FinalAttempt = n,
             pol_FinalTargetIndex = finalTargetIndex (pr_attempts s2), pol_Exhausted = exhausted,
             pol_ExhaustedReason = reason, pol_Decisions = pr_decisions s2,
             pol_DroppedEvents = pr_droppedEvents s2\<rparr>;
          result' =
            result\<lparr>res_RunID := (if res_RunID result = [] then pr_id s2 else res_RunID result),
              res_StartedAt := startedAt,
              res_FinishedAt := finishedAt,
              res_Status := status,
              res_Err := (if err \<noteq> None then err else res_Err result),
              res_Metadata := md\<lparr>md_ParentRunID := pr_id s2, md_Attempt := n,
                md_Attempts := pr_attempts s2, md_Policy := policy,
                md_StartedAt := mdStarted, md_FinishedAt := mdFinished,
                md_Duration :=
                  (if md_Duration md = 0 \<and> \<not> time_IsZero mdStarted \<and> \<not> time_IsZero mdFinished
                   then time_sub mdFinished mdStarted else md_Duration md)\<rparr>\<rparr>
      in s2\<lparr>pr_result := result', pr_waitErr := err, pr_done := True\<rparr>)"

definition pr_finishCancelled :: "policy_env \<Rightarrow> ctx_error \<Rightarrow> RunResult \<Rightarrow> policyRun \<Rightarrow> policyRun" where
  "pr_finishCancelled env ce lastRes s =
     (let err = contextPolicyError (Some (ctx_go_error ce))
      in pr_finish env (lastRes\<lparr>res_Status := StatusCancelled, res_Err := err\<rparr>) err True
           ''policy run cancelled'' s)"

section \<open>One attempt\<close>

text \<open>
  Starting the runtime and, when it starts, forwarding its events and waiting for its result.
  The handle of the run is named by the observation that started it.
\<close>

definition pr_runAttempt ::
  "policy_env \<Rightarrow> int \<Rightarrow> int \<Rightarrow> RunRequest \<Rightarrow> gtime \<Rightarrow> policyRun \<Rightarrow> RunResult \<times> policyRun" where
  "pr_runAttempt env attempt targetIndex req started s =
     (let t = pr_tick s;
          s1 = pr_observe s
      in case pe_start env t (pr_runtimeFor s targetIndex) req of
           Inl startErr \<Rightarrow>
             (let (now, s2) = pr_now env s1
              in (zero_RunResult\<lparr>res_Status := StatusFailed, res_StartedAt := started,
                    res_FinishedAt := now,
                    res_Err := ensureSDKError (Some startErr) ''policy attempt start''\<rparr>, s2))
         | Inr out \<Rightarrow>
             (let s2 = pr_setCurrent t s1;
                  s3 = pr_forwardEvents env (out_Events out) attempt targetIndex s2;
                  s4 = pr_clearCurrent t s3;
                  result = out_Result out
              in (if out_WaitErr out \<noteq> None \<and> res_Err result = None
                  then result\<lparr>res_Err := ensureSDKError (out_WaitErr out) ''policy attempt wait''\<rparr>
                  else result, s4)))"

definition pr_policyContext ::
  "policyRun \<Rightarrow> RunRequest \<Rightarrow> int \<Rightarrow> int \<Rightarrow> int \<Rightarrow> RunResult \<Rightarrow> gtime \<Rightarrow> PolicyContext" where
  "pr_policyContext s req attempt attemptOnTarget targetIndex lastRes now =
     \<lparr>pctx_OriginalRequest = pr_original s, pctx_CurrentRequest = req, pctx_Attempt = attempt,
      pctx_AttemptOnTarget = attemptOnTarget, pctx_TargetIndex = targetIndex,
      pctx_Target = pr_targetFor s targetIndex, pctx_Alternatives = pr_alternatives s,
      pctx_PriorAttempts = pr_attempts s, pctx_CurrentResult = lastRes, pctx_Err = res_Err lastRes,
      pctx_RateLimit = rateLimitFromResult lastRes, pctx_Validation = validationFromResult lastRes,
      pctx_StartedAt = pr_started s, pctx_Elapsed = time_sub now (pr_started s),
      pctx_Metadata = cloneStringMap (req_Metadata (pr_original s))\<rparr>"

text \<open>
  How one round of the loop ends: the run is finished, the next attempt is set up, or the policy
  panicked (an index out of range in \<open>BasicPolicy\<close>).
\<close>

datatype round_end =
    Finished policyRun
  | Again policyRun int RunRequest RunResult
  | Panicked

text \<open>From the normalised decision on.\<close>

definition pr_applyDecision ::
  "policy_env \<Rightarrow> PolicyDecision \<Rightarrow> int \<Rightarrow> RunRequest \<Rightarrow> RunResult \<Rightarrow> policyRun \<Rightarrow> round_end" where
  "pr_applyDecision env d targetIndex req lastRes s =
     (if dec_Kind d = PolicyDecisionStop
      then
        (let lastRes' = (if dec_Err d \<noteq> None then lastRes\<lparr>res_Err := dec_Err d\<rparr> else lastRes)
         in Finished (pr_finish env lastRes' (res_Err lastRes') True (dec_Reason d) s))
      else
        (let t = pr_tick s;
             s1 = (if dec_Delay d > 0 then pr_observe s else s);
             slept = (if dec_Delay d > 0 then pe_sleep env t (dec_Delay d) else None)
         in case slept of
              Some e \<Rightarrow>
                (let lastRes' = lastRes\<lparr>res_Err := contextPolicyError (Some e)\<rparr>
                 in Finished (pr_finish env lastRes' (res_Err lastRes') True ''policy wait cancelled'' s1))
            | None \<Rightarrow>
                (case dec_Kind d of
                   PolicyDecisionRetry \<Rightarrow> Again s1 targetIndex (requestForDecision req d) lastRes
                 | PolicyDecisionWait \<Rightarrow> Again s1 targetIndex (requestForDecision req d) lastRes
                 | PolicyDecisionFallback \<Rightarrow>
                     (let s2 = pr_applyDecisionTarget d s1;
                          ti = dec_TargetIndex d
                      in Again s2 ti (fallbackRequest (pr_original s2) d (pr_targetFor s2 ti)) lastRes)
                 | _ \<Rightarrow>
                     (let lastRes' = lastRes\<lparr>res_Err := Some (NewError ErrorConfiguration ''policy decision''
                                ''unsupported policy decision'' None
                                [WithDebugDetail (decision_kind_string (dec_Kind d))])\<rparr>
                      in Finished (pr_finish env lastRes' (res_Err lastRes') True
                                     ''unsupported policy decision'' s1)))))"

text \<open>
  The body of the loop after the context has been found live, in two halves: the attempt with its
  summary, and the consultation of the policy after a failed attempt.
\<close>

definition pr_recordAttempt ::
  "policy_env \<Rightarrow> int \<Rightarrow> RunRequest \<Rightarrow> policyRun \<Rightarrow> RunResult \<times> int \<times> int \<times> policyRun" where
  "pr_recordAttempt env targetIndex req s =
     (let s1 = s\<lparr>pr_targetCounts :=
                   aput targetIndex (aget_or 0 (pr_targetCounts s) targetIndex + 1) (pr_targetCounts s)\<rparr>;
          attempt = int (length (pr_attempts s1)) + 1;
          attemptOnTarget = aget_or 0 (pr_targetCounts s1) targetIndex;
          (started, s2) = pr_now env s1;
          (lastRes, s3) = pr_runAttempt env attempt targetIndex req started s2;
          (summary, s4) = pr_summarizeAttempt env attempt attemptOnTarget targetIndex req started lastRes s3
      in (lastRes, attempt, attemptOnTarget, s4\<lparr>pr_attempts := pr_attempts s4 @ [summary]\<rparr>))"

definition pr_consult ::
  "policy_env \<Rightarrow> int \<Rightarrow> RunRequest \<Rightarrow> RunResult \<Rightarrow> int \<Rightarrow> int \<Rightarrow> policyRun \<Rightarrow> round_end" where
  "pr_consult env targetIndex req lastRes attempt attemptOnTarget s =
     (let (now, s1) = pr_now env s;
          pctx = pr_policyContext s1 req attempt attemptOnTarget targetIndex lastRes now;
          t = pr_tick s1;
          s2 = pr_observe s1
      in case pe_decide env t pctx of
           None \<Rightarrow> Panicked
         | Some (Inl e) \<Rightarrow>
             (let lastErr = ensureSDKError (Some e) ''policy decide''
              in Finished (pr_finish env (lastRes\<lparr>res_Err := lastErr\<rparr>) lastErr True
                             ''policy decision failed'' s2))
         | Some (Inr d) \<Rightarrow>
             (let d' = normalizeDecision d pctx
              in pr_applyDecision env d' targetIndex req lastRes
                   (pr_recordDecision env attempt targetIndex d' pctx s2)))"

definition pr_attempt ::
  "policy_env \<Rightarrow> int \<Rightarrow> RunRequest \<Rightarrow> policyRun \<Rightarrow> round_end" where
  "pr_attempt env targetIndex req s =
     (let (lastRes, attempt, attemptOnTarget, s1) = pr_recordAttempt env targetIndex req s
      in if res_Err lastRes = None then Finished (pr_finish env lastRes None False [] s1)
         else pr_consult env targetIndex req lastRes attempt attemptOnTarget s1)"

definition pr_round :: "policy_env \<Rightarrow> int \<Rightarrow> RunRequest \<Rightarrow> RunResult \<Rightarrow> policyRun \<Rightarrow> round_end" where
  "pr_round env targetIndex req lastRes s =
     (let t = pr_tick s;
          s1 = pr_observe s
      in case pe_ctx env t of
           Some ce \<Rightarrow> Finished (pr_finishCancelled env ce lastRes s1)
         | None \<Rightarrow> pr_attempt env targetIndex req s1)"

section \<open>The loop\<close>

text \<open>
  The loop has no bound of its own: a policy that always answers \<open>retry\<close> never ends. \<open>None\<close>
  is a run that is still going after \<open>fuel\<close> rounds.
\<close>

fun pr_loop :: "policy_env \<Rightarrow> nat \<Rightarrow> int \<Rightarrow> RunRequest \<Rightarrow> RunResult \<Rightarrow> policyRun \<Rightarrow> round_end option" where
  "pr_loop env 0 targetIndex req lastRes s = None"
| "pr_loop env (Suc fuel) targetIndex req lastRes s =
     (case pr_round env targetIndex req lastRes s of
        Again s' ti' req' lastRes' \<Rightarrow> pr_loop env fuel ti' req' lastRes' s'
      | r \<Rightarrow> Some r)"

definition pr_execute :: "policy_env \<Rightarrow> nat \<Rightarrow> policyRun \<Rightarrow> round_end option" where
  "pr_execute env fuel s = pr_loop env fuel 0 (pr_original s) zero_RunResult s"

section \<open>PolicyRunner\<close>

record PolicyRunner =
  rn_Runtime :: "RuntimeRef option"
  rn_Alternatives :: "FallbackAlternative list"

text \<open>\<open>StartRun\<close> up to the start of the goroutine; \<open>counter\<close> is \<open>policyRunCounter\<close>.\<close>

definition policy_StartRun ::
  "policy_env \<Rightarrow> PolicyRunner \<Rightarrow> int \<Rightarrow> RunRequest \<Rightarrow> (SDKError + policyRun) \<times> int" where
  "policy_StartRun env r counter req =
     (case rn_Runtime r of
        None \<Rightarrow>
          (Inl (NewError ErrorConfiguration ''policy runner'' ''primary runtime is required'' None []), counter)
      | Some rt \<Rightarrow>
          (Inr \<lparr>pr_id = ''policy-'' @ itoa (counter + 1), pr_original = req, pr_primary = rt,
                pr_alternatives = rn_Alternatives r, pr_sent = [], pr_done = False,
                pr_result = zero_RunResult, pr_waitErr = None, pr_current = None,
                pr_started = pe_now env 0, pr_finished = 0, pr_seq = 0, pr_attempts = [],
                pr_decisions = [], pr_droppedEvents = [], pr_targetCounts = [], pr_tick = 1\<rparr>,
           counter + 1))"

definition policy_Capabilities ::
  "(RuntimeRef \<Rightarrow> Capabilities \<times> go_error option) \<Rightarrow> PolicyRunner \<Rightarrow> Capabilities \<times> go_error option" where
  "policy_Capabilities caps r =
     (case rn_Runtime r of
        None \<Rightarrow> (zero_Capabilities, Some (ESDK (NewError ErrorConfiguration ''policy runner capabilities''
                                          ''primary runtime is required'' None [])))
      | Some rt \<Rightarrow> caps rt)"

text \<open>\<open>Wait\<close>: \<open>None\<close> while it blocks; \<open>pick\<close> resolves a \<open>select\<close> with both cases ready.\<close>

definition pr_Wait ::
  "ctx_error option \<Rightarrow> bool \<Rightarrow> policyRun \<Rightarrow> (RunResult \<times> SDKError option) option" where
  "pr_Wait ctxErr pick s =
     (case ctxErr of
        Some ce \<Rightarrow>
          if pr_done s \<and> pick then Some (pr_result s, pr_waitErr s)
          else Some (zero_RunResult, contextPolicyError (Some (ctx_go_error ce)))
      | None \<Rightarrow> if pr_done s then Some (pr_result s, pr_waitErr s) else None)"

text \<open>\<open>Cancel\<close> cancels the run's context and the run in progress, if there is one.\<close>

definition pr_Cancel :: "(nat \<Rightarrow> go_error option) \<Rightarrow> policyRun \<Rightarrow> go_error option" where
  "pr_Cancel cancelRun s = (case pr_current s of Some run \<Rightarrow> cancelRun run | None \<Rightarrow> None)"

definition defaultPolicySleep ::
  "ctx_error option \<Rightarrow> ctx_error option \<Rightarrow> duration \<Rightarrow> go_error option" where
  "defaultPolicySleep ctxNow ctxBeforeTimer delay =
     (if delay \<le> 0 then map_option ctx_go_error ctxNow else map_option ctx_go_error ctxBeforeTimer)"

section \<open>Frames: what an operation leaves alone\<close>

lemma pr_observe_simps [simp]:
  "pr_id (pr_observe s) = pr_id s"
  "pr_original (pr_observe s) = pr_original s"
  "pr_primary (pr_observe s) = pr_primary s"
  "pr_alternatives (pr_observe s) = pr_alternatives s"
  "pr_done (pr_observe s) = pr_done s"
  "pr_result (pr_observe s) = pr_result s"
  "pr_waitErr (pr_observe s) = pr_waitErr s"
  "pr_current (pr_observe s) = pr_current s"
  "pr_started (pr_observe s) = pr_started s"
  "pr_finished (pr_observe s) = pr_finished s"
  "pr_attempts (pr_observe s) = pr_attempts s"
  "pr_decisions (pr_observe s) = pr_decisions s"
  "pr_targetCounts (pr_observe s) = pr_targetCounts s"
  "pr_sent (pr_observe s) = pr_sent s" "pr_seq (pr_observe s) = pr_seq s"
  "pr_droppedEvents (pr_observe s) = pr_droppedEvents s" "pr_tick (pr_observe s) = Suc (pr_tick s)"
  by (simp_all add: pr_observe_def)

lemma pr_recordDroppedEvent_simps [simp]:
  "pr_id (pr_recordDroppedEvent env e s) = pr_id s"
  "pr_original (pr_recordDroppedEvent env e s) = pr_original s"
  "pr_primary (pr_recordDroppedEvent env e s) = pr_primary s"
  "pr_alternatives (pr_recordDroppedEvent env e s) = pr_alternatives s"
  "pr_done (pr_recordDroppedEvent env e s) = pr_done s"
  "pr_result (pr_recordDroppedEvent env e s) = pr_result s"
  "pr_waitErr (pr_recordDroppedEvent env e s) = pr_waitErr s"
  "pr_current (pr_recordDroppedEvent env e s) = pr_current s"
  "pr_started (pr_recordDroppedEvent env e s) = pr_started s"
  "pr_finished (pr_recordDroppedEvent env e s) = pr_finished s"
  "pr_attempts (pr_recordDroppedEvent env e s) = pr_attempts s"
  "pr_decisions (pr_recordDroppedEvent env e s) = pr_decisions s"
  "pr_targetCounts (pr_recordDroppedEvent env e s) = pr_targetCounts s"
  "pr_sent (pr_recordDroppedEvent env e s) = pr_sent s"
  "pr_seq (pr_recordDroppedEvent env e s) = pr_seq s"
  "length (pr_droppedEvents (pr_recordDroppedEvent env e s)) = Suc (length (pr_droppedEvents s))"
  by (simp_all add: pr_recordDroppedEvent_def pr_now_def)

lemma pr_stampEvent_simps [simp]:
  "pr_id (snd (pr_stampEvent env e s)) = pr_id s"
  "pr_original (snd (pr_stampEvent env e s)) = pr_original s"
  "pr_primary (snd (pr_stampEvent env e s)) = pr_primary s"
  "pr_alternatives (snd (pr_stampEvent env e s)) = pr_alternatives s"
  "pr_done (snd (pr_stampEvent env e s)) = pr_done s"
  "pr_result (snd (pr_stampEvent env e s)) = pr_result s"
  "pr_waitErr (snd (pr_stampEvent env e s)) = pr_waitErr s"
  "pr_current (snd (pr_stampEvent env e s)) = pr_current s"
  "pr_started (snd (pr_stampEvent env e s)) = pr_started s"
  "pr_finished (snd (pr_stampEvent env e s)) = pr_finished s"
  "pr_attempts (snd (pr_stampEvent env e s)) = pr_attempts s"
  "pr_decisions (snd (pr_stampEvent env e s)) = pr_decisions s"
  "pr_targetCounts (snd (pr_stampEvent env e s)) = pr_targetCounts s"
  "pr_sent (snd (pr_stampEvent env e s)) = pr_sent s"
  "pr_droppedEvents (snd (pr_stampEvent env e s)) = pr_droppedEvents s"
  "pr_seq (snd (pr_stampEvent env e s)) = pr_seq s + 1"
  by (simp_all add: pr_stampEvent_def pr_now_def Let_def)

lemma pr_sendEvent_simps [simp]:
  "pr_id (pr_sendEvent env e s) = pr_id s"
  "pr_original (pr_sendEvent env e s) = pr_original s"
  "pr_primary (pr_sendEvent env e s) = pr_primary s"
  "pr_alternatives (pr_sendEvent env e s) = pr_alternatives s"
  "pr_done (pr_sendEvent env e s) = pr_done s"
  "pr_result (pr_sendEvent env e s) = pr_result s"
  "pr_waitErr (pr_sendEvent env e s) = pr_waitErr s"
  "pr_current (pr_sendEvent env e s) = pr_current s"
  "pr_started (pr_sendEvent env e s) = pr_started s"
  "pr_finished (pr_sendEvent env e s) = pr_finished s"
  "pr_attempts (pr_sendEvent env e s) = pr_attempts s"
  "pr_decisions (pr_sendEvent env e s) = pr_decisions s"
  "pr_targetCounts (pr_sendEvent env e s) = pr_targetCounts s"
  "pr_seq (pr_sendEvent env e s) = pr_seq s + 1"
  by (simp_all add: pr_sendEvent_def Let_def case_prod_beta)

lemma pr_forwardEvents_simps [simp]:
  "pr_id (pr_forwardEvents env events a ti s) = pr_id s"
  "pr_original (pr_forwardEvents env events a ti s) = pr_original s"
  "pr_primary (pr_forwardEvents env events a ti s) = pr_primary s"
  "pr_alternatives (pr_forwardEvents env events a ti s) = pr_alternatives s"
  "pr_done (pr_forwardEvents env events a ti s) = pr_done s"
  "pr_result (pr_forwardEvents env events a ti s) = pr_result s"
  "pr_waitErr (pr_forwardEvents env events a ti s) = pr_waitErr s"
  "pr_current (pr_forwardEvents env events a ti s) = pr_current s"
  "pr_started (pr_forwardEvents env events a ti s) = pr_started s"
  "pr_finished (pr_forwardEvents env events a ti s) = pr_finished s"
  "pr_attempts (pr_forwardEvents env events a ti s) = pr_attempts s"
  "pr_decisions (pr_forwardEvents env events a ti s) = pr_decisions s"
  "pr_targetCounts (pr_forwardEvents env events a ti s) = pr_targetCounts s"
  by (simp_all add: pr_forwardEvents_def) (induction events arbitrary: s; simp)+

lemma pr_recordDecision_simps [simp]:
  "pr_id (pr_recordDecision env a ti d pctx s) = pr_id s"
  "pr_original (pr_recordDecision env a ti d pctx s) = pr_original s"
  "pr_primary (pr_recordDecision env a ti d pctx s) = pr_primary s"
  "pr_alternatives (pr_recordDecision env a ti d pctx s) = pr_alternatives s"
  "pr_done (pr_recordDecision env a ti d pctx s) = pr_done s"
  "pr_result (pr_recordDecision env a ti d pctx s) = pr_result s"
  "pr_waitErr (pr_recordDecision env a ti d pctx s) = pr_waitErr s"
  "pr_current (pr_recordDecision env a ti d pctx s) = pr_current s"
  "pr_started (pr_recordDecision env a ti d pctx s) = pr_started s"
  "pr_finished (pr_recordDecision env a ti d pctx s) = pr_finished s"
  "pr_attempts (pr_recordDecision env a ti d pctx s) = pr_attempts s"
  "pr_targetCounts (pr_recordDecision env a ti d pctx s) = pr_targetCounts s"
  by (simp_all add: pr_recordDecision_def Let_def split: option.split)

lemma pr_applyDecisionTarget_simps [simp]:
  "pr_id (pr_applyDecisionTarget d s) = pr_id s"
  "pr_original (pr_applyDecisionTarget d s) = pr_original s"
  "pr_primary (pr_applyDecisionTarget d s) = pr_primary s"
  "pr_done (pr_applyDecisionTarget d s) = pr_done s"
  "pr_result (pr_applyDecisionTarget d s) = pr_result s"
  "pr_waitErr (pr_applyDecisionTarget d s) = pr_waitErr s"
  "pr_current (pr_applyDecisionTarget d s) = pr_current s"
  "pr_started (pr_applyDecisionTarget d s) = pr_started s"
  "pr_finished (pr_applyDecisionTarget d s) = pr_finished s"
  "pr_attempts (pr_applyDecisionTarget d s) = pr_attempts s"
  "pr_decisions (pr_applyDecisionTarget d s) = pr_decisions s"
  "pr_targetCounts (pr_applyDecisionTarget d s) = pr_targetCounts s"
  by (simp_all add: pr_applyDecisionTarget_def Let_def split: option.split)

lemma pr_runAttempt_simps [simp]:
  "pr_id (snd (pr_runAttempt env a ti req st s)) = pr_id s"
  "pr_original (snd (pr_runAttempt env a ti req st s)) = pr_original s"
  "pr_primary (snd (pr_runAttempt env a ti req st s)) = pr_primary s"
  "pr_alternatives (snd (pr_runAttempt env a ti req st s)) = pr_alternatives s"
  "pr_done (snd (pr_runAttempt env a ti req st s)) = pr_done s"
  "pr_attempts (snd (pr_runAttempt env a ti req st s)) = pr_attempts s"
  "pr_decisions (snd (pr_runAttempt env a ti req st s)) = pr_decisions s"
  "pr_targetCounts (snd (pr_runAttempt env a ti req st s)) = pr_targetCounts s"
  by (simp_all add: pr_runAttempt_def pr_now_def pr_setCurrent_def pr_clearCurrent_def Let_def split: sum.split)

lemma pr_summarizeAttempt_simps [simp]:
  "pr_id (snd (pr_summarizeAttempt env a aot ti req st res s)) = pr_id s"
  "pr_original (snd (pr_summarizeAttempt env a aot ti req st res s)) = pr_original s"
  "pr_primary (snd (pr_summarizeAttempt env a aot ti req st res s)) = pr_primary s"
  "pr_alternatives (snd (pr_summarizeAttempt env a aot ti req st res s)) = pr_alternatives s"
  "pr_done (snd (pr_summarizeAttempt env a aot ti req st res s)) = pr_done s"
  "pr_attempts (snd (pr_summarizeAttempt env a aot ti req st res s)) = pr_attempts s"
  "pr_decisions (snd (pr_summarizeAttempt env a aot ti req st res s)) = pr_decisions s"
  "pr_targetCounts (snd (pr_summarizeAttempt env a aot ti req st res s)) = pr_targetCounts s"
  "pr_sent (snd (pr_summarizeAttempt env a aot ti req st res s)) = pr_sent s"
  "pr_droppedEvents (snd (pr_summarizeAttempt env a aot ti req st res s)) = pr_droppedEvents s"
  "pr_seq (snd (pr_summarizeAttempt env a aot ti req st res s)) = pr_seq s"
  "at_Attempt (fst (pr_summarizeAttempt env a aot ti req st res s)) = a"
  "at_AttemptOnTarget (fst (pr_summarizeAttempt env a aot ti req st res s)) = aot"
  "at_TargetIndex (fst (pr_summarizeAttempt env a aot ti req st res s)) = ti"
  "at_Error (fst (pr_summarizeAttempt env a aot ti req st res s)) = res_Err res"
  by (simp_all add: pr_summarizeAttempt_def pr_now_def Let_def case_prod_beta)

lemma pr_finish_simps [simp]:
  "pr_attempts (pr_finish env res err ex reason s) = pr_attempts s"
  "pr_decisions (pr_finish env res err ex reason s) = pr_decisions s"
  "pr_targetCounts (pr_finish env res err ex reason s) = pr_targetCounts s"
  "pr_sent (pr_finish env res err ex reason s) = pr_sent s"
  "pr_seq (pr_finish env res err ex reason s) = pr_seq s"
  "pr_droppedEvents (pr_finish env res err ex reason s) = pr_droppedEvents s"
  "pr_id (pr_finish env res err ex reason s) = pr_id s"
  "pr_done (pr_finish env res err ex reason s)"
  "pr_waitErr (pr_finish env res err ex reason s) = err"
  "res_Err (pr_result (pr_finish env res err ex reason s)) = (if err \<noteq> None then err else res_Err res)"
  "md_Attempts (res_Metadata (pr_result (pr_finish env res err ex reason s))) = pr_attempts s"
  "md_Attempt (res_Metadata (pr_result (pr_finish env res err ex reason s))) = int (length (pr_attempts s))"
  "md_Policy (res_Metadata (pr_result (pr_finish env res err ex reason s))) =
     \<lparr>pol_LogicalRunID = pr_id s, pol_FinalAttempt = int (length (pr_attempts s)),
      pol_FinalTargetIndex = finalTargetIndex (pr_attempts s), pol_Exhausted = ex,
      pol_ExhaustedReason = reason, pol_Decisions = pr_decisions s,
      pol_DroppedEvents = pr_droppedEvents s\<rparr>"
  by (simp_all add: pr_finish_def pr_now_def Let_def)

lemma pr_recordAttempt_spec:
  assumes "pr_recordAttempt env ti req s = (lastRes, a, aot, s')"
  shows "a = int (length (pr_attempts s)) + 1"
    and "aot = aget_or 0 (pr_targetCounts s) ti + 1"
    and "\<exists>sm. pr_attempts s' = pr_attempts s @ [sm] \<and> at_Attempt sm = a \<and> at_AttemptOnTarget sm = aot
           \<and> at_TargetIndex sm = ti \<and> at_Error sm = res_Err lastRes"
    and "pr_id s' = pr_id s" "pr_original s' = pr_original s" "pr_primary s' = pr_primary s"
    and "pr_alternatives s' = pr_alternatives s" "pr_done s' = pr_done s"
    and "pr_decisions s' = pr_decisions s"
    and "pr_targetCounts s' = aput ti aot (pr_targetCounts s)"
  using assms by (auto simp: pr_recordAttempt_def pr_now_def Let_def case_prod_beta)

lemma pr_recordDecision_decisions [simp]:
  "map pd_Attempt (pr_decisions (pr_recordDecision env a ti d pctx s)) = map pd_Attempt (pr_decisions s) @ [a]"
  "map pd_TargetIndex (pr_decisions (pr_recordDecision env a ti d pctx s)) =
     map pd_TargetIndex (pr_decisions s) @ [ti]"
  "map pd_Kind (pr_decisions (pr_recordDecision env a ti d pctx s)) = map pd_Kind (pr_decisions s) @ [dec_Kind d]"
  by (simp_all add: pr_recordDecision_def Let_def split: option.split)

lemma length_applyDecisionTarget:
  "length (pr_alternatives (pr_applyDecisionTarget d s)) \<le> max (length (pr_alternatives s)) (nat (dec_TargetIndex d))"
  by (auto simp: pr_applyDecisionTarget_def Let_def split: option.split)

section \<open>The shape of a round\<close>

text \<open>The context a round hands to the policy.\<close>

definition consulted :: "policyRun \<Rightarrow> int \<Rightarrow> RunRequest \<Rightarrow> RunResult \<Rightarrow> int \<Rightarrow> PolicyContext \<Rightarrow> bool" where
  "consulted s ti req lastRes aot pctx \<longleftrightarrow>
     pctx_OriginalRequest pctx = pr_original s \<and> pctx_CurrentRequest pctx = req
     \<and> pctx_TargetIndex pctx = ti \<and> pctx_AttemptOnTarget pctx = aot
     \<and> pctx_Alternatives pctx = pr_alternatives s \<and> pctx_Err pctx = res_Err lastRes
     \<and> pctx_RateLimit pctx = rateLimitFromResult lastRes"

lemma pr_applyDecision_Again:
  assumes "pr_applyDecision env d ti req lastRes s = Again s' ti' req' lastRes'"
  shows "lastRes' = lastRes"
    and "pr_attempts s' = pr_attempts s" "pr_decisions s' = pr_decisions s"
    and "pr_targetCounts s' = pr_targetCounts s" "pr_original s' = pr_original s" "pr_id s' = pr_id s"
    and "pr_done s' = pr_done s" "pr_primary s' = pr_primary s"
    and "dec_Kind d \<in> {PolicyDecisionRetry, PolicyDecisionWait} \<and> ti' = ti \<and> req' = requestForDecision req d
           \<and> pr_alternatives s' = pr_alternatives s
         \<or> dec_Kind d = PolicyDecisionFallback \<and> ti' = dec_TargetIndex d
           \<and> req' = fallbackRequest (pr_original s) d (pr_targetFor s' ti')
           \<and> length (pr_alternatives s') \<le> max (length (pr_alternatives s)) (nat (dec_TargetIndex d))"
  using assms length_applyDecisionTarget [of d s] length_applyDecisionTarget [of d "pr_observe s"]
  by (auto simp: pr_applyDecision_def Let_def split: if_splits option.splits PolicyDecisionKind.splits)

lemma pr_applyDecision_Finished:
  assumes "pr_applyDecision env d ti req lastRes s = Finished s'" and "res_Err lastRes \<noteq> None"
  shows "\<exists>res reason s1. s' = pr_finish env res (res_Err res) True reason s1 \<and> res_Err res \<noteq> None
           \<and> (s1 = s \<or> s1 = pr_observe s)"
proof -
  define P where "P s' \<longleftrightarrow> (\<exists>res reason s1. s' = pr_finish env res (res_Err res) True reason s1
      \<and> res_Err res \<noteq> None \<and> (s1 = s \<or> s1 = pr_observe s))" for s'
  have fin: "P (pr_finish env r (res_Err r) True reason s1)"
    if "res_Err r \<noteq> None" "s1 = s \<or> s1 = pr_observe s" for r reason s1
    using that unfolding P_def by blast
  have upd: "P (pr_finish env (lastRes\<lparr>res_Err := Some e\<rparr>) (Some e) True reason s1)"
    if "s1 = s \<or> s1 = pr_observe s" for e reason s1
    using fin [of "lastRes\<lparr>res_Err := Some e\<rparr>"] that by simp
  have "P s'"
    using assms(1)
    by (cases "dec_Kind d")
      (auto simp: pr_applyDecision_def contextPolicyError_def Let_def assms(2) [simplified]
       split: if_splits option.splits intro!: upd fin)
  then show ?thesis
    by (simp only: P_def)
qed

lemma pr_applyDecision_not_Panicked: "pr_applyDecision env d ti req lastRes s \<noteq> Panicked"
  by (auto simp: pr_applyDecision_def Let_def split: option.splits PolicyDecisionKind.splits)

text \<open>A round that goes on has recorded a failed attempt and a decision other than stop.\<close>

lemma pr_round_Again:
  assumes "pr_round env ti req l s = Again s' ti' req' lastRes"
  obtains a aot sm t pctx d d' where
    "pe_ctx env (pr_tick s) = None"
    "a = int (length (pr_attempts s)) + 1" "aot = aget_or 0 (pr_targetCounts s) ti + 1"
    "pr_attempts s' = pr_attempts s @ [sm]" "at_Attempt sm = a" "at_AttemptOnTarget sm = aot"
    "at_TargetIndex sm = ti" "at_Error sm = res_Err lastRes" "res_Err lastRes \<noteq> None"
    "pr_targetCounts s' = aput ti aot (pr_targetCounts s)"
    "map pd_Attempt (pr_decisions s') = map pd_Attempt (pr_decisions s) @ [a]"
    "map pd_TargetIndex (pr_decisions s') = map pd_TargetIndex (pr_decisions s) @ [ti]"
    "map pd_Kind (pr_decisions s') = map pd_Kind (pr_decisions s) @ [dec_Kind d']"
    "pr_original s' = pr_original s" "pr_id s' = pr_id s" "pr_done s' = pr_done s" "pr_primary s' = pr_primary s"
    "pe_decide env t pctx = Some (Inr d)" "consulted s ti req lastRes aot pctx" "d' = normalizeDecision d pctx"
    "dec_Kind d' \<in> {PolicyDecisionRetry, PolicyDecisionWait} \<and> ti' = ti \<and> req' = requestForDecision req d'
       \<and> pr_alternatives s' = pr_alternatives s
     \<or> dec_Kind d' = PolicyDecisionFallback \<and> ti' = dec_TargetIndex d'
       \<and> req' = fallbackRequest (pr_original s) d' (pr_targetFor s' ti')
       \<and> length (pr_alternatives s') \<le> max (length (pr_alternatives s)) (nat (dec_TargetIndex d'))"
proof -
  obtain l1 a aot s1 where rec: "pr_recordAttempt env ti req (pr_observe s) = (l1, a, aot, s1)"
    by (cases "pr_recordAttempt env ti req (pr_observe s)") auto
  note spec = pr_recordAttempt_spec [OF rec]
  let ?pctx = "pr_policyContext (pr_observe s1) req a aot ti l1 (pe_now env (pr_tick s1))"
  let ?t = "pr_tick (pr_observe s1)"
  from assms rec obtain d where d: "pe_ctx env (pr_tick s) = None" "res_Err l1 \<noteq> None"
      "pe_decide env ?t ?pctx = Some (Inr d)"
    and app: "pr_applyDecision env (normalizeDecision d ?pctx) ti req l1
        (pr_recordDecision env a ti (normalizeDecision d ?pctx) ?pctx (pr_observe (pr_observe s1)))
        = Again s' ti' req' lastRes"
    by (auto simp: pr_round_def pr_attempt_def pr_consult_def pr_now_def Let_def
        simp del: pr_observe_simps split: option.splits if_splits sum.splits)
  note ag = pr_applyDecision_Again [OF app]
  from spec(3) obtain sm where sm: "pr_attempts s1 = pr_attempts s @ [sm]" "at_Attempt sm = a"
      "at_AttemptOnTarget sm = aot" "at_TargetIndex sm = ti" "at_Error sm = res_Err l1"
    by auto
  have "consulted s ti req l1 aot ?pctx"
    using spec by (simp add: consulted_def pr_policyContext_def)
  then show thesis
    by (intro that [OF d(1) refl refl _ _ _ _ _ _ _ _ _ _ _ _ _ _ d(3) _ refl])
      (use d sm ag spec in simp_all)
qed

text \<open>A finished round: cancelled before an attempt, a success, or a failure that ends the run.\<close>

lemma pr_round_Finished:
  assumes "pr_round env ti req l s = Finished s'"
  obtains (cancelled) res err where
    "s' = pr_finish env res (Some err) True ''policy run cancelled'' (pr_observe s)" "res_Err res = Some err"
    "pe_ctx env (pr_tick s) \<noteq> None"
  | (attempted) sm dec s1 res err ex reason where
    "s' = pr_finish env res err ex reason s1" "pr_attempts s1 = pr_attempts s @ [sm]"
    "at_Attempt sm = int (length (pr_attempts s)) + 1"
    "at_AttemptOnTarget sm = aget_or 0 (pr_targetCounts s) ti + 1"
    "at_TargetIndex sm = ti"
    "at_Error sm = None \<longleftrightarrow> err = None" "ex \<longleftrightarrow> err \<noteq> None" "res_Err res = err"
    "map pd_Attempt (pr_decisions s1) = map pd_Attempt (pr_decisions s) @ dec" "dec = [] \<or> dec = [at_Attempt sm]"
    "pr_id s1 = pr_id s"
proof (cases "pe_ctx env (pr_tick s)")
  case (Some ce)
  with assms have "s' = pr_finishCancelled env ce l (pr_observe s)"
    by (simp add: pr_round_def Let_def)
  then show thesis
    using cancelled Some by (simp add: pr_finishCancelled_def contextPolicyError_def Let_def)
next
  case None
  obtain l1 a aot s1 where rec: "pr_recordAttempt env ti req (pr_observe s) = (l1, a, aot, s1)"
    by (cases "pr_recordAttempt env ti req (pr_observe s)") auto
  note spec = pr_recordAttempt_spec [OF rec]
  from spec(3) obtain sm where sm: "pr_attempts s1 = pr_attempts s @ [sm]" "at_Attempt sm = a"
      "at_AttemptOnTarget sm = aot" "at_TargetIndex sm = ti" "at_Error sm = res_Err l1"
    by auto
  show thesis
  proof (cases "res_Err l1")
    case err: None
    with assms None rec have "s' = pr_finish env l1 None False [] s1"
      by (simp add: pr_round_def pr_attempt_def Let_def)
    then show thesis
      using attempted [of l1 None False "[]" s1 sm "[]"] sm spec err by simp
  next
    case err: (Some e)
    let ?pctx = "pr_policyContext (pr_observe s1) req a aot ti l1 (pe_now env (pr_tick s1))"
    let ?t = "pr_tick (pr_observe s1)"
    from assms None rec err consider
      (failed) e' where "s' = pr_finish env (l1\<lparr>res_Err := ensureSDKError (Some e') ''policy decide''\<rparr>)
          (ensureSDKError (Some e') ''policy decide'') True ''policy decision failed'' (pr_observe (pr_observe s1))"
    | (decided) d where "pr_applyDecision env d ti req l1
          (pr_recordDecision env a ti d ?pctx (pr_observe (pr_observe s1))) = Finished s'"
      by (auto simp: pr_round_def pr_attempt_def pr_consult_def pr_now_def Let_def
          split: option.splits if_splits sum.splits)
    then show thesis
    proof cases
      case failed
      then show thesis
        using attempted [OF failed, of sm "[]"] sm spec err by simp
    next
      case decided
      from pr_applyDecision_Finished [OF this] err obtain res reason s2 where
        "s' = pr_finish env res (res_Err res) True reason s2" "res_Err res \<noteq> None"
        "s2 = pr_recordDecision env a ti d ?pctx (pr_observe (pr_observe s1)) \<or>
         s2 = pr_observe (pr_recordDecision env a ti d ?pctx (pr_observe (pr_observe s1)))"
        by auto
      then show thesis
        using attempted [of res "res_Err res" True reason s2 sm "[a]"] sm spec err by auto
    qed
  qed
qed

lemma pr_round_Panicked:
  assumes "pr_round env ti req l s = Panicked"
  shows "\<exists>t pctx. pe_decide env t pctx = None \<and> pctx_TargetIndex pctx = ti"
proof -
  have "pctx_TargetIndex (pr_policyContext s1 req a aot ti l1 now) = ti" for s1 a aot l1 now
    by (simp add: pr_policyContext_def)
  with assms show ?thesis
    by (auto simp: pr_round_def pr_attempt_def pr_consult_def pr_applyDecision_not_Panicked
          Let_def case_prod_beta split: option.splits if_splits sum.splits) blast
qed

section \<open>The event stream of a policy run\<close>

lemma pr_stampEvent_ID:
  "ev_ID (fst (pr_stampEvent env e s)) =
     (if ev_ID e = [] then generated_id (pr_id s) (pr_seq s + 1) else ev_ID e)"
  by (simp add: pr_stampEvent_def pr_now_def generated_id_def Let_def)

interpretation policy_stream: event_sender "pr_sendEvent env" pr_sent pr_seq pr_id for env
proof unfold_locales
  fix e s
  have "pr_sent (pr_sendEvent env e s) = pr_sent s
      \<or> pr_sent (pr_sendEvent env e s) = pr_sent s @ [fst (pr_stampEvent env e s)]"
    by (simp add: pr_sendEvent_def Let_def case_prod_beta)
  then show "pr_sent (pr_sendEvent env e s) = pr_sent s \<or>
      (\<exists>e'. pr_sent (pr_sendEvent env e s) = pr_sent s @ [e']
        \<and> ev_ID e' = (if ev_ID e = [] then generated_id (pr_id s) (pr_seq s + 1) else ev_ID e))"
    using pr_stampEvent_ID [of env e s] by blast
qed simp_all

lemma pr_forwardEvents_fold:
  "pr_forwardEvents env es a ti s = fold (pr_sendEvent env) (map (pr_annotate (pr_id s) a ti) es) s"
proof -
  have "fold (\<lambda>e s. pr_sendEvent env (pr_annotate (pr_id s) a ti e) s) es s
      = fold (pr_sendEvent env) (map (pr_annotate rid a ti) es) s" if "rid = pr_id s" for rid s
    using that by (induction es arbitrary: s) simp_all
  then show ?thesis by (simp add: pr_forwardEvents_def)
qed

end
