(* ===== verification/PolicyLaws.thy ===== *)
theory PolicyLaws
  imports PolicyRun
begin

text \<open>
  What a policy run guarantees: the bookkeeping of attempts and decisions for every policy and
  every environment, the end of the run for every bounded policy, and the fate of every event.
\<close>

section \<open>Bookkeeping of attempts\<close>

text \<open>
  Attempts are numbered from 1, and each carries its rank among the attempts on the same target.
\<close>

definition attempts_numbered :: "AttemptSummary list \<Rightarrow> bool" where
  "attempts_numbered xs \<longleftrightarrow>
     (\<forall>i < length xs. at_Attempt (xs ! i) = int i + 1
        \<and> at_AttemptOnTarget (xs ! i) =
            int (length (filter (\<lambda>a. at_TargetIndex a = at_TargetIndex (xs ! i)) (take (Suc i) xs))))"

definition on_target :: "AttemptSummary list \<Rightarrow> int \<Rightarrow> int" where
  "on_target xs k = int (length (filter (\<lambda>a. at_TargetIndex a = k) xs))"

lemma attempts_numbered_Nil [simp]: "attempts_numbered []"
  by (simp add: attempts_numbered_def)

lemma on_target_simps [simp]:
  "on_target [] k = 0"
  "on_target (xs @ [a]) k = on_target xs k + (if at_TargetIndex a = k then 1 else 0)"
  by (simp_all add: on_target_def)

lemma attempts_numbered_snoc [simp]:
  "attempts_numbered (xs @ [a]) \<longleftrightarrow>
     attempts_numbered xs \<and> at_Attempt a = int (length xs) + 1
     \<and> at_AttemptOnTarget a = on_target xs (at_TargetIndex a) + 1"
proof -
  have "(\<forall>i < Suc (length xs). Q i) \<longleftrightarrow> (\<forall>i < length xs. Q i) \<and> Q (length xs)" for Q
    by (auto simp: less_Suc_eq)
  then show ?thesis
    by (auto simp: attempts_numbered_def on_target_def nth_append)
qed

text \<open>The loop head: every attempt so far failed and led to a decision other than stop.\<close>

definition loop_inv :: "policyRun \<Rightarrow> bool" where
  "loop_inv s \<longleftrightarrow>
     attempts_numbered (pr_attempts s)
     \<and> (\<forall>k. aget_or 0 (pr_targetCounts s) k = on_target (pr_attempts s) k)
     \<and> (\<forall>a \<in> set (pr_attempts s). at_Error a \<noteq> None)
     \<and> map pd_Attempt (pr_decisions s) = map at_Attempt (pr_attempts s)
     \<and> map pd_TargetIndex (pr_decisions s) = map at_TargetIndex (pr_attempts s)
     \<and> PolicyDecisionStop \<notin> set (map pd_Kind (pr_decisions s))"

text \<open>What the handle reports at the end.\<close>

definition run_report :: "policyRun \<Rightarrow> bool" where
  "run_report s \<longleftrightarrow>
     (let md = res_Metadata (pr_result s); as = md_Attempts md; pol = md_Policy md
      in attempts_numbered as
         \<and> (\<forall>a \<in> set (butlast as). at_Error a \<noteq> None)
         \<and> (pr_waitErr s = None \<longleftrightarrow> as \<noteq> [] \<and> at_Error (last as) = None)
         \<and> res_Err (pr_result s) = pr_waitErr s
         \<and> pol_Exhausted pol = (pr_waitErr s \<noteq> None)
         \<and> pol_FinalAttempt pol = int (length as)
         \<and> pol_FinalTargetIndex pol = finalTargetIndex as
         \<and> prefix (map pd_Attempt (pol_Decisions pol)) (map at_Attempt as)
         \<and> length as \<le> Suc (length (pol_Decisions pol)))"

lemma pr_round_inv:
  assumes "pr_round env ti req l s = Again s' ti' req' l'" and "loop_inv s"
  shows "loop_inv s'"
  using assms(1)
proof (cases rule: pr_round_Again)
  case (1 a aot sm t pctx d d')
  with assms(2) show ?thesis
    by (auto simp: loop_inv_def)
qed

lemma pr_round_report:
  assumes "pr_round env ti req l s = Finished s'" and "loop_inv s"
  shows "run_report s'"
  using assms(1)
proof (cases rule: pr_round_Finished)
  case (cancelled res err)
  with assms(2) show ?thesis
    by (auto simp: loop_inv_def run_report_def Let_def dest: in_set_butlastD map_eq_imp_length_eq)
next
  case (attempted sm dec s1 res err ex reason)
  have "length (pr_decisions s1) = length (pr_decisions s) + length dec"
    using arg_cong [OF attempted(9), of length] by simp
  with attempted assms(2) show ?thesis
    by (auto simp: loop_inv_def run_report_def Let_def dest: map_eq_imp_length_eq)
qed

lemma pr_loop_report:
  "pr_loop env fuel ti req l s = Some (Finished s') \<Longrightarrow> loop_inv s \<Longrightarrow> run_report s'"
proof (induction fuel arbitrary: ti req l s)
  case (Suc fuel)
  then show ?case
    by (auto split: round_end.splits dest: pr_round_inv pr_round_report)
qed simp

text \<open>The state \<open>StartRun\<close> hands to the goroutine.\<close>

lemma policy_StartRun_fresh:
  assumes "policy_StartRun env r counter req = (Inr s, counter')"
  shows "loop_inv s" "pr_attempts s = []" "pr_targetCounts s = []" "pr_sent s = []" "pr_seq s = 0"
    "pr_droppedEvents s = []" "pr_alternatives s = rn_Alternatives r" "pr_original s = req"
    "rn_Runtime r = Some (pr_primary s)"
  using assms by (auto simp: policy_StartRun_def loop_inv_def split: option.splits)

section \<open>Termination under a bounded policy\<close>

text \<open>
  The attempts a run may still make from the loop head on: what is left on the current target and
  the full allowance on each later one.
\<close>

definition attempts_left :: "int \<Rightarrow> int \<Rightarrow> policyRun \<Rightarrow> int \<Rightarrow> int" where
  "attempts_left perTarget lastTarget s ti =
     (lastTarget - ti) * perTarget + (perTarget - aget_or 0 (pr_targetCounts s) ti)"

definition in_budget :: "int \<Rightarrow> int \<Rightarrow> policyRun \<Rightarrow> int \<Rightarrow> bool" where
  "in_budget perTarget lastTarget s ti \<longleftrightarrow>
     0 \<le> ti \<and> ti \<le> lastTarget \<and> int (length (pr_alternatives s)) \<le> lastTarget
     \<and> aget_or 0 (pr_targetCounts s) ti < perTarget
     \<and> (\<forall>k > ti. aget_or 0 (pr_targetCounts s) k = 0)
     \<and> (\<forall>a \<in> set (pr_attempts s). at_TargetIndex a \<le> ti)
     \<and> sorted (map at_TargetIndex (pr_attempts s))"

context bounded_policy
begin

lemma round_in_budget:
  assumes env: "pe_decide env = decide"
    and again: "pr_round env ti req l s = Again s' ti' req' l'"
    and inv: "in_budget perTarget lastTarget s ti"
  shows "in_budget perTarget lastTarget s' ti'
    \<and> attempts_left perTarget lastTarget s' ti' < attempts_left perTarget lastTarget s ti
    \<and> length (pr_attempts s') = Suc (length (pr_attempts s))"
  using again
proof (cases rule: pr_round_Again)
  case (1 a aot sm t pctx d d')
  note attempts = 1(4,7) and counts = 1(3,10)
  have dec: "decide t pctx = Some (Inr d)" and c: "consulted s ti req l' aot pctx"
    using 1 env by simp_all
  have kind: "dec_Kind d' = (if dec_Kind d = NoDecisionKind then PolicyDecisionStop else dec_Kind d)"
    and target: "dec_TargetIndex d' = dec_TargetIndex d"
    using 1(20) by simp_all
  from 1(21) show ?thesis
  proof
    assume retry: "dec_Kind d' \<in> {PolicyDecisionRetry, PolicyDecisionWait} \<and> ti' = ti
      \<and> req' = requestForDecision req d' \<and> pr_alternatives s' = pr_alternatives s"
    then have "dec_Kind d \<in> {PolicyDecisionRetry, PolicyDecisionWait}"
      using kind by (auto split: if_splits)
    from retry_below [OF dec this] c have "aot < perTarget"
      by (simp add: consulted_def)
    then show ?thesis
      using retry inv attempts counts
      by (auto simp: in_budget_def attempts_left_def sorted_append)
  next
    assume fb: "dec_Kind d' = PolicyDecisionFallback \<and> ti' = dec_TargetIndex d'
      \<and> req' = fallbackRequest (pr_original s) d' (pr_targetFor s' ti')
      \<and> length (pr_alternatives s') \<le> max (length (pr_alternatives s)) (nat (dec_TargetIndex d'))"
    then have "dec_Kind d = PolicyDecisionFallback"
      using kind by (auto split: if_splits)
    from fallback_later [OF dec this] c inv have later: "ti < ti'" "ti' \<le> lastTarget"
      using fb target by (simp_all add: consulted_def in_budget_def)
    have unvisited: "aget_or 0 (pr_targetCounts s') ti' = 0"
      using later inv counts by (simp add: in_budget_def)
    have "int (length (pr_alternatives s')) \<le> lastTarget"
      using fb later inv by (auto simp: in_budget_def)
    then have "in_budget perTarget lastTarget s' ti'"
      using later inv attempts counts unvisited perTarget_pos
      by (auto simp: in_budget_def sorted_append)
    moreover have "(lastTarget - ti') * perTarget + perTarget \<le> (lastTarget - ti) * perTarget"
    proof -
      have "(lastTarget - ti' + 1) * perTarget \<le> (lastTarget - ti) * perTarget"
        using later perTarget_pos by (intro mult_right_mono) auto
      then show ?thesis by (simp add: algebra_simps)
    qed
    ultimately show ?thesis
      using unvisited inv attempts by (simp add: attempts_left_def in_budget_def)
  qed
qed

lemma loop_ends:
  assumes env: "pe_decide env = decide"
  shows "in_budget perTarget lastTarget s ti \<Longrightarrow>
    attempts_left perTarget lastTarget s ti \<le> int fuel \<Longrightarrow>
    \<exists>s'. pr_loop env fuel ti req l s = Some (Finished s')
      \<and> int (length (pr_attempts s')) \<le> int (length (pr_attempts s)) + attempts_left perTarget lastTarget s ti
      \<and> sorted (map at_TargetIndex (pr_attempts s'))
      \<and> (\<forall>a \<in> set (pr_attempts s'). at_TargetIndex a \<le> lastTarget)"
proof (induction fuel arbitrary: ti req l s)
  case 0
  have "0 \<le> (lastTarget - ti) * perTarget"
    using 0 perTarget_pos by (simp add: in_budget_def)
  with 0 show ?case
    by (simp add: attempts_left_def in_budget_def)
next
  case (Suc fuel)
  have pos: "1 \<le> attempts_left perTarget lastTarget s ti"
  proof -
    have "0 \<le> (lastTarget - ti) * perTarget"
      using Suc.prems perTarget_pos by (simp add: in_budget_def)
    then show ?thesis
      using Suc.prems by (simp add: attempts_left_def in_budget_def)
  qed
  show ?case
  proof (cases "pr_round env ti req l s")
    case (Finished s')
    then have "length (pr_attempts s') \<le> Suc (length (pr_attempts s))
      \<and> sorted (map at_TargetIndex (pr_attempts s'))
      \<and> (\<forall>a \<in> set (pr_attempts s'). at_TargetIndex a \<le> lastTarget)"
      using Suc.prems(1)
      by (cases rule: pr_round_Finished) (auto simp: in_budget_def sorted_append)
    with Finished pos show ?thesis by auto
  next
    case (Again s1 ti1 req1 l1)
    with round_in_budget [OF env Again Suc.prems(1)] Suc.prems(2)
    have "in_budget perTarget lastTarget s1 ti1" "attempts_left perTarget lastTarget s1 ti1 \<le> int fuel"
      by auto
    from Suc.IH [OF this] round_in_budget [OF env Again Suc.prems(1)] Again show ?thesis
      by fastforce
  next
    case Panicked
    from pr_round_Panicked [OF this] obtain t pctx where "decide t pctx = None" "pctx_TargetIndex pctx = ti"
      using env by auto
    with answers [of pctx t] Suc.prems(1) show ?thesis
      by (simp add: in_budget_def)
  qed
qed

lemma run_ends:
  assumes env: "pe_decide env = decide"
    and start: "policy_StartRun env r counter req = (Inr s, counter')"
    and alts: "int (length (rn_Alternatives r)) \<le> lastTarget"
    and fuel: "perTarget * (lastTarget + 1) \<le> int fuel"
  shows "\<exists>s'. pr_execute env fuel s = Some (Finished s')
      \<and> int (length (pr_attempts s')) \<le> perTarget * (lastTarget + 1)
      \<and> sorted (map at_TargetIndex (pr_attempts s'))
      \<and> (\<forall>a \<in> set (pr_attempts s'). at_TargetIndex a \<le> lastTarget)"
proof -
  note fresh = policy_StartRun_fresh [OF start]
  have left: "attempts_left perTarget lastTarget s 0 = perTarget * (lastTarget + 1)"
    using fresh by (simp add: attempts_left_def algebra_simps)
  have "in_budget perTarget lastTarget s 0"
    using fresh alts perTarget_pos lastTarget_nonneg by (simp add: in_budget_def)
  from loop_ends [OF env this, of fuel "pr_original s" zero_RunResult] left fuel fresh show ?thesis
    by (auto simp: pr_execute_def)
qed

end

section \<open>Where events go\<close>

text \<open>An event names the attempt and the target it belongs to.\<close>

definition attributed :: "int \<Rightarrow> int \<Rightarrow> Event \<Rightarrow> bool" where
  "attributed a ti e \<longleftrightarrow>
     gget (entries (ev_Payload e)) ''attempt'' = GInt a
     \<and> gget (entries (ev_Payload e)) ''target_index'' = GInt ti"

text \<open>
  A step that only sends events of one attempt, each of them sent or recorded as dropped as long
  as the context is live.
\<close>

definition sends :: "policy_env \<Rightarrow> int \<Rightarrow> int \<Rightarrow> policyRun \<Rightarrow> policyRun \<Rightarrow> bool" where
  "sends env a ti s s' \<longleftrightarrow>
     (\<exists>new. pr_sent s' = pr_sent s @ new \<and> (\<forall>e \<in> set new. attributed a ti e))
     \<and> (pe_ctx env = (\<lambda>t. None) \<longrightarrow>
          pr_seq s' - int (length (pr_sent s')) - int (length (pr_droppedEvents s')) =
          pr_seq s - int (length (pr_sent s)) - int (length (pr_droppedEvents s)))"

lemma sends_refl: "pr_sent s' = pr_sent s \<Longrightarrow> pr_seq s' = pr_seq s \<Longrightarrow>
    pr_droppedEvents s' = pr_droppedEvents s \<Longrightarrow> sends env a ti s s'"
  by (simp add: sends_def)

lemma sends_trans: "sends env a ti s s1 \<Longrightarrow> sends env a ti s1 s2 \<Longrightarrow> sends env a ti s s2"
  unfolding sends_def by (elim conjE exE, intro conjI) (fastforce, simp)

lemma stamp_attributed: "attributed a ti (fst (pr_stampEvent env e s)) = attributed a ti e"
  by (simp add: pr_stampEvent_def pr_now_def attributed_def Let_def)

lemma sends_sendEvent:
  assumes "attributed a ti e"
  shows "sends env a ti s (pr_sendEvent env e s)"
proof -
  have "attributed a ti (fst (pr_stampEvent env e s))"
    using assms by (simp add: stamp_attributed)
  then show ?thesis
    by (auto simp: sends_def pr_sendEvent_def Let_def case_prod_beta)
qed

lemma sends_forwardEvents: "sends env a ti s (pr_forwardEvents env events a ti s)"
  unfolding pr_forwardEvents_def
proof (induction events arbitrary: s)
  case (Cons e events)
  have "attributed a ti (pr_annotate (pr_id s) a ti e)"
    by (simp add: attributed_def pr_annotate_def)
  from sends_trans [OF sends_sendEvent [OF this] Cons.IH] show ?case
    by simp
qed (simp add: sends_refl)

lemma sends_recordDecision: "sends env a ti s (pr_recordDecision env a ti d pctx s)"
proof -
  have rl: "attributed a ti (pr_rateLimitEvent s a ti rl)" for rl
    by (simp add: attributed_def pr_rateLimitEvent_def EventPayloadWithKind_def aget_or_def)
  have de: "attributed a ti (pr_decisionEvent s a ti d)"
    by (simp add: attributed_def pr_decisionEvent_def EventPayloadWithKind_def aget_or_def)
  have rec: "sends env a ti s (s\<lparr>pr_decisions := ds\<rparr>)" for ds
    by (rule sends_refl) simp_all
  note one = sends_trans [OF rec sends_sendEvent [OF de]]
  note two = sends_trans [OF sends_trans [OF rec sends_sendEvent [OF rl]] sends_sendEvent [OF de]]
  show ?thesis
    by (auto simp: pr_recordDecision_def Let_def intro: rec one two split: option.split)
qed

lemma sends_runAttempt: "sends env a ti s (snd (pr_runAttempt env a ti req st s))"
proof -
  have "sends env a ti (s\<lparr>pr_tick := t, pr_current := c\<rparr>)
      (pr_forwardEvents env es a ti (s\<lparr>pr_tick := t, pr_current := c\<rparr>))" for t c es
    by (rule sends_forwardEvents)
  then show ?thesis
    by (auto simp: pr_runAttempt_def pr_now_def pr_setCurrent_def pr_clearCurrent_def pr_observe_def
        sends_def Let_def split: sum.split)
qed

lemma sends_recordAttempt:
  assumes "pr_recordAttempt env ti req s = (l, a, aot, s')"
  shows "sends env a ti s s'"
proof -
  let ?s1 = "s\<lparr>pr_targetCounts := aput ti aot (pr_targetCounts s)\<rparr>"
  have "sends env a ti s (pr_observe ?s1)"
    by (rule sends_refl) simp_all
  from sends_trans [OF this sends_runAttempt] show ?thesis
    using assms
    by (auto simp: pr_recordAttempt_def pr_now_def Let_def case_prod_beta sends_def)
qed

lemma sends_applyDecision:
  "pr_applyDecision env d ti req l s = Finished s' \<Longrightarrow> res_Err l \<noteq> None \<Longrightarrow> sends env a k s s'"
  "pr_applyDecision env d ti req l s = Again s' ti' req' l' \<Longrightarrow> sends env a k s s'"
  by (auto simp: sends_def pr_applyDecision_def Let_def pr_applyDecisionTarget_def
      dest!: pr_applyDecision_Finished split: if_splits option.splits PolicyDecisionKind.splits)

text \<open>The state in which a round leaves the run, whatever it decided.\<close>

fun round_state :: "round_end \<Rightarrow> policyRun option" where
  "round_state (Finished s) = Some s"
| "round_state (Again s ti req l) = Some s"
| "round_state Panicked = None"

lemma sends_round:
  assumes "round_state (pr_round env ti req l s) = Some s'"
  shows "sends env (int (length (pr_attempts s)) + 1) ti s s'"
proof (cases "pe_ctx env (pr_tick s)")
  case (Some ce)
  with assms show ?thesis
    by (auto simp: pr_round_def pr_finishCancelled_def Let_def intro: sends_refl)
next
  case None
  obtain l1 a aot s1 where rec: "pr_recordAttempt env ti req (pr_observe s) = (l1, a, aot, s1)"
    by (cases "pr_recordAttempt env ti req (pr_observe s)") auto
  have a: "a = int (length (pr_attempts s)) + 1"
    using pr_recordAttempt_spec(1) [OF rec] by simp
  have s1: "sends env a ti s s1"
    using sends_trans [OF sends_refl sends_recordAttempt [OF rec]] by simp
  have obs: "sends env a ti s (pr_observe (pr_observe s1))"
    by (rule sends_trans [OF s1]) (simp add: sends_refl)
  note dec = sends_trans [OF obs sends_recordDecision]
  have fin: "sends env a ti s (pr_finish env r err ex rs s2)" if "sends env a ti s s2" for r err ex rs s2
    by (rule sends_trans [OF that]) (simp add: sends_refl)
  have app: "sends env a ti s s'" if "res_Err l1 \<noteq> None"
    "round_state (pr_applyDecision env d ti req l1 (pr_recordDecision env a ti d pctx (pr_observe (pr_observe s1)))) = Some s'"
    for d pctx
    using that sends_trans [OF dec sends_applyDecision(1)] sends_trans [OF dec sends_applyDecision(2)]
    by (cases "pr_applyDecision env d ti req l1 (pr_recordDecision env a ti d pctx (pr_observe (pr_observe s1)))") auto
  have "sends env a ti s s'"
    using assms None rec
    by (auto simp: pr_round_def pr_attempt_def pr_consult_def pr_now_def Let_def
        simp del: pr_observe_simps split: option.splits if_splits sum.splits intro: fin s1 obs app)
  with a show ?thesis by simp
qed

text \<open>Every event delivered so far belongs to a recorded attempt.\<close>

definition events_attributed :: "policyRun \<Rightarrow> bool" where
  "events_attributed s \<longleftrightarrow>
     (\<forall>e \<in> set (pr_sent s). \<exists>x \<in> set (pr_attempts s). attributed (at_Attempt x) (at_TargetIndex x) e)"

definition events_conserved :: "policyRun \<Rightarrow> bool" where
  "events_conserved s \<longleftrightarrow> pr_seq s = int (length (pr_sent s)) + int (length (pr_droppedEvents s))"

lemma round_conserved:
  assumes "round_state (pr_round env ti req l s) = Some s'" and "pe_ctx env = (\<lambda>t. None)"
    and "events_conserved s"
  shows "events_conserved s'"
  using sends_round [OF assms(1)] assms(2,3) by (simp add: sends_def events_conserved_def)

lemma round_attributed:
  assumes s': "round_state (pr_round env ti req l s) = Some s'" and inv: "events_attributed s"
  shows "events_attributed s'"
proof -
  from sends_round [OF s'] obtain new where new: "pr_sent s' = pr_sent s @ new"
      "\<forall>e \<in> set new. attributed (int (length (pr_attempts s)) + 1) ti e"
    by (auto simp: sends_def)
  have step: ?thesis if "pr_attempts s' = pr_attempts s @ [sm]"
      "at_Attempt sm = int (length (pr_attempts s)) + 1" "at_TargetIndex sm = ti" for sm
    using that new inv by (auto simp: events_attributed_def)
  show ?thesis
  proof (cases "pr_round env ti req l s")
    case (Finished x)
    with s' have "x = s'" by simp
    from Finished show ?thesis
    proof (cases rule: pr_round_Finished)
      case cancelled
      with inv have "events_attributed x" by (simp add: events_attributed_def)
      with \<open>x = s'\<close> show ?thesis by simp
    next
      case (attempted sm)
      then have "pr_attempts x = pr_attempts s @ [sm]" by simp
      with attempted(3,5) \<open>x = s'\<close> show ?thesis by (intro step) simp_all
    qed
  next
    case (Again x ti1 req1 l1)
    with s' have "x = s'" by simp
    with Again show ?thesis
      by (elim pr_round_Again) (rule step; simp)
  next
    case Panicked
    with s' show ?thesis by simp
  qed
qed

lemma pr_loop_invariant:
  assumes step: "\<And>s s' ti req l. round_state (pr_round env ti req l s) = Some s' \<Longrightarrow> P s \<Longrightarrow> P s'"
  shows "pr_loop env fuel ti req l s = Some (Finished s') \<Longrightarrow> P s \<Longrightarrow> P s'"
proof (induction fuel arbitrary: ti req l s)
  case (Suc fuel)
  show ?case
  proof (cases "pr_round env ti req l s")
    case (Finished x)
    with Suc.prems step [of ti req l s x] show ?thesis by simp
  next
    case (Again x ti1 req1 l1)
    with Suc.prems step [of ti req l s x] Suc.IH show ?thesis by auto
  next
    case Panicked
    with Suc.prems show ?thesis by simp
  qed
qed simp

lemma pr_loop_dropped:
  "pr_loop env fuel ti req l s = Some (Finished s') \<Longrightarrow>
     pol_DroppedEvents (md_Policy (res_Metadata (pr_result s'))) = pr_droppedEvents s'
     \<and> md_Attempts (res_Metadata (pr_result s')) = pr_attempts s' \<and> pr_done s'"
proof (induction fuel arbitrary: ti req l s)
  case (Suc fuel)
  have fin: "pr_round env ti req l s = Finished x \<Longrightarrow>
      pol_DroppedEvents (md_Policy (res_Metadata (pr_result x))) = pr_droppedEvents x
      \<and> md_Attempts (res_Metadata (pr_result x)) = pr_attempts x \<and> pr_done x" for x
    by (erule pr_round_Finished) simp_all
  with Suc show ?case
    by (auto split: round_end.splits)
qed simp

section \<open>A concrete run\<close>

text \<open>
  Two attempts per target, a runtime that times out once and then completes with one event, a
  consumer that keeps up.
\<close>

definition demo_policy :: BasicPolicy where
  "demo_policy = zero_BasicPolicy\<lparr>bp_MaxAttemptsPerTarget := 2\<rparr>"

definition demo_event :: Event where
  "demo_event = \<lparr>ev_ID = [], ev_RunID = [], ev_SessionID = [], ev_Time = 0, ev_Type = ''message'',
     ev_Payload = None, ev_Raw = None\<rparr>"

definition demo_env :: policy_env where
  "demo_env =
     \<lparr>pe_now = (\<lambda>t. int t + 1), pe_ctx = (\<lambda>t. None), pe_room = (\<lambda>t. True), pe_pick = (\<lambda>t. False),
      pe_start = (\<lambda>t rt req.
        if t < 6 then Inl (ESDK (NewError ErrorTimeout ''start'' ''slow'' None []))
        else Inr \<lparr>out_ID = ''run-1'', out_Events = [demo_event],
                  out_Result = zero_RunResult\<lparr>res_RunID := ''run-1'', res_Status := StatusCompleted\<rparr>,
                  out_WaitErr = None\<rparr>),
      pe_decide = basic_decide (\<lambda>t. None) (\<lambda>t. int t + 1) demo_policy,
      pe_sleep = (\<lambda>t d. None)\<rparr>"

definition demo_runner :: PolicyRunner where
  "demo_runner = \<lparr>rn_Runtime = Some 0, rn_Alternatives = []\<rparr>"

definition demo_run :: policyRun where
  "demo_run = projr (fst (policy_StartRun demo_env demo_runner 0 zero_RunRequest))"

lemma demo_start: "policy_StartRun demo_env demo_runner 0 zero_RunRequest = (Inr demo_run, 1)"
  by (simp add: demo_run_def policy_StartRun_def demo_runner_def)

lemma demo_decide: "pe_decide demo_env = basic_decide (pe_ctx demo_env) (pe_now demo_env) demo_policy"
  by (simp add: demo_env_def)

lemma demo_ends: "\<exists>s'. pr_execute demo_env 2 demo_run = Some (Finished s')"
  using basic.run_ends [OF demo_decide demo_start, of 0 2]
  by (auto simp: demo_runner_def demo_policy_def zero_BasicPolicy_def)

section \<open>Properties of a policy run\<close>



text \<open>
  C2. The report of a finished run, for every policy: attempts are numbered from 1 with their rank
  on their target, every attempt but the last failed, the wait error is nil exactly when the last
  attempt succeeded, it is the error of the result, the run counts as exhausted exactly when it
  failed, and the recorded decisions belong to the attempts in order, at most one of them missing.
\<close>

theorem policy_run_report:
  assumes "policy_StartRun env r counter req = (Inr s, counter')"
    and "pr_execute env fuel s = Some (Finished s')"
  shows "run_report s'"
  using assms pr_loop_report policy_StartRun_fresh(1) by (auto simp: pr_execute_def)

theorem policy_run_report_witness:
  "\<exists>s'. pr_execute demo_env 2 demo_run = Some (Finished s') \<and> run_report s'"
  using demo_ends policy_run_report [OF demo_start] by blast

text \<open>
  C4. Every event of the logical stream names, in its payload, the number and the target of an
  attempt that the result reports.
\<close>

theorem policy_events_attributed:
  assumes "policy_StartRun env r counter req = (Inr s, counter')"
    and "pr_execute env fuel s = Some (Finished s')"
  shows "\<forall>e \<in> set (pr_sent s'). \<exists>x \<in> set (md_Attempts (res_Metadata (pr_result s'))).
           attributed (at_Attempt x) (at_TargetIndex x) e"
proof -
  have "events_attributed s"
    using policy_StartRun_fresh(4) [OF assms(1)] by (simp add: events_attributed_def)
  then have "events_attributed s'"
    using pr_loop_invariant [of env events_attributed] round_attributed assms(2)
    by (auto simp: pr_execute_def)
  then show ?thesis
    using pr_loop_dropped assms(2) by (auto simp: pr_execute_def events_attributed_def)
qed

theorem policy_events_attributed_witness:
  "\<exists>s'. pr_execute demo_env 2 demo_run = Some (Finished s')
      \<and> (\<forall>e \<in> set (pr_sent s'). \<exists>x \<in> set (md_Attempts (res_Metadata (pr_result s'))).
           attributed (at_Attempt x) (at_TargetIndex x) e)"
  using demo_ends policy_events_attributed [OF demo_start] by blast



text \<open>
  Events without an identity of their own get identities that never repeat: forwarding any number
  of them from a fresh run delivers events whose identities are pairwise distinct, and the sequence
  number counts all of them, delivered or not.
\<close>

theorem policy_event_ids_unique:
  assumes "policy_StartRun env r counter req = (Inr s, counter')"
    and "list_all (\<lambda>e. ev_ID e = []) events"
  shows "distinct (map ev_ID (pr_sent (pr_forwardEvents env events a ti s)))
    \<and> pr_seq (pr_forwardEvents env events a ti s) = int (length events)"
proof -
  note fresh = policy_StartRun_fresh [OF assms(1)]
  have "list_all (\<lambda>e. ev_ID e = []) (map (pr_annotate (pr_id s) a ti) events)"
    using assms(2) by (simp add: list_all_iff pr_annotate_def)
  from policy_stream.sends_generated [of s, OF _ _ this] fresh show ?thesis
    by (simp add: pr_forwardEvents_fold ids_generated_def)
qed

theorem policy_event_ids_unique_witness:
  "distinct (map ev_ID (pr_sent (pr_forwardEvents demo_env [demo_event, demo_event] 1 0 demo_run)))
    \<and> pr_seq (pr_forwardEvents demo_env [demo_event, demo_event] 1 0 demo_run) = 2"
  using policy_event_ids_unique [OF demo_start, of "[demo_event, demo_event]" 1 0]
  by (simp add: demo_event_def)

end
