(* ===== verification/Encoding.thy ===== *)
theory Encoding
  imports Prelude "HOL-Library.Word" "HOL-Library.Multiset" "HOL-Library.List_Lexorder" "HOL-Library.Char_ord"
begin

text \<open>
  The encodings the program takes from the standard library: hexadecimal
  (\<^verbatim>\<open>encoding/hex\<close>), SHA-256 (\<^verbatim>\<open>crypto/sha256\<close>), and the way
  \<^verbatim>\<open>encoding/json\<close> writes strings, integers and string maps (keys sorted).
\<close>

unbundle bit_operations_syntax

section \<open>Hexadecimal\<close>

definition hex_digit :: "nat \<Rightarrow> char" where
  "hex_digit n = (if n < 10 then char_of (48 + n) else char_of (87 + n))"

definition hex_byte :: "char \<Rightarrow> string" where
  "hex_byte c = (let n = (of_char c :: nat) in [hex_digit (n div 16), hex_digit (n mod 16)])"

definition hex_encode :: "string \<Rightarrow> string" where
  "hex_encode s = concat (map hex_byte s)"

definition hex_value :: "char \<Rightarrow> nat option" where
  "hex_value c =
     (let n = (of_char c :: nat)
      in if 48 \<le> n \<and> n \<le> 57 then Some (n - 48)
         else if 97 \<le> n \<and> n \<le> 102 then Some (n - 87)
         else if 65 \<le> n \<and> n \<le> 70 then Some (n - 55)
         else None)"

fun hex_decode :: "string \<Rightarrow> string option" where
  "hex_decode [] = Some []"
| "hex_decode [c] = None"
| "hex_decode (c # d # s) =
     (case (hex_value c, hex_value d, hex_decode s) of
        (Some x, Some y, Some t) \<Rightarrow> Some (char_of (16 * x + y) # t)
      | _ \<Rightarrow> None)"

lemma of_char_hex_digit: "n < 16 \<Longrightarrow> (of_char (hex_digit n) :: nat) = (if n < 10 then 48 + n else 87 + n)"
  by (simp add: hex_digit_def)

lemma hex_value_digit [simp]: "n < 16 \<Longrightarrow> hex_value (hex_digit n) = Some n"
  by (simp add: hex_value_def of_char_hex_digit Let_def)

lemma of_char_less_256: "(of_char c :: nat) < 256"
  by (metis of_char_mod_256 mod_less_divisor zero_less_numeral)

lemma hex_decode_encode [simp]: "hex_decode (hex_encode s) = Some s"
proof (induction s)
  case (Cons c s)
  have "(of_char c :: nat) div 16 < 16"
    using of_char_less_256 [of c] by (simp add: less_mult_imp_div_less)
  moreover have "char_of (16 * ((of_char c :: nat) div 16) + of_char c mod 16) = c"
    by (metis mult_div_mod_eq char_of_char)
  ultimately show ?case
    using Cons by (simp add: hex_encode_def hex_byte_def Let_def)
qed (simp add: hex_encode_def)

lemma length_hex_encode [simp]: "length (hex_encode s) = 2 * length s"
  by (induction s) (simp_all add: hex_encode_def hex_byte_def Let_def)

lemma lower_hex_digit: "n < 16 \<Longrightarrow> lower_char (hex_digit n) = hex_digit n"
  by (simp add: lower_char_def of_char_hex_digit)

lemma ToLower_hex_encode [simp]: "ToLower (hex_encode s) = hex_encode s"
proof (induction s)
  case (Cons c s)
  have "(of_char c :: nat) div 16 < 16"
    using of_char_less_256 [of c] by (simp add: less_mult_imp_div_less)
  with Cons show ?case
    by (simp add: hex_encode_def hex_byte_def ToLower_def lower_hex_digit Let_def)
qed (simp add: hex_encode_def ToLower_def)

section \<open>SHA-256\<close>

text \<open>
  The round constants are the first 32 bits of the fractional parts of the cube roots of the first
  64 primes, and the initial hash value those of the square roots of the first eight; both are
  written in decimal and checked against this definition below.
\<close>

definition sha_K :: "32 word list" where
  "sha_K =
    [1116352408, 1899447441, 3049323471, 3921009573, 961987163, 1508970993, 2453635748, 2870763221,
     3624381080, 310598401, 607225278, 1426881987, 1925078388, 2162078206, 2614888103, 3248222580,
     3835390401, 4022224774, 264347078, 604807628, 770255983, 1249150122, 1555081692, 1996064986,
     2554220882, 2821834349, 2952996808, 3210313671, 3336571891, 3584528711, 113926993, 338241895,
     666307205, 773529912, 1294757372, 1396182291, 1695183700, 1986661051, 2177026350, 2456956037,
     2730485921, 2820302411, 3259730800, 3345764771, 3516065817, 3600352804, 4094571909, 275423344,
     430227734, 506948616, 659060556, 883997877, 958139571, 1322822218, 1537002063, 1747873779,
     1955562222, 2024104815, 2227730452, 2361852424, 2428436474, 2756734187, 3204031479, 3329325298]"

definition sha_H0 :: "32 word list" where
  "sha_H0 =
    [1779033703, 3144134277, 1013904242, 2773480762, 1359893119, 2600822924, 528734635, 1541459225]"

definition first_primes :: "int list" where
  "first_primes =
    [2, 3, 5, 7, 11, 13, 17, 19, 23, 29, 31, 37, 41, 43, 47, 53, 59, 61, 67, 71, 73, 79, 83, 89, 97, 101,
     103, 107, 109, 113, 127, 131, 137, 139, 149, 151, 157, 163, 167, 173, 179, 181, 191, 193, 197, 199,
     211, 223, 227, 229, 233, 239, 241, 251, 257, 263, 269, 271, 277, 281, 283, 293, 307, 311]"

text \<open>\<open>w\<close> holds the first 32 fractional bits of the \<open>n\<close>-th root of \<open>p\<close>, whose integer part is below 8.\<close>

definition root_fraction :: "nat \<Rightarrow> int \<Rightarrow> 32 word \<Rightarrow> bool" where
  "root_fraction n p w \<longleftrightarrow>
     (let r = int (length (takeWhile (\<lambda>i. i ^ n \<le> p) [1, 2, 3, 4, 5, 6, 7])) * 2 ^ 32 + uint w
      in r ^ n \<le> p * 2 ^ (32 * n) \<and> p * 2 ^ (32 * n) < (r + 1) ^ n)"

lemma sha_K_roots: "list_all2 (root_fraction 3) first_primes sha_K"
  by (simp add: first_primes_def sha_K_def root_fraction_def)

lemma sha_H0_roots: "list_all2 (root_fraction 2) (take 8 first_primes) sha_H0"
  by (simp add: first_primes_def sha_H0_def root_fraction_def)

definition byte_of_int :: "int \<Rightarrow> char" where
  "byte_of_int n = char_of (nat (n mod 256))"

definition be_bytes :: "nat \<Rightarrow> int \<Rightarrow> string" where
  "be_bytes k n = map (\<lambda>i. byte_of_int (n div 256 ^ (k - 1 - i))) [0..<k]"

definition sha_pad :: "string \<Rightarrow> string" where
  "sha_pad m =
     (let n = length m
      in m @ [CHR 0x80] @ replicate ((119 - n mod 64) mod 64) (CHR 0x00) @ be_bytes 8 (8 * int n mod 2 ^ 64))"

fun be_words :: "string \<Rightarrow> 32 word list" where
  "be_words (a # b # c # d # s) =
     word_of_int (((of_char a * 256 + of_char b) * 256 + of_char c) * 256 + of_char d) # be_words s"
| "be_words _ = []"

definition sha_s0 :: "32 word \<Rightarrow> 32 word" where
  "sha_s0 x = word_rotr 7 x XOR word_rotr 18 x XOR drop_bit 3 x"

definition sha_s1 :: "32 word \<Rightarrow> 32 word" where
  "sha_s1 x = word_rotr 17 x XOR word_rotr 19 x XOR drop_bit 10 x"

text \<open>The message schedule, newest word first.\<close>

fun sha_expand :: "nat \<Rightarrow> 32 word list \<Rightarrow> 32 word list" where
  "sha_expand 0 ws = ws"
| "sha_expand (Suc n) ws =
     sha_expand n ((sha_s1 (ws ! 1) + ws ! 6 + sha_s0 (ws ! 14) + ws ! 15) # ws)"

definition sha_schedule :: "32 word list \<Rightarrow> 32 word list" where
  "sha_schedule block = rev (sha_expand 48 (rev block))"

fun sha_round :: "32 word list \<Rightarrow> 32 word \<times> 32 word \<Rightarrow> 32 word list" where
  "sha_round [a, b, c, d, e, f, g, h] (k, w) =
     (let S1 = word_rotr 6 e XOR word_rotr 11 e XOR word_rotr 25 e;
          ch = (e AND f) XOR (NOT e AND g);
          t1 = h + S1 + ch + k + w;
          S0 = word_rotr 2 a XOR word_rotr 13 a XOR word_rotr 22 a;
          maj = (a AND b) XOR (a AND c) XOR (b AND c);
          t2 = S0 + maj
      in [t1 + t2, a, b, c, d + t1, e, f, g])"
| "sha_round hs kw = hs"

definition sha_compress :: "32 word list \<Rightarrow> 32 word list \<Rightarrow> 32 word list" where
  "sha_compress hs block = map2 (+) hs (foldl sha_round hs (zip sha_K (sha_schedule block)))"

fun sha_blocks :: "nat \<Rightarrow> 32 word list \<Rightarrow> 32 word list \<Rightarrow> 32 word list" where
  "sha_blocks 0 hs ws = hs"
| "sha_blocks (Suc n) hs ws = sha_blocks n (sha_compress hs (take 16 ws)) (drop 16 ws)"

definition sha256 :: "string \<Rightarrow> string" where
  "sha256 m =
     (let p = sha_pad m
      in concat (map (\<lambda>w. be_bytes 4 (uint w)) (sha_blocks (length p div 64) sha_H0 (be_words p))))"

lemma length_be_bytes [simp]: "length (be_bytes k n) = k"
  by (simp add: be_bytes_def)

text \<open>The padded message fills whole blocks.\<close>

lemma sha_pad_aligned: "64 dvd length (sha_pad m)"
proof -
  define q r where "q = length m div 64" and "r = length m mod 64"
  then have n: "length m = 64 * q + r" "r < 64" by simp_all
  have len: "length (sha_pad m) = length m + 1 + (119 - r) mod 64 + 8"
    by (simp add: sha_pad_def r_def Let_def)
  have "\<exists>k. length (sha_pad m) = 64 * k"
  proof (cases "r \<le> 55")
    case True
    then have "(119 - r) mod 64 = 55 - r" by (simp add: le_mod_geq)
    with True n len show ?thesis by (intro exI [of _ "q + 1"]) simp
  next
    case False
    then have "(119 - r) mod 64 = 119 - r" by simp
    with False n len show ?thesis by (intro exI [of _ "q + 2"]) simp
  qed
  then show ?thesis by auto
qed

lemma length_sha_round [simp]: "length (sha_round hs kw) = length hs"
  by (cases "(hs, kw)" rule: sha_round.cases) (simp_all add: Let_def)

lemma length_sha_compress [simp]: "length (sha_compress hs block) = length hs"
proof -
  have "length (foldl sha_round hs kws) = length hs" for kws
    by (induction kws arbitrary: hs) simp_all
  then show ?thesis by (simp add: sha_compress_def)
qed

lemma length_sha_blocks [simp]: "length (sha_blocks n hs ws) = length hs"
  by (induction n arbitrary: hs ws) simp_all

lemma length_sha256 [simp]: "length (sha256 m) = 32"
proof -
  have "length (concat (map (\<lambda>w. be_bytes 4 (uint w)) ws)) = 4 * length ws" for ws :: "32 word list"
    by (induction ws) simp_all
  then show ?thesis
    by (simp add: sha256_def sha_H0_def Let_def)
qed

section \<open>JSON\<close>

text \<open>The length of the UTF-8 sequence a string starts with; 0 when the first byte is invalid.\<close>

definition in_range :: "nat \<Rightarrow> nat \<Rightarrow> char \<Rightarrow> bool" where
  "in_range lo hi c \<longleftrightarrow> lo \<le> (of_char c :: nat) \<and> (of_char c :: nat) \<le> hi"

fun utf8_len :: "string \<Rightarrow> nat" where
  "utf8_len [] = 0"
| "utf8_len (a # s) =
     (if in_range 0 0x7F a then 1
      else if in_range 0xC2 0xDF a
      then (case s of b # _ \<Rightarrow> if in_range 0x80 0xBF b then 2 else 0 | [] \<Rightarrow> 0)
      else if in_range 0xE0 0xEF a
      then
        (case s of
           b # c # _ \<Rightarrow>
             if (if a = CHR 0xE0 then in_range 0xA0 0xBF b
                 else if a = CHR 0xED then in_range 0x80 0x9F b else in_range 0x80 0xBF b)
                \<and> in_range 0x80 0xBF c
             then 3 else 0
         | _ \<Rightarrow> 0)
      else if in_range 0xF0 0xF4 a
      then
        (case s of
           b # c # d # _ \<Rightarrow>
             if (if a = CHR 0xF0 then in_range 0x90 0xBF b
                 else if a = CHR 0xF4 then in_range 0x80 0x8F b else in_range 0x80 0xBF b)
                \<and> in_range 0x80 0xBF c \<and> in_range 0x80 0xBF d
             then 4 else 0
         | _ \<Rightarrow> 0)
      else 0)"

text \<open>One ASCII byte inside a JSON string, with the HTML-safe escapes of \<open>json.Marshal\<close>.\<close>

definition backslash :: string where
  "backslash = [CHR 0x5C]"

definition json_ascii :: "char \<Rightarrow> string" where
  "json_ascii c =
     (let n = (of_char c :: nat)
      in if c = CHR 0x22 \<or> c = CHR 0x5C then backslash @ [c]
         else if n = 8 then backslash @ ''b''
         else if n = 12 then backslash @ ''f''
         else if n = 10 then backslash @ ''n''
         else if n = 13 then backslash @ ''r''
         else if n = 9 then backslash @ ''t''
         else if n < 32 \<or> c = CHR ''<'' \<or> c = CHR ''>'' \<or> c = CHR ''&''
         then backslash @ ''u00'' @ hex_byte c
         else [c])"

function json_body :: "string \<Rightarrow> string" where
  "json_body [] = []"
| "json_body (a # s) =
     (if in_range 0 0x7F a then json_ascii a @ json_body s
      else
        (let k = utf8_len (a # s)
         in if k = 0 then backslash @ ''ufffd'' @ json_body s
            else if take 3 (a # s) = [CHR 0xE2, CHR 0x80, CHR 0xA8]
            then backslash @ ''u2028'' @ json_body (drop k (a # s))
            else if take 3 (a # s) = [CHR 0xE2, CHR 0x80, CHR 0xA9]
            then backslash @ ''u2029'' @ json_body (drop k (a # s))
            else take k (a # s) @ json_body (drop k (a # s))))"
  by pat_completeness auto
termination by (relation "measure length") auto

definition json_string :: "string \<Rightarrow> string" where
  "json_string s = [CHR 0x22] @ json_body s @ [CHR 0x22]"

text \<open>An object from its members, in the given order.\<close>

definition json_object :: "(string \<times> string) list \<Rightarrow> string" where
  "json_object kvs = ''{'' @ Join (map (\<lambda>(k, v). json_string k @ '':'' @ v) kvs) '','' @ ''}''"

text \<open>A \<open>map[string]string\<close>: null when nil, else with its keys sorted.\<close>

definition json_string_map :: "string smap option \<Rightarrow> string" where
  "json_string_map m =
     (case m of
        None \<Rightarrow> ''null''
      | Some kvs \<Rightarrow> json_object (map (\<lambda>(k, v). (k, json_string v)) (sort_key fst kvs)))"

text \<open>The encoding of a map does not depend on the order in which its entries are met.\<close>

lemma sort_key_fst_order:
  assumes "mset kvs = mset kvs'" and "distinct (map fst kvs)"
  shows "sort_key fst kvs = sort_key fst kvs'"
proof (rule sort_key_inj_key_eq)
  show "mset kvs = mset (sort_key fst kvs')"
    using assms(1) by simp
  show "inj_on fst (set kvs)"
    using assms(2) by (simp add: distinct_map)
  show "sorted (map fst (sort_key fst kvs'))"
    by simp
qed

lemma json_string_map_order:
  "mset kvs = mset kvs' \<Longrightarrow> distinct (map fst kvs) \<Longrightarrow>
     json_string_map (Some kvs) = json_string_map (Some kvs')"
  by (simp add: json_string_map_def sort_key_fst_order [of kvs kvs'])

end
