(* ===== verification/Permissions.thy ===== *)
theory Permissions
  imports Model Encoding
begin

text \<open>
  Permission policies (\<^verbatim>\<open>permissions.go\<close>): the summary with its stable identifier, and the check
  of a policy. A policy's tool map is an association list in the order the Go code happens to
  iterate it.
\<close>

fun unsupported_string :: "PermissionUnsupportedBehavior \<Rightarrow> string" where
  "unsupported_string PermissionUnsupportedFail = ''''"
| "unsupported_string PermissionUnsupportedBestEffort = ''best_effort''"
| "unsupported_string (PermissionUnsupportedOther s) = s"

text \<open>
  \<open>%q\<close>: the escapes of \<open>strconv.Quote\<close> on ASCII; a valid multi-byte rune is taken to be
  printable and copied.
\<close>

definition quote_ascii :: "char \<Rightarrow> string" where
  "quote_ascii c =
     (let n = (of_char c :: nat)
      in if c = CHR 0x22 \<or> c = CHR 0x5C then backslash @ [c]
         else if n = 7 then backslash @ ''a''
         else if n = 8 then backslash @ ''b''
         else if n = 12 then backslash @ ''f''
         else if n = 10 then backslash @ ''n''
         else if n = 13 then backslash @ ''r''
         else if n = 9 then backslash @ ''t''
         else if n = 11 then backslash @ ''v''
         else if n < 32 \<or> n \<ge> 127 then backslash @ ''x'' @ hex_byte c
         else [c])"

function quote_body :: "string \<Rightarrow> string" where
  "quote_body [] = []"
| "quote_body (a # s) =
     (let k = utf8_len (a # s)
      in if k \<le> 1 then quote_ascii a @ quote_body s
         else take k (a # s) @ quote_body (drop k (a # s)))"
  by pat_completeness auto
termination by (relation "measure length") auto

definition go_quote :: "string \<Rightarrow> string" where
  "go_quote s = [CHR 0x22] @ quote_body s @ [CHR 0x22]"

section \<open>Summary\<close>

definition copyPermissionToolMap ::
  "(PermissionTool \<times> PermissionAction) list option \<Rightarrow> (PermissionTool \<times> PermissionAction) list option" where
  "copyPermissionToolMap m = (if entries m = [] then None else Some (entries m))"

text \<open>\<open>json.Marshal\<close> of a summary: the fields in declaration order, the maps with sorted keys.\<close>

definition summary_json :: "PermissionPolicySummary \<Rightarrow> string" where
  "summary_json s = json_object
     [(''ID'', json_string (pps_ID s)),
      (''Default'', json_string (permission_action_string (pps_Default s))),
      (''Tools'', json_string_map
         (map_option (map (\<lambda>(t, a). (t, permission_action_string a))) (pps_Tools s))),
      (''PathRuleCount'', itoa (pps_PathRuleCount s)),
      (''UnsupportedBehavior'', json_string (unsupported_string (pps_UnsupportedBehavior s))),
      (''Metadata'', json_string_map (pps_Metadata s))]"

definition StableID :: "PermissionPolicySummary \<Rightarrow> string" where
  "StableID s = ''perm_'' @ hex_encode (take 8 (sha256 (summary_json (s\<lparr>pps_ID := []\<rparr>))))"

definition policy_Summary :: "PermissionPolicy \<Rightarrow> PermissionPolicySummary" where
  "policy_Summary p =
     (let summary =
            \<lparr>pps_ID = [], pps_Default = pp_Default p, pps_Tools = copyPermissionToolMap (pp_Tools p),
             pps_PathRuleCount = int (length (pp_PathRules p)),
             pps_UnsupportedBehavior = pp_UnsupportedBehavior p,
             pps_Metadata = RedactStringMap (pp_Metadata p)\<rparr>
      in summary\<lparr>pps_ID := StableID summary\<rparr>)"

text \<open>\<open>permissionPolicyID\<close> of validation.go.\<close>

definition permissionPolicyID :: "PermissionPolicy option \<Rightarrow> string" where
  "permissionPolicyID p = (case p of None \<Rightarrow> [] | Some p' \<Rightarrow> pps_ID (policy_Summary p'))"

section \<open>Validation\<close>

definition permissionConfigError :: "string \<Rightarrow> SDKError" where
  "permissionConfigError detail = NewError ErrorConfiguration ''permission policy'' detail None []"

definition validatePermissionAction :: "PermissionAction \<Rightarrow> string \<Rightarrow> SDKError option" where
  "validatePermissionAction action field =
     (case action of
        PermissionActionOther s \<Rightarrow>
          Some (permissionConfigError (field @ '' must be default, allow, deny, or ask''))
      | _ \<Rightarrow> None)"

fun validate_tools :: "(PermissionTool \<times> PermissionAction) list \<Rightarrow> SDKError option" where
  "validate_tools [] = None"
| "validate_tools ((tool, action) # rest) =
     (if tool = [] then Some (permissionConfigError ''permission tool cannot be empty'')
      else
        (case validatePermissionAction action (''permission action for '' @ tool) of
           Some err \<Rightarrow> Some err
         | None \<Rightarrow> validate_tools rest))"

fun validate_rules :: "PermissionPathRule list \<Rightarrow> SDKError option" where
  "validate_rules [] = None"
| "validate_rules (rule # rest) =
     (if rule_Path rule = []
      then Some (permissionConfigError ''permission path rule cannot have an empty path'')
      else
        (case validatePermissionAction (rule_Action rule) (''permission path rule for '' @ rule_Path rule) of
           Some err \<Rightarrow> Some err
         | None \<Rightarrow> validate_rules rest))"

definition ValidatePermissionPolicy :: "PermissionPolicy option \<Rightarrow> SDKError option" where
  "ValidatePermissionPolicy policy =
     (case policy of
        None \<Rightarrow> None
      | Some p \<Rightarrow>
          (case validatePermissionAction (pp_Default p) ''default permission action'' of
             Some err \<Rightarrow> Some err
           | None \<Rightarrow>
               (case validate_tools (entries (pp_Tools p)) of
                  Some err \<Rightarrow> Some err
                | None \<Rightarrow>
                    (case validate_rules (pp_PathRules p) of
                       Some err \<Rightarrow> Some err
                     | None \<Rightarrow>
                         (case pp_UnsupportedBehavior p of
                            PermissionUnsupportedOther s \<Rightarrow>
                              Some (permissionConfigError
                                (''unsupported permission fallback behavior '' @ go_quote s))
                          | _ \<Rightarrow> None)))))"

section \<open>Facts\<close>

definition known_action :: "PermissionAction \<Rightarrow> bool" where
  "known_action a \<longleftrightarrow>
     a \<in> {PermissionActionDefault, PermissionActionAllow, PermissionActionDeny, PermissionActionAsk}"

text \<open>What a policy must be like to be accepted, independently of the order of the checks.\<close>

definition policy_ok :: "PermissionPolicy \<Rightarrow> bool" where
  "policy_ok p \<longleftrightarrow>
     known_action (pp_Default p)
     \<and> (\<forall>(tool, action) \<in> set (entries (pp_Tools p)). tool \<noteq> [] \<and> known_action action)
     \<and> (\<forall>rule \<in> set (pp_PathRules p). rule_Path rule \<noteq> [] \<and> known_action (rule_Action rule))
     \<and> pp_UnsupportedBehavior p \<in> {PermissionUnsupportedFail, PermissionUnsupportedBestEffort}"

lemma validatePermissionAction_eq:
  "validatePermissionAction a field =
     (if known_action a then None
      else Some (permissionConfigError (field @ '' must be default, allow, deny, or ask'')))"
  by (cases a) (simp_all add: validatePermissionAction_def known_action_def)

lemma permissionConfigError_Category [simp]: "err_Category (permissionConfigError d) = ErrorConfiguration"
  by (simp add: permissionConfigError_def)

lemma validate_tools_None:
  "validate_tools ts = None \<longleftrightarrow> (\<forall>(tool, action) \<in> set ts. tool \<noteq> [] \<and> known_action action)"
  by (induction ts rule: validate_tools.induct) (simp_all add: validatePermissionAction_eq)

lemma validate_rules_None:
  "validate_rules rs = None \<longleftrightarrow> (\<forall>r \<in> set rs. rule_Path r \<noteq> [] \<and> known_action (rule_Action r))"
  by (induction rs rule: validate_rules.induct) (simp_all add: validatePermissionAction_eq)

lemma validate_tools_Some: "validate_tools ts = Some err \<Longrightarrow> err_Category err = ErrorConfiguration"
  by (induction ts rule: validate_tools.induct) (auto simp: validatePermissionAction_eq split: if_splits)

lemma validate_rules_Some: "validate_rules rs = Some err \<Longrightarrow> err_Category err = ErrorConfiguration"
  by (induction rs rule: validate_rules.induct) (auto simp: validatePermissionAction_eq split: if_splits)

lemma ValidatePermissionPolicy_None_iff:
  "ValidatePermissionPolicy (Some p) = None \<longleftrightarrow> policy_ok p"
proof -
  have "known_action (pp_Default p) \<Longrightarrow>
      (ValidatePermissionPolicy (Some p) = None \<longleftrightarrow>
        validate_tools (entries (pp_Tools p)) = None \<and> validate_rules (pp_PathRules p) = None
        \<and> (\<forall>s. pp_UnsupportedBehavior p \<noteq> PermissionUnsupportedOther s))"
    by (simp add: ValidatePermissionPolicy_def validatePermissionAction_eq
        split: option.split PermissionUnsupportedBehavior.split)
  moreover have "\<not> known_action (pp_Default p) \<Longrightarrow> ValidatePermissionPolicy (Some p) \<noteq> None"
    by (simp add: ValidatePermissionPolicy_def validatePermissionAction_eq)
  moreover have "(\<forall>s. b \<noteq> PermissionUnsupportedOther s) \<longleftrightarrow>
      b \<in> {PermissionUnsupportedFail, PermissionUnsupportedBestEffort}" for b
    by (cases b) auto
  ultimately show ?thesis
    unfolding policy_ok_def validate_tools_None validate_rules_None by blast
qed

lemma ValidatePermissionPolicy_Some:
  "ValidatePermissionPolicy p = Some err \<Longrightarrow> err_Category err = ErrorConfiguration"
  by (auto simp: ValidatePermissionPolicy_def validatePermissionAction_eq
      dest: validate_tools_Some validate_rules_Some
      split: option.splits if_splits PermissionUnsupportedBehavior.splits)

lemma fst_RedactStringMap_entry [simp]: "fst (RedactStringMap_entry kv) = fst kv"
  by (simp add: RedactStringMap_entry_def case_prod_beta)

lemma json_redacted_order:
  assumes "mset (entries m) = mset (entries m')" and "m = None \<longleftrightarrow> m' = None"
    and "distinct (map fst (entries m))"
  shows "json_string_map (RedactStringMap m) = json_string_map (RedactStringMap m')"
proof (cases "(m, m')")
  case (Pair a b)
  with assms show ?thesis
    by (cases a; cases b) (auto simp: RedactStringMap_def comp_def intro!: json_string_map_order)
qed

section \<open>Properties\<close>

text \<open>
  C25. \<open>ValidatePermissionPolicy\<close> accepts a policy exactly when every action is one of the four
  known ones, no tool and no rule path is empty, and the unsupported behaviour is known; every
  refusal is a configuration error.
\<close>

theorem validate_permission_policy_exact:
  "case ValidatePermissionPolicy (Some p) of
     None \<Rightarrow> policy_ok p
   | Some err \<Rightarrow> \<not> policy_ok p \<and> err_Category err = ErrorConfiguration"
  using ValidatePermissionPolicy_None_iff [of p] ValidatePermissionPolicy_Some [of "Some p"]
  by (cases "ValidatePermissionPolicy (Some p)") auto

definition sample_policy :: PermissionPolicy where
  "sample_policy =
     \<lparr>pp_Default = PermissionActionDeny,
      pp_Tools = Some [(''read'', PermissionActionAllow), (''bash'', PermissionActionAsk)],
      pp_PathRules = [\<lparr>rule_Path = ''/tmp/*'', rule_Action = PermissionActionAllow\<rparr>],
      pp_UnsupportedBehavior = PermissionUnsupportedFail, pp_Metadata = None\<rparr>"

theorem validate_permission_policy_exact_witness:
  "ValidatePermissionPolicy (Some sample_policy) = None
   \<and> ValidatePermissionPolicy (Some (sample_policy\<lparr>pp_UnsupportedBehavior := PermissionUnsupportedOther ''x''\<rparr>)) \<noteq> None"
  using validate_permission_policy_exact [of sample_policy]
    validate_permission_policy_exact [of "sample_policy\<lparr>pp_UnsupportedBehavior := PermissionUnsupportedOther ''x''\<rparr>"]
  by (simp add: policy_ok_def known_action_def sample_policy_def split: option.splits)

text \<open>
  C24. The identifier of a policy depends on what the policy says and not on the order in which
  its maps are iterated, and it is \<open>perm_\<close> followed by sixteen hexadecimal digits.
\<close>

theorem permission_policy_id_stable:
  assumes "mset (entries (pp_Tools p)) = mset (entries (pp_Tools p'))"
    and "mset (entries (pp_Metadata p)) = mset (entries (pp_Metadata p'))"
    and "pp_Metadata p = None \<longleftrightarrow> pp_Metadata p' = None"
    and "distinct (map fst (entries (pp_Tools p)))" and "distinct (map fst (entries (pp_Metadata p)))"
    and "pp_Default p = pp_Default p'" and "length (pp_PathRules p) = length (pp_PathRules p')"
    and "pp_UnsupportedBehavior p = pp_UnsupportedBehavior p'"
  shows "pps_ID (policy_Summary p) = pps_ID (policy_Summary p') \<and> length (pps_ID (policy_Summary p)) = 21"
proof -
  have tools: "json_string_map (map_option (map (\<lambda>(t, a). (t, permission_action_string a)))
        (copyPermissionToolMap (pp_Tools p)))
      = json_string_map (map_option (map (\<lambda>(t, a). (t, permission_action_string a)))
        (copyPermissionToolMap (pp_Tools p')))"
  proof (cases "entries (pp_Tools p) = []")
    case True
    with assms(1) show ?thesis by (simp add: copyPermissionToolMap_def)
  next
    case False
    with assms(1) have "entries (pp_Tools p') \<noteq> []" by auto
    with False assms(1,4) show ?thesis
      by (auto simp: copyPermissionToolMap_def case_prod_beta' comp_def
          intro!: json_string_map_order)
  qed
  have md: "json_string_map (RedactStringMap (pp_Metadata p)) = json_string_map (RedactStringMap (pp_Metadata p'))"
    by (rule json_redacted_order) (use assms in simp_all)
  show ?thesis
    using tools md assms by (simp add: policy_Summary_def StableID_def summary_json_def Let_def)
qed

theorem permission_policy_id_stable_witness:
  "pps_ID (policy_Summary sample_policy) =
     pps_ID (policy_Summary (sample_policy\<lparr>pp_Tools :=
       Some [(''bash'', PermissionActionAsk), (''read'', PermissionActionAllow)]\<rparr>))"
  using permission_policy_id_stable [of sample_policy
      "sample_policy\<lparr>pp_Tools := Some [(''bash'', PermissionActionAsk), (''read'', PermissionActionAllow)]\<rparr>"]
  by (simp add: sample_policy_def)

end
