(* ===== verification/Strconv.thy ===== *)
theory Strconv
  imports Prelude
begin

text \<open>
  Reading decimal integers the way \<^verbatim>\<open>strconv.Atoi\<close> and \<^verbatim>\<open>strconv.ParseInt(s, 10, 64)\<close> do on
  a 64-bit platform: an optional sign, at least one digit, nothing else, and a value of 64 bits. The
  round trip with \<^const>\<open>itoa\<close> and the fact that a printed integer has no surrounding space are what
  the clients use.
\<close>

definition is_digit :: "char \<Rightarrow> bool" where
  "is_digit c \<longleftrightarrow> (let n = (of_char c :: nat) in 48 \<le> n \<and> n \<le> 57)"

definition minInt64 :: int where "minInt64 = - (2 ^ 63)"
definition maxInt64 :: int where "maxInt64 = 2 ^ 63 - 1"

fun split_sign :: "string \<Rightarrow> bool \<times> string" where
  "split_sign [] = (False, [])"
| "split_sign (c # cs) =
     (if c = CHR ''-'' then (True, cs) else if c = CHR ''+'' then (False, cs) else (False, c # cs))"

definition Atoi :: "string \<Rightarrow> int option" where
  "Atoi s =
     (let (neg, ds) = split_sign s
      in if ds = [] \<or> \<not> list_all is_digit ds then None
         else let v = (if neg then - int (digits_val 0 ds) else int (digits_val 0 ds))
              in if minInt64 \<le> v \<and> v \<le> maxInt64 then Some v else None)"

text \<open>The result always fits 64 bits: there is no silent wrap-around.\<close>

lemma Atoi_range: "Atoi s = Some v \<Longrightarrow> minInt64 \<le> v \<and> v \<le> maxInt64"
  by (auto simp: Atoi_def Let_def split: if_splits prod.splits)

section \<open>Round trip\<close>

lemma is_digit_digit_char: "n < 10 \<Longrightarrow> is_digit (digit_char n)"
  by (simp add: is_digit_def Let_def)

lemma nat_digits_all: "list_all is_digit (nat_digits n)"
proof -
  have "is_digit c" if "c \<in> digit_char ` {..<10}" for c
    using that is_digit_digit_char by auto
  then show ?thesis
    using set_nat_digits [of n] by (auto simp: list_all_iff)
qed

lemma is_digit_no_sign: "is_digit c \<Longrightarrow> c \<noteq> CHR ''-'' \<and> c \<noteq> CHR ''+''"
  by (auto simp: is_digit_def Let_def)

lemma split_sign_digits: "list_all is_digit ds \<Longrightarrow> split_sign ds = (False, ds)"
  using is_digit_no_sign by (cases ds) auto

lemma Atoi_itoa [simp]:
  assumes "minInt64 \<le> i" and "i \<le> maxInt64"
  shows "Atoi (itoa i) = Some i"
  using assms nat_digits_all
  by (simp add: Atoi_def itoa_def split_sign_digits)

section \<open>Text without surrounding space\<close>

text \<open>A byte that neither starts nor ends the encoding of a space.\<close>

definition solid :: "char \<Rightarrow> bool" where
  "solid c \<longleftrightarrow> (let n = (of_char c :: nat) in 33 \<le> n \<and> n < 127)"

lemma space_encodings_not_solid:
  "e \<in> set space_encodings \<Longrightarrow> e \<noteq> [] \<and> \<not> solid (hd e) \<and> \<not> solid (last e)"
  unfolding space_encodings_def by (auto simp: solid_def)

lemma space_prefix_solid:
  assumes "solid c" and "\<forall>e \<in> set encs. e \<noteq> [] \<and> \<not> solid (hd e)"
  shows "space_prefix encs (c # s) = 0"
proof -
  have "\<not> prefix e (c # s)" if "e \<in> set encs" for e
    using assms(1) bspec [OF assms(2) that] by (cases e) auto
  then have "find (\<lambda>e. prefix e (c # s)) encs = None"
    by (simp add: find_None_iff)
  then show ?thesis by (simp add: space_prefix_def)
qed

lemma TrimSpace_solid:
  assumes "s \<noteq> []" and "solid (hd s)" and "solid (last s)"
  shows "TrimSpace s = s"
proof -
  obtain c cs where s: "s = c # cs" using assms(1) by (cases s) auto
  have left: "trim_left space_encodings s = s"
    using space_prefix_solid [of c space_encodings cs] space_encodings_not_solid assms(2) s
    by (intro trim_left_id) auto
  obtain d ds where r: "rev s = d # ds" "d = last s"
    using assms(1) by (metis hd_rev list.exhaust_sel rev_is_Nil_conv)
  have "space_prefix (map rev space_encodings) (d # ds) = 0"
    using space_encodings_not_solid assms(3) r(2) by (intro space_prefix_solid) (auto simp: hd_rev)
  then have "trim_left (map rev space_encodings) (rev s) = rev s"
    by (simp only: r(1) trim_left_id)
  with left show ?thesis by (simp add: TrimSpace_def)
qed

lemma solid_digit: "is_digit c \<Longrightarrow> solid c"
  by (simp add: is_digit_def solid_def Let_def)

lemma TrimSpace_itoa [simp]: "TrimSpace (itoa i) = itoa i"
proof (rule TrimSpace_solid)
  have nat: "solid (hd (nat_digits n)) \<and> solid (last (nat_digits n))" for n
    using nat_digits_all [of n] solid_digit by (simp add: list_all_iff)
  show "itoa i \<noteq> []" by (simp add: itoa_def)
  show "solid (hd (itoa i))" "solid (last (itoa i))"
    using nat by (auto simp: itoa_def solid_def)
qed

end
