(* ===== verification/Json.thy ===== *)
theory Json
  imports Encoding Values Strconv
begin

text \<open>
  \<^verbatim>\<open>encoding/json\<close> as the program uses it: \<open>json.Unmarshal\<close> into \<open>any\<close> or \<open>map[string]any\<close>, and
  \<open>json.Marshal\<close> of a document of that shape. A document is a value of \<open>json\<close>; \<open>gval_of_json\<close> is
  the dynamic value the decoder stores. The decoder checks the grammar, unescapes strings (an invalid
  byte or a lone surrogate becomes U+FFFD), rounds numbers to \<open>float64\<close> (a number out of range is an
  error), keeps the last of two equal keys and refuses a nesting deeper than 10000. Only that the
  text is refused is modelled, not the wording of the error. Negative zero is zero.
\<close>

datatype json =
    JNull
  | JBool bool
  | JNum rat
  | JStr string
  | JArr "json list"
  | JObj "(string \<times> json) list"

fun gval_of_json :: "json \<Rightarrow> gval" and gvals_of_json :: "json list \<Rightarrow> gval list"
  and members_of_json :: "(string \<times> json) list \<Rightarrow> anymap" where
  "gval_of_json JNull = GNil"
| "gval_of_json (JBool b) = GBool b"
| "gval_of_json (JNum r) = GFloat64 r"
| "gval_of_json (JStr s) = GString s"
| "gval_of_json (JArr vs) = GList (gvals_of_json vs)"
| "gval_of_json (JObj m) = GMap (members_of_json m)"
| "gvals_of_json [] = []"
| "gvals_of_json (v # vs) = gval_of_json v # gvals_of_json vs"
| "members_of_json [] = []"
| "members_of_json ((k, v) # m) = (k, gval_of_json v) # members_of_json m"

section \<open>Rounding to float64\<close>

function bits :: "int \<Rightarrow> int" where
  "bits n = (if n \<le> 0 then 0 else 1 + bits (n div 2))"
  by pat_completeness auto
termination by (relation "measure nat") auto

declare bits.simps [simp del]

definition pow_rat :: "rat \<Rightarrow> int \<Rightarrow> rat" where
  "pow_rat b e = (if 0 \<le> e then b ^ nat e else 1 / b ^ nat (- e))"

definition round_half_even :: "rat \<Rightarrow> int" where
  "round_half_even x =
     (let f = \<lfloor>x\<rfloor>; d = x - of_int f
      in if d < 1 / 2 then f else if 1 / 2 < d then f + 1 else if even f then f else f + 1)"

definition ilog2 :: "rat \<Rightarrow> int" where
  "ilog2 a =
     (let (p, q) = quotient_of a; e = bits p - bits q
      in if pow_rat 2 e \<le> a then e else e - 1)"

definition round_float64 :: "rat \<Rightarrow> rat option" where
  "round_float64 x =
     (if x = 0 then Some 0
      else let a = \<bar>x\<bar>; q = max (ilog2 a - 52) (- 1074);
               v = of_int (round_half_even (a / pow_rat 2 q)) * pow_rat 2 q
           in if pow_rat 2 1024 \<le> v then None else Some (if x < 0 then - v else v))"

text \<open>The conversion \<open>int64(f)\<close>: truncation; out of range the value amd64 gives.\<close>

definition truncate :: "rat \<Rightarrow> int" where
  "truncate x = (if x < 0 then - \<lfloor>- x\<rfloor> else \<lfloor>x\<rfloor>)"

definition int64_of_float :: "rat \<Rightarrow> int" where
  "int64_of_float x =
     (let t = truncate x in if minInt64 \<le> t \<and> t \<le> maxInt64 then t else minInt64)"

lemma int64_of_float_range: "minInt64 \<le> int64_of_float x \<and> int64_of_float x \<le> maxInt64"
  by (simp add: int64_of_float_def Let_def minInt64_def maxInt64_def)

lemma int64_of_float_of_int:
  "minInt64 \<le> i \<Longrightarrow> i \<le> maxInt64 \<Longrightarrow> int64_of_float (of_int i) = i"
  by (simp add: int64_of_float_def truncate_def Let_def)

section \<open>Reading strings\<close>

definition is_ws :: "char \<Rightarrow> bool" where
  "is_ws c \<longleftrightarrow> c \<in> {CHR 0x20, CHR 0x09, CHR 0x0A, CHR 0x0D}"

definition skip_ws :: "string \<Rightarrow> string" where
  "skip_ws s = dropWhile is_ws s"

fun hex4 :: "string \<Rightarrow> (nat \<times> string) option" where
  "hex4 (a # b # c # d # s) =
     (case (hex_value a, hex_value b, hex_value c, hex_value d) of
        (Some w, Some x, Some y, Some z) \<Rightarrow> Some (((w * 16 + x) * 16 + y) * 16 + z, s)
      | _ \<Rightarrow> None)"
| "hex4 _ = None"

lemma length_hex4: "hex4 s = Some (r, t) \<Longrightarrow> length t < length s"
  by (cases s rule: hex4.cases) (auto split: option.splits)

definition utf8_encode :: "nat \<Rightarrow> string" where
  "utf8_encode r =
     (if r < 0x80 then [char_of r]
      else if r < 0x800 then [char_of (0xC0 + r div 64), char_of (0x80 + r mod 64)]
      else if r < 0x10000
      then [char_of (0xE0 + r div 4096), char_of (0x80 + r div 64 mod 64), char_of (0x80 + r mod 64)]
      else [char_of (0xF0 + r div 262144), char_of (0x80 + r div 4096 mod 64),
            char_of (0x80 + r div 64 mod 64), char_of (0x80 + r mod 64)])"

definition replacement :: string where
  "replacement = [CHR 0xEF, CHR 0xBF, CHR 0xBD]"

definition simple_escape :: "char \<Rightarrow> char option" where
  "simple_escape e =
     (if e \<in> {CHR 0x22, CHR 0x5C, CHR ''/''} then Some e
      else if e = CHR ''b'' then Some (CHR 0x08)
      else if e = CHR ''f'' then Some (CHR 0x0C)
      else if e = CHR ''n'' then Some (CHR 0x0A)
      else if e = CHR ''r'' then Some (CHR 0x0D)
      else if e = CHR ''t'' then Some (CHR 0x09)
      else None)"

text \<open>A low surrogate that directly follows, as an escape of its own.\<close>

definition low_surrogate :: "string \<Rightarrow> (nat \<times> string) option" where
  "low_surrogate s =
     (case s of
        a # b # t \<Rightarrow>
          if a = CHR 0x5C \<and> b = CHR ''u'' then
            (case hex4 t of
               Some (r, u) \<Rightarrow> if 0xDC00 \<le> r \<and> r < 0xE000 then Some (r, u) else None
             | None \<Rightarrow> None)
          else None
      | _ \<Rightarrow> None)"

lemma length_low_surrogate: "low_surrogate s = Some (r, t) \<Longrightarrow> length t < length s"
  by (auto simp: low_surrogate_def dest: length_hex4 split: list.splits if_splits option.splits)

text \<open>
  What a \<open>u\<close> escape stands for, given its code unit and the text that follows: the bytes, and what
  is left.
\<close>

definition unicode_escape :: "nat \<Rightarrow> string \<Rightarrow> string \<times> string" where
  "unicode_escape r s =
     (if 0xD800 \<le> r \<and> r < 0xE000 then
        (case (if r < 0xDC00 then low_surrogate s else None) of
           Some (r2, t) \<Rightarrow> (utf8_encode (0x10000 + (r - 0xD800) * 1024 + (r2 - 0xDC00)), t)
         | None \<Rightarrow> (replacement, s))
      else (utf8_encode r, s))"

lemma length_unicode_escape: "length (snd (unicode_escape r s)) \<le> length s"
  by (auto simp: unicode_escape_def dest: length_low_surrogate split: option.splits)

definition prepend :: "string \<Rightarrow> (string \<times> string) option \<Rightarrow> (string \<times> string) option" where
  "prepend b r = map_option (\<lambda>(out, rest). (b @ out, rest)) r"

text \<open>The body of a string after its opening quote: the text, and what follows the closing quote.\<close>

function string_body :: "string \<Rightarrow> (string \<times> string) option" where
  "string_body [] = None"
| "string_body (c # s) =
     (if c = CHR 0x22 then Some ([], s)
      else if c = CHR 0x5C then
        (case s of
           [] \<Rightarrow> None
         | e # t \<Rightarrow>
             if e = CHR ''u'' then
               (case hex4 t of
                  None \<Rightarrow> None
                | Some (r, u) \<Rightarrow>
                    let w = unicode_escape r u in prepend (fst w) (string_body (snd w)))
             else
               (case simple_escape e of
                  None \<Rightarrow> None
                | Some x \<Rightarrow> prepend [x] (string_body t)))
      else if (of_char c :: nat) < 32 then None
      else
        (let k = utf8_len (c # s)
         in if k = 0 then prepend replacement (string_body s)
            else prepend (take k (c # s)) (string_body (drop k (c # s)))))"
  by pat_completeness auto
termination
proof (relation "measure length")
  fix c e and s t :: string and x r u w
  assume "s = e # t" "hex4 t = Some x" "(r, u) = x" "w = unicode_escape r u"
  then show "(snd w, c # s) \<in> measure length"
    using length_unicode_escape [of r u] length_hex4 [of t r u] by auto
qed auto

declare string_body.simps [simp del]

lemma prepend_Some [simp]: "prepend b (Some (out, rest)) = Some (b @ out, rest)"
  by (simp add: prepend_def)

lemma prepend_None [simp]: "prepend b None = None"
  by (simp add: prepend_def)

lemma prepend_eq_Some:
  "prepend b r = Some (out, rest) \<longleftrightarrow> (\<exists>out'. r = Some (out', rest) \<and> out = b @ out')"
  by (auto simp: prepend_def)

lemma string_body_quote [simp]: "string_body (CHR 0x22 # s) = Some ([], s)"
  by (simp add: string_body.simps)

lemma string_body_unicode:
  "string_body (CHR 0x5C # CHR ''u'' # t) =
     (case hex4 t of None \<Rightarrow> None
      | Some (r, u) \<Rightarrow> prepend (fst (unicode_escape r u)) (string_body (snd (unicode_escape r u))))"
  by (subst string_body.simps) (simp add: Let_def split: option.splits)

lemma string_body_escape:
  "e \<noteq> CHR ''u'' \<Longrightarrow> string_body (CHR 0x5C # e # t) =
     (case simple_escape e of None \<Rightarrow> None | Some x \<Rightarrow> prepend [x] (string_body t))"
  by (subst string_body.simps) simp

lemma string_body_char:
  "c \<noteq> CHR 0x22 \<Longrightarrow> c \<noteq> CHR 0x5C \<Longrightarrow> string_body (c # s) =
     (if (of_char c :: nat) < 32 then None
      else if utf8_len (c # s) = 0 then prepend replacement (string_body s)
      else prepend (take (utf8_len (c # s)) (c # s)) (string_body (drop (utf8_len (c # s)) (c # s))))"
  by (subst string_body.simps) (simp add: Let_def)

lemma length_string_body: "string_body s = Some (out, rest) \<Longrightarrow> length rest < length s"
proof (induction "length s" arbitrary: s out rest rule: less_induct)
  case less
  show ?case
  proof (cases s)
    case Nil
    with less.prems show ?thesis by (simp add: string_body.simps)
  next
    case (Cons c t)
    consider (quote) "c = CHR 0x22" | (escape) "c = CHR 0x5C" | (char) "c \<noteq> CHR 0x22" "c \<noteq> CHR 0x5C"
      by blast
    then show ?thesis
    proof cases
      case quote
      with less.prems Cons show ?thesis by simp
    next
      case escape
      show ?thesis
      proof (cases t)
        case Nil
        with less.prems Cons escape show ?thesis by (simp add: string_body.simps)
      next
        case (Cons e u)
        note st = \<open>s = c # t\<close> Cons escape
        show ?thesis
        proof (cases "e = CHR ''u''")
          case True
          with less.prems st obtain r v out' where v: "hex4 u = Some (r, v)"
            and body: "string_body (snd (unicode_escape r v)) = Some (out', rest)"
            by (auto simp: string_body_unicode prepend_eq_Some split: option.splits)
          have "length (snd (unicode_escape r v)) < length s"
            using length_unicode_escape [of r v] length_hex4 [OF v] st by simp
          with less.hyps [OF _ body] show ?thesis by simp
        next
          case False
          with less.prems st obtain out' where "string_body u = Some (out', rest)"
            by (auto simp: string_body_escape prepend_eq_Some split: option.splits)
          with less.hyps [of u] st show ?thesis by simp
        qed
      qed
    next
      case char
      then obtain n out' where "0 < n" "string_body (drop n s) = Some (out', rest)"
        using less.prems Cons
        by (auto simp: string_body_char prepend_eq_Some simp del: utf8_len.simps split: if_splits)
          (metis drop0 drop_Suc_Cons zero_less_Suc)
      with less.hyps [of "drop n s"] Cons show ?thesis by fastforce
    qed
  qed
qed

section \<open>Reading numbers\<close>

fun number_sign :: "string \<Rightarrow> bool \<times> string" where
  "number_sign [] = (False, [])"
| "number_sign (c # s) = (if c = CHR ''-'' then (True, s) else (False, c # s))"

definition digits_of :: "string \<Rightarrow> string \<times> string" where
  "digits_of s = (takeWhile is_digit s, dropWhile is_digit s)"

text \<open>The integer part: zero alone, or digits that do not start with zero.\<close>

definition number_int :: "string \<Rightarrow> (string \<times> string) option" where
  "number_int s =
     (case s of
        [] \<Rightarrow> None
      | c # t \<Rightarrow> if c = CHR ''0'' then Some ([c], t) else if is_digit c then Some (digits_of s) else None)"

definition number_frac :: "string \<Rightarrow> (string \<times> string) option" where
  "number_frac s =
     (case s of
        [] \<Rightarrow> Some ([], s)
      | c # t \<Rightarrow> if c = CHR ''.'' then (if fst (digits_of t) = [] then None else Some (digits_of t))
               else Some ([], s))"

definition number_exp :: "string \<Rightarrow> (int \<times> string) option" where
  "number_exp s =
     (case s of
        [] \<Rightarrow> Some (0, s)
      | c # t \<Rightarrow>
          if c = CHR ''e'' \<or> c = CHR ''E'' then
            (let (neg, u) = split_sign t; (ds, rest) = digits_of u
             in if ds = [] then None
                else Some (if neg then - int (digits_val 0 ds) else int (digits_val 0 ds), rest))
          else Some (0, s))"

definition json_number :: "string \<Rightarrow> (rat \<times> string) option" where
  "json_number s =
     (let (neg, s1) = number_sign s
      in case number_int s1 of
           None \<Rightarrow> None
         | Some (ip, s2) \<Rightarrow>
             (case number_frac s2 of
                None \<Rightarrow> None
              | Some (fp, s3) \<Rightarrow>
                  (case number_exp s3 of
                     None \<Rightarrow> None
                   | Some (e, rest) \<Rightarrow>
                       (let m = of_nat (digits_val 0 (ip @ fp)) * pow_rat 10 (e - int (length fp))
                        in case round_float64 (if neg then - m else m) of
                             None \<Rightarrow> None
                           | Some v \<Rightarrow> Some (v, rest)))))"

section \<open>Reading documents\<close>

definition max_depth :: nat where "max_depth = 10000"

text \<open>A literal or a number.\<close>

definition json_scalar :: "string \<Rightarrow> (json \<times> string) option" where
  "json_scalar s =
     (if prefix ''true'' s then Some (JBool True, drop 4 s)
      else if prefix ''false'' s then Some (JBool False, drop 5 s)
      else if prefix ''null'' s then Some (JNull, drop 4 s)
      else map_option (\<lambda>(x, u). (JNum x, u)) (json_number s))"

text \<open>The next byte that is not space, and what follows it.\<close>

definition next_byte :: "string \<Rightarrow> (char \<times> string) option" where
  "next_byte s = (case skip_ws s of [] \<Rightarrow> None | c # t \<Rightarrow> Some (c, t))"

text \<open>The key of a member with its colon.\<close>

definition member_key :: "string \<Rightarrow> (string \<times> string) option" where
  "member_key s =
     (case next_byte s of
        None \<Rightarrow> None
      | Some (q, t) \<Rightarrow>
          if q \<noteq> CHR 0x22 then None
          else case string_body t of
                 None \<Rightarrow> None
               | Some (k, u) \<Rightarrow>
                   (case next_byte u of
                      None \<Rightarrow> None
                    | Some (c, w) \<Rightarrow> if c = CHR '':'' then Some (k, w) else None))"

text \<open>
  A value, the elements of an array after its bracket or a comma, the members of an object after its
  brace or a comma. The first argument bounds the calls, the second is the nesting depth.
\<close>

fun json_value :: "nat \<Rightarrow> nat \<Rightarrow> string \<Rightarrow> (json \<times> string) option"
  and json_elems :: "nat \<Rightarrow> nat \<Rightarrow> string \<Rightarrow> (json list \<times> string) option"
  and json_members :: "nat \<Rightarrow> nat \<Rightarrow> (string \<times> json) list \<Rightarrow> string \<Rightarrow> ((string \<times> json) list \<times> string) option"
where
  "json_value 0 d s = None"
| "json_value (Suc n) d s =
     (case next_byte s of
        None \<Rightarrow> None
      | Some (c, t) \<Rightarrow>
          if c = CHR 0x22 then map_option (\<lambda>(x, u). (JStr x, u)) (string_body t)
          else if c = CHR 0x7B then
            (if max_depth \<le> d then None
             else if map_option fst (next_byte t) = Some (CHR 0x7D) then Some (JObj [], tl (skip_ws t))
             else map_option (\<lambda>(x, u). (JObj x, u)) (json_members n (Suc d) [] t))
          else if c = CHR 0x5B then
            (if max_depth \<le> d then None
             else if map_option fst (next_byte t) = Some (CHR 0x5D) then Some (JArr [], tl (skip_ws t))
             else map_option (\<lambda>(x, u). (JArr x, u)) (json_elems n (Suc d) t))
          else json_scalar (c # t))"
| "json_elems 0 d s = None"
| "json_elems (Suc n) d s =
     (case json_value n d s of
        None \<Rightarrow> None
      | Some (v, u) \<Rightarrow>
          (case next_byte u of
             None \<Rightarrow> None
           | Some (c, t) \<Rightarrow>
               if c = CHR 0x5D then Some ([v], t)
               else if c = CHR '','' then map_option (\<lambda>(vs, w). (v # vs, w)) (json_elems n d t)
               else None))"
| "json_members 0 d acc s = None"
| "json_members (Suc n) d acc s =
     (case member_key s of
        None \<Rightarrow> None
      | Some (k, t) \<Rightarrow>
          (case json_value n d t of
             None \<Rightarrow> None
           | Some (v, u) \<Rightarrow>
               (case next_byte u of
                  None \<Rightarrow> None
                | Some (c, w) \<Rightarrow>
                    if c = CHR 0x7D then Some (aput k v acc, w)
                    else if c = CHR '','' then json_members n d (aput k v acc) w
                    else None)))"

text \<open>\<open>json.Unmarshal\<close> into \<open>any\<close>. Every two calls consume a byte, so the bound is never reached.\<close>

definition json_parse :: "string \<Rightarrow> json option" where
  "json_parse s =
     (case json_value (2 * length s + 2) 0 s of
        None \<Rightarrow> None
      | Some (v, rest) \<Rightarrow> if skip_ws rest = [] then Some v else None)"

text \<open>\<open>json.Unmarshal\<close> into a \<open>map[string]any\<close>: null gives a nil map, any other value is refused.\<close>

definition json_parse_map :: "string \<Rightarrow> (string \<times> json) list option option" where
  "json_parse_map s =
     (case json_parse s of
        Some (JObj m) \<Rightarrow> Some (Some m)
      | Some JNull \<Rightarrow> Some None
      | _ \<Rightarrow> None)"

section \<open>Writing documents\<close>

text \<open>The shortest decimal digits that read back as the number: \<open>m\<close> and \<open>e\<close> stand for m * 10^e.\<close>

definition log10_floor :: "rat \<Rightarrow> int" where
  "log10_floor x =
     (if 1 \<le> x then int (length (nat_digits (nat \<lfloor>x\<rfloor>))) - 1
      else - int (length (nat_digits (nat (\<lceil>1 / x\<rceil> - 1)))))"

definition decimal_candidates :: "rat \<Rightarrow> nat \<Rightarrow> (int \<times> int) list" where
  "decimal_candidates x n =
     (let e = log10_floor x - int n + 1; y = x / pow_rat 10 e; m = round_half_even y
      in [(m, e), (if of_int m \<le> y then m + 1 else m - 1, e)])"

definition shortest_decimal :: "rat \<Rightarrow> int \<times> int" where
  "shortest_decimal x =
     (case find (\<lambda>(m, e). round_float64 (of_int m * pow_rat 10 e) = Some x)
             (concat (map (decimal_candidates x) [1..<18])) of
        Some p \<Rightarrow> p
      | None \<Rightarrow> (\<lfloor>x\<rfloor>, 0))"

text \<open>\<open>strconv.FormatFloat(x, 'f', -1, 64)\<close>.\<close>

definition format_f :: "rat \<Rightarrow> string" where
  "format_f x =
     (let a = \<bar>x\<bar>; (m, e) = shortest_decimal a; ds = nat_digits (nat m);
          body = (if a = 0 then ''0''
                  else if 0 \<le> e then ds @ replicate (nat e) (CHR ''0'')
                  else let k = nat (- e); padded = replicate (k + 1 - length ds) (CHR ''0'') @ ds;
                           fp = strip_zeros (drop (length padded - k) padded)
                       in take (length padded - k) padded @ (if fp = [] then [] else CHR ''.'' # fp))
      in if x < 0 then CHR ''-'' # body else body)"

text \<open>A number in a document: the form above, or the exponent form outside 1e-6 to 1e21.\<close>

definition json_float :: "rat \<Rightarrow> string" where
  "json_float x =
     (let a = \<bar>x\<bar>
      in if a = 0 \<or> pow_rat 10 (- 6) \<le> a \<and> a < pow_rat 10 21 then format_f x
         else let (m, e) = shortest_decimal a; ds = strip_zeros (nat_digits (nat m));
                  ex = log10_floor (of_int m * pow_rat 10 e);
                  mant = hd ds # (if tl ds = [] then [] else CHR ''.'' # tl ds);
                  body = mant @ (if ex < 0 then ''e-'' @ nat_digits (nat (- ex)) else ''e+'' @ nat_digits (nat ex))
              in if x < 0 then CHR ''-'' # body else body)"

fun json_marshal :: "json \<Rightarrow> string" where
  "json_marshal JNull = ''null''"
| "json_marshal (JBool b) = (if b then ''true'' else ''false'')"
| "json_marshal (JNum x) = json_float x"
| "json_marshal (JStr s) = json_string s"
| "json_marshal (JArr vs) = [CHR 0x5B] @ Join (map json_marshal vs) '','' @ [CHR 0x5D]"
| "json_marshal (JObj m) = json_object (sort_key fst (map (map_prod id json_marshal) m))"

end
