(* ===== verification/Validation.thy ===== *)
theory Validation
  imports Policy Permissions Json
begin

text \<open>
  Output validation (\<^verbatim>\<open>validation.go\<close>): the built-in validators, the aggregation of checks, the
  request of a repair, and the metadata the wrapper records. The file system, the JSON decoder of
  the standard library and caller-defined validators are the environment \<open>valid_env\<close>; the
  context is read once per expectation, so its oracle takes the position of the expectation.
\<close>

section \<open>Environment\<close>

record ValidationContext =
  vctx_Request :: RunRequest
  vctx_Result :: RunResult
  vctx_WorkDir :: string

record valid_env =
  ve_ctx :: "nat \<Rightarrow> ctx_error option"
  ve_stat :: "string \<Rightarrow> bool option"
  ve_read :: "string \<Rightarrow> string option"
  ve_jsonErr :: "string \<Rightarrow> string"
  ve_validator :: "FuncRef \<Rightarrow> ValidationContext \<Rightarrow> ValidationCheck"

text \<open>
  \<open>ve_stat p\<close> is \<open>None\<close> when \<open>os.Stat\<close> fails and else whether the path is a directory;
  \<open>ve_read\<close> is \<open>os.ReadFile\<close>; \<open>ve_jsonErr\<close> is the wording of the error of
  \<open>json.Unmarshal\<close> on a text it refuses.
\<close>

section \<open>Paths\<close>

definition IsAbs :: "string \<Rightarrow> bool" where
  "IsAbs p = HasPrefix p ''/''"

text \<open>\<open>filepath.Clean\<close>: the components kept so far are held in reverse.\<close>

definition clean_step :: "bool \<Rightarrow> string list \<Rightarrow> string \<Rightarrow> string list" where
  "clean_step rooted kept c =
     (if c = [] \<or> c = ''.'' then kept
      else if c = ''..'' then
        (case kept of
           [] \<Rightarrow> if rooted then [] else [''..'']
         | k # ks \<Rightarrow> if k = ''..'' then ''..'' # kept else ks)
      else c # kept)"

definition Clean :: "string \<Rightarrow> string" where
  "Clean p =
     (let rooted = IsAbs p;
          body = Join (rev (foldl (clean_step rooted) [] (Split (CHR ''/'') p))) ''/''
      in if rooted then ''/'' @ body else if body = [] then ''.'' else body)"

definition resolvePath :: "string \<Rightarrow> string \<Rightarrow> string" where
  "resolvePath workDir path =
     (if path = [] \<or> IsAbs path \<or> workDir = [] then path else Clean (workDir @ ''/'' @ path))"

section \<open>Checks\<close>

definition safeDetail :: "string \<Rightarrow> string" where
  "safeDetail v =
     (let t = TrimSpace v in if length t \<le> 240 then t else take 240 t @ ''...'')"

definition severity_default :: "ExpectationSeverity \<Rightarrow> ExpectationSeverity" where
  "severity_default v = (if v = NoSeverity then ExpectationRequired else v)"

definition severityRequired :: "ExpectationSeverity \<Rightarrow> bool" where
  "severityRequired v \<longleftrightarrow> v = NoSeverity \<or> v = ExpectationRequired"

definition expectationID :: "ValidationExpectation \<Rightarrow> string" where
  "expectationID e =
     (let k = expectation_kind_string (exp_Kind e)
      in if exp_ID e \<noteq> [] then exp_ID e
         else if exp_Path e \<noteq> [] then k @ '':'' @ exp_Path e
         else if exp_ArtifactID e \<noteq> [] then k @ '':'' @ exp_ArtifactID e
         else if exp_MetadataKey e \<noteq> [] then k @ '':'' @ exp_MetadataKey e
         else k)"

definition failedCheck :: "ValidationExpectation \<Rightarrow> string \<Rightarrow> string \<Rightarrow> string \<Rightarrow> ValidationCheck" where
  "failedCheck e expected observed detail =
     \<lparr>chk_ExpectationID = expectationID e, chk_Kind = exp_Kind e,
      chk_Severity = severity_default (exp_Severity e), chk_Passed = False, chk_Skipped = False,
      chk_Expected = safeDetail expected, chk_Observed = safeDetail observed,
      chk_Detail = safeDetail detail, chk_RepairHint = safeDetail (exp_RepairHint e)\<rparr>"

definition passedCheck :: "ValidationExpectation \<Rightarrow> string \<Rightarrow> string \<Rightarrow> ValidationCheck" where
  "passedCheck e expected observed =
     \<lparr>chk_ExpectationID = expectationID e, chk_Kind = exp_Kind e,
      chk_Severity = severity_default (exp_Severity e), chk_Passed = True, chk_Skipped = False,
      chk_Expected = safeDetail expected, chk_Observed = safeDetail observed,
      chk_Detail = [], chk_RepairHint = safeDetail (exp_RepairHint e)\<rparr>"

definition normalizeCheck :: "ValidationCheck \<Rightarrow> ValidationCheck" where
  "normalizeCheck c =
     (let kind = (if chk_Kind c = NoExpectationKind then ExpectationCustom else chk_Kind c)
      in c\<lparr>chk_Severity := (if chk_Severity c = NoSeverity then ExpectationRequired else chk_Severity c),
           chk_Kind := kind,
           chk_ExpectationID := (if chk_ExpectationID c = [] then expectation_kind_string kind
                                 else chk_ExpectationID c),
           chk_Expected := safeDetail (chk_Expected c),
           chk_Observed := safeDetail (chk_Observed c),
           chk_Detail := safeDetail (chk_Detail c),
           chk_RepairHint := safeDetail (chk_RepairHint c)\<rparr>)"

section \<open>Markdown\<close>

definition heading_of :: "string \<Rightarrow> string option" where
  "heading_of line =
     (let trimmed = TrimSpace line;
          rest = dropWhile (\<lambda>c. c = CHR ''#'') trimmed
      in if \<not> HasPrefix trimmed ''#'' then None
         else
           (case rest of
              [] \<Rightarrow> None
            | c # cs \<Rightarrow> if c \<noteq> CHR '' '' then None else Some (TrimSpace cs)))"

definition markdownHeadings :: "string \<Rightarrow> string list" where
  "markdownHeadings content = List.map_filter heading_of (Split (CHR 0x0A) content)"

text \<open>
  The inner loop of \<open>missingInOrder\<close>: what is left of the observed headings after the first
  occurrence of \<open>heading\<close>, or \<open>None\<close> when the list is used up without finding it.
\<close>

fun skip_to :: "string \<Rightarrow> string list \<Rightarrow> string list option" where
  "skip_to heading [] = None"
| "skip_to heading (o1 # os) = (if o1 = heading then Some os else skip_to heading os)"

fun missingInOrder :: "string list \<Rightarrow> string list \<Rightarrow> string list" where
  "missingInOrder [] observed = []"
| "missingInOrder (heading # expected) observed =
     (case skip_to heading observed of
        Some rest \<Rightarrow> missingInOrder expected rest
      | None \<Rightarrow> heading # missingInOrder expected [])"

definition template_markers :: "string list" where
  "template_markers = [''TODO'', ''TBD'', ''{{'', ''}}'', ''<!-- REQUIRED'']"

definition unresolvedTemplateSlots :: "string \<Rightarrow> string list" where
  "unresolvedTemplateSlots content = filter (Contains content) template_markers"

section \<open>Validators\<close>

definition validatePath :: "valid_env \<Rightarrow> ValidationExpectation \<Rightarrow> string \<Rightarrow> bool \<Rightarrow> ValidationCheck" where
  "validatePath env e workDir wantDir =
     (let path = resolvePath workDir (exp_Path e)
      in case ve_stat env path of
           None \<Rightarrow> failedCheck e path ''missing'' ''path was not found''
         | Some isDir \<Rightarrow>
             if wantDir \<and> \<not> isDir
             then failedCheck e ''directory'' ''file'' ''path exists but is not a directory''
             else if \<not> wantDir \<and> isDir
             then failedCheck e ''file'' ''directory'' ''path exists but is a directory''
             else passedCheck e path ''present'')"

fun find_artifact :: "ValidationExpectation \<Rightarrow> ArtifactRef list \<Rightarrow> ValidationCheck option" where
  "find_artifact e [] = None"
| "find_artifact e (a # rest) =
     (if exp_ArtifactID e \<noteq> [] \<and> art_ID a = exp_ArtifactID e
      then Some (passedCheck e (exp_ArtifactID e) ''referenced'')
      else if exp_ArtifactURI e \<noteq> [] \<and> art_URI a = exp_ArtifactURI e
      then Some (passedCheck e (exp_ArtifactURI e) ''referenced'')
      else find_artifact e rest)"

definition validateArtifact :: "ValidationExpectation \<Rightarrow> RunResult \<Rightarrow> ValidationCheck" where
  "validateArtifact e result =
     (case find_artifact e (res_Artifacts result @ md_Artifacts (res_Metadata result)) of
        Some c \<Rightarrow> c
      | None \<Rightarrow>
          (let expected = (if exp_ArtifactID e \<noteq> [] then exp_ArtifactID e
                           else if exp_ArtifactURI e \<noteq> [] then exp_ArtifactURI e
                           else ''artifact reference'')
           in failedCheck e expected ''missing'' ''artifact reference was not present''))"

definition validateMarkdownTemplate :: "valid_env \<Rightarrow> ValidationExpectation \<Rightarrow> string \<Rightarrow> ValidationCheck" where
  "validateMarkdownTemplate env e workDir =
     (let templatePath = resolvePath workDir (exp_TemplatePath e);
          artifactPath = resolvePath workDir (exp_Path e)
      in case ve_read env templatePath of
           None \<Rightarrow> failedCheck e templatePath ''unreadable'' ''template file could not be read''
         | Some templateBytes \<Rightarrow>
             (case ve_read env artifactPath of
                None \<Rightarrow> failedCheck e artifactPath ''unreadable'' ''markdown artifact could not be read''
              | Some artifactBytes \<Rightarrow>
                  (let expectedHeadings = markdownHeadings templateBytes;
                       observedHeadings = markdownHeadings artifactBytes;
                       missing = missingInOrder expectedHeadings observedHeadings;
                       unresolved = unresolvedTemplateSlots artifactBytes
                   in if expectedHeadings = []
                      then failedCheck e ''template headings'' ''none'' ''template has no Markdown headings''
                      else if missing \<noteq> []
                      then failedCheck e (Join expectedHeadings '' > '')
                             (''missing or out of order: '' @ Join missing '', '')
                             ''required Markdown headings are missing or out of order''
                      else if unresolved \<noteq> []
                      then failedCheck e ''resolved template placeholders'' (Join unresolved '', '')
                             ''markdown artifact contains unresolved template placeholders''
                      else passedCheck e templatePath ''markdown template matched'')))"

text \<open>\<open>%T\<close> of the values \<open>json.Unmarshal\<close> produces.\<close>

definition json_type_name :: "gval \<Rightarrow> string" where
  "json_type_name v =
     (case v of
        GNil \<Rightarrow> ''<nil>'' | GBool b \<Rightarrow> ''bool'' | GString s \<Rightarrow> ''string'' | GList vs \<Rightarrow> ''[]interface {}''
      | GMap m \<Rightarrow> ''map[string]interface {}'' | _ \<Rightarrow> ''float64'')"

definition validateJSON :: "valid_env \<Rightarrow> ValidationExpectation \<Rightarrow> string \<Rightarrow> ValidationCheck" where
  "validateJSON env e workDir =
     (let path = resolvePath workDir (exp_Path e);
          passed = passedCheck e path ''valid JSON''
      in case ve_read env path of
           None \<Rightarrow> failedCheck e path ''unreadable'' ''JSON file could not be read''
         | Some content \<Rightarrow>
             (case map_option gval_of_json (json_parse content) of
                None \<Rightarrow> failedCheck e ''well-formed JSON'' ''invalid JSON'' (ve_jsonErr env content)
              | Some v \<Rightarrow>
                  if exp_RequiredFields e = [] then passed
                  else
                    (case v of
                       GMap obj \<Rightarrow>
                         (let missing = filter (\<lambda>f. aget obj f = None) (exp_RequiredFields e)
                          in if missing \<noteq> []
                             then failedCheck e (''required fields: '' @ Join (exp_RequiredFields e) '', '')
                                    (''missing: '' @ Join (sort missing) '', '')
                                    ''JSON object is missing required fields''
                             else passed)
                     | _ \<Rightarrow> failedCheck e ''JSON object'' (json_type_name v)
                              ''required fields need a JSON object'')))"

definition validateMetadata :: "ValidationExpectation \<Rightarrow> RunResult \<Rightarrow> ValidationCheck" where
  "validateMetadata e result =
     (if exp_MetadataKey e = []
      then failedCheck e ''metadata key'' ''empty'' ''metadata expectation requires a key''
      else
        (case md_NativeMetadata (res_Metadata result) of
           Some native \<Rightarrow>
             if aget native (exp_MetadataKey e) \<noteq> None then passedCheck e (exp_MetadataKey e) ''present''
             else failedCheck e (exp_MetadataKey e) ''missing'' ''metadata key was not present''
         | None \<Rightarrow> failedCheck e (exp_MetadataKey e) ''missing'' ''metadata key was not present''))"

definition validateExpectation ::
  "valid_env \<Rightarrow> ctx_error option \<Rightarrow> ValidationContext \<Rightarrow> ValidationExpectation \<Rightarrow> ValidationCheck" where
  "validateExpectation env ctxErr vctx e =
     (case ctxErr of
        Some ce \<Rightarrow> failedCheck e ''context active'' (error_text (ctx_go_error ce)) ''validation cancelled''
      | None \<Rightarrow>
          (case exp_Kind e of
             ExpectationFile \<Rightarrow> validatePath env e (vctx_WorkDir vctx) False
           | ExpectationDirectory \<Rightarrow> validatePath env e (vctx_WorkDir vctx) True
           | ExpectationArtifact \<Rightarrow> validateArtifact e (vctx_Result vctx)
           | ExpectationMarkdownTemplate \<Rightarrow> validateMarkdownTemplate env e (vctx_WorkDir vctx)
           | ExpectationJSON \<Rightarrow> validateJSON env e (vctx_WorkDir vctx)
           | ExpectationMetadata \<Rightarrow> validateMetadata e (vctx_Result vctx)
           | _ \<Rightarrow> failedCheck e ''supported expectation kind'' (expectation_kind_string (exp_Kind e))
                    ''unknown validation expectation kind''))"

section \<open>Aggregation\<close>

definition validationError :: "ValidationResult \<Rightarrow> SDKError" where
  "validationError r =
     NewError ErrorValidation ''validation'' ''required output validation failed'' None
       [WithMetadata (Some [(''failed_count'', itoa (vr_FailedCount r))])]"

definition failure_of :: "ValidationCheck \<Rightarrow> ValidationFailure" where
  "failure_of c =
     \<lparr>vf_ExpectationID = chk_ExpectationID c, vf_Kind = chk_Kind c, vf_Severity = chk_Severity c,
      vf_Expected = chk_Expected c, vf_Observed = chk_Observed c, vf_Detail = chk_Detail c,
      vf_RepairHint = chk_RepairHint c\<rparr>"

definition aggregate_step :: "ValidationResult \<Rightarrow> ValidationCheck \<Rightarrow> ValidationResult" where
  "aggregate_step r check0 =
     (let c = normalizeCheck check0
      in if chk_Skipped c then r\<lparr>vr_SkippedCount := vr_SkippedCount r + 1\<rparr>
         else if chk_Passed c then r\<lparr>vr_PassedCount := vr_PassedCount r + 1\<rparr>
         else if severityRequired (chk_Severity c)
         then r\<lparr>vr_Passed := False, vr_FailedCount := vr_FailedCount r + 1,
                vr_Failures := vr_Failures r @ [failure_of c]\<rparr>
         else r\<lparr>vr_SkippedCount := vr_SkippedCount r + 1\<rparr>)"

definition aggregateValidation :: "ValidationCheck list \<Rightarrow> ValidationResult" where
  "aggregateValidation checks =
     (let r0 = zero_ValidationResult\<lparr>vr_Passed := True, vr_Checks := checks\<rparr>;
          r1 = foldl aggregate_step r0 checks;
          r2 = (if checks = [] then r1\<lparr>vr_Skipped := True, vr_SkippedCount := 1\<rparr> else r1)
      in if \<not> vr_Passed r2 then r2\<lparr>vr_Errors := [validationError r2]\<rparr> else r2)"

definition ValidateRun :: "valid_env \<Rightarrow> RunRequest \<Rightarrow> RunResult \<Rightarrow> ValidationSpec \<Rightarrow> ValidationResult" where
  "ValidateRun env req result spec =
     (let vctx = \<lparr>vctx_Request = req, vctx_Result = result, vctx_WorkDir = req_WorkDir req\<rparr>;
          builtin = map (\<lambda>(i, e). validateExpectation env (ve_ctx env i) vctx e)
                      (List.enumerate 0 (spec_Expectations spec));
          custom = map (\<lambda>v. normalizeCheck (ve_validator env v vctx))
                     (List.map_filter (\<lambda>v. v) (spec_Validators spec))
      in aggregateValidation (builtin @ custom))"

section \<open>Repair requests and metadata\<close>

record RepairContext =
  rc_OriginalRequest :: RunRequest
  rc_CurrentResult :: RunResult
  rc_Validation :: ValidationResult
  rc_Attempt :: int
  rc_MaxAttempts :: int

record repair_env =
  re_shouldRepair :: "FuncRef \<Rightarrow> RepairContext \<Rightarrow> bool"
  re_buildPrompt :: "FuncRef \<Rightarrow> RepairContext \<Rightarrow> string"
  re_override :: "FuncRef \<Rightarrow> RepairContext \<Rightarrow> RunRequest \<Rightarrow> RunRequest"

definition failure_line :: "ValidationFailure \<Rightarrow> string" where
  "failure_line f =
     [CHR 0x0A] @ ''- '' @ vf_ExpectationID f @ '': expected '' @ vf_Expected f @ ''; observed '' @ vf_Observed f
     @ (if vf_RepairHint f \<noteq> [] then ''; hint '' @ vf_RepairHint f else [])"

definition defaultRepairPrompt :: "RepairContext \<Rightarrow> string" where
  "defaultRepairPrompt ctx =
     ''Repair the previous run output so it satisfies these validation failures. Preserve the existing task intent and update durable artifacts instead of relying on terminal output.''
     @ [CHR 0x0A] @ concat (map failure_line (vr_Failures (rc_Validation ctx)))"

definition repairRequest :: "repair_env \<Rightarrow> RunRequest \<Rightarrow> RepairConfig \<Rightarrow> RepairContext \<Rightarrow> RunRequest" where
  "repairRequest env req config ctx =
     (let n1 = req\<lparr>req_Validation := None\<rparr>;
          n2 = n1\<lparr>req_SessionAction := (if rep_SessionAction config \<noteq> SessionActionDefault
                                        then rep_SessionAction config else SessionActionContinue)\<rparr>;
          n3 = (if req_SessionID n2 = [] then n2\<lparr>req_SessionID := res_SessionID (rc_CurrentResult ctx)\<rparr> else n2);
          n4 = n3\<lparr>req_Prompt := (case rep_BuildPrompt config of
                                    None \<Rightarrow> defaultRepairPrompt ctx | Some f \<Rightarrow> re_buildPrompt env f ctx)\<rparr>
      in case rep_OverrideRequest config of None \<Rightarrow> n4 | Some f \<Rightarrow> re_override env f ctx n4)"

definition repair_exhausted :: "ValidationSpec \<Rightarrow> ValidationResult list \<Rightarrow> RepairAttemptSummary list \<Rightarrow> bool" where
  "repair_exhausted spec history repairs \<longleftrightarrow>
     rep_MaxAttempts (spec_Repair spec) > 0
     \<and> int (length repairs) \<ge> rep_MaxAttempts (spec_Repair spec)
     \<and> history \<noteq> [] \<and> \<not> vr_Passed (last history)"

definition repair_meta_step :: "RepairMetadata \<Rightarrow> RepairAttemptSummary \<Rightarrow> RepairMetadata" where
  "repair_meta_step m r =
     m\<lparr>rm_PermissionPolicyID :=
         (if rm_PermissionPolicyID m = [] then ra_PermissionPolicyID r else rm_PermissionPolicyID m),
       rm_PermissionDenied := (ra_ErrorCategory r = ErrorPermission \<or> rm_PermissionDenied m),
       rm_UnsupportedSameSession := (ra_UnsupportedSession r \<or> rm_UnsupportedSameSession m)\<rparr>"

definition withValidationMetadata ::
  "RunResult \<Rightarrow> ValidationSpec \<Rightarrow> ValidationResult list \<Rightarrow> RepairAttemptSummary list \<Rightarrow> RunResult" where
  "withValidationMetadata result spec history repairs =
     (let m0 = zero_RepairMetadata\<lparr>rm_Configured := rep_MaxAttempts (spec_Repair spec) > 0,
                 rm_Attempted := repairs \<noteq> [], rm_MaxAttempts := rep_MaxAttempts (spec_Repair spec),
                 rm_Attempts := repairs\<rparr>;
          m1 = foldl repair_meta_step m0 repairs;
          m2 = (if repair_exhausted spec history repairs
                then m1\<lparr>rm_Exhausted := True, rm_ExhaustedReason := ''max repair attempts exhausted''\<rparr>
                else m1)
      in result\<lparr>res_Metadata := (res_Metadata result)\<lparr>
           md_Validation :=
             \<lparr>vm_Configured = (spec_Expectations spec \<noteq> [] \<or> spec_Validators spec \<noteq> []),
              vm_Final = (if history \<noteq> [] then last history else zero_ValidationResult),
              vm_History = history\<rparr>,
           md_Repair := m2\<rparr>\<rparr>)"

section \<open>Errors of the validation runner\<close>

definition contextValidationError :: "go_error option \<Rightarrow> SDKError option" where
  "contextValidationError err =
     (case err of
        None \<Rightarrow> None
      | Some e \<Rightarrow>
          Some (if e = ECanceled
                then NewError ErrorCancellation ''validation'' ''validation run was cancelled'' (Some e) []
                else if e = EDeadlineExceeded
                then NewError ErrorTimeout ''validation'' ''validation run timed out'' (Some e) []
                else NewError ErrorUnknown ''validation'' (error_text e) (Some e) []))"

definition firstSDKError :: "SDKError option \<Rightarrow> go_error option \<Rightarrow> SDKError option" where
  "firstSDKError primary err =
     (case primary of Some e \<Rightarrow> Some e | None \<Rightarrow> ensureSDKError err ''validation'')"

definition statusForError :: "SDKError option \<Rightarrow> RunStatus" where
  "statusForError err =
     (case err of
        Some e \<Rightarrow> if err_Category e = ErrorCancellation then StatusCancelled else StatusFailed
      | None \<Rightarrow> StatusCompleted)"

definition same_error :: "SDKError \<Rightarrow> SDKError \<Rightarrow> bool" where
  "same_error a b \<longleftrightarrow>
     err_Category a = err_Category b \<and> err_Operation a = err_Operation b \<and> err_UserDetail a = err_UserDetail b"

definition appendSDKError :: "SDKError list \<Rightarrow> SDKError option \<Rightarrow> SDKError list" where
  "appendSDKError errors err =
     (case err of
        None \<Rightarrow> errors
      | Some e \<Rightarrow> if list_ex (\<lambda>x. same_error x e) errors then errors else errors @ [e])"

definition safeFailurePayload :: "ValidationFailure list \<Rightarrow> gval" where
  "safeFailurePayload failures = GStringMaps
     (map (\<lambda>f. [(''expectation_id'', vf_ExpectationID f), (''kind'', expectation_kind_string (vf_Kind f)),
                (''expected'', vf_Expected f), (''observed'', vf_Observed f), (''detail'', vf_Detail f),
                (''repair_hint'', vf_RepairHint f)]) failures)"

definition cloneEventPayload :: "anymap option \<Rightarrow> anymap" where
  "cloneEventPayload p = fold (\<lambda>(k, v) m. aput k v m) (entries p) []"

section \<open>Facts about checks\<close>

text \<open>The checks that count against a run: required, neither skipped nor passed.\<close>

definition failing :: "ValidationCheck \<Rightarrow> bool" where
  "failing c \<longleftrightarrow> \<not> chk_Skipped c \<and> \<not> chk_Passed c \<and> chk_Severity c \<in> {NoSeverity, ExpectationRequired}"

lemma failing_iff: "failing c \<longleftrightarrow> \<not> chk_Skipped c \<and> \<not> chk_Passed c \<and> severityRequired (chk_Severity c)"
  by (simp add: failing_def severityRequired_def)

definition passing :: "ValidationCheck \<Rightarrow> bool" where
  "passing c \<longleftrightarrow> \<not> chk_Skipped c \<and> chk_Passed c"

lemma normalizeCheck_simps [simp]:
  "chk_Skipped (normalizeCheck c) = chk_Skipped c"
  "chk_Passed (normalizeCheck c) = chk_Passed c"
  "severityRequired (chk_Severity (normalizeCheck c)) = severityRequired (chk_Severity c)"
  by (simp_all add: normalizeCheck_def severityRequired_def Let_def)

lemma aggregate_fold:
  "foldl aggregate_step r cs =
     r\<lparr>vr_Passed := vr_Passed r \<and> filter failing cs = [],
       vr_PassedCount := vr_PassedCount r + int (length (filter passing cs)),
       vr_FailedCount := vr_FailedCount r + int (length (filter failing cs)),
       vr_SkippedCount := vr_SkippedCount r + int (length (filter (\<lambda>c. \<not> failing c \<and> \<not> passing c) cs)),
       vr_Failures := vr_Failures r @ map (\<lambda>c. failure_of (normalizeCheck c)) (filter failing cs)\<rparr>"
proof (induction cs arbitrary: r)
  case (Cons c cs)
  consider (fail) "failing c" "\<not> passing c" | (pass) "passing c" "\<not> failing c"
    | (skip) "\<not> failing c" "\<not> passing c"
    by (auto simp: failing_iff passing_def)
  then show ?case
  proof cases
    case fail
    then have "aggregate_step r c = r\<lparr>vr_Passed := False, vr_FailedCount := vr_FailedCount r + 1,
        vr_Failures := vr_Failures r @ [failure_of (normalizeCheck c)]\<rparr>"
      by (simp add: aggregate_step_def failing_iff Let_def)
    with fail show ?thesis by (simp add: Cons.IH)
  next
    case pass
    then have "aggregate_step r c = r\<lparr>vr_PassedCount := vr_PassedCount r + 1\<rparr>"
      by (simp add: aggregate_step_def passing_def Let_def)
    with pass show ?thesis by (simp add: Cons.IH)
  next
    case skip
    then have "aggregate_step r c = r\<lparr>vr_SkippedCount := vr_SkippedCount r + 1\<rparr>"
      by (auto simp: aggregate_step_def failing_iff passing_def Let_def)
    with skip show ?thesis by (simp add: Cons.IH)
  qed
qed simp

lemma filter_partition3:
  "(\<And>c. \<not> (P c \<and> Q c)) \<Longrightarrow>
     length (filter P cs) + length (filter Q cs) + length (filter (\<lambda>c. \<not> Q c \<and> \<not> P c) cs) = length cs"
  by (induction cs) auto

lemma skip_to_subseq:
  "subseq (h # es) os \<longleftrightarrow> (case skip_to h os of Some rest \<Rightarrow> subseq es rest | None \<Rightarrow> False)"
  by (induction os) auto

lemma missingInOrder_Nil_iff: "missingInOrder es os = [] \<longleftrightarrow> subseq es os"
  by (induction es os rule: missingInOrder.induct)
    (auto simp: skip_to_subseq split: option.split)

lemma subset_missingInOrder: "set (missingInOrder es os) \<subseteq> set es"
  by (induction es os rule: missingInOrder.induct) (auto split: option.split)

lemma space_prefix_0_iff:
  "[] \<notin> set encs \<Longrightarrow> space_prefix encs s = 0 \<longleftrightarrow> (\<forall>e \<in> set encs. \<not> prefix e s)"
  by (auto simp: space_prefix_def find_None_iff find_Some_iff split: option.splits) (metis nth_mem)

lemma TrimSpace_ellipsis:
  assumes "space_prefix space_encodings t = 0" and "length t > 240"
  shows "TrimSpace (take 240 t @ ''...'') = take 240 t @ ''...''"
proof -
  let ?s = "take 240 t @ ''...''"
  have nonempty: "[] \<notin> set space_encodings" by (simp add: space_encodings_def)
  have short: "\<forall>e \<in> set space_encodings. length e \<le> 3" by (simp add: space_encodings_def)
  have "\<not> prefix e ?s" if "e \<in> set space_encodings" for e
  proof
    assume "prefix e ?s"
    moreover have "length e \<le> length (take 240 t)"
      using short that assms(2) by fastforce
    ultimately have "prefix e (take 240 t)"
      using prefix_length_prefix [of e ?s "take 240 t"] by simp
    then have "prefix e t"
      using take_is_prefix prefix_order.trans by blast
    with assms(1) that nonempty show False by (simp add: space_prefix_0_iff)
  qed
  then have "trim_left space_encodings ?s = ?s"
    by (intro trim_left_id) (simp add: space_prefix_0_iff nonempty)
  moreover have "trim_left (map rev space_encodings) (rev ?s) = rev ?s"
    by (intro trim_left_id) (simp add: space_prefix_def space_encodings_def)
  ultimately show ?thesis
    by (simp add: TrimSpace_def)
qed

lemma safeDetail_idem [simp]: "safeDetail (safeDetail v) = safeDetail v"
proof (cases "length (TrimSpace v) \<le> 240")
  case True
  then show ?thesis by (simp add: safeDetail_def)
next
  case False
  then have "TrimSpace (take 240 (TrimSpace v) @ ''...'') = take 240 (TrimSpace v) @ ''...''"
    by (intro TrimSpace_ellipsis TrimSpace_prefix_0) simp
  with False show ?thesis by (simp add: safeDetail_def Let_def)
qed

lemma length_safeDetail: "length (safeDetail v) \<le> 243"
  by (simp add: safeDetail_def Let_def)

lemma check_fields [simp]:
  "chk_Passed (failedCheck e a b c) = False" "chk_Skipped (failedCheck e a b c) = False"
  "chk_Severity (failedCheck e a b c) = severity_default (exp_Severity e)"
  "chk_Passed (passedCheck e a b) = True"
  by (simp_all add: failedCheck_def passedCheck_def)

lemma severityRequired_default [simp]: "severityRequired (severity_default v) = severityRequired v"
  by (simp add: severityRequired_def severity_default_def)

lemma failing_failedCheck [simp]: "failing (failedCheck e a b c) = severityRequired (exp_Severity e)"
  by (simp add: failing_iff)

lemma aggregateValidation_Passed: "vr_Passed (aggregateValidation cs) \<longleftrightarrow> filter failing cs = []"
  by (simp add: aggregateValidation_def aggregate_fold Let_def zero_ValidationResult_def)

section \<open>Properties\<close>

text \<open>
  C15. The verdict of a validation pass: it passes exactly when no required check fails, its failures
  are those checks in order, every check is counted once as passed, failed or skipped (a pass
  without checks counts one skip), and it carries an error exactly when it did not pass.
\<close>

theorem aggregate_validation_verdict:
  "(vr_Passed (aggregateValidation checks) \<longleftrightarrow> filter failing checks = [])
   \<and> vr_Failures (aggregateValidation checks) = map (\<lambda>c. failure_of (normalizeCheck c)) (filter failing checks)
   \<and> vr_FailedCount (aggregateValidation checks) = int (length (vr_Failures (aggregateValidation checks)))
   \<and> vr_PassedCount (aggregateValidation checks) + vr_FailedCount (aggregateValidation checks)
       + vr_SkippedCount (aggregateValidation checks) = int (max 1 (length checks))
   \<and> (vr_Errors (aggregateValidation checks) = [] \<longleftrightarrow> vr_Passed (aggregateValidation checks))"
proof -
  have part: "length (filter passing checks) + length (filter failing checks)
      + length (filter (\<lambda>c. \<not> failing c \<and> \<not> passing c) checks) = length checks"
    by (rule filter_partition3) (simp add: failing_iff passing_def)
  show ?thesis
  proof (cases "checks = []")
    case True
    then show ?thesis by (simp add: aggregateValidation_def zero_ValidationResult_def)
  next
    case False
    then have "max 1 (length checks) = length checks" by (cases checks) simp_all
    moreover note arg_cong [OF part, of int]
    ultimately show ?thesis
      using False by (auto simp: aggregateValidation_def aggregate_fold zero_ValidationResult_def Let_def)
  qed
qed

text \<open>
  C16. A required expectation fails closed: when the context has ended at its turn, or its kind is
  not one of the built-in kinds, the run does not pass, whatever the files and validators say.
\<close>

theorem validate_run_fails_closed:
  assumes "i < length (spec_Expectations spec)"
    and "severityRequired (exp_Severity (spec_Expectations spec ! i))"
    and "ve_ctx env i \<noteq> None \<or> exp_Kind (spec_Expectations spec ! i) \<notin>
           {ExpectationFile, ExpectationDirectory, ExpectationArtifact, ExpectationMarkdownTemplate,
            ExpectationJSON, ExpectationMetadata}"
  shows "\<not> vr_Passed (ValidateRun env req result spec)"
proof -
  let ?e = "spec_Expectations spec ! i"
  let ?c = "\<lambda>vctx. validateExpectation env (ve_ctx env i) vctx ?e"
  have "failing (?c vctx)" for vctx
    using assms(2,3) by (cases "exp_Kind ?e") (auto simp: validateExpectation_def split: option.split)
  moreover have "(i, ?e) \<in> set (List.enumerate 0 (spec_Expectations spec))"
    using assms(1) by (simp add: in_set_enumerate_eq)
  then have "?c vctx \<in> set (map (\<lambda>(i, e). validateExpectation env (ve_ctx env i) vctx e)
      (List.enumerate 0 (spec_Expectations spec)))" for vctx
    by (simp only: set_map) (rule image_eqI [where x = "(i, ?e)"], simp_all)
  ultimately have "\<not> vr_Passed (aggregateValidation (map (\<lambda>(i, e). validateExpectation env (ve_ctx env i) vctx e)
      (List.enumerate 0 (spec_Expectations spec)) @ cs))" for vctx cs
    by (auto simp: aggregateValidation_Passed filter_empty_conv simp del: set_map)
  then show ?thesis
    by (simp add: ValidateRun_def Let_def)
qed

definition sample_expectation :: ValidationExpectation where
  "sample_expectation =
     \<lparr>exp_ID = ''report'', exp_Kind = ExpectationMarkdownTemplate, exp_Severity = NoSeverity,
      exp_Path = ''out.md'', exp_ArtifactID = [], exp_ArtifactURI = [], exp_TemplatePath = ''tpl.md'',
      exp_MetadataKey = [], exp_RequiredFields = [], exp_RepairHint = []\<rparr>"

definition sample_repair :: RepairConfig where
  "sample_repair =
     \<lparr>rep_MaxAttempts = 2, rep_SessionAction = SessionActionDefault, rep_AllowFreshSessionFallback = False,
      rep_FreshSessionFallbackOnError = False, rep_ShouldRepair = None, rep_BuildPrompt = None,
      rep_OverrideRequest = None\<rparr>"

definition sample_spec :: ValidationSpec where
  "sample_spec = \<lparr>spec_Expectations = [sample_expectation], spec_Validators = [], spec_Repair = sample_repair\<rparr>"

definition sample_valid_env :: valid_env where
  "sample_valid_env =
     \<lparr>ve_ctx = (\<lambda>i. None), ve_stat = (\<lambda>p. None),
      ve_read = (\<lambda>p. if p = ''tpl.md'' then Some (''# A'') else if p = ''out.md'' then Some (''# A'') else None),
      ve_jsonErr = (\<lambda>s. ''unused''),
      ve_validator = (\<lambda>f v. failedCheck sample_expectation [] [] [])\<rparr>"

theorem validate_run_fails_closed_witness:
  "\<not> vr_Passed (ValidateRun (sample_valid_env\<lparr>ve_ctx := (\<lambda>i. Some CtxCanceled)\<rparr>) zero_RunRequest zero_RunResult
      sample_spec)"
  by (rule validate_run_fails_closed [of 0])
    (simp_all add: sample_spec_def sample_expectation_def severityRequired_def)

text \<open>
  C17. A Markdown artifact that can be read passes against a readable template exactly when the
  template has headings, they occur in the artifact in the same order, and none of the placeholder
  markers occurs anywhere in the artifact.
\<close>

theorem markdown_template_exact:
  assumes "ve_read env (resolvePath workDir (exp_TemplatePath e)) = Some tpl"
    and "ve_read env (resolvePath workDir (exp_Path e)) = Some art"
  shows "chk_Passed (validateMarkdownTemplate env e workDir) \<longleftrightarrow>
      markdownHeadings tpl \<noteq> [] \<and> subseq (markdownHeadings tpl) (markdownHeadings art)
      \<and> list_all (\<lambda>marker. \<not> sublist marker art) template_markers"
  using assms
  by (auto simp: validateMarkdownTemplate_def missingInOrder_Nil_iff unresolvedTemplateSlots_def
      filter_empty_conv Contains_sublist list_all_iff Let_def)

theorem markdown_template_exact_witness:
  "chk_Passed (validateMarkdownTemplate sample_valid_env sample_expectation []) \<longleftrightarrow>
     markdownHeadings ''# A'' \<noteq> [] \<and> subseq (markdownHeadings ''# A'') (markdownHeadings ''# A'')
     \<and> list_all (\<lambda>marker. \<not> sublist marker ''# A'') template_markers"
  by (rule markdown_template_exact)
    (simp_all add: sample_valid_env_def sample_expectation_def resolvePath_def)

text \<open>
  A JSON expectation passes exactly when the file is read, is one JSON document and, when fields are
  required, is an object that has them all.
\<close>

lemma members_of_json_keys: "fst ` set (members_of_json m) = fst ` set m"
proof (induction m)
  case (Cons kv m)
  then show ?case by (cases kv) simp
qed simp

lemma json_check_exact:
  "chk_Passed (validateJSON env e workDir) \<longleftrightarrow>
     (case Option.bind (ve_read env (resolvePath workDir (exp_Path e))) json_parse of
        None \<Rightarrow> False
      | Some (JObj m) \<Rightarrow> set (exp_RequiredFields e) \<subseteq> fst ` set m
      | Some _ \<Rightarrow> exp_RequiredFields e = [])"
  using members_of_json_keys
  by (auto simp: validateJSON_def Let_def passedCheck_def failedCheck_def map_of_eq_None_iff filter_empty_conv subset_iff
      split: option.splits json.splits if_splits)

text \<open>
  C18. Details shown to a caller are bounded and stable: a detail never exceeds 243 bytes, cutting it
  a second time changes nothing, and neither does normalising a check twice, which the runner does
  for every caller-defined validator.
\<close>

theorem validation_details_bounded:
  "length (safeDetail v) \<le> 243 \<and> safeDetail (safeDetail v) = safeDetail v
   \<and> normalizeCheck (normalizeCheck c) = normalizeCheck c
   \<and> length (chk_Expected (normalizeCheck c)) \<le> 243 \<and> length (chk_Observed (normalizeCheck c)) \<le> 243
   \<and> length (chk_Detail (normalizeCheck c)) \<le> 243 \<and> length (chk_RepairHint (normalizeCheck c)) \<le> 243"
proof -
  have kind: "expectation_kind_string ExpectationCustom \<noteq> []" by simp
  have "normalizeCheck (normalizeCheck c) = normalizeCheck c"
    by (simp add: normalizeCheck_def Let_def)
  then show ?thesis
    by (simp add: length_safeDetail) (simp add: normalizeCheck_def length_safeDetail Let_def)
qed

end
