(* ===== verification/ValidationRun.thy ===== *)
theory ValidationRun
  imports Validation EventStream
begin

text \<open>
  The validating runtime (\<^verbatim>\<open>validation.go\<close>): the state of a \<open>validationRun\<close>, its events, one
  repair, and the loop of \<open>execute\<close>. Oracles are indexed by the counter \<open>vn_tick\<close> as in the policy
  runner. \<open>vn_calls\<close> is not a field of the Go struct: it records the requests handed to the wrapped
  runtime, so that theorems can speak about them. The loop is a total function; its termination
  proof is the bound on repairs.
\<close>

section \<open>Environment and state\<close>

record vrun_env =
  we_now :: "nat \<Rightarrow> gtime"
  we_ctx :: "nat \<Rightarrow> ctx_error option"
  we_room :: "nat \<Rightarrow> bool"
  we_pick :: "nat \<Rightarrow> bool"
  we_start :: "nat \<Rightarrow> RuntimeRef \<Rightarrow> RunRequest \<Rightarrow> start_outcome"
  we_pass :: "nat \<Rightarrow> valid_env"
  we_repair :: repair_env

record validationRun =
  vn_id :: RunID
  vn_runtime :: RuntimeRef
  vn_spec :: ValidationSpec
  vn_original :: RunRequest
  vn_started :: gtime
  vn_sent :: "Event list"
  vn_done :: bool
  vn_current :: "nat option"
  vn_result :: RunResult
  vn_waitErr :: "SDKError option"
  vn_seq :: int
  vn_tick :: nat
  vn_calls :: "RunRequest list"

definition vn_observe :: "validationRun \<Rightarrow> validationRun" where
  "vn_observe s = s\<lparr>vn_tick := Suc (vn_tick s)\<rparr>"

definition vn_now :: "vrun_env \<Rightarrow> validationRun \<Rightarrow> gtime \<times> validationRun" where
  "vn_now env s = (we_now env (vn_tick s), vn_observe s)"

section \<open>Events\<close>

definition vn_stampEvent :: "vrun_env \<Rightarrow> Event \<Rightarrow> validationRun \<Rightarrow> Event \<times> validationRun" where
  "vn_stampEvent env e s =
     (let s1 = s\<lparr>vn_seq := vn_seq s + 1\<rparr>;
          e1 = (if ev_ID e = [] then e\<lparr>ev_ID := vn_id s1 @ ''-event-'' @ itoa (vn_seq s1)\<rparr> else e);
          e2 = (if ev_RunID e1 = [] \<or> ev_RunID e1 \<noteq> vn_id s1
                then e1\<lparr>ev_Payload := Some (aput ''inner_run_id'' (GString (ev_RunID e1))
                                              (cloneEventPayload (ev_Payload e1))),
                        ev_RunID := vn_id s1\<rparr>
                else e1)
      in if time_IsZero (ev_Time e2)
         then (let (now, s2) = vn_now env s1 in (e2\<lparr>ev_Time := now\<rparr>, s2))
         else (e2, s1))"

definition vn_sendEvent :: "vrun_env \<Rightarrow> Event \<Rightarrow> validationRun \<Rightarrow> validationRun" where
  "vn_sendEvent env e s =
     (let (e', s1) = vn_stampEvent env e s;
          t = vn_tick s1;
          s2 = vn_observe s1;
          ctxDone = (we_ctx env t \<noteq> None);
          room = we_room env t
      in if ctxDone \<and> (\<not> room \<or> we_pick env t) then s2
         else if room then s2\<lparr>vn_sent := vn_sent s2 @ [e']\<rparr>
         else s2)"

definition vn_forwardEvents :: "vrun_env \<Rightarrow> Event list \<Rightarrow> validationRun \<Rightarrow> validationRun" where
  "vn_forwardEvents env events s = fold (vn_sendEvent env) events s"

definition vn_sendLifecycle ::
  "vrun_env \<Rightarrow> RunResult \<Rightarrow> RunStatus \<Rightarrow> RunStatus \<Rightarrow> string \<Rightarrow> validationRun \<Rightarrow> validationRun" where
  "vn_sendLifecycle env result fromS toS reason s =
     (let (now, s1) = vn_now env s;
          e = LifecycleEvent (vn_id s) (res_SessionID result) (res_TurnID result)
                (md_Context (res_Metadata result)) 0 now fromS toS reason
      in vn_sendEvent env (e\<lparr>ev_ID := []\<rparr>) s1)"

definition vn_event :: "validationRun \<Rightarrow> RunResult \<Rightarrow> string \<Rightarrow> anymap \<Rightarrow> Event" where
  "vn_event s result typ payload =
     \<lparr>ev_ID = [], ev_RunID = vn_id s, ev_SessionID = res_SessionID result, ev_Time = 0, ev_Type = typ,
      ev_Payload = Some (EventPayloadWithKind EventValidation (Some payload)), ev_Raw = None\<rparr>"

section \<open>One run of the wrapped runtime\<close>

definition vn_setCurrent :: "nat \<Rightarrow> validationRun \<Rightarrow> validationRun" where
  "vn_setCurrent run s = s\<lparr>vn_current := Some run\<rparr>"

definition vn_clearCurrent :: "nat \<Rightarrow> validationRun \<Rightarrow> validationRun" where
  "vn_clearCurrent run s = (if vn_current s = Some run then s\<lparr>vn_current := None\<rparr> else s)"

text \<open>The error of a run of the wrapped runtime is always a classified one.\<close>

definition vn_startAndWait ::
  "vrun_env \<Rightarrow> RunRequest \<Rightarrow> validationRun \<Rightarrow> RunResult \<times> SDKError option \<times> validationRun" where
  "vn_startAndWait env req s =
     (let (started, s1) = vn_now env s;
          t = vn_tick s1;
          s2 = (vn_observe s1)\<lparr>vn_calls := vn_calls s1 @ [req]\<rparr>
      in case we_start env t (vn_runtime s2) req of
           Inl err \<Rightarrow>
             (let sdkErr = ensureSDKError (Some err) ''validation start'';
                  (now, s3) = vn_now env s2
              in (zero_RunResult\<lparr>res_RunID := vn_id s3, res_Status := StatusFailed, res_StartedAt := started,
                    res_FinishedAt := now, res_Err := sdkErr\<rparr>, sdkErr, s3))
         | Inr out \<Rightarrow>
             (let s3 = vn_setCurrent t s2;
                  s4 = vn_forwardEvents env (out_Events out) s3;
                  s5 = vn_clearCurrent t s4;
                  result0 = out_Result out;
                  result = (if out_WaitErr out \<noteq> None \<and> res_Err result0 = None
                            then result0\<lparr>res_Err := ensureSDKError (out_WaitErr out) ''validation wait''\<rparr>
                            else result0)
              in (result, res_Err result, s5)))"

section \<open>One validation pass\<close>

definition vn_validate ::
  "vrun_env \<Rightarrow> RunRequest \<Rightarrow> RunResult \<Rightarrow> RunStatus \<Rightarrow> validationRun
     \<Rightarrow> ValidationResult \<times> SDKError option \<times> validationRun" where
  "vn_validate env req result fromS s =
     (let s1 = vn_sendLifecycle env result fromS StatusValidating ''validation started'' s;
          s2 = vn_sendEvent env (vn_event s1 result ''validation.started'' [(''phase'', GString ''started'')]) s1;
          validation = ValidateRun (we_pass env (vn_tick s2)) req result (vn_spec s2);
          s3 = vn_observe s2;
          ctxErr = contextValidationError (map_option ctx_go_error (we_ctx env (vn_tick s3)));
          s4 = vn_observe s3
      in case ctxErr of
           Some err \<Rightarrow>
             (validation, Some err,
              vn_sendLifecycle env result StatusValidating StatusCancelled ''validation cancelled'' s4)
         | None \<Rightarrow>
             (let s5 = vn_sendEvent env (vn_event s4 result ''validation.completed''
                    [(''passed'', GBool (vr_Passed validation)),
                     (''passed_count'', GInt (vr_PassedCount validation)),
                     (''failed_count'', GInt (vr_FailedCount validation)),
                     (''skipped_count'', GInt (vr_SkippedCount validation)),
                     (''failures'', safeFailurePayload (vr_Failures validation))]) s4
              in (validation, None,
                  vn_sendLifecycle env result StatusValidating StatusCompleted ''validation completed'' s5)))"

section \<open>One repair\<close>

definition freshRepairFallbackAllowed :: "SDKError option \<Rightarrow> bool" where
  "freshRepairFallbackAllowed err =
     (case err of
        None \<Rightarrow> False
      | Some e \<Rightarrow> err_Category e \<notin> {ErrorCancellation, ErrorTimeout, ErrorPermission})"

text \<open>
  \<open>repairSummary\<close>; the first summary of \<open>runRepair\<close> has the same fields, with the run's clock in
  the place of \<open>time.Now\<close>.
\<close>

definition repairSummary ::
  "int \<Rightarrow> RunID \<Rightarrow> RunRequest \<Rightarrow> gtime \<Rightarrow> gtime \<Rightarrow> RunResult \<Rightarrow> RepairAttemptSummary" where
  "repairSummary attempt parent req started now result =
     (let begun = firstTime (res_StartedAt result) started;
          finished = firstTime (res_FinishedAt result) now
      in \<lparr>ra_Attempt = attempt, ra_RunID = res_RunID result, ra_ParentRunID = parent,
          ra_Request = attemptRequest req, ra_Status = res_Status result, ra_StartedAt = begun,
          ra_FinishedAt = finished, ra_Duration = time_sub finished begun,
          ra_Session = md_Session (res_Metadata result),
          ra_Permissions = md_Permissions (res_Metadata result),
          ra_Validation = zero_ValidationResult,
          ra_ErrorCategory = (case res_Err result of Some e \<Rightarrow> err_Category e | None \<Rightarrow> NoErrorCategory),
          ra_Error = res_Err result, ra_UnsupportedSession = False,
          ra_PermissionPolicyID = permissionPolicyID (req_PermissionPolicy req),
          ra_PolicyDecisionReason = []\<rparr>)"

text \<open>What follows the first run of a repair: nothing, a fresh session, or an unsupported session.\<close>

definition vn_repairFallback ::
  "vrun_env \<Rightarrow> int \<Rightarrow> RunRequest \<Rightarrow> gtime \<Rightarrow> RunResult \<Rightarrow> SDKError option \<Rightarrow> RepairAttemptSummary
     \<Rightarrow> validationRun \<Rightarrow> RunResult \<times> SDKError option \<times> RepairAttemptSummary \<times> validationRun" where
  "vn_repairFallback env attempt repairReq started result err summary s =
     (let config = spec_Repair (vn_spec s);
          continued = (req_SessionAction repairReq = SessionActionContinue);
          unsupportedContinue =
            (ses_Relationship (md_Session (res_Metadata result)) = SessionRelationshipUnsupported \<and> continued);
          failedContinue =
            (err \<noteq> None \<and> continued \<and> rep_FreshSessionFallbackOnError config
             \<and> freshRepairFallbackAllowed (firstSDKError (res_Err result) (map_option ESDK err)))
      in if unsupportedContinue \<or> failedContinue
         then
           (if rep_AllowFreshSessionFallback config
            then
              (let fallbackReq = repairReq\<lparr>req_SessionAction := SessionActionFresh, req_SessionID := []\<rparr>;
                   (result', err', s1) = vn_startAndWait env fallbackReq s;
                   (now, s2) = vn_now env s1;
                   summary' = repairSummary attempt (vn_id s) fallbackReq started now result'
               in (result', err',
                   summary'\<lparr>ra_UnsupportedSession := unsupportedContinue,
                     ra_PolicyDecisionReason :=
                       (if unsupportedContinue
                        then ''fresh session fallback after unsupported same-session repair''
                        else ''fresh session fallback after failed same-session repair'')\<rparr>, s2))
            else if unsupportedContinue
            then
              (let unsupportedErr = NewError ErrorRepairExhausted ''validation repair''
                     ''same-session repair is unsupported'' None
                     [WithDebugDetail (ses_UnsupportedReason (md_Session (res_Metadata result)))]
               in (result\<lparr>res_Err := Some unsupportedErr, res_Status := StatusFailed\<rparr>, Some unsupportedErr,
                   summary\<lparr>ra_UnsupportedSession := True, ra_Status := StatusFailed,
                     ra_Error := Some unsupportedErr, ra_ErrorCategory := err_Category unsupportedErr\<rparr>, s))
            else (result, err, summary, s))
         else (result, err, summary, s))"

definition vn_runRepair ::
  "vrun_env \<Rightarrow> RunRequest \<Rightarrow> RepairContext \<Rightarrow> validationRun
     \<Rightarrow> RunResult \<times> RepairAttemptSummary \<times> SDKError option \<times> validationRun" where
  "vn_runRepair env req rctx s =
     (let repairReq = repairRequest (we_repair env) req (spec_Repair (vn_spec s)) rctx;
          current = rc_CurrentResult rctx;
          attempt = rc_Attempt rctx;
          s1 = vn_sendLifecycle env current StatusValidating StatusRepairing ''repair started'' s;
          s2 = vn_sendEvent env (vn_event s1 current ''repair.started'' [(''attempt'', GInt attempt)]) s1;
          (started, s3) = vn_now env s2;
          (result0, err0, s4) = vn_startAndWait env repairReq s3;
          (now, s5) = vn_now env s4;
          summary0 = repairSummary attempt (vn_id s) repairReq started now result0;
          (result, err, summary, s6) =
            vn_repairFallback env attempt repairReq started result0 err0 summary0 s5
      in case err of
           Some e \<Rightarrow>
             (let sdkErr = firstSDKError (res_Err result) (Some (ESDK e));
                  category = (case sdkErr of Some x \<Rightarrow> category_string (err_Category x) | None \<Rightarrow> [])
              in (result, summary, sdkErr,
                  vn_sendEvent env (vn_event s6 result ''repair.failed''
                    [(''attempt'', GInt attempt), (''error_category'', GString category)]) s6))
         | None \<Rightarrow>
             (result, summary, None,
              vn_sendEvent env (vn_event s6 result ''repair.completed'' [(''attempt'', GInt attempt)]) s6))"

definition vn_shouldRepair :: "vrun_env \<Rightarrow> ValidationSpec \<Rightarrow> RepairContext \<Rightarrow> bool" where
  "vn_shouldRepair env spec rctx =
     (let config = spec_Repair spec
      in if rep_MaxAttempts config \<le> 0 \<or> rc_Attempt rctx > rep_MaxAttempts config then False
         else (case rep_ShouldRepair config of
                 Some f \<Rightarrow> re_shouldRepair (we_repair env) f rctx | None \<Rightarrow> True))"

section \<open>Finishing\<close>

definition vn_finish :: "RunResult \<Rightarrow> SDKError option \<Rightarrow> validationRun \<Rightarrow> validationRun" where
  "vn_finish result err s =
     (let md0 = (res_Metadata result)\<lparr>md_ParentRunID := vn_id s, md_Status := res_Status result\<rparr>;
          r0 = result\<lparr>res_RunID := (if res_RunID result = [] then vn_id s else res_RunID result),
                      res_Metadata := md0\<rparr>;
          r1 = (if err \<noteq> None
                then r0\<lparr>res_Err := err, res_Status := statusForError err,
                        res_Metadata := md0\<lparr>md_Status := statusForError err,
                          md_Errors := appendSDKError (md_Errors md0) err\<rparr>\<rparr>
                else r0)
      in s\<lparr>vn_result := r1, vn_waitErr := err, vn_done := True\<rparr>)"

section \<open>Frames\<close>

lemma vn_observe_simps [simp]:
  "vn_id (vn_observe s) = vn_id s" "vn_runtime (vn_observe s) = vn_runtime s"
  "vn_spec (vn_observe s) = vn_spec s" "vn_original (vn_observe s) = vn_original s"
  "vn_sent (vn_observe s) = vn_sent s" "vn_calls (vn_observe s) = vn_calls s"
  by (simp_all add: vn_observe_def)

lemma vn_now_simps [simp]:
  "snd (vn_now env s) = vn_observe s"
  by (simp add: vn_now_def)

lemma vn_stampEvent_simps [simp]:
  "vn_id (snd (vn_stampEvent env e s)) = vn_id s" "vn_runtime (snd (vn_stampEvent env e s)) = vn_runtime s"
  "vn_spec (snd (vn_stampEvent env e s)) = vn_spec s" "vn_original (snd (vn_stampEvent env e s)) = vn_original s"
  "vn_sent (snd (vn_stampEvent env e s)) = vn_sent s" "vn_calls (snd (vn_stampEvent env e s)) = vn_calls s"
  "ev_RunID (fst (vn_stampEvent env e s)) = vn_id s"
  by (simp_all add: vn_stampEvent_def Let_def case_prod_beta)

lemma vn_sendEvent_simps [simp]:
  "vn_id (vn_sendEvent env e s) = vn_id s" "vn_runtime (vn_sendEvent env e s) = vn_runtime s"
  "vn_spec (vn_sendEvent env e s) = vn_spec s" "vn_original (vn_sendEvent env e s) = vn_original s"
  "vn_calls (vn_sendEvent env e s) = vn_calls s"
  by (simp_all add: vn_sendEvent_def Let_def case_prod_beta)

lemma vn_forwardEvents_simps [simp]:
  "vn_id (vn_forwardEvents env es s) = vn_id s" "vn_runtime (vn_forwardEvents env es s) = vn_runtime s"
  "vn_spec (vn_forwardEvents env es s) = vn_spec s" "vn_original (vn_forwardEvents env es s) = vn_original s"
  "vn_calls (vn_forwardEvents env es s) = vn_calls s"
  by (simp_all add: vn_forwardEvents_def) (induction es arbitrary: s; simp)+

lemma vn_sendLifecycle_simps [simp]:
  "vn_id (vn_sendLifecycle env r f t rs s) = vn_id s" "vn_runtime (vn_sendLifecycle env r f t rs s) = vn_runtime s"
  "vn_spec (vn_sendLifecycle env r f t rs s) = vn_spec s"
  "vn_original (vn_sendLifecycle env r f t rs s) = vn_original s"
  "vn_calls (vn_sendLifecycle env r f t rs s) = vn_calls s"
  by (simp_all add: vn_sendLifecycle_def Let_def case_prod_beta)

lemma vn_startAndWait_simps:
  assumes "vn_startAndWait env req s = (result, err, s')"
  shows "vn_id s' = vn_id s" "vn_runtime s' = vn_runtime s" "vn_spec s' = vn_spec s"
    "vn_original s' = vn_original s" "vn_calls s' = vn_calls s @ [req]" "res_Err result = err"
  using assms
  by (auto simp: vn_startAndWait_def vn_setCurrent_def vn_clearCurrent_def Let_def case_prod_beta
      split: sum.splits)

lemma vn_validate_simps:
  assumes "vn_validate env req result f s = (v, err, s')"
  shows "vn_id s' = vn_id s" "vn_runtime s' = vn_runtime s" "vn_spec s' = vn_spec s"
    "vn_original s' = vn_original s" "vn_calls s' = vn_calls s"
  using assms by (auto simp: vn_validate_def Let_def split: option.splits)

lemma vn_repairFallback_simps:
  assumes "vn_repairFallback env a req st result err summary s = (result', err', summary', s')"
    and "res_Err result = err"
  shows "vn_id s' = vn_id s" "vn_runtime s' = vn_runtime s" "vn_spec s' = vn_spec s"
    "vn_original s' = vn_original s" "res_Err result' = err'"
    "vn_calls s' = vn_calls s
     \<or> vn_calls s' = vn_calls s @ [req\<lparr>req_SessionAction := SessionActionFresh, req_SessionID := []\<rparr>]"
proof -
  let ?req = "req\<lparr>req_SessionAction := SessionActionFresh, req_SessionID := []\<rparr>"
  obtain r1 e1 s1 where run: "vn_startAndWait env ?req s = (r1, e1, s1)"
    by (cases "vn_startAndWait env ?req s") auto
  from assms run vn_startAndWait_simps [OF run]
  show "vn_id s' = vn_id s" "vn_runtime s' = vn_runtime s" "vn_spec s' = vn_spec s"
    "vn_original s' = vn_original s" "res_Err result' = err'"
    "vn_calls s' = vn_calls s \<or> vn_calls s' = vn_calls s @ [?req]"
    by (auto simp: vn_repairFallback_def vn_now_def Let_def split: if_splits)
qed

text \<open>A repair calls the wrapped runtime once with the repair request, and perhaps once more, in a fresh session.\<close>

definition fresh_of :: "RunRequest \<Rightarrow> RunRequest" where
  "fresh_of req = req\<lparr>req_SessionAction := SessionActionFresh, req_SessionID := []\<rparr>"

lemma vn_runRepair_simps:
  assumes "vn_runRepair env req rctx s = (result, summary, err, s')"
  defines "repairReq \<equiv> repairRequest (we_repair env) req (spec_Repair (vn_spec s)) rctx"
  shows "vn_id s' = vn_id s" "vn_runtime s' = vn_runtime s" "vn_spec s' = vn_spec s"
    "vn_original s' = vn_original s" "err = None \<longleftrightarrow> res_Err result = None"
    "err = None \<or> err = res_Err result"
    "vn_calls s' = vn_calls s @ [repairReq] \<or> vn_calls s' = vn_calls s @ [repairReq, fresh_of repairReq]"
proof -
  define s1 where "s1 = vn_sendLifecycle env (rc_CurrentResult rctx) StatusValidating StatusRepairing ''repair started'' s"
  define s2 where "s2 = vn_sendEvent env (vn_event s1 (rc_CurrentResult rctx) ''repair.started''
      [(''attempt'', GInt (rc_Attempt rctx))]) s1"
  obtain r0 e0 s4 where run: "vn_startAndWait env repairReq (vn_observe s2) = (r0, e0, s4)"
    by (cases "vn_startAndWait env repairReq (vn_observe s2)") auto
  have s2: "vn_id s2 = vn_id s" "vn_runtime s2 = vn_runtime s" "vn_spec s2 = vn_spec s"
    "vn_original s2 = vn_original s" "vn_calls s2 = vn_calls s"
    by (simp_all add: s2_def s1_def)
  note start = vn_startAndWait_simps [OF run]
  define started where "started = we_now env (vn_tick s2)"
  define sm0 where "sm0 = repairSummary (rc_Attempt rctx) (vn_id s) repairReq started (we_now env (vn_tick s4)) r0"
  obtain r1 e1 sm s6 where fb: "vn_repairFallback env (rc_Attempt rctx) repairReq started r0 e0 sm0
      (vn_observe s4) = (r1, e1, sm, s6)"
    by (cases "vn_repairFallback env (rc_Attempt rctx) repairReq started r0 e0 sm0 (vn_observe s4)") auto
  have step: "vn_runRepair env req rctx s = (case e1 of
      Some e \<Rightarrow> (r1, sm, firstSDKError (res_Err r1) (Some (ESDK e)), vn_sendEvent env (vn_event s6 r1 ''repair.failed''
        [(''attempt'', GInt (rc_Attempt rctx)), (''error_category'', GString
          (case firstSDKError (res_Err r1) (Some (ESDK e)) of
             Some x \<Rightarrow> category_string (err_Category x) | None \<Rightarrow> []))]) s6)
    | None \<Rightarrow> (r1, sm, None, vn_sendEvent env (vn_event s6 r1 ''repair.completed''
        [(''attempt'', GInt (rc_Attempt rctx))]) s6))"
    using run fb
    unfolding vn_runRepair_def Let_def vn_now_def s1_def s2_def repairReq_def started_def sm0_def
    by simp
  then have res: "result = r1" "err = (if e1 = None then None else firstSDKError (res_Err r1) (map_option ESDK e1))"
    and s': "\<exists>e. s' = vn_sendEvent env e s6"
    using assms(1) by (cases e1; auto)+
  note fall = vn_repairFallback_simps [OF fb start(6)]
  from s' obtain e where s'_eq: "s' = vn_sendEvent env e s6" ..
  show "vn_id s' = vn_id s" "vn_runtime s' = vn_runtime s" "vn_spec s' = vn_spec s" "vn_original s' = vn_original s"
    using s'_eq start fall s2 by simp_all
  show "err = None \<longleftrightarrow> res_Err result = None" "err = None \<or> err = res_Err result"
    using res fall(5) by (auto simp: firstSDKError_def split: option.splits)
  show "vn_calls s' = vn_calls s @ [repairReq] \<or> vn_calls s' = vn_calls s @ [repairReq, fresh_of repairReq]"
    using s'_eq start fall(6) s2 by (auto simp: fresh_of_def)
qed

section \<open>The loop\<close>

definition exhausted_error :: "ValidationSpec \<Rightarrow> SDKError" where
  "exhausted_error spec =
     NewError ErrorRepairExhausted ''validation repair'' ''validation repair attempts exhausted'' None
       [WithMetadata (Some [(''max_attempts'', itoa (rep_MaxAttempts (spec_Repair spec)))])]"

definition record_validation ::
  "int \<Rightarrow> ValidationResult \<Rightarrow> RepairAttemptSummary list \<Rightarrow> RepairAttemptSummary list" where
  "record_validation attempt v repairs =
     (if attempt > 0 \<and> int (length repairs) \<ge> attempt
      then repairs[nat (attempt - 1) := (repairs ! nat (attempt - 1))\<lparr>ra_Validation := v\<rparr>]
      else repairs)"

text \<open>
  One round of the loop: \<open>Inl\<close> when \<open>finish\<close> has been called, \<open>Inr\<close> with what the next round
  starts from.
\<close>

definition vn_round ::
  "vrun_env \<Rightarrow> int \<Rightarrow> RunRequest \<Rightarrow> RunResult \<Rightarrow> ValidationResult list \<Rightarrow> RepairAttemptSummary list
     \<Rightarrow> validationRun
     \<Rightarrow> validationRun + RunResult \<times> ValidationResult list \<times> RepairAttemptSummary list \<times> validationRun" where
  "vn_round env attempt req result history repairs s =
     (let spec = vn_spec s;
          fromS = (if attempt > 0 then StatusRepairing else StatusCompleted);
          (validation, validationErr, s1) = vn_validate env req result fromS s
      in case validationErr of
           Some e \<Rightarrow>
             Inl (vn_finish (withValidationMetadata
                    (result\<lparr>res_Status := statusForError (Some e), res_Err := Some e\<rparr>) spec history repairs)
                    (Some e) s1)
         | None \<Rightarrow>
             (let repairs1 = record_validation attempt validation repairs;
                  history1 = history @ [validation];
                  result1 = withValidationMetadata result spec history1 repairs1;
                  rctx = \<lparr>rc_OriginalRequest = vn_original s, rc_CurrentResult = result1,
                          rc_Validation = validation, rc_Attempt = attempt + 1,
                          rc_MaxAttempts = rep_MaxAttempts (spec_Repair spec)\<rparr>
              in if vr_Passed validation
                 then Inl (vn_finish (result1\<lparr>res_Status := StatusCompleted, res_Err := None\<rparr>) None s1)
                 else if \<not> vn_shouldRepair env spec rctx
                 then
                   (let err = (if rep_MaxAttempts (spec_Repair spec) > 0
                                  \<and> int (length repairs1) \<ge> rep_MaxAttempts (spec_Repair spec)
                               then exhausted_error spec else validationError validation)
                    in Inl (vn_finish (withValidationMetadata
                          (result1\<lparr>res_Status := StatusFailed, res_Err := Some err\<rparr>) spec history1 repairs1)
                          (Some err) s1))
                 else
                   (let (repairResult, summary, repairErr, s2) = vn_runRepair env req rctx s1;
                        repairs2 = repairs1 @ [summary]
                    in case repairErr of
                         Some e \<Rightarrow>
                           Inl (vn_finish (withValidationMetadata
                             (repairResult\<lparr>res_Status := statusForError (Some e), res_Err := Some e\<rparr>)
                             spec history1 repairs2) (Some e) s2)
                       | None \<Rightarrow> Inr (repairResult, history1, repairs2, s2))))"

lemma vn_round_Inr:
  assumes "vn_round env attempt req result history repairs s = Inr (result', history', repairs', s')"
  obtains v s1 rctx summary where
    "attempt + 1 \<le> rep_MaxAttempts (spec_Repair (vn_spec s))" "rep_MaxAttempts (spec_Repair (vn_spec s)) > 0"
    "vn_spec s' = vn_spec s" "vn_original s' = vn_original s" "vn_id s' = vn_id s"
    "history' = history @ [v]" "\<not> vr_Passed v" "repairs' = record_validation attempt v repairs @ [summary]"
    "res_Err result' = None"
    "vn_validate env req result (if attempt > 0 then StatusRepairing else StatusCompleted) s = (v, None, s1)"
    "vn_runRepair env req rctx s1 = (result', summary, None, s')"
proof -
  obtain v verr s1 where val:
      "vn_validate env req result (if attempt > 0 then StatusRepairing else StatusCompleted) s = (v, verr, s1)"
    by (cases "vn_validate env req result (if attempt > 0 then StatusRepairing else StatusCompleted) s") auto
  note vs = vn_validate_simps [OF val]
  let ?repairs1 = "record_validation attempt v repairs"
  let ?result1 = "withValidationMetadata result (vn_spec s) (history @ [v]) ?repairs1"
  let ?rctx = "\<lparr>rc_OriginalRequest = vn_original s, rc_CurrentResult = ?result1, rc_Validation = v,
    rc_Attempt = attempt + 1, rc_MaxAttempts = rep_MaxAttempts (spec_Repair (vn_spec s))\<rparr>"
  obtain rr sm rerr s2 where rep: "vn_runRepair env req ?rctx s1 = (rr, sm, rerr, s2)"
    by (cases "vn_runRepair env req ?rctx s1") auto
  note rs = vn_runRepair_simps [OF rep]
  from assms val rep have f: "verr = None" "\<not> vr_Passed v" "vn_shouldRepair env (vn_spec s) ?rctx" "rerr = None"
      "result' = rr" "history' = history @ [v]" "repairs' = ?repairs1 @ [sm]" "s' = s2"
    by (auto simp: vn_round_def Let_def split: option.splits if_splits)
  then have "attempt + 1 \<le> rep_MaxAttempts (spec_Repair (vn_spec s))" "rep_MaxAttempts (spec_Repair (vn_spec s)) > 0"
    by (auto simp: vn_shouldRepair_def Let_def split: if_splits)
  then show thesis
    using that [of v sm s1 ?rctx] f vs rs rep val by simp
qed

function vn_loop ::
  "vrun_env \<Rightarrow> int \<Rightarrow> RunRequest \<Rightarrow> RunResult \<Rightarrow> ValidationResult list \<Rightarrow> RepairAttemptSummary list
     \<Rightarrow> validationRun \<Rightarrow> validationRun" where
  "vn_loop env attempt req result history repairs s =
     (case vn_round env attempt req result history repairs s of
        Inl s' \<Rightarrow> s'
      | Inr (result', history', repairs', s') \<Rightarrow> vn_loop env (attempt + 1) req result' history' repairs' s')"
  by pat_completeness auto
termination
proof (relation "measure (\<lambda>(env, attempt, req, result, history, repairs, s).
    nat (rep_MaxAttempts (spec_Repair (vn_spec s)) - attempt))", goal_cases)
  case 1
  then show ?case by simp
next
  case (2 env attempt req result history repairs s b result' y history' z repairs' s')
  then have "vn_round env attempt req result history repairs s = Inr (result', history', repairs', s')"
    by simp
  then show ?case
    by (elim vn_round_Inr) simp
qed

declare vn_loop.simps [simp del]

definition vn_execute :: "vrun_env \<Rightarrow> validationRun \<Rightarrow> validationRun" where
  "vn_execute env s =
     (let req = (vn_original s)\<lparr>req_Validation := None\<rparr>;
          (result, err, s1) = vn_startAndWait env req s
      in if err \<noteq> None \<or> res_Err result \<noteq> None
         then vn_finish result (firstSDKError (res_Err result) (map_option ESDK err)) s1
         else vn_loop env 0 req result [] [] s1)"

section \<open>ValidatingRuntime\<close>

record ValidatingRuntime =
  vrt_Runtime :: "RuntimeRef option"
  vrt_Spec :: ValidationSpec

definition validating_StartRun ::
  "vrun_env \<Rightarrow> ValidatingRuntime \<Rightarrow> int \<Rightarrow> RunRequest \<Rightarrow> (SDKError + validationRun) \<times> int" where
  "validating_StartRun env r counter req =
     (case vrt_Runtime r of
        None \<Rightarrow>
          (Inl (NewError ErrorConfiguration ''validation runner'' ''runtime is required'' None []), counter)
      | Some rt \<Rightarrow>
          (Inr \<lparr>vn_id = ''validation-'' @ itoa (counter + 1), vn_runtime = rt,
                vn_spec = (case req_Validation req of Some spec \<Rightarrow> spec | None \<Rightarrow> vrt_Spec r),
                vn_original = req, vn_started = we_now env 0, vn_sent = [], vn_done = False,
                vn_current = None, vn_result = zero_RunResult, vn_waitErr = None, vn_seq = 0,
                vn_tick = 1, vn_calls = []\<rparr>, counter + 1))"

definition validating_Capabilities ::
  "(RuntimeRef \<Rightarrow> Capabilities \<times> go_error option) \<Rightarrow> ValidatingRuntime \<Rightarrow> Capabilities \<times> go_error option" where
  "validating_Capabilities caps r =
     (case vrt_Runtime r of
        None \<Rightarrow> (zero_Capabilities, Some (ESDK (NewError ErrorConfiguration ''validation runner capabilities''
                                          ''runtime is required'' None [])))
      | Some rt \<Rightarrow>
          (let (c, err) = caps rt
           in if err \<noteq> None then (c, err)
              else (c\<lparr>caps_Features := Some (aput CapabilityValidationEvents
                        \<lparr>cs_Supported = True, cs_Detail = ''runtime-neutral validation wrapper''\<rparr>
                        (entries (caps_Features c)))\<rparr>, None)))"

definition vn_Wait ::
  "ctx_error option \<Rightarrow> bool \<Rightarrow> validationRun \<Rightarrow> (RunResult \<times> SDKError option) option" where
  "vn_Wait ctxErr pick s =
     (case ctxErr of
        Some ce \<Rightarrow>
          if vn_done s \<and> pick then Some (vn_result s, vn_waitErr s)
          else Some (zero_RunResult, contextValidationError (Some (ctx_go_error ce)))
      | None \<Rightarrow> if vn_done s then Some (vn_result s, vn_waitErr s) else None)"

definition vn_Cancel :: "(nat \<Rightarrow> go_error option) \<Rightarrow> validationRun \<Rightarrow> go_error option" where
  "vn_Cancel cancelRun s = (case vn_current s of Some run \<Rightarrow> cancelRun run | None \<Rightarrow> None)"

section \<open>The event stream of a validating run\<close>

lemma vn_stampEvent_ID:
  "ev_ID (fst (vn_stampEvent env e s)) =
     (if ev_ID e = [] then generated_id (vn_id s) (vn_seq s + 1) else ev_ID e)"
  by (simp add: vn_stampEvent_def vn_now_def generated_id_def Let_def)

lemma vn_stampEvent_seq: "vn_seq (snd (vn_stampEvent env e s)) = vn_seq s + 1"
  by (simp add: vn_stampEvent_def vn_now_def vn_observe_def Let_def)

interpretation validating_stream: event_sender "vn_sendEvent env" vn_sent vn_seq vn_id for env
proof unfold_locales
  fix e s
  show "vn_seq (vn_sendEvent env e s) = vn_seq s + 1"
    by (simp add: vn_sendEvent_def vn_observe_def vn_stampEvent_seq Let_def case_prod_beta)
  have "vn_sent (vn_sendEvent env e s) = vn_sent s
      \<or> vn_sent (vn_sendEvent env e s) = vn_sent s @ [fst (vn_stampEvent env e s)]"
    by (simp add: vn_sendEvent_def Let_def case_prod_beta)
  then show "vn_sent (vn_sendEvent env e s) = vn_sent s \<or>
      (\<exists>e'. vn_sent (vn_sendEvent env e s) = vn_sent s @ [e']
        \<and> ev_ID e' = (if ev_ID e = [] then generated_id (vn_id s) (vn_seq s + 1) else ev_ID e))"
    using vn_stampEvent_ID [of env e s] by blast
qed simp_all

end
