(* ===== verification/ValidationLaws.thy ===== *)
theory ValidationLaws
  imports ValidationRun
begin

text \<open>
  What a validating run guarantees, for every environment: how it ends, how many repairs it makes,
  with what posture it calls the wrapped runtime, and under which identity its events appear.
\<close>

section \<open>Finishing\<close>

lemma vn_finish_simps [simp]:
  "vn_waitErr (vn_finish result err s) = err"
  "vn_done (vn_finish result err s)"
  "vn_calls (vn_finish result err s) = vn_calls s"
  "vn_sent (vn_finish result err s) = vn_sent s"
  "vn_id (vn_finish result err s) = vn_id s"
  "vn_spec (vn_finish result err s) = vn_spec s"
  "vn_original (vn_finish result err s) = vn_original s"
  "res_Err (vn_result (vn_finish result err s)) = (if err \<noteq> None then err else res_Err result)"
  "res_Status (vn_result (vn_finish result err s)) = (if err \<noteq> None then statusForError err else res_Status result)"
  "md_Validation (res_Metadata (vn_result (vn_finish result err s))) = md_Validation (res_Metadata result)"
  "md_Repair (res_Metadata (vn_result (vn_finish result err s))) = md_Repair (res_Metadata result)"
  by (simp_all add: vn_finish_def Let_def)

lemma foldl_repair_meta:
  "rm_Attempts (foldl repair_meta_step m rs) = rm_Attempts m"
  "rm_Exhausted (foldl repair_meta_step m rs) = rm_Exhausted m"
  "rm_PermissionDenied (foldl repair_meta_step m rs) =
     (rm_PermissionDenied m \<or> list_ex (\<lambda>r. ra_ErrorCategory r = ErrorPermission) rs)"
  by (induction rs arbitrary: m) (auto simp: repair_meta_step_def)

lemma withValidationMetadata_simps [simp]:
  "res_Err (withValidationMetadata r spec h rs) = res_Err r"
  "res_Status (withValidationMetadata r spec h rs) = res_Status r"
  "vm_History (md_Validation (res_Metadata (withValidationMetadata r spec h rs))) = h"
  "h \<noteq> [] \<Longrightarrow> vm_Final (md_Validation (res_Metadata (withValidationMetadata r spec h rs))) = last h"
  "rm_Attempts (md_Repair (res_Metadata (withValidationMetadata r spec h rs))) = rs"
  "rm_Exhausted (md_Repair (res_Metadata (withValidationMetadata r spec h rs))) = repair_exhausted spec h rs"
  "rm_PermissionDenied (md_Repair (res_Metadata (withValidationMetadata r spec h rs))) =
     list_ex (\<lambda>r. ra_ErrorCategory r = ErrorPermission) rs"
  by (simp_all add: withValidationMetadata_def foldl_repair_meta zero_RepairMetadata_def Let_def)

lemma length_record_validation [simp]: "length (record_validation a v rs) = length rs"
  by (simp add: record_validation_def)

section \<open>How a run ends\<close>

text \<open>
  The report of a run that reached validation: history and repairs are bounded by the
  configuration, every pass but the last failed, and the error says why the run ended.
\<close>

definition validated_report :: "ValidationSpec \<Rightarrow> validationRun \<Rightarrow> bool" where
  "validated_report spec s \<longleftrightarrow>
     (let r = vn_result s;
          history = vm_History (md_Validation (res_Metadata r));
          repairs = rm_Attempts (md_Repair (res_Metadata r));
          limit = rep_MaxAttempts (spec_Repair spec)
      in vn_done s \<and> res_Err r = vn_waitErr s \<and> res_Status r = statusForError (vn_waitErr s)
         \<and> int (length repairs) \<le> max 0 limit \<and> length history \<le> Suc (length repairs)
         \<and> list_all (\<lambda>v. \<not> vr_Passed v) (butlast history)
         \<and> (vn_waitErr s = None \<longleftrightarrow> history \<noteq> [] \<and> vr_Passed (last history))
         \<and> (length history = Suc (length repairs) \<and> \<not> vr_Passed (last history) \<longrightarrow>
              vn_waitErr s = Some (if limit > 0 \<and> int (length repairs) = limit
                                   then exhausted_error spec else validationError (last history))))"

text \<open>The loop head: as many failed passes as repairs, all of them within the limit.\<close>

definition repair_inv ::
  "ValidationSpec \<Rightarrow> int \<Rightarrow> RunResult \<Rightarrow> ValidationResult list \<Rightarrow> RepairAttemptSummary list \<Rightarrow> bool" where
  "repair_inv spec attempt result history repairs \<longleftrightarrow>
     attempt = int (length repairs) \<and> length history = length repairs
     \<and> attempt \<le> max 0 (rep_MaxAttempts (spec_Repair spec))
     \<and> list_all (\<lambda>v. \<not> vr_Passed v) history \<and> res_Err result = None"

lemma statusForError_None [simp]: "statusForError None = StatusCompleted"
  by (simp add: statusForError_def)

lemma vn_round_report:
  assumes round: "vn_round env attempt req result history repairs s = Inl s'"
    and inv: "repair_inv (vn_spec s) attempt result history repairs"
  shows "validated_report (vn_spec s) s'"
proof -
  obtain v verr s1 where val:
      "vn_validate env req result (if attempt > 0 then StatusRepairing else StatusCompleted) s = (v, verr, s1)"
    by (cases "vn_validate env req result (if attempt > 0 then StatusRepairing else StatusCompleted) s") auto
  let ?repairs1 = "record_validation attempt v repairs"
  let ?result1 = "withValidationMetadata result (vn_spec s) (history @ [v]) ?repairs1"
  let ?rctx = "\<lparr>rc_OriginalRequest = vn_original s, rc_CurrentResult = ?result1, rc_Validation = v,
    rc_Attempt = attempt + 1, rc_MaxAttempts = rep_MaxAttempts (spec_Repair (vn_spec s))\<rparr>"
  obtain rr sm rerr s2 where rep: "vn_runRepair env req ?rctx s1 = (rr, sm, rerr, s2)"
    by (cases "vn_runRepair env req ?rctx s1") auto
  let ?limit = "rep_MaxAttempts (spec_Repair (vn_spec s))"
  note invs = inv [unfolded repair_inv_def]
  have nolast: "history \<noteq> [] \<Longrightarrow> \<not> vr_Passed (last history)"
    using invs by (auto simp: list_all_iff)
  have butl: "list_all (\<lambda>v. \<not> vr_Passed v) (butlast history)"
    using invs by (auto simp: list_all_iff dest: in_set_butlastD)
  consider
    (cancelled) e where "verr = Some e"
      "s' = vn_finish (withValidationMetadata (result\<lparr>res_Status := statusForError (Some e), res_Err := Some e\<rparr>)
        (vn_spec s) history repairs) (Some e) s1"
  | (passed) "verr = None" "vr_Passed v"
      "s' = vn_finish (?result1\<lparr>res_Status := StatusCompleted, res_Err := None\<rparr>) None s1"
  | (refused) err where "verr = None" "\<not> vr_Passed v" "\<not> vn_shouldRepair env (vn_spec s) ?rctx"
      "err = (if ?limit > 0 \<and> int (length ?repairs1) \<ge> ?limit then exhausted_error (vn_spec s) else validationError v)"
      "s' = vn_finish (withValidationMetadata (?result1\<lparr>res_Status := StatusFailed, res_Err := Some err\<rparr>)
        (vn_spec s) (history @ [v]) ?repairs1) (Some err) s1"
  | (repair_failed) e where "verr = None" "\<not> vr_Passed v" "vn_shouldRepair env (vn_spec s) ?rctx" "rerr = Some e"
      "s' = vn_finish (withValidationMetadata (rr\<lparr>res_Status := statusForError (Some e), res_Err := Some e\<rparr>)
        (vn_spec s) (history @ [v]) (?repairs1 @ [sm])) (Some e) s2"
    using round val rep by (auto simp: vn_round_def Let_def split: option.splits if_splits)
  then show ?thesis
  proof cases
    case cancelled
    then show ?thesis
      using invs nolast butl by (auto simp: validated_report_def Let_def)
  next
    case passed
    then show ?thesis
      using invs by (simp add: validated_report_def Let_def)
  next
    case refused
    then show ?thesis
      using invs by (auto simp: validated_report_def Let_def)
  next
    case repair_failed
    then have "attempt + 1 \<le> ?limit"
      by (auto simp: vn_shouldRepair_def Let_def split: if_splits)
    with repair_failed show ?thesis
      using invs by (auto simp: validated_report_def Let_def)
  qed
qed

lemma vn_round_inv:
  assumes "vn_round env attempt req result history repairs s = Inr (result', history', repairs', s')"
    and "repair_inv (vn_spec s) attempt result history repairs"
  shows "repair_inv (vn_spec s') (attempt + 1) result' history' repairs' \<and> vn_spec s' = vn_spec s"
  using assms(1)
  by (elim vn_round_Inr) (use assms(2) in \<open>auto simp: repair_inv_def\<close>)

lemma vn_loop_report:
  "repair_inv (vn_spec s) attempt result history repairs \<Longrightarrow>
     validated_report (vn_spec s) (vn_loop env attempt req result history repairs s)"
proof (induction env attempt req result history repairs s rule: vn_loop.induct)
  case (1 env attempt req result history repairs s)
  show ?case
  proof (cases "vn_round env attempt req result history repairs s")
    case (Inl s')
    with vn_round_report [OF Inl 1(2)] show ?thesis
      by (subst vn_loop.simps) simp
  next
    case (Inr x)
    then obtain result' history' repairs' s' where
      x: "vn_round env attempt req result history repairs s = Inr (result', history', repairs', s')"
      by (cases x) auto
    note next1 = vn_round_inv [OF x 1(2)]
    from 1(1) [OF x refl refl refl conjunct1 [OF next1]] next1
    have "validated_report (vn_spec s) (vn_loop env (attempt + 1) req result' history' repairs' s')"
      by simp
    with x show ?thesis
      by (subst vn_loop.simps) simp
  qed
qed

text \<open>The state a round leaves behind, and a rule that carries a fact through the loop.\<close>

fun vround_state ::
  "validationRun + RunResult \<times> ValidationResult list \<times> RepairAttemptSummary list \<times> validationRun \<Rightarrow> validationRun"
where
  "vround_state (Inl s) = s"
| "vround_state (Inr (result, history, repairs, s)) = s"

lemma vn_loop_rule:
  "(\<And>attempt result history repairs s.
      P attempt s \<Longrightarrow> P (attempt + 1) (vround_state (vn_round env attempt req result history repairs s)))
   \<Longrightarrow> P attempt s \<Longrightarrow> \<exists>k. P k (vn_loop env attempt req result history repairs s)"
proof (induction env attempt req result history repairs s rule: vn_loop.induct)
  case (1 env attempt req result history repairs s)
  show ?case
  proof (cases "vn_round env attempt req result history repairs s")
    case (Inl s')
    with 1(2) [OF 1(3), of result history repairs] show ?thesis
      by (subst vn_loop.simps) auto
  next
    case (Inr x)
    then obtain result' history' repairs' s' where
      x: "vn_round env attempt req result history repairs s = Inr (result', history', repairs', s')"
      by (cases x) auto
    from 1(2) [OF 1(3), of result history repairs] x have "P (attempt + 1) s'" by simp
    from 1(1) [OF x refl refl refl 1(2) this] x show ?thesis
      by (subst vn_loop.simps) simp
  qed
qed

section \<open>What a round does to the runtime and to the stream\<close>

definition events_own :: "validationRun \<Rightarrow> bool" where
  "events_own s \<longleftrightarrow> list_all (\<lambda>e. ev_RunID e = vn_id s) (vn_sent s)"

lemma events_own_sendEvent [simp]: "events_own s \<Longrightarrow> events_own (vn_sendEvent env e s)"
  by (simp add: events_own_def vn_sendEvent_def Let_def case_prod_beta)

lemma events_own_observe [simp]: "events_own (vn_observe s) = events_own s"
  by (simp add: events_own_def)

lemma events_own_forward [simp]: "events_own s \<Longrightarrow> events_own (vn_forwardEvents env es s)"
  unfolding vn_forwardEvents_def by (induction es arbitrary: s) simp_all

lemma events_own_lifecycle [simp]: "events_own s \<Longrightarrow> events_own (vn_sendLifecycle env r f t rs s)"
  by (simp add: vn_sendLifecycle_def Let_def case_prod_beta)

lemma events_own_update [simp]:
  "events_own (s\<lparr>vn_calls := cs\<rparr>) = events_own s" "events_own (s\<lparr>vn_current := c\<rparr>) = events_own s"
  "events_own (vn_finish r err s) = events_own s"
  by (simp_all add: events_own_def)

lemma events_own_startAndWait:
  "vn_startAndWait env req s = (r, err, s') \<Longrightarrow> events_own s \<Longrightarrow> events_own s'"
  by (auto simp: vn_startAndWait_def vn_now_def vn_setCurrent_def vn_clearCurrent_def Let_def split: sum.splits)

lemma events_own_validate:
  "vn_validate env req r f s = (v, err, s') \<Longrightarrow> events_own s \<Longrightarrow> events_own s'"
  by (auto simp: vn_validate_def Let_def split: option.splits)

lemma events_own_repairFallback:
  "vn_repairFallback env a req st r err sm s = (r', err', sm', s') \<Longrightarrow> events_own s \<Longrightarrow> events_own s'"
  by (auto simp: vn_repairFallback_def vn_now_def Let_def split: if_splits prod.splits dest: events_own_startAndWait)

lemma events_own_runRepair:
  "vn_runRepair env req rctx s = (r, sm, err, s') \<Longrightarrow> events_own s \<Longrightarrow> events_own s'"
  by (auto simp: vn_runRepair_def vn_now_def Let_def split: prod.splits option.splits
      dest!: events_own_startAndWait events_own_repairFallback)

lemma vn_round_effects:
  fixes env attempt req result history repairs s
  defines "s' \<equiv> vround_state (vn_round env attempt req result history repairs s)"
  shows "vn_spec s' = vn_spec s" "vn_id s' = vn_id s" "events_own s \<Longrightarrow> events_own s'"
    "vn_calls s' = vn_calls s
     \<or> attempt + 1 \<le> rep_MaxAttempts (spec_Repair (vn_spec s))
       \<and> (\<exists>rctx rr. rr = repairRequest (we_repair env) req (spec_Repair (vn_spec s)) rctx
            \<and> (vn_calls s' = vn_calls s @ [rr] \<or> vn_calls s' = vn_calls s @ [rr, fresh_of rr]))"
proof -
  obtain v verr s1 where val:
      "vn_validate env req result (if attempt > 0 then StatusRepairing else StatusCompleted) s = (v, verr, s1)"
    by (cases "vn_validate env req result (if attempt > 0 then StatusRepairing else StatusCompleted) s") auto
  note vs = vn_validate_simps [OF val] events_own_validate [OF val]
  let ?repairs1 = "record_validation attempt v repairs"
  let ?result1 = "withValidationMetadata result (vn_spec s) (history @ [v]) ?repairs1"
  let ?rctx = "\<lparr>rc_OriginalRequest = vn_original s, rc_CurrentResult = ?result1, rc_Validation = v,
    rc_Attempt = attempt + 1, rc_MaxAttempts = rep_MaxAttempts (spec_Repair (vn_spec s))\<rparr>"
  obtain rr sm rerr s2 where rep: "vn_runRepair env req ?rctx s1 = (rr, sm, rerr, s2)"
    by (cases "vn_runRepair env req ?rctx s1") auto
  note rs = vn_runRepair_simps [OF rep] events_own_runRepair [OF rep]
  have ends: "(\<exists>r e. s' = vn_finish r e s1)
      \<or> vn_shouldRepair env (vn_spec s) ?rctx \<and> (s' = s2 \<or> (\<exists>r e. s' = vn_finish r e s2))"
    using val rep
    by (cases verr; cases "vr_Passed v"; cases "vn_shouldRepair env (vn_spec s) ?rctx"; cases rerr)
      (auto simp: s'_def vn_round_def Let_def)
  then show "vn_spec s' = vn_spec s" "vn_id s' = vn_id s" "events_own s \<Longrightarrow> events_own s'"
    using vs rs by auto
  show "vn_calls s' = vn_calls s
     \<or> attempt + 1 \<le> rep_MaxAttempts (spec_Repair (vn_spec s))
       \<and> (\<exists>rctx rr. rr = repairRequest (we_repair env) req (spec_Repair (vn_spec s)) rctx
            \<and> (vn_calls s' = vn_calls s @ [rr] \<or> vn_calls s' = vn_calls s @ [rr, fresh_of rr]))"
    using ends
  proof
    assume "\<exists>r e. s' = vn_finish r e s1"
    with vs show ?thesis by auto
  next
    assume a: "vn_shouldRepair env (vn_spec s) ?rctx \<and> (s' = s2 \<or> (\<exists>r e. s' = vn_finish r e s2))"
    then have "attempt + 1 \<le> rep_MaxAttempts (spec_Repair (vn_spec s))"
      by (auto simp: vn_shouldRepair_def Let_def split: if_splits)
    moreover have "vn_calls s' = vn_calls s2" using a by auto
    ultimately show ?thesis
      using rs(7) vs by auto
  qed
qed

section \<open>The posture of a call\<close>

text \<open>What a request says about where and with what rights the agent runs.\<close>

definition same_posture :: "RunRequest \<Rightarrow> RunRequest \<Rightarrow> bool" where
  "same_posture original c \<longleftrightarrow>
     req_WorkDir c = req_WorkDir original \<and> req_Provider c = req_Provider original
     \<and> req_Model c = req_Model original \<and> req_Permissions c = req_Permissions original
     \<and> req_PermissionPolicy c = req_PermissionPolicy original \<and> req_Sandbox c = req_Sandbox original
     \<and> req_Timeout c = req_Timeout original \<and> req_RequireCaps c = req_RequireCaps original
     \<and> req_RequireHealth c = req_RequireHealth original \<and> req_Validation c = None"

lemma same_posture_repair:
  assumes "rep_OverrideRequest config = None" and "same_posture original req"
  shows "same_posture original (repairRequest renv req config rctx)"
    and "same_posture original (fresh_of (repairRequest renv req config rctx))"
  using assms by (simp_all add: same_posture_def repairRequest_def fresh_of_def Let_def)

definition calls_inv :: "ValidationSpec \<Rightarrow> RunRequest \<Rightarrow> int \<Rightarrow> validationRun \<Rightarrow> bool" where
  "calls_inv spec original attempt s \<longleftrightarrow>
     vn_spec s = spec \<and> 0 \<le> attempt \<and> list_all (same_posture original) (vn_calls s)
     \<and> int (length (vn_calls s)) \<le> 1 + 2 * min attempt (max 0 (rep_MaxAttempts (spec_Repair spec)))"

lemma vn_round_calls:
  assumes inv: "calls_inv spec original attempt s" and req: "same_posture original req"
    and no: "rep_OverrideRequest (spec_Repair spec) = None"
  shows "calls_inv spec original (attempt + 1) (vround_state (vn_round env attempt req result history repairs s))"
    (is "calls_inv _ _ _ ?s'")
proof -
  note eff = vn_round_effects [where env = env and attempt = attempt and req = req and result = result
      and history = history and repairs = repairs and s = s]
  note invs = inv [unfolded calls_inv_def]
  from eff(4) show ?thesis
  proof
    assume "vn_calls ?s' = vn_calls s"
    with eff(1) invs show ?thesis by (auto simp: calls_inv_def min_def split: if_splits)
  next
    assume "attempt + 1 \<le> rep_MaxAttempts (spec_Repair (vn_spec s))
       \<and> (\<exists>rctx rr. rr = repairRequest (we_repair env) req (spec_Repair (vn_spec s)) rctx
            \<and> (vn_calls ?s' = vn_calls s @ [rr] \<or> vn_calls ?s' = vn_calls s @ [rr, fresh_of rr]))"
    with eff(1) invs same_posture_repair [OF no req] show ?thesis
      by (auto simp: calls_inv_def)
  qed
qed

section \<open>A concrete run\<close>

definition sample_vrun_env :: vrun_env where
  "sample_vrun_env =
     \<lparr>we_now = (\<lambda>t. int t + 1), we_ctx = (\<lambda>t. None), we_room = (\<lambda>t. True), we_pick = (\<lambda>t. False),
      we_start = (\<lambda>t rt req. Inr \<lparr>out_ID = ''run-1'', out_Events = [],
        out_Result = zero_RunResult\<lparr>res_RunID := ''run-1'', res_Status := StatusCompleted\<rparr>, out_WaitErr = None\<rparr>),
      we_pass = (\<lambda>t. sample_valid_env),
      we_repair = \<lparr>re_shouldRepair = (\<lambda>f c. True), re_buildPrompt = (\<lambda>f c. []), re_override = (\<lambda>f c r. r)\<rparr>\<rparr>"

definition sample_vruntime :: ValidatingRuntime where
  "sample_vruntime = \<lparr>vrt_Runtime = Some 0, vrt_Spec = sample_spec\<rparr>"

definition sample_vrun :: validationRun where
  "sample_vrun = projr (fst (validating_StartRun sample_vrun_env sample_vruntime 0 zero_RunRequest))"

lemma sample_vstart:
  "validating_StartRun sample_vrun_env sample_vruntime 0 zero_RunRequest = (Inr sample_vrun, 1)"
  by (simp add: sample_vrun_def validating_StartRun_def sample_vruntime_def)

lemma sample_vrun_spec: "vn_spec sample_vrun = sample_spec"
  by (simp add: sample_vrun_def validating_StartRun_def sample_vruntime_def zero_RunRequest_def)

lemma sample_first_run:
  "\<exists>result s1. vn_startAndWait sample_vrun_env (zero_RunRequest\<lparr>req_Validation := None\<rparr>) sample_vrun = (result, None, s1)"
  by (simp add: vn_startAndWait_def sample_vrun_env_def Let_def case_prod_beta zero_RunResult_def)

section \<open>Properties of a validating run\<close>

lemma validating_StartRun_fresh:
  assumes "validating_StartRun env r counter req = (Inr s, counter')"
  shows "vn_calls s = []" "vn_sent s = []" "vn_original s = req"
  using assms by (auto simp: validating_StartRun_def split: option.splits)

text \<open>
  C13. How a validating run ends. When the wrapped run fails, its error is reported and nothing is
  validated or repaired. Otherwise the run ends with at most \<open>MaxAttempts\<close> repairs, all passes but
  the last failed, it reports success exactly when the last pass succeeded, its status and result
  follow its error, and when it ends because no further repair is made the error is the exhaustion
  error exactly when the configured number of repairs has been used, else the validation error.
\<close>

theorem validating_run_outcome:
  assumes "validating_StartRun env r counter req = (Inr s, counter')"
    and "vn_startAndWait env (req\<lparr>req_Validation := None\<rparr>) s = (result, err, s1)"
  shows "if err = None then validated_report (vn_spec s) (vn_execute env s)
         else vn_waitErr (vn_execute env s) = err \<and> vn_calls (vn_execute env s) = [req\<lparr>req_Validation := None\<rparr>]"
proof -
  note run = vn_startAndWait_simps [OF assms(2)]
  have orig: "vn_original s = req" and calls: "vn_calls s = []"
    using validating_StartRun_fresh [OF assms(1)] by simp_all
  show ?thesis
  proof (cases err)
    case None
    then have "repair_inv (vn_spec s1) 0 result [] []"
      using run(6) by (simp add: repair_inv_def)
    with vn_loop_report [OF this, of env] None run assms(2) orig show ?thesis
      by (simp add: vn_execute_def)
  next
    case (Some e)
    with run assms(2) orig calls show ?thesis
      by (simp add: vn_execute_def firstSDKError_def)
  qed
qed

theorem validating_run_outcome_witness:
  "validated_report sample_spec (vn_execute sample_vrun_env sample_vrun)"
proof -
  obtain result s1 where first: "vn_startAndWait sample_vrun_env (zero_RunRequest\<lparr>req_Validation := None\<rparr>) sample_vrun
      = (result, None, s1)"
    using sample_first_run by blast
  show ?thesis
    using validating_run_outcome [OF sample_vstart first] by (simp add: sample_vrun_spec)
qed



text \<open>
  A repair that failed in its session by cancellation, timeout or permission is never repeated
  in a fresh session: the result, the error and the summary stay and the runtime is not called again.
\<close>

theorem no_fresh_session_after_refusal:
  assumes "res_Err result = Some e"
    and "err_Category e \<in> {ErrorCancellation, ErrorTimeout, ErrorPermission}"
    and "ses_Relationship (md_Session (res_Metadata result)) \<noteq> SessionRelationshipUnsupported"
  shows "vn_repairFallback env attempt repairReq started result (Some e) summary s = (result, Some e, summary, s)"
  using assms by (auto simp: vn_repairFallback_def freshRepairFallbackAllowed_def firstSDKError_def Let_def)

theorem no_fresh_session_after_refusal_witness:
  "vn_repairFallback sample_vrun_env 1 zero_RunRequest 0
     (zero_RunResult\<lparr>res_Err := Some (NewError ErrorPermission ''run'' ''denied'' None [])\<rparr>)
     (Some (NewError ErrorPermission ''run'' ''denied'' None []))
     (repairSummary 1 [] zero_RunRequest 0 0 zero_RunResult) sample_vrun
   = (zero_RunResult\<lparr>res_Err := Some (NewError ErrorPermission ''run'' ''denied'' None [])\<rparr>,
      Some (NewError ErrorPermission ''run'' ''denied'' None []),
      repairSummary 1 [] zero_RunRequest 0 0 zero_RunResult, sample_vrun)"
  by (rule no_fresh_session_after_refusal)
    (simp_all add: zero_RunResult_def zero_RunMetadata_def zero_SessionMetadata_def)

text \<open>
  Every event of the stream carries the identity of the logical run, also those forwarded from
  the wrapped runtime and from repairs.
\<close>

theorem validating_run_event_identity:
  assumes "validating_StartRun env r counter req = (Inr s, counter')"
  shows "list_all (\<lambda>e. ev_RunID e = vn_id s) (vn_sent (vn_execute env s))"
proof -
  let ?req = "req\<lparr>req_Validation := None\<rparr>"
  let ?P = "\<lambda>(k :: int) s'. events_own s' \<and> vn_id s' = vn_id s"
  have orig: "vn_original s = req" and own: "events_own s"
    using validating_StartRun_fresh [OF assms] by (simp_all add: events_own_def)
  obtain result err s1 where first: "vn_startAndWait env ?req s = (result, err, s1)"
    by (cases "vn_startAndWait env ?req s") auto
  have inv: "?P 0 s1"
    using events_own_startAndWait [OF first own] vn_startAndWait_simps(1) [OF first] by simp
  have "\<exists>k. ?P k (vn_loop env 0 ?req result [] [] s1)"
    by (rule vn_loop_rule [where P = ?P, OF _ inv]) (auto simp: vn_round_effects)
  with inv first orig have "?P 0 (vn_execute env s)"
    by (simp add: vn_execute_def)
  then show ?thesis
    by (auto simp: events_own_def)
qed

theorem validating_run_event_identity_witness:
  "list_all (\<lambda>e. ev_RunID e = vn_id sample_vrun) (vn_sent (vn_execute sample_vrun_env sample_vrun))"
  by (rule validating_run_event_identity [OF sample_vstart])

end
