(* ===== verification/Store.thy ===== *)
theory Store
  imports Model
begin

text \<open>
  Run records and the in-memory store (\<^verbatim>\<open>observability.go\<close>): the records of runs and events,
  \<open>MemoryRunStore\<close> with its limits and eviction, and the contract of a store of events as the
  locale \<open>event_log\<close>. A nil Go map and an empty one behave alike, so \<open>initLocked\<close> has no
  counterpart; the times the store reads are arguments.
\<close>

section \<open>Records\<close>

record EventSummary =
  es_EventID :: EventID
  es_Time :: gtime
  es_Kind :: EventKind
  es_Type :: string
  es_Status :: RunStatus

record SinkFailure =
  sf_Name :: string
  sf_Required :: bool
  sf_Operation :: string
  sf_At :: gtime
  sf_Error :: SDKError

record RunRecord =
  rr_RunID :: RunID
  rr_ParentRunID :: RunID
  rr_SessionID :: SessionID
  rr_TurnID :: TurnID
  rr_Status :: RunStatus
  rr_Context :: RuntimeContext
  rr_EffectiveConfigSummary :: "string smap option"
  rr_StartedAt :: gtime
  rr_FinishedAt :: gtime
  rr_Duration :: duration
  rr_ObservedAt :: gtime
  rr_CompletedAt :: gtime
  rr_LatestEvent :: EventSummary
  rr_EventCount :: int
  rr_DroppedEventCount :: int
  rr_SinkFailures :: "SinkFailure list"
  rr_StoreFailures :: "SinkFailure list"
  rr_Attempts :: "AttemptSummary list"
  rr_Policy :: PolicyMetadata
  rr_Session :: SessionMetadata
  rr_Permissions :: PermissionMetadata
  rr_Cleanup :: CleanupMetadata
  rr_Validation :: ValidationMetadata
  rr_Repair :: RepairMetadata
  rr_Artifacts :: "ArtifactRef list"
  rr_Warnings :: "string list"
  rr_Errors :: "SDKError list"
  rr_Usage :: Usage
  rr_EstimatedCost :: "CostEstimate option"
  rr_CostSource :: CostSource
  rr_ThroughputTPS :: "rat option"
  rr_NativeMetadata :: "anymap option"

record RunEventRecord =
  er_RunID :: RunID
  er_EventID :: EventID
  er_Sequence :: int
  er_Time :: gtime
  er_Kind :: EventKind
  er_Type :: string
  er_Payload :: "anymap option"
  er_RawPresent :: bool
  er_RawSafe :: bool
  er_RawOmitted :: bool
  er_RawOmissionReason :: string
  er_RawSource :: string
  er_RawEncoding :: string
  er_RawData :: string
  er_ObservedAt :: gtime
  er_StoredAt :: gtime

definition zero_EventSummary :: EventSummary where
  "zero_EventSummary =
     \<lparr>es_EventID = [], es_Time = 0, es_Kind = NoEventKind, es_Type = [], es_Status = NoStatus\<rparr>"

definition zero_RunRecord :: RunRecord where
  "zero_RunRecord =
     \<lparr>rr_RunID = [], rr_ParentRunID = [], rr_SessionID = [], rr_TurnID = [], rr_Status = NoStatus,
      rr_Context = zero_RuntimeContext, rr_EffectiveConfigSummary = None, rr_StartedAt = 0,
      rr_FinishedAt = 0, rr_Duration = 0, rr_ObservedAt = 0, rr_CompletedAt = 0,
      rr_LatestEvent = zero_EventSummary, rr_EventCount = 0, rr_DroppedEventCount = 0,
      rr_SinkFailures = [], rr_StoreFailures = [], rr_Attempts = [], rr_Policy = zero_PolicyMetadata,
      rr_Session = zero_SessionMetadata, rr_Permissions = zero_PermissionMetadata,
      rr_Cleanup = zero_CleanupMetadata, rr_Validation = zero_ValidationMetadata,
      rr_Repair = zero_RepairMetadata, rr_Artifacts = [], rr_Warnings = [], rr_Errors = [],
      rr_Usage = zero_Usage, rr_EstimatedCost = None, rr_CostSource = CostSourceOther [],
      rr_ThroughputTPS = None, rr_NativeMetadata = None\<rparr>"

text \<open>
  The clones copy slices and maps; on values they are the identity, except that cloning an empty
  payload gives nil (\<open>clonePayload\<close>).
\<close>

definition clonePayload :: "anymap option \<Rightarrow> anymap option" where
  "clonePayload src = (if entries src = [] then None else Some (entries src))"

definition cloneEventRecord :: "RunEventRecord \<Rightarrow> RunEventRecord" where
  "cloneEventRecord r = r\<lparr>er_Payload := clonePayload (er_Payload r), er_RawData := er_RawData r\<rparr>"

definition clone_artifact :: "ArtifactRef \<Rightarrow> ArtifactRef" where
  "clone_artifact a = a\<lparr>art_Metadata := cloneStringMap (art_Metadata a)\<rparr>"

definition clone_usage :: "Usage \<Rightarrow> Usage" where
  "clone_usage u =
     (case u of Usage a b c d e f g n \<Rightarrow> Usage a b c d e f g (cloneAnyMap n))"

definition cloneRunRecord :: "RunRecord \<Rightarrow> RunRecord" where
  "cloneRunRecord r =
     r\<lparr>rr_EffectiveConfigSummary := cloneStringMap (rr_EffectiveConfigSummary r),
       rr_Artifacts := map clone_artifact (rr_Artifacts r),
       rr_NativeMetadata := cloneAnyMap (rr_NativeMetadata r),
       rr_Usage := clone_usage (rr_Usage r)\<rparr>"

lemma clonePayload_clonePayload [simp]: "clonePayload (clonePayload p) = clonePayload p"
  by (simp add: clonePayload_def)

lemma cloneEventRecord_simps [simp]:
  "er_RunID (cloneEventRecord r) = er_RunID r" "er_Sequence (cloneEventRecord r) = er_Sequence r"
  "er_RawData (cloneEventRecord r) = er_RawData r" "er_RawSafe (cloneEventRecord r) = er_RawSafe r"
  "cloneEventRecord (cloneEventRecord r) = cloneEventRecord r"
  by (simp_all add: cloneEventRecord_def)

lemma clone_artifact_id [simp]: "clone_artifact a = a"
  by (simp add: clone_artifact_def)

lemma clone_usage_id [simp]: "clone_usage u = u"
  by (cases u) (simp add: clone_usage_def)

lemma cloneRunRecord_id [simp]: "cloneRunRecord r = r"
proof -
  have "map clone_artifact as = as" for as
    by (simp add: map_idI)
  then show ?thesis
    by (simp add: cloneRunRecord_def)
qed

section \<open>The store\<close>

record MemoryRunStoreLimits =
  lim_MaxEventsPerRun :: int
  lim_MaxRawBytesPerRun :: int
  lim_MaxCompletedRuns :: int
  lim_CompletedRunTTL :: duration

record MemoryRunStore =
  ms_active :: "(RunID \<times> RunRecord) list"
  ms_completed :: "(RunID \<times> RunRecord) list"
  ms_events :: "(RunID \<times> RunEventRecord list) list"
  ms_limits :: MemoryRunStoreLimits
  ms_completedOrder :: "RunID list"
  ms_completedStoredAt :: "(RunID \<times> gtime) list"
  ms_rawBytes :: "(RunID \<times> int) list"

definition defaultMemoryRunStoreLimits :: MemoryRunStoreLimits where
  "defaultMemoryRunStoreLimits =
     \<lparr>lim_MaxEventsPerRun = 2048, lim_MaxRawBytesPerRun = 16 * 1024 * 1024, lim_MaxCompletedRuns = 128,
      lim_CompletedRunTTL = 24 * hour\<rparr>"

definition NewMemoryRunStoreWithLimits :: "MemoryRunStoreLimits \<Rightarrow> MemoryRunStore" where
  "NewMemoryRunStoreWithLimits l =
     (let d = defaultMemoryRunStoreLimits;
          l' = \<lparr>lim_MaxEventsPerRun =
                   (if lim_MaxEventsPerRun l = 0 then lim_MaxEventsPerRun d else lim_MaxEventsPerRun l),
                lim_MaxRawBytesPerRun =
                   (if lim_MaxRawBytesPerRun l = 0 then lim_MaxRawBytesPerRun d else lim_MaxRawBytesPerRun l),
                lim_MaxCompletedRuns =
                   (if lim_MaxCompletedRuns l = 0 then lim_MaxCompletedRuns d else lim_MaxCompletedRuns l),
                lim_CompletedRunTTL =
                   (if lim_CompletedRunTTL l = 0 then lim_CompletedRunTTL d else lim_CompletedRunTTL l)\<rparr>
      in \<lparr>ms_active = [], ms_completed = [], ms_events = [], ms_limits = l', ms_completedOrder = [],
          ms_completedStoredAt = [], ms_rawBytes = []\<rparr>)"

definition NewMemoryRunStore :: MemoryRunStore where
  "NewMemoryRunStore = NewMemoryRunStoreWithLimits defaultMemoryRunStoreLimits"

definition evictCompletedRun :: "RunID \<Rightarrow> MemoryRunStore \<Rightarrow> MemoryRunStore" where
  "evictCompletedRun rid s =
     s\<lparr>ms_completed := adel rid (ms_completed s), ms_events := adel rid (ms_events s),
       ms_completedStoredAt := adel rid (ms_completedStoredAt s), ms_rawBytes := adel rid (ms_rawBytes s)\<rparr>"

text \<open>The two loops of \<open>evictCompletedLocked\<close>, each over the order of completion.\<close>

fun evict_expired :: "gtime \<Rightarrow> RunID list \<Rightarrow> MemoryRunStore \<Rightarrow> RunID list \<times> MemoryRunStore" where
  "evict_expired cutoff [] s = ([], s)"
| "evict_expired cutoff (rid # rest) s =
     (if aget_or 0 (ms_completedStoredAt s) rid < cutoff
      then evict_expired cutoff rest (evictCompletedRun rid s)
      else (rid # rest, s))"

fun evict_over :: "int \<Rightarrow> RunID list \<Rightarrow> MemoryRunStore \<Rightarrow> RunID list \<times> MemoryRunStore" where
  "evict_over limit [] s = ([], s)"
| "evict_over limit (rid # rest) s =
     (if int (length (rid # rest)) > limit
      then evict_over limit rest (evictCompletedRun rid s)
      else (rid # rest, s))"

definition evictCompleted :: "gtime \<Rightarrow> MemoryRunStore \<Rightarrow> MemoryRunStore" where
  "evictCompleted now s =
     (let ttl = lim_CompletedRunTTL (ms_limits s);
          s1 = (if ttl > 0
                then (let (order, s') = evict_expired (now - ttl) (ms_completedOrder s) s
                      in s'\<lparr>ms_completedOrder := order\<rparr>)
                else s);
          limit = lim_MaxCompletedRuns (ms_limits s)
      in if limit < 0 then s1
         else (let (order, s') = evict_over limit (ms_completedOrder s1) s1
               in s'\<lparr>ms_completedOrder := order\<rparr>))"

definition UpsertRun :: "gtime \<Rightarrow> gtime \<Rightarrow> RunRecord \<Rightarrow> MemoryRunStore \<Rightarrow> MemoryRunStore" where
  "UpsertRun now now' record0 s =
     (let r = cloneRunRecord record0;
          rid = rr_RunID r
      in if Terminal (rr_Status r)
         then
           (let order = (if aget (ms_completed s) rid = None then ms_completedOrder s @ [rid]
                         else ms_completedOrder s)
            in evictCompleted now'
                 (s\<lparr>ms_active := adel rid (ms_active s), ms_completedOrder := order,
                    ms_completedStoredAt := aput rid now (ms_completedStoredAt s),
                    ms_completed := aput rid r (ms_completed s)\<rparr>))
         else s\<lparr>ms_active := aput rid r (ms_active s)\<rparr>)"

definition event_limit_exceeded :: "MemoryRunStoreLimits \<Rightarrow> nat \<Rightarrow> int \<Rightarrow> bool" where
  "event_limit_exceeded l n bytes \<longleftrightarrow>
     lim_MaxEventsPerRun l \<ge> 0 \<and> int n > lim_MaxEventsPerRun l
     \<or> lim_MaxRawBytesPerRun l \<ge> 0 \<and> bytes > lim_MaxRawBytesPerRun l"

fun trim_events :: "MemoryRunStoreLimits \<Rightarrow> RunEventRecord list \<Rightarrow> int \<Rightarrow> RunEventRecord list \<times> int" where
  "trim_events l [] bytes = ([], bytes)"
| "trim_events l (e # es) bytes =
     (if event_limit_exceeded l (length (e # es)) bytes
      then trim_events l es (bytes - int (length (er_RawData e)))
      else (e # es, bytes))"

definition AppendEvent :: "RunEventRecord \<Rightarrow> MemoryRunStore \<Rightarrow> MemoryRunStore" where
  "AppendEvent event s =
     (let stored = cloneEventRecord event;
          rid = er_RunID event;
          evs = aget_or [] (ms_events s) rid @ [stored];
          bytes = aget_or 0 (ms_rawBytes s) rid + int (length (er_RawData stored));
          (evs', bytes') = trim_events (ms_limits s) evs bytes
      in s\<lparr>ms_events := aput rid evs' (ms_events s), ms_rawBytes := aput rid bytes' (ms_rawBytes s)\<rparr>)"

definition ListActiveRuns :: "MemoryRunStore \<Rightarrow> RunRecord list" where
  "ListActiveRuns s = map (\<lambda>(rid, r). cloneRunRecord r) (ms_active s)"

definition GetCompletedRun :: "gtime \<Rightarrow> RunID \<Rightarrow> MemoryRunStore \<Rightarrow> RunRecord option \<times> MemoryRunStore" where
  "GetCompletedRun now rid s =
     (let s' = evictCompleted now s in (map_option cloneRunRecord (aget (ms_completed s') rid), s'))"

definition ListRunEvents :: "gtime \<Rightarrow> RunID \<Rightarrow> MemoryRunStore \<Rightarrow> RunEventRecord list \<times> MemoryRunStore" where
  "ListRunEvents now rid s =
     (let s' = evictCompleted now s in (map cloneEventRecord (aget_or [] (ms_events s') rid), s'))"

section \<open>Eviction\<close>

definition evict_all :: "RunID list \<Rightarrow> MemoryRunStore \<Rightarrow> MemoryRunStore" where
  "evict_all gone s = fold evictCompletedRun gone s"

lemma evict_all_simps [simp]:
  "evict_all [] s = s" "evict_all (rid # gone) s = evict_all gone (evictCompletedRun rid s)"
  by (simp_all add: evict_all_def)

lemma evictCompletedRun_simps [simp]:
  "aget (ms_completed (evictCompletedRun rid s)) = (aget (ms_completed s))(rid := None)"
  "aget (ms_events (evictCompletedRun rid s)) = (aget (ms_events s))(rid := None)"
  "aget (ms_completedStoredAt (evictCompletedRun rid s)) = (aget (ms_completedStoredAt s))(rid := None)"
  "aget (ms_rawBytes (evictCompletedRun rid s)) = (aget (ms_rawBytes s))(rid := None)"
  "ms_active (evictCompletedRun rid s) = ms_active s"
  "ms_limits (evictCompletedRun rid s) = ms_limits s"
  "ms_completedOrder (evictCompletedRun rid s) = ms_completedOrder s"
  by (auto simp: evictCompletedRun_def)

lemma evict_all_fields:
  "aget (ms_completed (evict_all gone s)) k = (if k \<in> set gone then None else aget (ms_completed s) k)"
  "aget (ms_events (evict_all gone s)) k = (if k \<in> set gone then None else aget (ms_events s) k)"
  "aget (ms_completedStoredAt (evict_all gone s)) k = (if k \<in> set gone then None else aget (ms_completedStoredAt s) k)"
  "aget (ms_rawBytes (evict_all gone s)) k = (if k \<in> set gone then None else aget (ms_rawBytes s) k)"
  "ms_active (evict_all gone s) = ms_active s"
  "ms_limits (evict_all gone s) = ms_limits s"
  "ms_completedOrder (evict_all gone s) = ms_completedOrder s"
  by (induction gone arbitrary: s) auto

lemma evict_expired_spec:
  "distinct order \<Longrightarrow> evict_expired cutoff order s = (order', s') \<Longrightarrow>
     \<exists>gone. order = gone @ order' \<and> s' = evict_all gone s
       \<and> list_all (\<lambda>g. aget_or 0 (ms_completedStoredAt s) g < cutoff) gone"
proof (induction cutoff order s rule: evict_expired.induct)
  case (2 cutoff rid rest s)
  show ?case
  proof (cases "aget_or 0 (ms_completedStoredAt s) rid < cutoff")
    case True
    with 2 obtain gone where g: "rest = gone @ order'" "s' = evict_all gone (evictCompletedRun rid s)"
        "list_all (\<lambda>g. aget_or 0 (ms_completedStoredAt (evictCompletedRun rid s)) g < cutoff) gone"
      by auto
    have "list_all (\<lambda>g. aget_or 0 (ms_completedStoredAt s) g < cutoff) gone"
      unfolding list_all_iff
    proof
      fix x assume "x \<in> set gone"
      with g(1,3) 2(2) show "aget_or 0 (ms_completedStoredAt s) x < cutoff"
        by (cases "x = rid") (auto simp: list_all_iff aget_or_def)
    qed
    with g True show ?thesis by (intro exI [of _ "rid # gone"]) simp
  next
    case False
    with 2(3) show ?thesis by (intro exI [of _ "[]"]) auto
  qed
qed simp

lemma evict_over_spec:
  "evict_over limit order s = (order', s') \<Longrightarrow>
     \<exists>gone. order = gone @ order' \<and> s' = evict_all gone s \<and> (int (length order') \<le> limit \<or> order' = [])
       \<and> (int (length order) \<le> limit \<longrightarrow> gone = [])
       \<and> (gone \<noteq> [] \<longrightarrow> int (length order') = max 0 limit)"
proof (induction limit order s rule: evict_over.induct)
  case (2 limit rid rest s)
  show ?case
  proof (cases "int (length (rid # rest)) > limit")
    case True
    have step: "evict_over limit rest (evictCompletedRun rid s) = (order', s')"
      using 2(2) True by simp
    from 2(1) [OF True step] obtain gone where g:
        "rest = gone @ order'" "s' = evict_all gone (evictCompletedRun rid s)"
        "int (length order') \<le> limit \<or> order' = []" "int (length rest) \<le> limit \<longrightarrow> gone = []"
        "gone \<noteq> [] \<longrightarrow> int (length order') = max 0 limit"
      by (elim exE conjE)
    have "int (length order') = max 0 limit"
    proof (cases "gone = []")
      case gone: True
      with g(1) have "int (length order') + 1 > limit" "order' = rest" using True by simp_all
      then show ?thesis using g(3) by (cases "order' = []") auto
    next
      case False
      with g(5) show ?thesis by blast
    qed
    with g(1-3) True show ?thesis by (intro exI [of _ "rid # gone"]) auto
  next
    case False
    with 2(2) show ?thesis by (intro exI [of _ "[]"]) auto
  qed
qed simp

lemma evict_all_append: "evict_all (a @ b) s = evict_all b (evict_all a s)"
  by (simp add: evict_all_def)

lemma evict_all_order: "evict_all gone (s\<lparr>ms_completedOrder := o1\<rparr>) = (evict_all gone s)\<lparr>ms_completedOrder := o1\<rparr>"
proof (induction gone arbitrary: s)
  case (Cons rid gone)
  have "evictCompletedRun rid (s\<lparr>ms_completedOrder := o1\<rparr>) = (evictCompletedRun rid s)\<lparr>ms_completedOrder := o1\<rparr>"
    by (simp add: evictCompletedRun_def)
  then show ?case by (simp add: Cons.IH)
qed simp

text \<open>
  Eviction removes a prefix of the order of completion: expired runs first, then as many more as
  the limit demands.
\<close>

lemma evictCompleted_spec:
  assumes "distinct (ms_completedOrder s)"
  obtains expired over rest where
    "ms_completedOrder s = expired @ over @ rest"
    "evictCompleted now s = (evict_all (expired @ over) s)\<lparr>ms_completedOrder := rest\<rparr>"
    "list_all (\<lambda>g. lim_CompletedRunTTL (ms_limits s) > 0
        \<and> aget_or 0 (ms_completedStoredAt s) g < now - lim_CompletedRunTTL (ms_limits s)) expired"
    "lim_MaxCompletedRuns (ms_limits s) \<ge> 0 \<Longrightarrow> int (length rest) \<le> lim_MaxCompletedRuns (ms_limits s)"
    "over \<noteq> [] \<Longrightarrow> lim_MaxCompletedRuns (ms_limits s) \<ge> 0 \<and> int (length rest) = lim_MaxCompletedRuns (ms_limits s)"
proof -
  let ?ttl = "lim_CompletedRunTTL (ms_limits s)" and ?limit = "lim_MaxCompletedRuns (ms_limits s)"
  define s1 where "s1 = (if ?ttl > 0 then (let (order, s') = evict_expired (now - ?ttl) (ms_completedOrder s) s
      in s'\<lparr>ms_completedOrder := order\<rparr>) else s)"
  have "\<exists>expired order. ms_completedOrder s = expired @ order \<and> s1 = (evict_all expired s)\<lparr>ms_completedOrder := order\<rparr>
      \<and> list_all (\<lambda>g. ?ttl > 0 \<and> aget_or 0 (ms_completedStoredAt s) g < now - ?ttl) expired"
  proof (cases "?ttl > 0")
    case True
    obtain order s' where e: "evict_expired (now - ?ttl) (ms_completedOrder s) s = (order, s')" by fastforce
    from evict_expired_spec [OF assms e] True e show ?thesis
      by (auto simp: s1_def list_all_iff)
  next
    case False
    then show ?thesis by (intro exI [of _ "[]"] exI [of _ "ms_completedOrder s"]) (simp add: s1_def)
  qed
  then obtain expired order where ex: "ms_completedOrder s = expired @ order"
      "s1 = (evict_all expired s)\<lparr>ms_completedOrder := order\<rparr>"
      "list_all (\<lambda>g. ?ttl > 0 \<and> aget_or 0 (ms_completedStoredAt s) g < now - ?ttl) expired"
    by blast
  have eq: "evictCompleted now s = (if ?limit < 0 then s1
      else (let (order, s') = evict_over ?limit (ms_completedOrder s1) s1 in s'\<lparr>ms_completedOrder := order\<rparr>))"
    by (simp add: evictCompleted_def s1_def Let_def)
  show thesis
  proof (cases "?limit < 0")
    case True
    then show thesis using that [of expired "[]" order] ex eq by simp
  next
    case False
    obtain rest s' where o: "evict_over ?limit (ms_completedOrder s1) s1 = (rest, s')" by fastforce
    from evict_over_spec [OF o] obtain over where ov: "order = over @ rest" "s' = evict_all over s1"
        "int (length rest) \<le> ?limit \<or> rest = []" "over \<noteq> [] \<longrightarrow> int (length rest) = max 0 ?limit"
      using ex(2) by auto
    have "evictCompleted now s = (evict_all (expired @ over) s)\<lparr>ms_completedOrder := rest\<rparr>"
      using False eq o ov ex(2) by (simp add: evict_all_append evict_all_order)
    with ex ov False show thesis using that [of expired over rest] by fastforce
  qed
qed

section \<open>Trimming\<close>

definition raw_total :: "RunEventRecord list \<Rightarrow> int" where
  "raw_total es = sum_list (map (\<lambda>e. int (length (er_RawData e))) es)"

lemma raw_total_simps [simp]:
  "raw_total [] = 0" "raw_total (e # es) = int (length (er_RawData e)) + raw_total es"
  "raw_total (es @ fs) = raw_total es + raw_total fs"
  by (simp_all add: raw_total_def)

definition within_limits :: "MemoryRunStoreLimits \<Rightarrow> RunEventRecord list \<Rightarrow> bool" where
  "within_limits l es \<longleftrightarrow>
     (lim_MaxEventsPerRun l < 0 \<or> int (length es) \<le> lim_MaxEventsPerRun l)
     \<and> (lim_MaxRawBytesPerRun l < 0 \<or> raw_total es \<le> lim_MaxRawBytesPerRun l)"

lemma within_limits_iff: "within_limits l es \<longleftrightarrow> \<not> event_limit_exceeded l (length es) (raw_total es)"
  by (auto simp: within_limits_def event_limit_exceeded_def)

lemma within_limits_Nil [simp]: "within_limits l []"
  by (auto simp: within_limits_def)

lemma trim_events_spec:
  "\<exists>k. trim_events l es (raw_total es) = (drop k es, raw_total (drop k es))
     \<and> within_limits l (drop k es) \<and> (\<forall>j < k. \<not> within_limits l (drop j es))"
proof (induction es)
  case (Cons e es)
  show ?case
  proof (cases "within_limits l (e # es)")
    case True
    then show ?thesis
      by (intro exI [of _ 0]) (simp add: within_limits_iff)
  next
    case False
    from Cons obtain k where k: "trim_events l es (raw_total es) = (drop k es, raw_total (drop k es))"
        "within_limits l (drop k es)" "\<forall>j < k. \<not> within_limits l (drop j es)" by blast
    have "\<forall>j < Suc k. \<not> within_limits l (drop j (e # es))"
      using k(3) False by (auto simp: less_Suc_eq_0_disj)
    with k False show ?thesis
      by (intro exI [of _ "Suc k"]) (simp add: within_limits_iff)
  qed
qed (intro exI [of _ 0], simp)

section \<open>Invariant\<close>

abbreviation stored_events :: "MemoryRunStore \<Rightarrow> RunID \<Rightarrow> RunEventRecord list" where
  "stored_events s \<equiv> aget_or [] (ms_events s)"

definition store_inv :: "MemoryRunStore \<Rightarrow> bool" where
  "store_inv s \<longleftrightarrow>
     distinct (ms_completedOrder s)
     \<and> set (ms_completedOrder s) = dom (aget (ms_completed s))
     \<and> dom (aget (ms_completedStoredAt s)) = dom (aget (ms_completed s))
     \<and> (\<forall>k. aget_or 0 (ms_rawBytes s) k = raw_total (stored_events s k))
     \<and> (\<forall>k. within_limits (ms_limits s) (stored_events s k))
     \<and> (\<forall>k. list_all (\<lambda>e. er_RunID e = k) (stored_events s k))
     \<and> (lim_MaxCompletedRuns (ms_limits s) \<ge> 0 \<longrightarrow>
          int (length (ms_completedOrder s)) \<le> lim_MaxCompletedRuns (ms_limits s))"

lemma aget_or_evict_all:
  "aget_or z (ms_events (evict_all gone s)) k = (if k \<in> set gone then z else aget_or z (ms_events s) k)"
  "aget_or z' (ms_rawBytes (evict_all gone s)) k = (if k \<in> set gone then z' else aget_or z' (ms_rawBytes s) k)"
  by (simp_all add: aget_or_def evict_all_fields)

text \<open>Eviction needs every clause of the invariant but the last, which it establishes.\<close>

lemma evictCompleted_inv:
  assumes "distinct (ms_completedOrder s)" "set (ms_completedOrder s) = dom (aget (ms_completed s))"
    "dom (aget (ms_completedStoredAt s)) = dom (aget (ms_completed s))"
    "\<forall>k. aget_or 0 (ms_rawBytes s) k = raw_total (stored_events s k)"
    "\<forall>k. within_limits (ms_limits s) (stored_events s k)"
    "\<forall>k. list_all (\<lambda>e. er_RunID e = k) (stored_events s k)"
  shows "store_inv (evictCompleted now s)"
proof -
  obtain expired over rest where e:
    "ms_completedOrder s = expired @ over @ rest"
    "evictCompleted now s = (evict_all (expired @ over) s)\<lparr>ms_completedOrder := rest\<rparr>"
    "lim_MaxCompletedRuns (ms_limits s) \<ge> 0 \<Longrightarrow> int (length rest) \<le> lim_MaxCompletedRuns (ms_limits s)"
    using evictCompleted_spec [OF assms(1)] by metis
  have dom: "dom (\<lambda>k. if k \<in> A \<or> k \<in> B then None else f k) = dom f - (A \<union> B)" for A B and f :: "RunID \<Rightarrow> 'x option"
    by (auto split: if_splits)
  have fields: "aget (ms_completed (evict_all g s)) = (\<lambda>k. if k \<in> set g then None else aget (ms_completed s) k)"
    "aget (ms_completedStoredAt (evict_all g s)) = (\<lambda>k. if k \<in> set g then None else aget (ms_completedStoredAt s) k)" for g
    by (simp_all add: fun_eq_iff evict_all_fields)
  have rest: "set rest = set (ms_completedOrder s) - set (expired @ over)" "distinct rest"
    using assms(1) e(1) by auto
  show ?thesis
    unfolding store_inv_def e(2)
    using assms(2-) e(3) rest
    by (simp add: fields dom aget_or_evict_all evict_all_fields)
qed

lemma evictCompleted_simps [simp]:
  assumes "distinct (ms_completedOrder s)"
  shows "ms_limits (evictCompleted now s) = ms_limits s" "ms_active (evictCompleted now s) = ms_active s"
proof -
  obtain g rest where "evictCompleted now s = (evict_all g s)\<lparr>ms_completedOrder := rest\<rparr>"
    using evictCompleted_spec [OF assms] by metis
  then show "ms_limits (evictCompleted now s) = ms_limits s" "ms_active (evictCompleted now s) = ms_active s"
    by (simp_all add: evict_all_fields)
qed

lemma AppendEvent_fields:
  assumes "store_inv s"
  obtains k where
    "stored_events (AppendEvent e s) (er_RunID e) = drop k (stored_events s (er_RunID e) @ [cloneEventRecord e])"
    "within_limits (ms_limits s) (drop k (stored_events s (er_RunID e) @ [cloneEventRecord e]))"
    "\<forall>j < k. \<not> within_limits (ms_limits s) (drop j (stored_events s (er_RunID e) @ [cloneEventRecord e]))"
    "aget_or 0 (ms_rawBytes (AppendEvent e s)) (er_RunID e) =
       raw_total (drop k (stored_events s (er_RunID e) @ [cloneEventRecord e]))"
proof -
  let ?evs = "stored_events s (er_RunID e) @ [cloneEventRecord e]"
  have "aget_or 0 (ms_rawBytes s) (er_RunID e) + int (length (er_RawData (cloneEventRecord e))) = raw_total ?evs"
    using assms by (simp add: store_inv_def)
  moreover from trim_events_spec [of "ms_limits s" ?evs] obtain k where
    "trim_events (ms_limits s) ?evs (raw_total ?evs) = (drop k ?evs, raw_total (drop k ?evs))"
    "within_limits (ms_limits s) (drop k ?evs)" "\<forall>j < k. \<not> within_limits (ms_limits s) (drop j ?evs)" by blast
  ultimately show thesis
    by (intro that [of k]) (simp_all add: AppendEvent_def Let_def)
qed

lemma AppendEvent_other:
  "k \<noteq> er_RunID e \<Longrightarrow> stored_events (AppendEvent e s) k = stored_events s k"
  "k \<noteq> er_RunID e \<Longrightarrow> aget_or 0 (ms_rawBytes (AppendEvent e s)) k = aget_or 0 (ms_rawBytes s) k"
  "ms_active (AppendEvent e s) = ms_active s" "ms_completed (AppendEvent e s) = ms_completed s"
  "ms_completedOrder (AppendEvent e s) = ms_completedOrder s"
  "ms_completedStoredAt (AppendEvent e s) = ms_completedStoredAt s" "ms_limits (AppendEvent e s) = ms_limits s"
  by (simp_all add: AppendEvent_def Let_def case_prod_beta)

lemma AppendEvent_inv:
  assumes "store_inv s"
  shows "store_inv (AppendEvent e s)"
proof -
  from assms obtain k where k:
    "stored_events (AppendEvent e s) (er_RunID e) = drop k (stored_events s (er_RunID e) @ [cloneEventRecord e])"
    "within_limits (ms_limits s) (drop k (stored_events s (er_RunID e) @ [cloneEventRecord e]))"
    "aget_or 0 (ms_rawBytes (AppendEvent e s)) (er_RunID e) =
       raw_total (drop k (stored_events s (er_RunID e) @ [cloneEventRecord e]))"
    by (rule AppendEvent_fields)
  have "list_all (\<lambda>x. er_RunID x = er_RunID e) (stored_events s (er_RunID e) @ [cloneEventRecord e])"
    using assms by (simp add: store_inv_def)
  then have own: "list_all (\<lambda>x. er_RunID x = er_RunID e) (stored_events (AppendEvent e s) (er_RunID e))"
    unfolding k(1) list_all_iff by (meson in_set_dropD)
  have "aget_or 0 (ms_rawBytes (AppendEvent e s)) r = raw_total (stored_events (AppendEvent e s) r)
      \<and> within_limits (ms_limits s) (stored_events (AppendEvent e s) r)
      \<and> list_all (\<lambda>x. er_RunID x = r) (stored_events (AppendEvent e s) r)" for r
    using assms k own by (cases "r = er_RunID e") (simp_all add: AppendEvent_other store_inv_def)
  with assms show ?thesis
    by (simp add: store_inv_def AppendEvent_other)
qed

lemma UpsertRun_inv:
  assumes "store_inv s"
  shows "store_inv (UpsertRun now now' r s)"
proof (cases "Terminal (rr_Status r)")
  case True
  have "store_inv (evictCompleted now' (s\<lparr>ms_active := adel (rr_RunID r) (ms_active s),
      ms_completedOrder := (if aget (ms_completed s) (rr_RunID r) = None then ms_completedOrder s @ [rr_RunID r]
        else ms_completedOrder s),
      ms_completedStoredAt := aput (rr_RunID r) now (ms_completedStoredAt s),
      ms_completed := aput (rr_RunID r) r (ms_completed s)\<rparr>))"
    by (rule evictCompleted_inv) (use assms in \<open>auto simp: store_inv_def\<close>)
  with True show ?thesis by (simp add: UpsertRun_def Let_def)
next
  case False
  with assms show ?thesis by (simp add: UpsertRun_def store_inv_def Let_def)
qed

section \<open>Reachable stores\<close>

text \<open>
  Every operation of the store as a step, with any times: the mutex makes each call atomic, so a
  history of concurrent calls is a sequence of such steps.
\<close>

inductive store_step :: "MemoryRunStore \<Rightarrow> MemoryRunStore \<Rightarrow> bool" where
  step_upsert: "store_step s (UpsertRun now now' r s)"
| step_append: "store_step s (AppendEvent e s)"
| step_get: "store_step s (snd (GetCompletedRun now rid s))"
| step_events: "store_step s (snd (ListRunEvents now rid s))"

inductive store_reachable :: "MemoryRunStoreLimits \<Rightarrow> MemoryRunStore \<Rightarrow> bool" for limits where
  reach_new: "store_reachable limits (NewMemoryRunStoreWithLimits limits)"
| reach_step: "store_reachable limits s \<Longrightarrow> store_step s s' \<Longrightarrow> store_reachable limits s'"

inductive_cases store_stepE: "store_step s s'"

lemma evict_keeps_inv: "store_inv s \<Longrightarrow> store_inv (evictCompleted now s)"
  by (rule evictCompleted_inv) (auto simp: store_inv_def)

lemma store_step_inv: "store_step s s' \<Longrightarrow> store_inv s \<Longrightarrow> store_inv s'"
  by (elim store_stepE)
    (auto simp: UpsertRun_inv AppendEvent_inv GetCompletedRun_def ListRunEvents_def Let_def evict_keeps_inv)

lemma store_inv_new: "store_inv (NewMemoryRunStoreWithLimits limits)"
proof -
  let ?s = "NewMemoryRunStoreWithLimits limits"
  have "ms_completedOrder ?s = []" "ms_completed ?s = []" "ms_completedStoredAt ?s = []" "ms_rawBytes ?s = []"
    "ms_events ?s = []"
    by (simp_all add: NewMemoryRunStoreWithLimits_def Let_def)
  then show ?thesis by (simp add: store_inv_def)
qed

lemma store_reachable_inv: "store_reachable limits s \<Longrightarrow> store_inv s"
  by (induction rule: store_reachable.induct) (auto simp: store_inv_new dest: store_step_inv)

section \<open>The contract of an event log\<close>

text \<open>
  What an observer relies on when it appends events to a store: an append keeps a suffix of the
  events of that run with the new one at its end, and leaves the other runs alone.
\<close>

locale event_log =
  fixes append :: "RunEventRecord \<Rightarrow> 's \<Rightarrow> 's"
    and stored :: "'s \<Rightarrow> RunID \<Rightarrow> RunEventRecord list"
  assumes append_own: "suffix (stored (append e s) (er_RunID e)) (stored s (er_RunID e) @ [cloneEventRecord e])"
    and append_other: "k \<noteq> er_RunID e \<Longrightarrow> stored (append e s) k = stored s k"
begin

lemma append_suffix:
  "suffix (stored (append e s) k)
     (stored s k @ map cloneEventRecord (filter (\<lambda>x. er_RunID x = k) [e]))"
  using append_own [of e s] append_other [of k e s] by (cases "k = er_RunID e") auto

lemma appends_suffix:
  "suffix (stored (fold append es s) k)
     (stored s k @ map cloneEventRecord (filter (\<lambda>x. er_RunID x = k) es))"
proof (induction es arbitrary: s)
  case (Cons e es)
  let ?f = "\<lambda>es. map cloneEventRecord (filter (\<lambda>x. er_RunID x = k) es)"
  have "suffix (stored (fold append es (append e s)) k) (stored (append e s) k @ ?f es)"
    by (rule Cons.IH)
  moreover have "suffix (stored (append e s) k @ ?f es) ((stored s k @ ?f [e]) @ ?f es)"
    using append_suffix [of e s k] unfolding suffix_def by (elim exE) (simp only: append_assoc, blast)
  ultimately have "suffix (stored (fold append es (append e s)) k) ((stored s k @ ?f [e]) @ ?f es)"
    by (rule suffix_order.trans)
  then show ?case by (cases "er_RunID e = k") simp_all
qed simp

lemma appends_in_order:
  assumes "stored s k = []" and "sorted_wrt (<) (map er_Sequence es)"
  shows "sorted_wrt (<) (map er_Sequence (stored (fold append es s) k))"
proof -
  have "sorted_wrt (<) (map er_Sequence (map cloneEventRecord (filter (\<lambda>x. er_RunID x = k) es)))"
    using assms(2) by (simp add: comp_def sorted_wrt_map sorted_wrt_filter)
  moreover have "suffix (stored (fold append es s) k) (map cloneEventRecord (filter (\<lambda>x. er_RunID x = k) es))"
    using appends_suffix [of es s k] assms(1) by simp
  then obtain zs where "map cloneEventRecord (filter (\<lambda>x. er_RunID x = k) es) = zs @ stored (fold append es s) k"
    by (auto simp: suffix_def)
  ultimately have "sorted_wrt (<) (map er_Sequence (zs @ stored (fold append es s) k))"
    by (simp only:)
  then show ?thesis
    by (simp add: sorted_wrt_append)
qed

lemma appends_all:
  assumes "stored s k = []" and "list_all (\<lambda>e. P (cloneEventRecord e)) es"
  shows "list_all P (stored (fold append es s) k)"
proof -
  have "suffix (stored (fold append es s) k) (map cloneEventRecord (filter (\<lambda>x. er_RunID x = k) es))"
    using appends_suffix [of es s k] assms(1) by simp
  then have "set (stored (fold append es s) k) \<subseteq> cloneEventRecord ` set es"
    by (force dest: set_mono_suffix)
  with assms(2) show ?thesis
    by (auto simp: list_all_iff)
qed

end

interpretation memory_log: event_log AppendEvent stored_events
proof unfold_locales
  fix e s
  have "\<exists>k b. trim_events l es bytes = (drop k es, b)" for l es bytes
  proof (induction l es bytes rule: trim_events.induct)
    case (2 l e es bytes)
    then show ?case
      by (cases "event_limit_exceeded l (length (e # es)) bytes")
        (auto intro: exI [of _ "Suc k" for k] exI [of _ 0])
  qed simp
  then obtain k b where "trim_events (ms_limits s) (stored_events s (er_RunID e) @ [cloneEventRecord e])
      (aget_or 0 (ms_rawBytes s) (er_RunID e) + int (length (er_RawData (cloneEventRecord e))))
      = (drop k (stored_events s (er_RunID e) @ [cloneEventRecord e]), b)"
    by blast
  then have "stored_events (AppendEvent e s) (er_RunID e) = drop k (stored_events s (er_RunID e) @ [cloneEventRecord e])"
    by (simp add: AppendEvent_def Let_def)
  then show "suffix (stored_events (AppendEvent e s) (er_RunID e)) (stored_events s (er_RunID e) @ [cloneEventRecord e])"
    by (simp only: suffix_drop)
next
  show "k \<noteq> er_RunID e \<Longrightarrow> stored_events (AppendEvent e s) k = stored_events s k" for k e s
    by (rule AppendEvent_other)
qed

section \<open>Properties\<close>

text \<open>
  C19. In every store that calls can reach, whatever their order and times: the order of completion
  lists each completed run once and nothing else, raw bytes are accounted exactly, every run keeps
  only its own events and within both limits, and the number of completed runs respects its limit.
\<close>

theorem store_invariant:
  assumes "store_reachable limits s"
  shows "store_inv s"
  using assms by (rule store_reachable_inv)

definition sample_record :: "RunID \<Rightarrow> RunStatus \<Rightarrow> RunRecord" where
  "sample_record rid status = zero_RunRecord\<lparr>rr_RunID := rid, rr_Status := status\<rparr>"

definition sample_limits :: MemoryRunStoreLimits where
  "sample_limits =
     \<lparr>lim_MaxEventsPerRun = 2, lim_MaxRawBytesPerRun = 100, lim_MaxCompletedRuns = 5, lim_CompletedRunTTL = 10\<rparr>"

definition sample_store :: MemoryRunStore where
  "sample_store = UpsertRun 0 0 (sample_record ''a'' StatusCompleted) (NewMemoryRunStoreWithLimits sample_limits)"

lemma sample_store_reachable: "store_reachable sample_limits sample_store"
  unfolding sample_store_def by (rule reach_step [OF reach_new step_upsert])

theorem store_invariant_witness: "store_inv sample_store"
  by (rule store_invariant [OF sample_store_reachable])

text \<open>
  C20. A completed run can be read back: after a terminal record has been stored, and as long as the
  retention time has not passed, reading the run returns that very record and it is no longer listed
  as active. (A limit of zero cannot be configured; it stands for the default.)
\<close>

theorem completed_run_readable:
  assumes "store_reachable limits s" and "Terminal (rr_Status r)"
    and "lim_MaxCompletedRuns (ms_limits s) \<noteq> 0"
    and "lim_CompletedRunTTL (ms_limits s) > 0 \<Longrightarrow> now' - lim_CompletedRunTTL (ms_limits s) \<le> now"
    and "lim_CompletedRunTTL (ms_limits s) > 0 \<Longrightarrow> now'' - lim_CompletedRunTTL (ms_limits s) \<le> now"
  shows "fst (GetCompletedRun now'' (rr_RunID r) (UpsertRun now now' r s)) = Some r
    \<and> aget (ms_active (UpsertRun now now' r s)) (rr_RunID r) = None"
proof -
  let ?rid = "rr_RunID r" and ?ttl = "lim_CompletedRunTTL (ms_limits s)"
  let ?limit = "lim_MaxCompletedRuns (ms_limits s)"
  have survives: "?rid \<in> set (ms_completedOrder (evictCompleted t u))
      \<and> aget (ms_completed (evictCompleted t u)) ?rid = Some r
      \<and> aget (ms_completedStoredAt (evictCompleted t u)) ?rid = Some now
      \<and> ms_limits (evictCompleted t u) = ms_limits s \<and> ms_active (evictCompleted t u) = ms_active u"
    if u: "distinct (ms_completedOrder u)" "?rid \<in> set (ms_completedOrder u)"
      "aget (ms_completed u) ?rid = Some r" "aget (ms_completedStoredAt u) ?rid = Some now"
      "ms_limits u = ms_limits s" "?ttl > 0 \<Longrightarrow> t - ?ttl \<le> now"
      and last: "ms_completedOrder u \<noteq> [] \<Longrightarrow> ?rid = last (ms_completedOrder u)
        \<or> ?limit < 0 \<or> int (length (ms_completedOrder u)) \<le> ?limit" for t u
  proof -
    obtain expired over rest where e:
      "ms_completedOrder u = expired @ over @ rest"
      "evictCompleted t u = (evict_all (expired @ over) u)\<lparr>ms_completedOrder := rest\<rparr>"
      "list_all (\<lambda>g. ?ttl > 0 \<and> aget_or 0 (ms_completedStoredAt u) g < t - ?ttl) expired"
      "over \<noteq> [] \<Longrightarrow> ?limit \<ge> 0 \<and> int (length rest) = ?limit"
      using evictCompleted_spec [OF u(1), of t] u(5) by metis
    have "?rid \<notin> set expired"
      using e(3) u(4,6) by (fastforce simp: list_all_iff aget_or_def)
    moreover have "?rid \<notin> set over"
    proof
      assume in_over: "?rid \<in> set over"
      then have over: "over \<noteq> []" by auto
      with e(4) assms(3) have "rest \<noteq> []" by auto
      then have "last (ms_completedOrder u) \<in> set rest" using e(1) by simp
      with in_over u(1) e(1) have "?rid \<noteq> last (ms_completedOrder u)" by auto
      with last u(2) have "?limit < 0 \<or> int (length (ms_completedOrder u)) \<le> ?limit" by fastforce
      with e(1,4) over show False by (cases over) auto
    qed
    ultimately show ?thesis
      using u e(1,2) by (auto simp: evict_all_fields)
  qed
  let ?order = "if aget (ms_completed s) ?rid = None then ms_completedOrder s @ [?rid] else ms_completedOrder s"
  define u where "u = s\<lparr>ms_active := adel ?rid (ms_active s), ms_completedOrder := ?order,
    ms_completedStoredAt := aput ?rid now (ms_completedStoredAt s), ms_completed := aput ?rid r (ms_completed s)\<rparr>"
  have inv: "store_inv s" by (rule store_reachable_inv [OF assms(1)])
  have ups: "UpsertRun now now' r s = evictCompleted now' u"
    using assms(2) by (simp add: UpsertRun_def u_def Let_def)
  have "store_inv (evictCompleted now' u)"
    using UpsertRun_inv [OF inv, of now now' r] ups by simp
  moreover have first: "?rid \<in> set (ms_completedOrder (evictCompleted now' u))
      \<and> aget (ms_completed (evictCompleted now' u)) ?rid = Some r
      \<and> aget (ms_completedStoredAt (evictCompleted now' u)) ?rid = Some now
      \<and> ms_limits (evictCompleted now' u) = ms_limits s \<and> ms_active (evictCompleted now' u) = ms_active u"
    by (rule survives) (use inv assms(4) in \<open>auto simp: u_def store_inv_def split: if_splits\<close>)
  ultimately have "aget (ms_completed (evictCompleted now'' (evictCompleted now' u))) ?rid = Some r"
    using survives [of "evictCompleted now' u" now''] assms(5) by (auto simp: store_inv_def)
  with first ups show ?thesis
    by (simp add: GetCompletedRun_def u_def Let_def)
qed

theorem completed_run_readable_witness:
  "fst (GetCompletedRun 5 ''b'' (UpsertRun 1 1 (sample_record ''b'' StatusFailed) sample_store))
     = Some (sample_record ''b'' StatusFailed)"
proof -
  have "ms_limits sample_store = sample_limits"
    by (simp add: sample_store_def sample_limits_def NewMemoryRunStoreWithLimits_def UpsertRun_def
        sample_record_def evictCompleted_def Let_def evictCompletedRun_def zero_RunRecord_def)
  with completed_run_readable [OF sample_store_reachable, of "sample_record ''b'' StatusFailed" 1 1 5]
  show ?thesis by (simp add: sample_limits_def sample_record_def zero_RunRecord_def)
qed

text \<open>
  C21. Appending an event keeps the longest suffix of the run's events, the new one included, that fits
  the limits on the number of events and on raw bytes; dropping fewer would exceed a limit.
\<close>

theorem append_event_longest_suffix:
  assumes "store_reachable limits s"
  shows "\<exists>k. stored_events (AppendEvent e s) (er_RunID e)
        = drop k (stored_events s (er_RunID e) @ [cloneEventRecord e])
      \<and> within_limits (ms_limits s) (stored_events (AppendEvent e s) (er_RunID e))
      \<and> (\<forall>j < k. \<not> within_limits (ms_limits s) (drop j (stored_events s (er_RunID e) @ [cloneEventRecord e])))"
  using AppendEvent_fields [OF store_reachable_inv [OF assms], of e] by metis

definition sample_event_record :: "int \<Rightarrow> RunEventRecord" where
  "sample_event_record n =
     \<lparr>er_RunID = ''a'', er_EventID = [], er_Sequence = n, er_Time = 0, er_Kind = EventMessage, er_Type = [],
      er_Payload = None, er_RawPresent = False, er_RawSafe = False, er_RawOmitted = False,
      er_RawOmissionReason = [], er_RawSource = [], er_RawEncoding = [], er_RawData = [],
      er_ObservedAt = 0, er_StoredAt = 0\<rparr>"

theorem append_event_longest_suffix_witness:
  "\<exists>k. stored_events (AppendEvent (sample_event_record 1) sample_store) ''a''
        = drop k (stored_events sample_store ''a'' @ [cloneEventRecord (sample_event_record 1)])"
  using append_event_longest_suffix [OF sample_store_reachable, of "sample_event_record 1"]
  by (auto simp: sample_event_record_def)

section \<open>Three behaviours of the retention\<close>

text \<open>
  The retention time is enforced from the head of the order of completion only, and storing a run
  again renews its time without moving it. A renewed head therefore keeps expired runs behind it:
  run \<open>b\<close>, stored at time 1 with a retention of 10, is still served at time 101.
\<close>

lemma expired_run_still_served:
  "fst (GetCompletedRun 101 ''b''
     (UpsertRun 100 100 (sample_record ''a'' StatusCompleted)
       (UpsertRun 1 1 (sample_record ''b'' StatusCompleted) sample_store)))
   = Some (sample_record ''b'' StatusCompleted)"
  by code_simp

text \<open>
  A record that is no longer terminal makes the run active again but leaves its completed record in
  place, so the run is then listed as active and served as completed.
\<close>

lemma reopened_run_served_as_completed:
  "aget (ms_active (UpsertRun 2 2 (sample_record ''a'' StatusRepairing) sample_store)) ''a''
     = Some (sample_record ''a'' StatusRepairing)
   \<and> fst (GetCompletedRun 3 ''a'' (UpsertRun 2 2 (sample_record ''a'' StatusRepairing) sample_store))
     = Some (sample_record ''a'' StatusCompleted)"
  by code_simp

text \<open>
  The zero value of the store, as every operation finds it after \<open>initLocked\<close> has made its maps: only the
  constructors replace limits that are zero by the defaults, so nothing that is stored in it is kept.
\<close>

definition zero_MemoryRunStore :: MemoryRunStore where
  "zero_MemoryRunStore =
     \<lparr>ms_active = [], ms_completed = [], ms_events = [],
      ms_limits = \<lparr>lim_MaxEventsPerRun = 0, lim_MaxRawBytesPerRun = 0, lim_MaxCompletedRuns = 0, lim_CompletedRunTTL = 0\<rparr>,
      ms_completedOrder = [], ms_completedStoredAt = [], ms_rawBytes = []\<rparr>"

lemma zero_store_keeps_nothing:
  "fst (ListRunEvents now rid (AppendEvent e zero_MemoryRunStore)) = []"
  "Terminal (rr_Status r) \<Longrightarrow> fst (GetCompletedRun now rid (UpsertRun now1 now2 r zero_MemoryRunStore)) = None"
  by (simp_all add: zero_MemoryRunStore_def ListRunEvents_def AppendEvent_def UpsertRun_def GetCompletedRun_def
      evictCompleted_def evictCompletedRun_def event_limit_exceeded_def cloneRunRecord_def aget_or_def Let_def)

end
