(* ===== verification/Observe.thy ===== *)
theory Observe
  imports Store Permissions
begin

text \<open>
  The observing runtime (\<^verbatim>\<open>observability.go\<close>): the projection of a run into its record, the
  forwarding of events with the sinks and the store called for each, and \<open>Wait\<close>. Sinks and the
  store are interfaces: what their calls return is an oracle, and the records handed to the store
  are logged in \<open>ob_appended\<close> and \<open>ob_upserts\<close>, which no Go field holds, so that a theorem can run
  them through a store.
\<close>

section \<open>Configuration, environment and state\<close>

record PersistencePolicy =
  per_PersistUnsafeRawPayloads :: bool
  per_OmitSafeRawPayloads :: bool
  per_RunUpsertInterval :: duration

record NamedEventSink =
  sink_Name :: string
  sink_Present :: bool
  sink_Required :: bool

record observe_env =
  oe_now :: "nat \<Rightarrow> gtime"
  oe_ctx :: "nat \<Rightarrow> ctx_error option"
  oe_room :: "nat \<Rightarrow> bool"
  oe_pick :: "nat \<Rightarrow> bool"
  oe_blocked :: "nat \<Rightarrow> bool"
  oe_sinkErr :: "nat \<Rightarrow> nat \<Rightarrow> go_error option"
  oe_storeErr :: "nat \<Rightarrow> go_error option"

text \<open>\<open>oe_blocked t\<close>: a send that had to wait ended because the context was done.\<close>

record observedRun =
  ob_id :: RunID
  ob_hasStore :: bool
  ob_sinks :: "NamedEventSink list"
  ob_policy :: PersistencePolicy
  ob_seq :: int
  ob_lastUpsert :: gtime
  ob_record :: RunRecord
  ob_result :: RunResult
  ob_waitErr :: "go_error option"
  ob_sent :: "Event list"
  ob_tick :: nat
  ob_appended :: "RunEventRecord list"
  ob_upserts :: "RunRecord list"

definition ob_observe :: "observedRun \<Rightarrow> observedRun" where
  "ob_observe s = s\<lparr>ob_tick := Suc (ob_tick s)\<rparr>"

definition ob_now :: "observe_env \<Rightarrow> observedRun \<Rightarrow> gtime \<times> observedRun" where
  "ob_now env s = (oe_now env (ob_tick s), ob_observe s)"

section \<open>Projection helpers\<close>

definition sdkErrorValue :: "go_error \<Rightarrow> string \<Rightarrow> SDKError" where
  "sdkErrorValue err operation =
     (case ErrorAs err of
        Some sdk \<Rightarrow> sdk
      | None \<Rightarrow> NewError ErrorUnknown operation (error_text err) (Some err) [])"

definition reqParentRunID :: "RunRequest \<Rightarrow> RunID" where
  "reqParentRunID req =
     (case req_Metadata req of None \<Rightarrow> [] | Some m \<Rightarrow> aget_or [] m ''parent_run_id'')"

definition effectiveConfigSummary :: "RunRequest \<Rightarrow> string smap option" where
  "effectiveConfigSummary req =
     (let put = (\<lambda>b k v (m :: string smap). if b then aput k v m else m);
          m1 = put (req_WorkDir req \<noteq> []) ''workdir'' (req_WorkDir req) [];
          m2 = put (req_Provider req \<noteq> []) ''provider'' (req_Provider req) m1;
          m3 = put (req_Model req \<noteq> []) ''model'' (req_Model req) m2;
          m4 = put (req_Permissions req \<noteq> []) ''permissions'' (req_Permissions req) m3;
          m5 = put (req_Sandbox req \<noteq> []) ''sandbox'' (req_Sandbox req) m4;
          m6 = put (req_Timeout req > 0) ''timeout'' (duration_string (req_Timeout req)) m5;
          m7 = put (req_SessionAction req \<noteq> SessionActionDefault) ''session_action''
                 (action_string (req_SessionAction req)) m6;
          m8 = put (entries (req_Metadata req) \<noteq> []) ''metadata_keys''
                 (itoa (int (length (entries (req_Metadata req))))) m7
      in if m8 = [] then None else Some m8)"

definition coerceStatus :: "gval \<Rightarrow> RunStatus option" where
  "coerceStatus v =
     (case v of
        GRunStatus st \<Rightarrow> Some st
      | GString x \<Rightarrow> (case status_of x of RunStatusOther y \<Rightarrow> None | st \<Rightarrow> Some st)
      | _ \<Rightarrow> None)"

definition statusFromPayload :: "anymap option \<Rightarrow> RunStatus option" where
  "statusFromPayload payload =
     (let p = entries payload
      in case coerceStatus (gget p ''state'') of
           Some st \<Rightarrow> Some st
         | None \<Rightarrow>
             (case coerceStatus (gget p ''status'') of
                Some st \<Rightarrow> Some st
              | None \<Rightarrow> coerceStatus (gget p ''to'')))"

definition withProducerMetadata :: "ArtifactRef \<Rightarrow> RunRecord \<Rightarrow> ArtifactRef" where
  "withProducerMetadata a r =
     (let put = (\<lambda>b k v (m :: string smap). if b then aput k v m else m);
          c = rr_Context r;
          m0 = entries (cloneStringMap (art_Metadata a));
          m1 = put (rr_RunID r \<noteq> []) ''producer_run_id'' (rr_RunID r) m0;
          m2 = put (ctx_RuntimeKind c \<noteq> []) ''producer_runtime_kind'' (ctx_RuntimeKind c) m1;
          m3 = put (ctx_RuntimeName c \<noteq> []) ''producer_runtime_name'' (ctx_RuntimeName c) m2;
          m4 = put (ctx_Provider c \<noteq> []) ''producer_provider'' (ctx_Provider c) m3;
          m5 = put (ctx_Model c \<noteq> []) ''producer_model'' (ctx_Model c) m4
      in a\<lparr>art_Metadata := Some m5\<rparr>)"

text \<open>The loop of \<open>mergeArtifacts\<close>; \<open>seen\<close> is its set of identities.\<close>

fun merge_loop :: "ArtifactID list \<Rightarrow> ArtifactRef list \<Rightarrow> RunRecord \<Rightarrow> ArtifactRef list" where
  "merge_loop seen [] r = []"
| "merge_loop seen (a # rest) r =
     (if art_ID a \<noteq> [] \<and> art_ID a \<in> set seen then merge_loop seen rest r
      else withProducerMetadata a r
             # merge_loop (if art_ID a \<noteq> [] then art_ID a # seen else seen) rest r)"

definition mergeArtifacts ::
  "ArtifactRef list \<Rightarrow> ArtifactRef list \<Rightarrow> ArtifactRef list \<Rightarrow> RunRecord \<Rightarrow> ArtifactRef list" where
  "mergeArtifacts existing resultArtifacts metadataArtifacts r =
     merge_loop [] (existing @ resultArtifacts @ metadataArtifacts) r"

definition firstRunID :: "RunID \<Rightarrow> RunID \<Rightarrow> RunID" where
  "firstRunID primary fallback = (if primary \<noteq> [] then primary else fallback)"

definition firstContext :: "RuntimeContext \<Rightarrow> RuntimeContext \<Rightarrow> RuntimeContext" where
  "firstContext primary fallback =
     (if ctx_RuntimeKind primary \<noteq> [] \<or> ctx_RuntimeName primary \<noteq> [] \<or> ctx_Provider primary \<noteq> []
         \<or> ctx_Model primary \<noteq> [] then primary else fallback)"

definition usage_known :: "Usage \<Rightarrow> bool" where
  "usage_known u \<longleftrightarrow>
     us_InputTokens u \<noteq> None \<or> us_OutputTokens u \<noteq> None \<or> us_TotalTokens u \<noteq> None
     \<or> us_ReasoningTokens u \<noteq> None \<or> us_CacheReadTokens u \<noteq> None \<or> us_CacheWriteTokens u \<noteq> None
     \<or> us_Turns u \<noteq> None \<or> entries (us_Native u) \<noteq> []"

definition firstUsage :: "Usage list \<Rightarrow> Usage" where
  "firstUsage us = (case find usage_known us of Some u \<Rightarrow> u | None \<Rightarrow> zero_Usage)"

definition mergeRequiredObserverError :: "go_error option \<Rightarrow> RunRecord \<Rightarrow> go_error option" where
  "mergeRequiredObserverError primary r =
     (case primary of
        Some e \<Rightarrow> Some e
      | None \<Rightarrow>
          (case find sf_Required (rr_SinkFailures r) of
             Some f \<Rightarrow> Some (ESDK (sf_Error f))
           | None \<Rightarrow>
               (case find sf_Required (rr_StoreFailures r) of
                  Some f \<Rightarrow> Some (ESDK (sf_Error f))
                | None \<Rightarrow> None)))"

section \<open>Observing an event\<close>

definition ob_recordFailure ::
  "observe_env \<Rightarrow> string \<Rightarrow> string \<Rightarrow> bool \<Rightarrow> go_error \<Rightarrow> observedRun \<Rightarrow> observedRun" where
  "ob_recordFailure env operation name required err s =
     (let (now, s1) = ob_now env s;
          failure = \<lparr>sf_Name = name, sf_Required = required, sf_Operation = operation, sf_At = now,
                     sf_Error = sdkErrorValue err operation\<rparr>;
          r = ob_record s1;
          r1 = (if operation = ''store_append_event'' \<or> operation = ''store_upsert_run''
                then r\<lparr>rr_StoreFailures := rr_StoreFailures r @ [failure]\<rparr>
                else r\<lparr>rr_SinkFailures := rr_SinkFailures r @ [failure]\<rparr>)
      in s1\<lparr>ob_record := r1\<lparr>rr_Warnings := rr_Warnings r1 @
             [operation @ '' '' @ go_quote name @ '' failed: '' @ error_text err]\<rparr>\<rparr>)"

definition ob_upsert :: "observe_env \<Rightarrow> observedRun \<Rightarrow> observedRun" where
  "ob_upsert env s =
     (if \<not> ob_hasStore s then s
      else
        (let t = ob_tick s;
             s1 = (ob_observe s)\<lparr>ob_upserts := ob_upserts s @ [cloneRunRecord (ob_record s)]\<rparr>
         in case oe_storeErr env t of
              Some err \<Rightarrow> ob_recordFailure env ''store_upsert_run'' ''store'' False err s1
            | None \<Rightarrow> s1))"

definition ob_upsertIfDue :: "observe_env \<Rightarrow> observedRun \<Rightarrow> observedRun" where
  "ob_upsertIfDue env s =
     (let interval = (if per_RunUpsertInterval (ob_policy s) \<le> 0 then 250 * millisecond
                      else per_RunUpsertInterval (ob_policy s));
          (now, s1) = ob_now env s
      in if \<not> time_IsZero (ob_lastUpsert s1) \<and> time_sub now (ob_lastUpsert s1) < interval then s1
         else ob_upsert env (s1\<lparr>ob_lastUpsert := now\<rparr>))"

definition apply_usage :: "gval \<Rightarrow> RunRecord \<Rightarrow> RunRecord" where
  "apply_usage v r = (case v of GUsage u \<Rightarrow> r\<lparr>rr_Usage := u\<rparr> | _ \<Rightarrow> r)"

definition apply_artifact :: "gval \<Rightarrow> RunRecord \<Rightarrow> RunRecord" where
  "apply_artifact v r =
     (case v of
        GArtifact a \<Rightarrow> r\<lparr>rr_Artifacts := rr_Artifacts r @ [withProducerMetadata a r]\<rparr>
      | _ \<Rightarrow> r)"

definition apply_event :: "RunEventRecord \<Rightarrow> gtime \<Rightarrow> RunRecord \<Rightarrow> RunRecord" where
  "apply_event event now r =
     (let latest = \<lparr>es_EventID = er_EventID event,
                    es_Time = (if time_IsZero (er_Time event) then now else er_Time event),
                    es_Kind = er_Kind event, es_Type = er_Type event, es_Status = NoStatus\<rparr>;
          r1 = r\<lparr>rr_ObservedAt := now, rr_EventCount := rr_EventCount r + 1, rr_LatestEvent := latest\<rparr>;
          r2 = (case statusFromPayload (er_Payload event) of
                  Some st \<Rightarrow> r1\<lparr>rr_Status := st, rr_LatestEvent := latest\<lparr>es_Status := st\<rparr>\<rparr>
                | None \<Rightarrow> r1);
          r3 = (if er_Kind event = EventFatalError \<and> rr_Status r2 = NoStatus
                then r2\<lparr>rr_Status := StatusFailed\<rparr> else r2);
          r4 = (if er_Kind event = EventUsage
                then apply_usage (gget (entries (er_Payload event)) ''usage'') r3 else r3)
      in if er_Kind event = EventArtifact
         then apply_artifact (gget (entries (er_Payload event)) ''artifact'') r4 else r4)"

definition ob_applyEvent :: "observe_env \<Rightarrow> RunEventRecord \<Rightarrow> observedRun \<Rightarrow> observedRun" where
  "ob_applyEvent env event s =
     (let (now, s1) = ob_now env s in s1\<lparr>ob_record := apply_event event now (ob_record s1)\<rparr>)"

definition ob_eventRecord :: "observe_env \<Rightarrow> Event \<Rightarrow> observedRun \<Rightarrow> RunEventRecord \<times> observedRun" where
  "ob_eventRecord env event s =
     (let (observedAt, s1) = ob_now env s;
          s2 = s1\<lparr>ob_seq := ob_seq s1 + 1\<rparr>;
          r0 = \<lparr>er_RunID = (if ev_RunID event = [] then ob_id s2 else ev_RunID event),
                er_EventID = ev_ID event, er_Sequence = ob_seq s2, er_Time = ev_Time event,
                er_Kind = Kind event, er_Type = ev_Type event, er_Payload = clonePayload (ev_Payload event),
                er_RawPresent = False, er_RawSafe = False, er_RawOmitted = False,
                er_RawOmissionReason = [], er_RawSource = [], er_RawEncoding = [], er_RawData = [],
                er_ObservedAt = observedAt, er_StoredAt = observedAt\<rparr>
      in case ev_Raw event of
           None \<Rightarrow> (r0, s2)
         | Some raw \<Rightarrow>
             (let r1 = r0\<lparr>er_RawPresent := True, er_RawSafe := raw_Safe raw, er_RawSource := raw_Source raw,
                          er_RawEncoding := raw_Encoding raw\<rparr>;
                  keep = (raw_Safe raw \<and> \<not> per_OmitSafeRawPayloads (ob_policy s2)
                          \<or> \<not> raw_Safe raw \<and> per_PersistUnsafeRawPayloads (ob_policy s2))
              in (if keep then r1\<lparr>er_RawData := raw_Data raw\<rparr>
                  else r1\<lparr>er_RawOmitted := True,
                          er_RawOmissionReason := ''raw payload omitted by persistence policy''\<rparr>, s2)))"

fun ob_callSinks :: "observe_env \<Rightarrow> nat \<Rightarrow> NamedEventSink list \<Rightarrow> observedRun \<Rightarrow> observedRun" where
  "ob_callSinks env i [] s = s"
| "ob_callSinks env i (sink # rest) s =
     (if \<not> sink_Present sink then ob_callSinks env (Suc i) rest s
      else
        (let t = ob_tick s;
             s1 = ob_observe s
         in case oe_sinkErr env t i of
              Some err \<Rightarrow>
                ob_callSinks env (Suc i) rest
                  (ob_recordFailure env ''event_sink'' (sink_Name sink) (sink_Required sink) err s1)
            | None \<Rightarrow> ob_callSinks env (Suc i) rest s1))"

definition ob_storeAppend :: "observe_env \<Rightarrow> RunEventRecord \<Rightarrow> observedRun \<Rightarrow> observedRun" where
  "ob_storeAppend env event s =
     (if \<not> ob_hasStore s then s
      else
        (let t = ob_tick s;
             s1 = (ob_observe s)\<lparr>ob_appended := ob_appended s @ [event]\<rparr>
         in case oe_storeErr env t of
              Some err \<Rightarrow> ob_recordFailure env ''store_append_event'' ''store'' False err s1
            | None \<Rightarrow> s1))"

definition ob_appendRecord :: "observe_env \<Rightarrow> RunEventRecord \<Rightarrow> observedRun \<Rightarrow> observedRun" where
  "ob_appendRecord env event s =
     (let s1 = ob_applyEvent env event s;
          s2 = ob_callSinks env 0 (ob_sinks s1) s1;
          s3 = ob_storeAppend env event s2
      in ob_upsertIfDue env s3)"

definition ob_recordDroppedEvent :: "observedRun \<Rightarrow> observedRun" where
  "ob_recordDroppedEvent s =
     s\<lparr>ob_record := (ob_record s)\<lparr>rr_DroppedEventCount := rr_DroppedEventCount (ob_record s) + 1\<rparr>\<rparr>"

text \<open>
  Delivering one event: \<open>None\<close> is the early return of \<open>forward\<close>. Messages and progress are
  dropped when the consumer lags; every other event waits for room or for the context.
\<close>

definition ob_deliver :: "observe_env \<Rightarrow> Event \<Rightarrow> observedRun \<Rightarrow> observedRun + observedRun" where
  "ob_deliver env event s =
     (let t = ob_tick s;
          s1 = ob_observe s;
          ctxDone = (oe_ctx env t \<noteq> None);
          room = oe_room env t;
          put = s1\<lparr>ob_sent := ob_sent s1 @ [event]\<rparr>
      in if ctxDone \<and> (\<not> room \<or> oe_pick env t) then Inl s1
         else if room then Inr put
         else if Kind event \<noteq> EventMessage \<and> Kind event \<noteq> EventProgress
         then (if oe_blocked env t then Inl s1 else Inr put)
         else Inr (ob_recordDroppedEvent s1))"

fun ob_forward :: "observe_env \<Rightarrow> Event list \<Rightarrow> observedRun \<Rightarrow> observedRun" where
  "ob_forward env [] s = s"
| "ob_forward env (event # rest) s =
     (let (record1, s1) = ob_eventRecord env event s;
          s2 = ob_appendRecord env record1 s1
      in case ob_deliver env event s2 of
           Inl s3 \<Rightarrow> s3
         | Inr s3 \<Rightarrow> ob_forward env rest s3)"

section \<open>Wait, StartRun\<close>

definition merge_result :: "RunResult \<Rightarrow> go_error option \<Rightarrow> gtime \<Rightarrow> RunRecord \<Rightarrow> RunRecord" where
  "merge_result result waitErr now r =
     (let md = res_Metadata result;
          r1 = r\<lparr>rr_RunID := firstRunID (res_RunID result) (rr_RunID r), rr_SessionID := res_SessionID result,
                 rr_TurnID := res_TurnID result,
                 rr_Status := (if res_Status result \<noteq> NoStatus then res_Status result else rr_Status r)\<rparr>;
          r2 = (if \<not> Terminal (rr_Status r1) \<and> res_Err result = None \<and> waitErr = None
                   \<and> \<not> time_IsZero (res_FinishedAt result)
                then r1\<lparr>rr_Status := StatusCompleted\<rparr> else r1);
          r3 = r2\<lparr>rr_StartedAt := firstTime (res_StartedAt result) (rr_StartedAt r2),
                  rr_FinishedAt := res_FinishedAt result\<rparr>;
          r4 = (if \<not> time_IsZero (res_FinishedAt result)
                then r3\<lparr>rr_CompletedAt := now,
                        rr_Duration := time_sub (res_FinishedAt result) (rr_StartedAt r3)\<rparr>
                else r3);
          r5 = r4\<lparr>rr_Context := firstContext (md_Context md) (rr_Context r4),
                  rr_ParentRunID := firstRunID (md_ParentRunID md) (rr_ParentRunID r4),
                  rr_Attempts := md_Attempts md, rr_Policy := md_Policy md, rr_Session := md_Session md,
                  rr_Permissions := md_Permissions md, rr_Cleanup := md_Cleanup md,
                  rr_Validation := md_Validation md, rr_Repair := md_Repair md\<rparr>
      in r5\<lparr>rr_Artifacts := mergeArtifacts (rr_Artifacts r5) (res_Artifacts result) (md_Artifacts md) r5,
            rr_Warnings := res_Warnings result @ md_Warnings md,
            rr_Errors := md_Errors md @ (case res_Err result of Some e \<Rightarrow> [e] | None \<Rightarrow> []),
            rr_Usage := firstUsage [md_Usage md, res_Usage result, rr_Usage r5],
            rr_EstimatedCost := md_EstimatedCost md, rr_CostSource := md_CostSource md,
            rr_ThroughputTPS := md_ThroughputTPS md,
            rr_NativeMetadata := cloneAnyMap (md_NativeMetadata md)\<rparr>)"

text \<open>\<open>Wait\<close> after the inner run has returned \<open>result\<close> and \<open>err\<close> and forwarding has ended.\<close>

definition ob_Wait ::
  "observe_env \<Rightarrow> RunResult \<Rightarrow> go_error option \<Rightarrow> observedRun \<Rightarrow> (RunResult \<times> go_error option) \<times> observedRun"
where
  "ob_Wait env result err s =
     (let waitErr = mergeRequiredObserverError err (ob_record s);
          s1 = s\<lparr>ob_result := result, ob_waitErr := waitErr\<rparr>;
          (now, s2) = (if time_IsZero (res_FinishedAt result) then (0, s1) else ob_now env s1);
          s3 = s2\<lparr>ob_record := merge_result result waitErr now (ob_record s2)\<rparr>;
          s4 = ob_upsert env s3
      in ((result, ob_waitErr s4), s4))"

record ObservingRuntime =
  obr_Runtime :: "RuntimeRef option"
  obr_HasStore :: bool
  obr_Sinks :: "NamedEventSink list"
  obr_Policy :: PersistencePolicy

text \<open>\<open>StartRun\<close> up to the start of the forwarding goroutine; \<open>inner\<close> is the wrapped \<open>StartRun\<close>.\<close>

definition observing_StartRun ::
  "observe_env \<Rightarrow> ObservingRuntime \<Rightarrow> (RuntimeRef \<Rightarrow> RunRequest \<Rightarrow> start_outcome) \<Rightarrow> RunRequest
     \<Rightarrow> go_error + run_outcome \<times> observedRun" where
  "observing_StartRun env r inner req =
     (case obr_Runtime r of
        None \<Rightarrow> Inl (ESDK (NewError ErrorConfiguration ''observing runner'' ''runtime is required'' None []))
      | Some rt \<Rightarrow>
          (case inner rt req of
             Inl err \<Rightarrow> Inl err
           | Inr out \<Rightarrow>
               (let rec1 = zero_RunRecord\<lparr>rr_RunID := out_ID out, rr_ParentRunID := reqParentRunID req,
                      rr_SessionID := req_SessionID req, rr_TurnID := req_TurnID req,
                      rr_Status := StatusStarting,
                      rr_Context := zero_RuntimeContext\<lparr>ctx_Provider := req_Provider req, ctx_Model := req_Model req\<rparr>,
                      rr_EffectiveConfigSummary := effectiveConfigSummary req,
                      rr_StartedAt := oe_now env 0, rr_ObservedAt := oe_now env 1\<rparr>;
                    s = \<lparr>ob_id = out_ID out, ob_hasStore = obr_HasStore r, ob_sinks = obr_Sinks r,
                         ob_policy = obr_Policy r, ob_seq = 0, ob_lastUpsert = 0, ob_record = rec1,
                         ob_result = zero_RunResult, ob_waitErr = None, ob_sent = [], ob_tick = 2,
                         ob_appended = [], ob_upserts = []\<rparr>
                in Inr (out, ob_upsert env s))))"

end
