(* ===== verification/ObserveLaws.thy ===== *)
theory ObserveLaws
  imports Observe
begin

text \<open>
  What observing a run guarantees: numbering and counting of events, what is dropped, what raw
  payloads may be persisted, when an observer's failure becomes the outcome of the run, and what a
  memory store then holds.
\<close>

section \<open>Frames\<close>

definition same_frame :: "observedRun \<Rightarrow> observedRun \<Rightarrow> bool" where
  "same_frame s s' \<longleftrightarrow>
     ob_id s' = ob_id s \<and> ob_hasStore s' = ob_hasStore s \<and> ob_sinks s' = ob_sinks s
     \<and> ob_policy s' = ob_policy s \<and> ob_seq s' = ob_seq s \<and> ob_sent s' = ob_sent s
     \<and> ob_waitErr s' = ob_waitErr s
     \<and> rr_EventCount (ob_record s') = rr_EventCount (ob_record s)
     \<and> rr_DroppedEventCount (ob_record s') = rr_DroppedEventCount (ob_record s)"

lemma same_frame_refl [simp]: "same_frame s s"
  by (simp add: same_frame_def)

lemma same_frame_trans: "same_frame s s1 \<Longrightarrow> same_frame s1 s2 \<Longrightarrow> same_frame s s2"
  by (simp add: same_frame_def)

lemma ob_observe_simps [simp]:
  "ob_record (ob_observe s) = ob_record s" "ob_appended (ob_observe s) = ob_appended s"
  "ob_upserts (ob_observe s) = ob_upserts s" "same_frame s (ob_observe s)"
  "ob_hasStore (ob_observe s) = ob_hasStore s" "ob_sinks (ob_observe s) = ob_sinks s"
  "ob_policy (ob_observe s) = ob_policy s" "ob_seq (ob_observe s) = ob_seq s" "ob_id (ob_observe s) = ob_id s"
  "ob_sent (ob_observe s) = ob_sent s" "ob_waitErr (ob_observe s) = ob_waitErr s"
  by (simp_all add: ob_observe_def same_frame_def)

lemma ob_now_simps [simp]: "snd (ob_now env s) = ob_observe s"
  by (simp add: ob_now_def)

text \<open>Failures that no configuration marks as required.\<close>

definition no_required :: "RunRecord \<Rightarrow> bool" where
  "no_required r \<longleftrightarrow> list_all (\<lambda>f. \<not> sf_Required f) (rr_SinkFailures r)
     \<and> list_all (\<lambda>f. \<not> sf_Required f) (rr_StoreFailures r)"

lemma ob_recordFailure_simps [simp]:
  "same_frame s (ob_recordFailure env op nm req err s)"
  "ob_appended (ob_recordFailure env op nm req err s) = ob_appended s"
  "ob_upserts (ob_recordFailure env op nm req err s) = ob_upserts s"
  "no_required (ob_record (ob_recordFailure env op nm req err s)) = (no_required (ob_record s) \<and> \<not> req)"
  by (auto simp: ob_recordFailure_def ob_now_def same_frame_def no_required_def Let_def)

lemma ob_upsert_simps [simp]:
  "same_frame s (ob_upsert env s)" "ob_appended (ob_upsert env s) = ob_appended s"
  "no_required (ob_record (ob_upsert env s)) = no_required (ob_record s)"
proof -
  let ?s1 = "(ob_observe s)\<lparr>ob_upserts := ob_upserts s @ [cloneRunRecord (ob_record s)]\<rparr>"
  have "same_frame s ?s1" "ob_appended ?s1 = ob_appended s" "ob_record ?s1 = ob_record s"
    by (simp_all add: same_frame_def)
  then show "same_frame s (ob_upsert env s)" "ob_appended (ob_upsert env s) = ob_appended s"
    "no_required (ob_record (ob_upsert env s)) = no_required (ob_record s)"
    by (auto simp: ob_upsert_def Let_def split: option.split intro: same_frame_trans)
qed

lemma ob_upsertIfDue_simps [simp]:
  "same_frame s (ob_upsertIfDue env s)" "ob_appended (ob_upsertIfDue env s) = ob_appended s"
  "no_required (ob_record (ob_upsertIfDue env s)) = no_required (ob_record s)"
proof -
  have "same_frame s ((ob_observe s)\<lparr>ob_lastUpsert := t\<rparr>)" for t
    by (simp add: same_frame_def)
  then have "same_frame s (ob_upsert env ((ob_observe s)\<lparr>ob_lastUpsert := t\<rparr>))" for t
    using same_frame_trans ob_upsert_simps(1) by blast
  then show "same_frame s (ob_upsertIfDue env s)" "ob_appended (ob_upsertIfDue env s) = ob_appended s"
    "no_required (ob_record (ob_upsertIfDue env s)) = no_required (ob_record s)"
    by (auto simp: ob_upsertIfDue_def ob_now_def Let_def intro: same_frame_trans)
qed

lemma ob_callSinks_simps:
  "same_frame s (ob_callSinks env i sinks s)" "ob_appended (ob_callSinks env i sinks s) = ob_appended s"
  "list_all (\<lambda>k. \<not> sink_Required k) sinks \<Longrightarrow>
     no_required (ob_record (ob_callSinks env i sinks s)) = no_required (ob_record s)"
  by (induction sinks arbitrary: i s)
    (auto simp: Let_def split: option.split intro: same_frame_trans [OF ob_observe_simps(4)]
       same_frame_trans [OF same_frame_trans [OF ob_observe_simps(4) ob_recordFailure_simps(1)]])

lemma ob_storeAppend_simps [simp]:
  "same_frame s (ob_storeAppend env e s)"
  "ob_appended (ob_storeAppend env e s) = ob_appended s @ (if ob_hasStore s then [e] else [])"
  "no_required (ob_record (ob_storeAppend env e s)) = no_required (ob_record s)"
proof -
  let ?s1 = "(ob_observe s)\<lparr>ob_appended := ob_appended s @ [e]\<rparr>"
  have "same_frame s ?s1" by (simp add: same_frame_def)
  then show "same_frame s (ob_storeAppend env e s)"
    "ob_appended (ob_storeAppend env e s) = ob_appended s @ (if ob_hasStore s then [e] else [])"
    "no_required (ob_record (ob_storeAppend env e s)) = no_required (ob_record s)"
    by (auto simp: ob_storeAppend_def Let_def split: option.split intro: same_frame_trans)
qed

lemma apply_usage_simps [simp]:
  "rr_EventCount (apply_usage v r) = rr_EventCount r" "rr_DroppedEventCount (apply_usage v r) = rr_DroppedEventCount r"
  "rr_SinkFailures (apply_usage v r) = rr_SinkFailures r" "rr_StoreFailures (apply_usage v r) = rr_StoreFailures r"
  by (cases v; simp add: apply_usage_def)+

lemma apply_artifact_simps [simp]:
  "rr_EventCount (apply_artifact v r) = rr_EventCount r"
  "rr_DroppedEventCount (apply_artifact v r) = rr_DroppedEventCount r"
  "rr_SinkFailures (apply_artifact v r) = rr_SinkFailures r" "rr_StoreFailures (apply_artifact v r) = rr_StoreFailures r"
  by (cases v; simp add: apply_artifact_def)+

lemma apply_event_simps [simp]:
  "rr_EventCount (apply_event e now r) = rr_EventCount r + 1"
  "rr_DroppedEventCount (apply_event e now r) = rr_DroppedEventCount r"
  "no_required (apply_event e now r) = no_required r"
  by (simp_all add: apply_event_def no_required_def Let_def split: option.split)

text \<open>One event observed: counted once, appended once if there is a store, nothing else.\<close>

lemma ob_appendRecord_effect:
  fixes env e s
  defines "s' \<equiv> ob_appendRecord env e s"
  shows "ob_id s' = ob_id s" "ob_hasStore s' = ob_hasStore s" "ob_sinks s' = ob_sinks s"
    "ob_policy s' = ob_policy s" "ob_seq s' = ob_seq s" "ob_sent s' = ob_sent s" "ob_waitErr s' = ob_waitErr s"
    "rr_EventCount (ob_record s') = rr_EventCount (ob_record s) + 1"
    "rr_DroppedEventCount (ob_record s') = rr_DroppedEventCount (ob_record s)"
    "ob_appended s' = ob_appended s @ (if ob_hasStore s then [e] else [])"
    "list_all (\<lambda>k. \<not> sink_Required k) (ob_sinks s) \<Longrightarrow>
       no_required (ob_record s') = no_required (ob_record s)"
proof -
  define s1 where "s1 = ob_applyEvent env e s"
  have s1: "ob_id s1 = ob_id s" "ob_hasStore s1 = ob_hasStore s" "ob_sinks s1 = ob_sinks s"
    "ob_policy s1 = ob_policy s" "ob_seq s1 = ob_seq s" "ob_sent s1 = ob_sent s" "ob_waitErr s1 = ob_waitErr s"
    "rr_EventCount (ob_record s1) = rr_EventCount (ob_record s) + 1"
    "rr_DroppedEventCount (ob_record s1) = rr_DroppedEventCount (ob_record s)"
    "ob_appended s1 = ob_appended s" "no_required (ob_record s1) = no_required (ob_record s)"
    by (simp_all add: s1_def ob_applyEvent_def ob_now_def Let_def)
  define s2 where "s2 = ob_callSinks env 0 (ob_sinks s1) s1"
  define s3 where "s3 = ob_storeAppend env e s2"
  have fr: "same_frame s1 s2" "same_frame s2 s3" "same_frame s3 s'"
    by (simp_all add: s2_def s3_def s'_def ob_callSinks_simps ob_appendRecord_def s1_def Let_def)
  have frame: "same_frame s1 s'"
    by (rule same_frame_trans [OF same_frame_trans [OF fr(1,2)] fr(3)])
  then show "ob_id s' = ob_id s" "ob_hasStore s' = ob_hasStore s" "ob_sinks s' = ob_sinks s"
    "ob_policy s' = ob_policy s" "ob_seq s' = ob_seq s" "ob_sent s' = ob_sent s" "ob_waitErr s' = ob_waitErr s"
    "rr_EventCount (ob_record s') = rr_EventCount (ob_record s) + 1"
    "rr_DroppedEventCount (ob_record s') = rr_DroppedEventCount (ob_record s)"
    using s1 by (simp_all add: same_frame_def)
  have s': "s' = ob_upsertIfDue env s3"
    by (simp add: s'_def s3_def s2_def s1_def ob_appendRecord_def Let_def)
  show "ob_appended s' = ob_appended s @ (if ob_hasStore s then [e] else [])"
    using fr(1) s1 by (simp add: s' s3_def s2_def ob_callSinks_simps same_frame_def)
  show "list_all (\<lambda>k. \<not> sink_Required k) (ob_sinks s) \<Longrightarrow> no_required (ob_record s') = no_required (ob_record s)"
    using s1 by (simp add: s' s3_def s2_def ob_callSinks_simps)
qed

lemma ob_eventRecord_effect:
  assumes "ob_eventRecord env e s = (r, s')"
  shows "s' = (ob_observe s)\<lparr>ob_seq := ob_seq s + 1\<rparr>" "er_Sequence r = ob_seq s + 1"
    "er_RunID r = (if ev_RunID e = [] then ob_id s else ev_RunID e)"
    "\<not> per_PersistUnsafeRawPayloads (ob_policy s) \<Longrightarrow> \<not> er_RawSafe r \<Longrightarrow> er_RawData r = []"
  using assms by (auto simp: ob_eventRecord_def ob_now_def Let_def split: option.splits)

section \<open>Forwarding\<close>

definition important :: "Event \<Rightarrow> bool" where
  "important e \<longleftrightarrow> Kind e \<noteq> EventMessage \<and> Kind e \<noteq> EventProgress"

text \<open>A delivery changes only the stream and the count of dropped events.\<close>

lemma ob_deliver_effect:
  assumes "ob_deliver env e s = Inl s' \<or> ob_deliver env e s = Inr s'"
  shows "ob_id s' = ob_id s" "ob_hasStore s' = ob_hasStore s" "ob_sinks s' = ob_sinks s"
    "ob_policy s' = ob_policy s" "ob_seq s' = ob_seq s" "ob_appended s' = ob_appended s"
    "rr_EventCount (ob_record s') = rr_EventCount (ob_record s)"
    "no_required (ob_record s') = no_required (ob_record s)"
  using assms
  by (auto simp: ob_deliver_def ob_recordDroppedEvent_def no_required_def Let_def split: if_splits)

lemma ob_deliver_Inr:
  assumes "ob_deliver env e s = Inr s'"
  shows "ob_sent s' = ob_sent s @ [e] \<and> rr_DroppedEventCount (ob_record s') = rr_DroppedEventCount (ob_record s)
    \<or> \<not> important e \<and> ob_sent s' = ob_sent s
      \<and> rr_DroppedEventCount (ob_record s') = rr_DroppedEventCount (ob_record s) + 1"
  using assms by (auto simp: ob_deliver_def ob_recordDroppedEvent_def important_def Let_def split: if_splits)

lemma ob_deliver_live:
  "oe_ctx env = (\<lambda>t. None) \<Longrightarrow> oe_blocked env = (\<lambda>t. False) \<Longrightarrow> \<exists>s'. ob_deliver env e s = Inr s'"
  by (simp add: ob_deliver_def Let_def)

text \<open>The numbering of the records and the counters, with the bound on raw data.\<close>

definition observed_inv :: "observedRun \<Rightarrow> bool" where
  "observed_inv s \<longleftrightarrow>
     0 \<le> ob_seq s \<and> rr_EventCount (ob_record s) = ob_seq s
     \<and> (ob_hasStore s \<longrightarrow> map er_Sequence (ob_appended s) = map (\<lambda>i. int i + 1) [0..<nat (ob_seq s)])
     \<and> (\<not> per_PersistUnsafeRawPayloads (ob_policy s) \<longrightarrow>
          list_all (\<lambda>r. er_RawSafe r \<or> er_RawData r = []) (ob_appended s))
     \<and> (list_all (\<lambda>k. \<not> sink_Required k) (ob_sinks s) \<longrightarrow> no_required (ob_record s))"

lemma observed_inv_event:
  assumes "observed_inv s" and rec: "ob_eventRecord env e s = (r, s1)"
  shows "observed_inv (ob_appendRecord env r s1)"
proof -
  note er = ob_eventRecord_effect [OF rec]
  have seq: "nat (ob_seq s + 1) = Suc (nat (ob_seq s))" "int (nat (ob_seq s)) = ob_seq s"
    using assms(1) by (simp_all add: observed_inv_def nat_add_distrib)
  have s1: "ob_seq s1 = ob_seq s + 1" "ob_record s1 = ob_record s" "ob_hasStore s1 = ob_hasStore s"
    "ob_policy s1 = ob_policy s" "ob_sinks s1 = ob_sinks s" "ob_appended s1 = ob_appended s"
    using er(1) by simp_all
  show ?thesis
    using assms(1) er(2,4) seq s1 ob_appendRecord_effect [where env = env and e = r and s = s1]
    by (auto simp: observed_inv_def)
qed

lemma observed_inv_deliver:
  "ob_deliver env e s = Inl s' \<or> ob_deliver env e s = Inr s' \<Longrightarrow> observed_inv s \<Longrightarrow> observed_inv s'"
  by (frule ob_deliver_effect) (auto simp: observed_inv_def ob_deliver_effect)

lemma ob_forward_inv: "observed_inv s \<Longrightarrow> observed_inv (ob_forward env es s)"
proof (induction env es s rule: ob_forward.induct)
  case (2 env e rest s)
  obtain r s1 where rec: "ob_eventRecord env e s = (r, s1)" by (cases "ob_eventRecord env e s")
  define s2 where "s2 = ob_appendRecord env r s1"
  have inv: "observed_inv s2"
    unfolding s2_def by (rule observed_inv_event [OF 2(2) rec])
  show ?case
  proof (cases "ob_deliver env e s2")
    case (Inl s3)
    with inv observed_inv_deliver [of env e s2 s3] rec show ?thesis by (simp add: s2_def)
  next
    case (Inr s3)
    with inv observed_inv_deliver [of env e s2 s3] have "observed_inv s3" by simp
    from 2(1) [OF rec [symmetric] refl s2_def Inr this] Inr rec show ?thesis by (simp add: s2_def)
  qed
qed simp

lemma ob_forward_frame:
  "ob_id (ob_forward env es s) = ob_id s \<and> ob_hasStore (ob_forward env es s) = ob_hasStore s
   \<and> ob_sinks (ob_forward env es s) = ob_sinks s \<and> ob_policy (ob_forward env es s) = ob_policy s"
proof (induction env es s rule: ob_forward.induct)
  case (2 env e rest s)
  obtain r s1 where rec: "ob_eventRecord env e s = (r, s1)" by (cases "ob_eventRecord env e s")
  define s2 where "s2 = ob_appendRecord env r s1"
  have s2: "ob_id s2 = ob_id s" "ob_hasStore s2 = ob_hasStore s" "ob_sinks s2 = ob_sinks s" "ob_policy s2 = ob_policy s"
    using ob_eventRecord_effect(1) [OF rec] ob_appendRecord_effect [where env = env and e = r and s = s1] by (simp_all add: s2_def)
  show ?case
  proof (cases "ob_deliver env e s2")
    case (Inl s3)
    with rec s2 ob_deliver_effect [of env e s2 s3] show ?thesis by (simp add: s2_def)
  next
    case (Inr s3)
    with 2(1) [OF rec [symmetric] refl s2_def Inr] rec s2 ob_deliver_effect [of env e s2 s3]
    show ?thesis by (simp add: s2_def)
  qed
qed simp

lemma ob_forward_live:
  assumes "oe_ctx env = (\<lambda>t. None)" and "oe_blocked env = (\<lambda>t. False)"
  shows "ob_seq (ob_forward env es s) = ob_seq s + int (length es)
    \<and> int (length (ob_sent (ob_forward env es s))) + rr_DroppedEventCount (ob_record (ob_forward env es s))
        = int (length (ob_sent s)) + rr_DroppedEventCount (ob_record s) + int (length es)
    \<and> filter important (ob_sent (ob_forward env es s)) = filter important (ob_sent s) @ filter important es
    \<and> (\<exists>new. ob_sent (ob_forward env es s) = ob_sent s @ new \<and> subseq new es)"
proof (induction es arbitrary: s)
  case (Cons e rest)
  obtain r s1 where rec: "ob_eventRecord env e s = (r, s1)" by (cases "ob_eventRecord env e s")
  define s2 where "s2 = ob_appendRecord env r s1"
  have s2: "ob_seq s2 = ob_seq s + 1" "ob_sent s2 = ob_sent s"
    "rr_DroppedEventCount (ob_record s2) = rr_DroppedEventCount (ob_record s)"
    using ob_eventRecord_effect(1) [OF rec] ob_appendRecord_effect [where env = env and e = r and s = s1] by (simp_all add: s2_def)
  obtain s3 where s3: "ob_deliver env e s2 = Inr s3"
    using ob_deliver_live [OF assms] by blast
  have seq3: "ob_seq s3 = ob_seq s + 1" using ob_deliver_effect(5) [of env e s2 s3] s3 s2 by simp
  have step: "ob_forward env (e # rest) s = ob_forward env rest s3"
    using rec s3 by (simp add: s2_def)
  show ?case
    using ob_deliver_Inr [OF s3]
  proof
    assume "ob_sent s3 = ob_sent s2 @ [e] \<and> rr_DroppedEventCount (ob_record s3) = rr_DroppedEventCount (ob_record s2)"
    with Cons.IH [of s3] s2 seq3 show ?thesis
      unfolding step by (auto intro: exI [of _ "e # new" for new])
  next
    assume "\<not> important e \<and> ob_sent s3 = ob_sent s2
      \<and> rr_DroppedEventCount (ob_record s3) = rr_DroppedEventCount (ob_record s2) + 1"
    with Cons.IH [of s3] s2 seq3 show ?thesis
      unfolding step by auto
  qed
qed simp

lemma observing_StartRun_fresh:
  assumes "observing_StartRun env r inner req = Inr (out, s)"
  shows "observed_inv s" "ob_appended s = []" "ob_sent s = []" "ob_seq s = 0" "ob_policy s = obr_Policy r"
    "ob_sinks s = obr_Sinks r" "ob_hasStore s = obr_HasStore r" "rr_DroppedEventCount (ob_record s) = 0"
proof -
  from assms obtain rec0 where s: "s = ob_upsert env \<lparr>ob_id = out_ID out, ob_hasStore = obr_HasStore r,
      ob_sinks = obr_Sinks r, ob_policy = obr_Policy r, ob_seq = 0, ob_lastUpsert = 0, ob_record = rec0,
      ob_result = zero_RunResult, ob_waitErr = None, ob_sent = [], ob_tick = 2, ob_appended = [], ob_upserts = []\<rparr>"
    and rec0: "rr_EventCount rec0 = 0" "rr_DroppedEventCount rec0 = 0" "rr_SinkFailures rec0 = []" "rr_StoreFailures rec0 = []"
    by (auto simp: observing_StartRun_def zero_RunRecord_def Let_def split: option.splits sum.splits)
  let ?s0 = "\<lparr>ob_id = out_ID out, ob_hasStore = obr_HasStore r,
      ob_sinks = obr_Sinks r, ob_policy = obr_Policy r, ob_seq = 0, ob_lastUpsert = 0, ob_record = rec0,
      ob_result = zero_RunResult, ob_waitErr = None, ob_sent = [], ob_tick = 2, ob_appended = [], ob_upserts = []\<rparr>"
  have "no_required rec0" using rec0 by (simp add: no_required_def)
  then have fr: "same_frame ?s0 s" and app: "ob_appended s = []" and nr: "no_required (ob_record s)"
    by (simp_all add: s)
  show "ob_appended s = []" "ob_sent s = []" "ob_seq s = 0" "ob_policy s = obr_Policy r"
    "ob_sinks s = obr_Sinks r" "ob_hasStore s = obr_HasStore r" "rr_DroppedEventCount (ob_record s) = 0"
    using fr app rec0 by (simp_all add: same_frame_def)
  show "observed_inv s"
    using fr app nr rec0 by (simp add: observed_inv_def same_frame_def)
qed

lemma find_append: "find P (xs @ ys) = (case find P xs of None \<Rightarrow> find P ys | Some x \<Rightarrow> Some x)"
  by (induction xs) simp_all

lemma mergeRequired_eq:
  "mergeRequiredObserverError err r =
     (case err of Some e \<Rightarrow> Some e
      | None \<Rightarrow> map_option (\<lambda>f. ESDK (sf_Error f)) (find sf_Required (rr_SinkFailures r @ rr_StoreFailures r)))"
  by (simp add: mergeRequiredObserverError_def find_append split: option.split)

lemma no_required_find: "no_required r \<Longrightarrow> find sf_Required (rr_SinkFailures r @ rr_StoreFailures r) = None"
  by (auto simp: no_required_def find_None_all list_all_iff)

lemma ob_Wait_result:
  "fst (ob_Wait env result err s) = (result, mergeRequiredObserverError err (ob_record s))"
proof -
  have "ob_waitErr (ob_upsert env t) = ob_waitErr t" for t
    using ob_upsert_simps(1) [of t env] by (simp add: same_frame_def)
  then show ?thesis
    by (simp add: ob_Wait_def ob_now_def Let_def case_prod_beta)
qed

section \<open>Properties\<close>

text \<open>
  C22. While the context is live, observing loses nothing that matters: every event is counted, each
  is either delivered or counted as dropped, only messages and progress are ever dropped, and what
  is delivered comes in the order of the wrapped run.
\<close>

theorem observed_stream_live:
  assumes "observing_StartRun env r inner req = Inr (out, s)"
    and "oe_ctx env = (\<lambda>t. None)" and "oe_blocked env = (\<lambda>t. False)"
  shows "rr_EventCount (ob_record (ob_forward env es s)) = int (length es)
    \<and> int (length (ob_sent (ob_forward env es s))) + rr_DroppedEventCount (ob_record (ob_forward env es s))
        = int (length es)
    \<and> filter important (ob_sent (ob_forward env es s)) = filter important es
    \<and> subseq (ob_sent (ob_forward env es s)) es"
proof -
  note fresh = observing_StartRun_fresh [OF assms(1)]
  have "rr_EventCount (ob_record (ob_forward env es s)) = ob_seq (ob_forward env es s)"
    using ob_forward_inv [OF fresh(1), of env es] by (simp add: observed_inv_def)
  with ob_forward_live [OF assms(2,3), of es s] fresh show ?thesis by auto
qed

definition sample_observe_env :: observe_env where
  "sample_observe_env =
     \<lparr>oe_now = (\<lambda>t. int t + 1), oe_ctx = (\<lambda>t. None), oe_room = (\<lambda>t. t mod 3 = 0), oe_pick = (\<lambda>t. False),
      oe_blocked = (\<lambda>t. False), oe_sinkErr = (\<lambda>t i. None), oe_storeErr = (\<lambda>t. None)\<rparr>"

definition sample_observing :: ObservingRuntime where
  "sample_observing =
     \<lparr>obr_Runtime = Some 0, obr_HasStore = True, obr_Sinks = [],
      obr_Policy = \<lparr>per_PersistUnsafeRawPayloads = False, per_OmitSafeRawPayloads = False,
                    per_RunUpsertInterval = 0\<rparr>\<rparr>"

definition sample_raw_event :: Event where
  "sample_raw_event =
     \<lparr>ev_ID = ''e'', ev_RunID = ''run-1'', ev_SessionID = [], ev_Time = 1, ev_Type = ''message'',
      ev_Payload = None,
      ev_Raw = Some \<lparr>raw_Source = [], raw_Encoding = [], raw_Data = ''secret'', raw_Safe = False\<rparr>\<rparr>"

definition sample_inner :: "RuntimeRef \<Rightarrow> RunRequest \<Rightarrow> start_outcome" where
  "sample_inner rt req =
     Inr \<lparr>out_ID = ''run-1'', out_Events = [sample_raw_event], out_Result = zero_RunResult, out_WaitErr = None\<rparr>"

lemma sample_observing_start: "\<exists>out s. observing_StartRun sample_observe_env sample_observing sample_inner zero_RunRequest = Inr (out, s)"
  by (simp add: observing_StartRun_def sample_observing_def sample_inner_def Let_def)

theorem observed_stream_live_witness:
  "\<exists>out s. observing_StartRun sample_observe_env sample_observing sample_inner zero_RunRequest = Inr (out, s)
    \<and> rr_EventCount (ob_record (ob_forward sample_observe_env [sample_raw_event] s)) = 1"
proof -
  obtain out s where start:
      "observing_StartRun sample_observe_env sample_observing sample_inner zero_RunRequest = Inr (out, s)"
    using sample_observing_start by blast
  have "oe_ctx sample_observe_env = (\<lambda>t. None)" "oe_blocked sample_observe_env = (\<lambda>t. False)"
    by (simp_all add: sample_observe_env_def)
  from observed_stream_live [OF start this, of "[sample_raw_event]"] start show ?thesis by auto
qed

text \<open>
  C23. What a memory store then holds of the run: whatever the policy, the sequence numbers of its
  stored events increase strictly; and unless the policy asks for unsafe raw payloads, no unsafe raw
  payload is stored.
\<close>

theorem observed_store_contents:
  assumes "observing_StartRun env r inner req = Inr (out, s)" and "obr_HasStore r"
    and "stored_events st k = []"
  shows "sorted_wrt (<) (map er_Sequence
        (stored_events (fold AppendEvent (ob_appended (ob_forward env es s)) st) k))
    \<and> (per_PersistUnsafeRawPayloads (obr_Policy r)
       \<or> list_all (\<lambda>x. er_RawSafe x \<or> er_RawData x = [])
           (stored_events (fold AppendEvent (ob_appended (ob_forward env es s)) st) k))"
proof -
  note fresh = observing_StartRun_fresh [OF assms(1)]
  have inv: "observed_inv (ob_forward env es s)" by (rule ob_forward_inv [OF fresh(1)])
  have fr: "ob_hasStore (ob_forward env es s)" "ob_policy (ob_forward env es s) = obr_Policy r"
    using ob_forward_frame [of env es s] fresh assms(2) by simp_all
  have "sorted_wrt (<) (map (\<lambda>i. int i + 1) [0..<n])" for n
    by (induction n) (auto simp: sorted_wrt_append)
  then have "sorted_wrt (<) (map er_Sequence (ob_appended (ob_forward env es s)))"
    using inv fr(1) by (simp add: observed_inv_def)
  from memory_log.appends_in_order [OF assms(3) this]
  have "sorted_wrt (<) (map er_Sequence (stored_events (fold AppendEvent (ob_appended (ob_forward env es s)) st) k))" .
  moreover have "list_all (\<lambda>x. er_RawSafe x \<or> er_RawData x = [])
      (stored_events (fold AppendEvent (ob_appended (ob_forward env es s)) st) k)"
    if "\<not> per_PersistUnsafeRawPayloads (obr_Policy r)"
    by (rule memory_log.appends_all [OF assms(3)]) (use inv fr(2) that in \<open>simp add: observed_inv_def\<close>)
  ultimately show ?thesis by blast
qed

theorem observed_store_contents_witness:
  "\<exists>out s. observing_StartRun sample_observe_env sample_observing sample_inner zero_RunRequest = Inr (out, s)
    \<and> list_all (\<lambda>x. er_RawSafe x \<or> er_RawData x = []) (stored_events (fold AppendEvent
        (ob_appended (ob_forward sample_observe_env [sample_raw_event] s)) NewMemoryRunStore) ''run-1'')"
proof -
  obtain out s where start:
      "observing_StartRun sample_observe_env sample_observing sample_inner zero_RunRequest = Inr (out, s)"
    using sample_observing_start by blast
  have "obr_HasStore sample_observing" "stored_events NewMemoryRunStore ''run-1'' = []"
    "\<not> per_PersistUnsafeRawPayloads (obr_Policy sample_observing)"
    by (simp_all add: sample_observing_def NewMemoryRunStore_def NewMemoryRunStoreWithLimits_def Let_def)
  with observed_store_contents [OF start, of NewMemoryRunStore "''run-1''" "[sample_raw_event]"] start
  show ?thesis by blast
qed

text \<open>
  C24. Observation does not change the outcome of a run unless it was told to: the result passes
  unchanged, an error of the run always wins over observer failures, else the first required failure
  is the error, and when no sink is required the outcome is exactly that of the wrapped run,
  however many sinks and store calls failed.
\<close>

theorem observer_outcome:
  assumes "observing_StartRun env r inner req = Inr (out, s)"
  shows "fst (ob_Wait env result err (ob_forward env es s)) =
      (result, (case err of Some e \<Rightarrow> Some e
        | None \<Rightarrow> map_option (\<lambda>f. ESDK (sf_Error f)) (find sf_Required
            (rr_SinkFailures (ob_record (ob_forward env es s))
             @ rr_StoreFailures (ob_record (ob_forward env es s))))))
    \<and> (list_all (\<lambda>k. \<not> sink_Required k) (obr_Sinks r) \<longrightarrow>
         fst (ob_Wait env result err (ob_forward env es s)) = (result, err))"
proof -
  note fresh = observing_StartRun_fresh [OF assms]
  have "observed_inv (ob_forward env es s)" by (rule ob_forward_inv [OF fresh(1)])
  then have "list_all (\<lambda>k. \<not> sink_Required k) (obr_Sinks r) \<Longrightarrow> no_required (ob_record (ob_forward env es s))"
    using ob_forward_frame [of env es s] fresh by (simp add: observed_inv_def)
  then show ?thesis
    by (auto simp: ob_Wait_result mergeRequired_eq no_required_find split: option.split)
qed

theorem observer_outcome_witness:
  "\<exists>out s. observing_StartRun sample_observe_env sample_observing sample_inner zero_RunRequest = Inr (out, s)
    \<and> fst (ob_Wait sample_observe_env zero_RunResult None (ob_forward sample_observe_env [sample_raw_event] s))
        = (zero_RunResult, None)"
proof -
  obtain out s where start:
      "observing_StartRun sample_observe_env sample_observing sample_inner zero_RunRequest = Inr (out, s)"
    using sample_observing_start by blast
  have "list_all (\<lambda>k. \<not> sink_Required k) (obr_Sinks sample_observing)"
    by (simp add: sample_observing_def)
  with observer_outcome [OF start, of zero_RunResult None "[sample_raw_event]"] start show ?thesis by blast
qed

end
