(* ===== verification/Wrappers.thy ===== *)
theory Wrappers
  imports PolicyLaws ValidationLaws ObserveLaws
begin

text \<open>
  Wrappers on top of each other. First the methods by which a wrapper only passes a question on
  (\<^verbatim>\<open>observability.go\<close>, \<^verbatim>\<open>policy.go\<close>, \<^verbatim>\<open>validation.go\<close>: \<open>Capabilities\<close>, \<open>ListModels\<close>, the inspector, \<open>Cancel\<close>), and
  what they give for a stack of wrappers over an adapter. Then runs: the run of a validating runtime is what
  a policy runner sees of its runtime, and the composition keeps what each of them promises.
\<close>

section \<open>Forwarding methods\<close>

text \<open>
  \<open>listerFor\<close>: what the type assertion to \<open>ModelLister\<close> finds, \<open>None\<close> also for a missing runtime. A listing
  is a slice, which may be nil, and an error.
\<close>

type_synonym model_listing = "ModelInfo list option \<times> go_error option"

definition listerFor ::
  "(RuntimeRef \<Rightarrow> (ModelsRequest \<Rightarrow> model_listing) option) \<Rightarrow> RuntimeRef option
     \<Rightarrow> (ModelsRequest \<Rightarrow> model_listing) option" where
  "listerFor listers runtime = (case runtime of None \<Rightarrow> None | Some rt \<Rightarrow> listers rt)"

definition policy_ListModels ::
  "(RuntimeRef \<Rightarrow> (ModelsRequest \<Rightarrow> model_listing) option) \<Rightarrow> PolicyRunner \<Rightarrow> ModelsRequest \<Rightarrow> model_listing" where
  "policy_ListModels listers r req =
     (case listerFor listers (rn_Runtime r) of None \<Rightarrow> (None, None) | Some lister \<Rightarrow> lister req)"

definition validating_ListModels ::
  "(RuntimeRef \<Rightarrow> (ModelsRequest \<Rightarrow> model_listing) option) \<Rightarrow> ValidatingRuntime \<Rightarrow> ModelsRequest \<Rightarrow> model_listing" where
  "validating_ListModels listers r req =
     (case listerFor listers (vrt_Runtime r) of None \<Rightarrow> (None, None) | Some lister \<Rightarrow> lister req)"

definition observing_ListModels ::
  "(RuntimeRef \<Rightarrow> (ModelsRequest \<Rightarrow> model_listing) option) \<Rightarrow> ObservingRuntime \<Rightarrow> ModelsRequest \<Rightarrow> model_listing" where
  "observing_ListModels listers r req =
     (case listerFor listers (obr_Runtime r) of None \<Rightarrow> (None, None) | Some lister \<Rightarrow> lister req)"

definition observing_Capabilities ::
  "(RuntimeRef \<Rightarrow> Capabilities \<times> go_error option) \<Rightarrow> ObservingRuntime \<Rightarrow> Capabilities \<times> go_error option" where
  "observing_Capabilities caps r =
     (case obr_Runtime r of
        None \<Rightarrow> (zero_Capabilities, Some (ESDK (NewError ErrorConfiguration ''observing runner capabilities''
                                          ''runtime is required'' None [])))
      | Some rt \<Rightarrow> caps rt)"

text \<open>The inspector answers from the store; \<open>stored\<close> is what the store returns.\<close>

definition observing_ListActiveRuns ::
  "ObservingRuntime \<Rightarrow> RunRecord list option \<times> go_error option \<Rightarrow> RunRecord list option \<times> go_error option" where
  "observing_ListActiveRuns r stored = (if obr_HasStore r then stored else (None, None))"

definition observing_GetCompletedRun ::
  "ObservingRuntime \<Rightarrow> (RunID \<Rightarrow> RunRecord \<times> bool \<times> go_error option) \<Rightarrow> RunID \<Rightarrow> RunRecord \<times> bool \<times> go_error option" where
  "observing_GetCompletedRun r stored runID =
     (if obr_HasStore r then stored runID else (zero_RunRecord, False, None))"

definition observing_ListRunEvents ::
  "ObservingRuntime \<Rightarrow> (RunID \<Rightarrow> RunEventRecord list option \<times> go_error option) \<Rightarrow> RunID
     \<Rightarrow> RunEventRecord list option \<times> go_error option" where
  "observing_ListRunEvents r stored runID = (if obr_HasStore r then stored runID else (None, None))"

text \<open>\<open>Cancel\<close> ends the context of the run, which is an oracle here, and returns what the inner run answers.\<close>

definition ob_Cancel :: "(RunID \<Rightarrow> go_error option) \<Rightarrow> observedRun \<Rightarrow> go_error option" where
  "ob_Cancel cancelRun s = cancelRun (ob_id s)"

section \<open>Stacks\<close>

text \<open>
  An adapter has capabilities and, if it is a \<open>ModelLister\<close>, a listing; each wrapper is a \<open>ModelLister\<close>. A
  stack is the list of its wrappers from the outside, and the reference of each stands for what is below.
\<close>

record adapter =
  ad_Capabilities :: "Capabilities \<times> go_error option"
  ad_ListModels :: "(ModelsRequest \<Rightarrow> model_listing) option"

datatype wrapper =
    Policy_wrapper PolicyRunner
  | Validating_wrapper ValidatingRuntime
  | Observing_wrapper ObservingRuntime

fun wrapped :: "wrapper \<Rightarrow> RuntimeRef option" where
  "wrapped (Policy_wrapper r) = rn_Runtime r"
| "wrapped (Validating_wrapper r) = vrt_Runtime r"
| "wrapped (Observing_wrapper r) = obr_Runtime r"

fun wrapper_Capabilities ::
  "(RuntimeRef \<Rightarrow> Capabilities \<times> go_error option) \<Rightarrow> wrapper \<Rightarrow> Capabilities \<times> go_error option" where
  "wrapper_Capabilities caps (Policy_wrapper r) = policy_Capabilities caps r"
| "wrapper_Capabilities caps (Validating_wrapper r) = validating_Capabilities caps r"
| "wrapper_Capabilities caps (Observing_wrapper r) = observing_Capabilities caps r"

fun wrapper_ListModels ::
  "(RuntimeRef \<Rightarrow> (ModelsRequest \<Rightarrow> model_listing) option) \<Rightarrow> wrapper \<Rightarrow> ModelsRequest \<Rightarrow> model_listing" where
  "wrapper_ListModels listers (Policy_wrapper r) = policy_ListModels listers r"
| "wrapper_ListModels listers (Validating_wrapper r) = validating_ListModels listers r"
| "wrapper_ListModels listers (Observing_wrapper r) = observing_ListModels listers r"

fun stack_Capabilities :: "wrapper list \<Rightarrow> adapter \<Rightarrow> Capabilities \<times> go_error option" where
  "stack_Capabilities [] a = ad_Capabilities a"
| "stack_Capabilities (w # ws) a = wrapper_Capabilities (\<lambda>_. stack_Capabilities ws a) w"

fun stack_lister :: "wrapper list \<Rightarrow> adapter \<Rightarrow> (ModelsRequest \<Rightarrow> model_listing) option" where
  "stack_lister [] a = ad_ListModels a"
| "stack_lister (w # ws) a = Some (wrapper_ListModels (\<lambda>_. stack_lister ws a) w)"

definition complete_stack :: "wrapper list \<Rightarrow> bool" where
  "complete_stack ws \<longleftrightarrow> list_all (\<lambda>w. wrapped w \<noteq> None) ws"

definition validates :: "wrapper list \<Rightarrow> bool" where
  "validates ws \<longleftrightarrow> list_ex (\<lambda>w. case w of Validating_wrapper r \<Rightarrow> True | _ \<Rightarrow> False) ws"

lemma wrapper_ListModels_eq:
  "wrapper_ListModels listers w req =
     (case listerFor listers (wrapped w) of None \<Rightarrow> (None, None) | Some lister \<Rightarrow> lister req)"
  by (cases w) (simp_all add: policy_ListModels_def validating_ListModels_def observing_ListModels_def)

lemma stack_lister_eq:
  "stack_lister (w # ws) a =
     Some (\<lambda>req. if complete_stack (w # ws)
                 then (case ad_ListModels a of None \<Rightarrow> (None, None) | Some lister \<Rightarrow> lister req) else (None, None))"
proof (induction ws arbitrary: w)
  case Nil
  then show ?case
    by (auto simp: wrapper_ListModels_eq listerFor_def complete_stack_def split: option.split)
next
  case (Cons w' ws)
  have "wrapper_ListModels (\<lambda>_. stack_lister (w' # ws) a) w =
      (\<lambda>req. if complete_stack (w # w' # ws)
             then (case ad_ListModels a of None \<Rightarrow> (None, None) | Some lister \<Rightarrow> lister req) else (None, None))"
    unfolding Cons.IH by (auto simp: wrapper_ListModels_eq listerFor_def complete_stack_def split: option.split)
  then show ?case by simp
qed

text \<open>The capabilities of a stack, read field by field.\<close>

lemma validating_Capabilities_fields:
  assumes "vrt_Runtime r = Some rt"
  shows "snd (validating_Capabilities caps r) = snd (caps rt)"
    "caps_RuntimeKind (fst (validating_Capabilities caps r)) = caps_RuntimeKind (fst (caps rt))"
    "caps_Unsupported (fst (validating_Capabilities caps r)) = caps_Unsupported (fst (caps rt))"
    "snd (caps rt) = None \<Longrightarrow> Supports (fst (validating_Capabilities caps r)) c =
       (c = CapabilityValidationEvents \<or> Supports (fst (caps rt)) c)"
    "snd (caps rt) \<noteq> None \<Longrightarrow> validating_Capabilities caps r = caps rt"
  using assms by (auto simp: validating_Capabilities_def Supports_def Let_def case_prod_beta aget_or_def)

lemma stack_Capabilities_complete:
  "complete_stack ws \<Longrightarrow>
     snd (stack_Capabilities ws a) = snd (ad_Capabilities a)
     \<and> caps_RuntimeKind (fst (stack_Capabilities ws a)) = caps_RuntimeKind (fst (ad_Capabilities a))
     \<and> caps_Unsupported (fst (stack_Capabilities ws a)) = caps_Unsupported (fst (ad_Capabilities a))
     \<and> (if snd (ad_Capabilities a) = None
        then \<forall>c. Supports (fst (stack_Capabilities ws a)) c =
               ((c = CapabilityValidationEvents \<and> validates ws) \<or> Supports (fst (ad_Capabilities a)) c)
        else stack_Capabilities ws a = ad_Capabilities a)"
proof (induction ws)
  case Nil
  then show ?case by (simp add: validates_def)
next
  case (Cons w ws)
  then obtain rt where rt: "wrapped w = Some rt" and "complete_stack ws" by (auto simp: complete_stack_def)
  note IH = Cons.IH [OF this(2)]
  show ?case
  proof (cases w)
    case (Validating_wrapper r)
    with rt have "vrt_Runtime r = Some rt" by simp
    note fields = validating_Capabilities_fields [OF this, where caps = "\<lambda>_. stack_Capabilities ws a"]
    show ?thesis
      using IH fields by (auto simp: Validating_wrapper validates_def)
  qed (use IH rt in \<open>simp_all add: validates_def policy_Capabilities_def observing_Capabilities_def\<close>)
qed

lemma stack_Capabilities_incomplete:
  "\<not> complete_stack ws \<Longrightarrow>
     \<exists>e. snd (stack_Capabilities ws a) = Some (ESDK e) \<and> err_Category e = ErrorConfiguration"
proof (induction ws)
  case Nil
  then show ?case by (simp add: complete_stack_def)
next
  case (Cons w ws)
  show ?case
  proof (cases "wrapped w")
    case None
    then show ?thesis
      by (cases w) (simp_all add: policy_Capabilities_def validating_Capabilities_def observing_Capabilities_def)
  next
    case (Some rt)
    with Cons obtain e where e: "snd (stack_Capabilities ws a) = Some (ESDK e)" "err_Category e = ErrorConfiguration"
      by (auto simp: complete_stack_def)
    with Some show ?thesis
      by (cases w) (auto simp: policy_Capabilities_def validating_Capabilities_def observing_Capabilities_def
          Let_def case_prod_beta)
  qed
qed

section \<open>Runs of stacked wrappers\<close>

text \<open>What a client sees of a run of a validating runtime whose context is live when it waits.\<close>

definition validating_outcome :: "vrun_env \<Rightarrow> ValidatingRuntime \<Rightarrow> int \<Rightarrow> RunRequest \<Rightarrow> start_outcome" where
  "validating_outcome env r counter req =
     (case fst (validating_StartRun env r counter req) of
        Inl e \<Rightarrow> Inl (ESDK e)
      | Inr s \<Rightarrow>
          (let s' = vn_execute env s
           in Inr \<lparr>out_ID = vn_id s', out_Events = vn_sent s', out_Result = vn_result s',
                   out_WaitErr = map_option ESDK (vn_waitErr s')\<rparr>))"

text \<open>
  A policy runner whose runtimes are validating ones over \<open>base\<close>. The attempt started at observation \<open>t\<close> has
  its own environment and number of \<open>validationRunCounter\<close>.
\<close>

definition policy_over_validating ::
  "policy_env \<Rightarrow> (RuntimeRef \<Rightarrow> ValidatingRuntime) \<Rightarrow> (nat \<Rightarrow> vrun_env) \<Rightarrow> (nat \<Rightarrow> int)
     \<Rightarrow> (nat \<Rightarrow> nat \<Rightarrow> RuntimeRef \<Rightarrow> RunRequest \<Rightarrow> start_outcome) \<Rightarrow> policy_env" where
  "policy_over_validating env validating venv counters base =
     env\<lparr>pe_start := (\<lambda>t rt q. validating_outcome ((venv t)\<lparr>we_start := base t\<rparr>) (validating rt) (counters t) q)\<rparr>"

subsection \<open>The requests of a validating run\<close>

text \<open>Only \<open>startAndWait\<close> asks the wrapped runtime.\<close>

lemma we_start_fields:
  "we_now (env\<lparr>we_start := f\<rparr>) = we_now env" "we_ctx (env\<lparr>we_start := f\<rparr>) = we_ctx env"
  "we_room (env\<lparr>we_start := f\<rparr>) = we_room env" "we_pick (env\<lparr>we_start := f\<rparr>) = we_pick env"
  "we_pass (env\<lparr>we_start := f\<rparr>) = we_pass env" "we_repair (env\<lparr>we_start := f\<rparr>) = we_repair env"
  "we_start (env\<lparr>we_start := f\<rparr>) = f"
  by simp_all

lemma vn_now_start: "vn_now (env\<lparr>we_start := f\<rparr>) s = vn_now env s"
  unfolding vn_now_def we_start_fields by (rule refl)

lemma vn_sendEvent_start: "vn_sendEvent (env\<lparr>we_start := f\<rparr>) e s = vn_sendEvent env e s"
  unfolding vn_sendEvent_def vn_stampEvent_def vn_now_start we_start_fields by (rule refl)

lemma vn_forwardEvents_start: "vn_forwardEvents (env\<lparr>we_start := f\<rparr>) es s = vn_forwardEvents env es s"
  unfolding vn_forwardEvents_def vn_sendEvent_start by (rule refl)

lemma vn_sendLifecycle_start: "vn_sendLifecycle (env\<lparr>we_start := f\<rparr>) r a b d s = vn_sendLifecycle env r a b d s"
  unfolding vn_sendLifecycle_def vn_sendEvent_start vn_now_start by (rule refl)

lemmas stream_start = vn_now_start vn_sendEvent_start vn_forwardEvents_start vn_sendLifecycle_start we_start_fields

lemma vn_validate_start: "vn_validate (env\<lparr>we_start := f\<rparr>) req r a s = vn_validate env req r a s"
  unfolding vn_validate_def stream_start by (rule refl)

lemma vn_shouldRepair_start: "vn_shouldRepair (env\<lparr>we_start := f\<rparr>) spec rctx = vn_shouldRepair env spec rctx"
  unfolding vn_shouldRepair_def we_start_fields by (rule refl)

definition same_on :: "(RunRequest \<Rightarrow> bool) \<Rightarrow> vrun_env \<Rightarrow> (nat \<Rightarrow> RuntimeRef \<Rightarrow> RunRequest \<Rightarrow> start_outcome) \<Rightarrow> bool" where
  "same_on P env f \<longleftrightarrow> (\<forall>t rt q. P q \<longrightarrow> f t rt q = we_start env t rt q)"

lemma vn_startAndWait_start:
  assumes "same_on P env f" and "P req"
  shows "vn_startAndWait (env\<lparr>we_start := f\<rparr>) req s = vn_startAndWait env req s"
proof -
  have "f t rt req = we_start env t rt req" for t rt using assms by (simp add: same_on_def)
  then show ?thesis unfolding vn_startAndWait_def stream_start by simp
qed

lemma vn_repairFallback_start:
  assumes "same_on P env f" and "P (fresh_of rr)"
  shows "vn_repairFallback (env\<lparr>we_start := f\<rparr>) attempt rr started result err summary s =
    vn_repairFallback env attempt rr started result err summary s"
  unfolding vn_repairFallback_def stream_start fresh_of_def [symmetric] Let_def vn_startAndWait_start [OF assms] by (rule refl)

lemma vn_runRepair_start:
  assumes "same_on P env f"
    and "P (repairRequest (we_repair env) req (spec_Repair (vn_spec s)) rctx)"
    and "P (fresh_of (repairRequest (we_repair env) req (spec_Repair (vn_spec s)) rctx))"
  shows "vn_runRepair (env\<lparr>we_start := f\<rparr>) req rctx s = vn_runRepair env req rctx s"
  unfolding vn_runRepair_def stream_start Let_def vn_startAndWait_start [OF assms(1,2)] vn_repairFallback_start [OF assms(1,3)]
  by (rule refl)

lemma vn_round_start:
  assumes same: "same_on (same_posture original) env f" and req: "same_posture original req"
    and no: "rep_OverrideRequest (spec_Repair (vn_spec s)) = None"
  shows "vn_round (env\<lparr>we_start := f\<rparr>) attempt req result history repairs s =
    vn_round env attempt req result history repairs s"
proof -
  obtain v e s1 where val: "vn_validate env req result (if attempt > 0 then StatusRepairing else StatusCompleted) s = (v, e, s1)"
    by (cases "vn_validate env req result (if attempt > 0 then StatusRepairing else StatusCompleted) s") auto
  have "vn_spec s1 = vn_spec s" using vn_validate_simps [OF val] by simp
  with no have "vn_runRepair (env\<lparr>we_start := f\<rparr>) req rctx s1 = vn_runRepair env req rctx s1" for rctx
    by (intro vn_runRepair_start [OF same]) (simp_all add: same_posture_repair req)
  note repair = this
  show ?thesis
    unfolding vn_round_def vn_validate_start vn_shouldRepair_start val Let_def prod.case repair by (rule refl)
qed

lemma vn_loop_start:
  assumes "same_on (same_posture original) env f" and "same_posture original req"
    and "rep_OverrideRequest (spec_Repair (vn_spec s)) = None"
  shows "vn_loop (env\<lparr>we_start := f\<rparr>) attempt req result history repairs s = vn_loop env attempt req result history repairs s"
  using assms
proof (induction env attempt req result history repairs s rule: vn_loop.induct)
  case (1 env attempt req result history repairs s)
  note round = vn_round_start [OF 1(2-4)]
  show ?case
  proof (cases "vn_round env attempt req result history repairs s")
    case (Inl s')
    then show ?thesis using round by (simp add: vn_loop.simps [of _ attempt])
  next
    case (Inr rest)
    obtain result' history' repairs' s' where n: "rest = (result', history', repairs', s')" by (cases rest) auto
    have "vn_spec s' = vn_spec s" using Inr unfolding n by (rule vn_round_Inr)
    with 1 Inr n round show ?thesis by (simp add: vn_loop.simps [of _ attempt])
  qed
qed

lemma vn_execute_start:
  assumes "same_on (same_posture (vn_original s)) env f" and no: "rep_OverrideRequest (spec_Repair (vn_spec s)) = None"
  shows "vn_execute (env\<lparr>we_start := f\<rparr>) s = vn_execute env s"
proof -
  let ?req = "(vn_original s)\<lparr>req_Validation := None\<rparr>"
  have req: "same_posture (vn_original s) ?req" by (simp add: same_posture_def)
  obtain result err s1 where first: "vn_startAndWait env ?req s = (result, err, s1)"
    by (cases "vn_startAndWait env ?req s") auto
  with no have "rep_OverrideRequest (spec_Repair (vn_spec s1)) = None" using vn_startAndWait_simps [OF first] by simp
  then show ?thesis
    using vn_startAndWait_start [OF assms(1) req] vn_loop_start [OF assms(1) req] first by (simp add: vn_execute_def)
qed

lemma validating_outcome_start:
  assumes same: "same_on (same_posture req) env f"
    and no: "rep_OverrideRequest (spec_Repair (case req_Validation req of Some spec \<Rightarrow> spec | None \<Rightarrow> vrt_Spec r)) = None"
  shows "validating_outcome (env\<lparr>we_start := f\<rparr>) r counter req = validating_outcome env r counter req"
proof -
  have start: "validating_StartRun (env\<lparr>we_start := f\<rparr>) r counter req = validating_StartRun env r counter req"
    unfolding validating_StartRun_def stream_start by (rule refl)
  show ?thesis
  proof (cases "fst (validating_StartRun env r counter req)")
    case (Inl e)
    then show ?thesis by (simp add: validating_outcome_def start)
  next
    case (Inr s)
    then have "vn_original s = req" "rep_OverrideRequest (spec_Repair (vn_spec s)) = None"
      using no by (auto simp: validating_StartRun_def split: option.splits)
    with same have "vn_execute (env\<lparr>we_start := f\<rparr>) s = vn_execute env s" by (intro vn_execute_start) simp_all
    with Inr show ?thesis by (simp add: validating_outcome_def start)
  qed
qed


subsection \<open>The requests of a policy run\<close>

lemma pe_start_fields:
  "pe_now (env\<lparr>pe_start := f\<rparr>) = pe_now env" "pe_ctx (env\<lparr>pe_start := f\<rparr>) = pe_ctx env"
  "pe_room (env\<lparr>pe_start := f\<rparr>) = pe_room env" "pe_pick (env\<lparr>pe_start := f\<rparr>) = pe_pick env"
  "pe_decide (env\<lparr>pe_start := f\<rparr>) = pe_decide env" "pe_sleep (env\<lparr>pe_start := f\<rparr>) = pe_sleep env"
  "pe_start (env\<lparr>pe_start := f\<rparr>) = f"
  by simp_all

lemma pr_now_start: "pr_now (env\<lparr>pe_start := f\<rparr>) s = pr_now env s"
  unfolding pr_now_def pe_start_fields by (rule refl)

lemma pr_sendEvent_start: "pr_sendEvent (env\<lparr>pe_start := f\<rparr>) e s = pr_sendEvent env e s"
  unfolding pr_sendEvent_def pr_stampEvent_def pr_recordDroppedEvent_def pr_now_start pe_start_fields by (rule refl)

lemma pr_forwardEvents_start: "pr_forwardEvents (env\<lparr>pe_start := f\<rparr>) es a ti s = pr_forwardEvents env es a ti s"
  unfolding pr_forwardEvents_def pr_sendEvent_start by (rule refl)

lemma pr_finish_start: "pr_finish (env\<lparr>pe_start := f\<rparr>) r e b d s = pr_finish env r e b d s"
  unfolding pr_finish_def pr_now_start by (rule refl)

lemmas policy_start = pr_now_start pr_sendEvent_start pr_forwardEvents_start pr_finish_start pe_start_fields

lemma pr_runAttempt_start:
  assumes "\<And>t rt. f t rt req = pe_start env t rt req"
  shows "pr_runAttempt (env\<lparr>pe_start := f\<rparr>) a ti req st s = pr_runAttempt env a ti req st s"
  unfolding pr_runAttempt_def policy_start assms by (rule refl)

text \<open>A round asks the runtimes only with its own request.\<close>

lemma pr_round_start:
  assumes "\<And>t rt. f t rt req = pe_start env t rt req"
  shows "pr_round (env\<lparr>pe_start := f\<rparr>) ti req l s = pr_round env ti req l s"
  unfolding pr_round_def pr_attempt_def pr_recordAttempt_def pr_consult_def pr_summarizeAttempt_def pr_recordDecision_def
    pr_applyDecision_def pr_finishCancelled_def pr_runAttempt_start [of f, OF assms] policy_start by (rule refl)

text \<open>The requests of a run keep what is fixed by the original one, if the policy sets no request of its own.\<close>

definition fixed_by :: "RunRequest \<Rightarrow> RunRequest \<Rightarrow> bool" where
  "fixed_by original q \<longleftrightarrow>
     req_PermissionPolicy q = req_PermissionPolicy original \<and> req_Validation q = req_Validation original"

lemma fixed_by_fallback: "fixed_by original (fallbackRequest original d target)"
  by (simp add: fixed_by_def fallbackRequest_def Let_def split: option.split)

lemma basic_no_request: "basic_decide ctxErr now p t pctx = Some (Inr d) \<Longrightarrow> dec_Request d = None"
  by (auto simp: basic_decide_def bp_Decide_def bp_fallbackOrStop_def zero_PolicyDecision_def Let_def
      split: option.splits if_splits)

lemma pr_loop_start:
  assumes decide: "\<And>t pctx d. pe_decide env t pctx = Some (Inr d) \<Longrightarrow> dec_Request d = None"
    and same: "\<And>t rt q. fixed_by original q \<Longrightarrow> f t rt q = pe_start env t rt q"
  shows "pr_original s = original \<Longrightarrow> fixed_by original req \<Longrightarrow>
    pr_loop (env\<lparr>pe_start := f\<rparr>) fuel ti req l s = pr_loop env fuel ti req l s"
proof (induction fuel arbitrary: ti req l s)
  case (Suc fuel)
  have round: "pr_round (env\<lparr>pe_start := f\<rparr>) ti req l s = pr_round env ti req l s"
    by (rule pr_round_start) (rule same [OF Suc.prems(2)])
  show ?case
  proof (cases "pr_round env ti req l s")
    case (Again s' ti' req' l')
    then have "pr_original s' = original \<and> fixed_by original req'"
    proof (cases rule: pr_round_Again)
      case (1 a aot sm t pctx d d')
      have "dec_Request d' = None" using decide [OF 1(18)] 1(20) by (simp add: normalizeDecision_def Let_def)
      with 1 Suc.prems fixed_by_fallback show ?thesis by (auto simp: fixed_by_def requestForDecision_def Let_def)
    qed
    with Suc.IH [of s' req' ti' l'] Again round show ?thesis by simp
  qed (simp_all add: round)
qed simp


lemma policy_over_fields:
  "pe_decide (policy_over_validating env validating venv counters base) = pe_decide env"
  "pe_ctx (policy_over_validating env validating venv counters base) = pe_ctx env"
  "pe_now (policy_over_validating env validating venv counters base) = pe_now env"
  by (simp_all add: policy_over_validating_def)

lemma policy_over_same:
  assumes overrides: "\<And>rt. rep_OverrideRequest
      (spec_Repair (case req_Validation req of Some spec \<Rightarrow> spec | None \<Rightarrow> vrt_Spec (validating rt))) = None"
    and agree: "\<And>t u rt q. req_PermissionPolicy q = req_PermissionPolicy req \<Longrightarrow> base' t u rt q = base t u rt q"
    and q: "fixed_by req q"
  shows "pe_start (policy_over_validating env validating venv counters base') t rt q =
    pe_start (policy_over_validating env validating venv counters base) t rt q"
proof -
  have "same_on (same_posture q) ((venv t)\<lparr>we_start := base t\<rparr>) (base' t)"
    using agree q by (simp add: same_on_def same_posture_def fixed_by_def)
  from validating_outcome_start [OF this, of "validating rt" "counters t"] show ?thesis
    using overrides [of rt] q by (simp add: policy_over_validating_def fixed_by_def)
qed

section \<open>Properties\<close>

text \<open>
  C40. Whatever wrappers are stacked on an adapter, in any number and order: a listing of models is the one of
  the adapter, or nil when the adapter lists none; the capabilities have the kind, the unsupported list
  and the error of the adapter, and support what it supports and, with a validating runtime among the
  wrappers, validation events. When a wrapper lacks its runtime the listing is nil and the
  capabilities are a configuration error.
\<close>

theorem stack_forwards:
  "case stack_lister (w # ws) a of
     None \<Rightarrow> False
   | Some lister \<Rightarrow>
       (let caps = stack_Capabilities (w # ws) a
        in if complete_stack (w # ws)
           then lister req = (case ad_ListModels a of None \<Rightarrow> (None, None) | Some base \<Rightarrow> base req)
                \<and> snd caps = snd (ad_Capabilities a)
                \<and> caps_RuntimeKind (fst caps) = caps_RuntimeKind (fst (ad_Capabilities a))
                \<and> caps_Unsupported (fst caps) = caps_Unsupported (fst (ad_Capabilities a))
                \<and> (if snd caps = None
                   then \<forall>c. Supports (fst caps) c =
                          ((c = CapabilityValidationEvents \<and> validates (w # ws)) \<or> Supports (fst (ad_Capabilities a)) c)
                   else caps = ad_Capabilities a)
           else lister req = (None, None)
                \<and> (\<exists>e. snd caps = Some (ESDK e) \<and> err_Category e = ErrorConfiguration))"
proof (cases "complete_stack (w # ws)")
  case True
  then show ?thesis
    using stack_Capabilities_complete [OF True, of a] unfolding stack_lister_eq by (auto simp: Let_def split: if_splits)
next
  case False
  then show ?thesis
    using stack_Capabilities_incomplete [OF False, of a] unfolding stack_lister_eq by (simp add: Let_def)
qed

text \<open>
  Permissions across the wrappers. A policy runner under \<open>BasicPolicy\<close> over validating runtimes that do
  not override the request of a repair ends, and the whole run is the same when the wrapped runtime is replaced by
  another that agrees with it on requests with the permission policy of the caller: through every
  retry, fallback, repair and fresh session, no request with another permission policy reaches it.
\<close>

theorem stacked_run_permissions:
  assumes decide: "pe_decide env = basic_decide (pe_ctx env) (pe_now env) p"
    and start: "policy_StartRun env r counter req = (Inr s, counter')"
    and overrides: "\<And>rt. rep_OverrideRequest
      (spec_Repair (case req_Validation req of Some spec \<Rightarrow> spec | None \<Rightarrow> vrt_Spec (validating rt))) = None"
    and agree: "\<And>t u rt q. req_PermissionPolicy q = req_PermissionPolicy req \<Longrightarrow> base' t u rt q = base t u rt q"
    and fuel: "max 1 (bp_MaxAttemptsPerTarget p) * (int (max (length (bp_Fallbacks p)) (length (rn_Alternatives r))) + 1) \<le> int fuel"
  shows "\<exists>s'. pr_execute (policy_over_validating env validating venv counters base) fuel s = Some (Finished s')
    \<and> pr_execute (policy_over_validating env validating venv counters base') fuel s = Some (Finished s')"
proof -
  let ?env = "policy_over_validating env validating venv counters base"
  let ?env' = "policy_over_validating env validating venv counters base'"
  have env': "?env' = ?env\<lparr>pe_start := pe_start ?env'\<rparr>" by (simp add: policy_over_validating_def)
  have orig: "pr_original s = req" using policy_StartRun_fresh [OF start] by simp
  have "pr_execute ?env' fuel s = pr_execute ?env fuel s"
    unfolding pr_execute_def
  proof (subst env', rule pr_loop_start [where original = req])
    show "dec_Request d = None" if "pe_decide ?env t pctx = Some (Inr d)" for t pctx d
      using that basic_no_request unfolding policy_over_fields decide by blast
    show "pe_start ?env' t rt q = pe_start ?env t rt q" if "fixed_by req q" for t rt q
      using policy_over_same [OF overrides agree that] .
  qed (simp_all add: orig fixed_by_def)
  moreover have "policy_StartRun ?env r counter req = (Inr s, counter')"
    using start unfolding policy_StartRun_def policy_over_fields .
  moreover have "pe_decide ?env = basic_decide (pe_ctx ?env) (pe_now ?env) p"
    unfolding policy_over_fields by (rule decide)
  ultimately show ?thesis using basic.run_ends [OF _ _ _ fuel] by fastforce
qed

theorem stacked_run_permissions_witness:
  "\<exists>s'. pr_execute (policy_over_validating demo_env (\<lambda>rt. sample_vruntime) (\<lambda>t. sample_vrun_env) int
           (\<lambda>t. we_start sample_vrun_env)) 2 demo_run = Some (Finished s')
    \<and> pr_execute (policy_over_validating demo_env (\<lambda>rt. sample_vruntime) (\<lambda>t. sample_vrun_env) int
           (\<lambda>t u rt q. if req_PermissionPolicy q = None then we_start sample_vrun_env u rt q
                       else Inl (ESDK (NewError ErrorPermission ''run'' ''denied'' None [])))) 2 demo_run
        = Some (Finished s')"
proof -
  have "rep_OverrideRequest (spec_Repair (case req_Validation zero_RunRequest of Some spec \<Rightarrow> spec
      | None \<Rightarrow> vrt_Spec ((\<lambda>rt. sample_vruntime) rt))) = None" for rt :: RuntimeRef
    by (simp add: zero_RunRequest_def sample_vruntime_def sample_spec_def sample_repair_def)
  moreover have "(if req_PermissionPolicy q = None then we_start sample_vrun_env u rt q
      else Inl (ESDK (NewError ErrorPermission ''run'' ''denied'' None []))) = (\<lambda>t. we_start sample_vrun_env) t u rt q"
    if "req_PermissionPolicy q = req_PermissionPolicy zero_RunRequest" for t u rt q
    using that by (simp add: zero_RunRequest_def)
  moreover have "max 1 (bp_MaxAttemptsPerTarget demo_policy)
      * (int (max (length (bp_Fallbacks demo_policy)) (length (rn_Alternatives demo_runner))) + 1) \<le> int 2"
    by (simp add: demo_policy_def demo_runner_def zero_BasicPolicy_def)
  ultimately show ?thesis
    by (rule stacked_run_permissions [OF demo_decide demo_start])
qed

end
