(* ===== verification/Float64.thy ===== *)
theory Float64
  imports Json
begin

text \<open>
  Numbers of \<^verbatim>\<open>encoding/json\<close> and \<^verbatim>\<open>strconv\<close>: the shortest decimal that is written for a \<open>float64\<close> is read back
  as that number. Seventeen digits always suffice, so the search for the shortest never fails.
\<close>

section \<open>Powers and logarithms\<close>

lemma pow_rat_powi: "b \<noteq> 0 \<Longrightarrow> pow_rat b e = b powi e"
  by (simp add: pow_rat_def power_int_def inverse_eq_divide power_divide)

lemma pow2_pos [simp]: "0 < pow_rat 2 e" and pow10_pos [simp]: "0 < pow_rat 10 e"
  by (simp_all add: pow_rat_def)

lemma pow_rat_nonzero [simp]: "pow_rat 2 e \<noteq> 0" "pow_rat 10 e \<noteq> 0"
  by (simp_all add: pow_rat_def)

lemma pow_rat_add: "b \<noteq> 0 \<Longrightarrow> pow_rat b (d + e) = pow_rat b d * pow_rat b e"
  by (simp add: pow_rat_powi power_int_add)

lemma pow_rat_less: "1 < b \<Longrightarrow> pow_rat b d < pow_rat b e \<longleftrightarrow> d < e"
  using power_int_strict_increasing [of d e b] power_int_increasing [of e d b]
  by (auto simp: pow_rat_powi not_less [symmetric])

lemma pow2_less: "pow_rat 2 d < pow_rat 2 e \<longleftrightarrow> d < e" and pow10_less: "pow_rat 10 d < pow_rat 10 e \<longleftrightarrow> d < e"
  by (simp_all add: pow_rat_less)

lemma pow2_le: "pow_rat 2 d \<le> pow_rat 2 e \<longleftrightarrow> d \<le> e"
  using pow2_less [of e d] by (simp add: not_less [symmetric])

lemma bits_bounds: "0 < n \<Longrightarrow> 2 ^ nat (bits n - 1) \<le> n \<and> n < 2 ^ nat (bits n) \<and> 1 \<le> bits n"
proof (induction n rule: bits.induct)
  case (1 n)
  show ?case
  proof (cases "n = 1")
    case True
    then show ?thesis by (simp add: bits.simps)
  next
    case False
    with 1 have "0 < n div 2" by simp
    with 1 False have IH: "2 ^ nat (bits (n div 2) - 1) \<le> n div 2 \<and> n div 2 < 2 ^ nat (bits (n div 2)) \<and> 1 \<le> bits (n div 2)"
      by simp
    have b: "bits n = 1 + bits (n div 2)" using 1 by (simp add: bits.simps [of n])
    have "nat (bits n) = Suc (nat (bits (n div 2)))" using IH b by arith
    moreover have "nat (bits n - 1) = Suc (nat (bits (n div 2) - 1))" using IH b by arith
    moreover have "2 * (n div 2) \<le> n" "n < 2 * (n div 2) + 2" by linarith+
    ultimately show ?thesis using IH b by auto
  qed
qed

lemma bits_powi: assumes "0 < n" shows "(2 :: rat) powi (bits n - 1) \<le> of_int n" "of_int n < (2 :: rat) powi bits n"
proof -
  note b = bits_bounds [OF assms]
  have "(of_int (2 ^ nat (bits n - 1)) :: rat) \<le> of_int n" using b by (simp only: of_int_le_iff)
  then show "(2 :: rat) powi (bits n - 1) \<le> of_int n" using b by (simp add: power_int_def)
  have "(of_int n :: rat) < of_int (2 ^ nat (bits n))" using b by (simp only: of_int_less_iff)
  then show "of_int n < (2 :: rat) powi bits n" using b by (simp add: power_int_def)
qed

lemma ilog2_bounds:
  assumes "0 < a"
  shows "pow_rat 2 (ilog2 a) \<le> a" "a < pow_rat 2 (ilog2 a + 1)"
proof -
  obtain p q where pq: "quotient_of a = (p, q)" by fastforce
  have q: "0 < q" using quotient_of_denom_pos [OF pq] .
  have a: "a = of_int p / of_int q" using quotient_of_div [OF pq] .
  have p: "0 < p" using assms q by (simp add: a zero_less_divide_iff)
  let ?e = "bits p - bits q"
  have "a < 2 powi bits p / 2 powi (bits q - 1)"
    unfolding a using bits_powi(1) [OF q] bits_powi(2) [OF p] by (intro frac_less) (simp_all add: p less_imp_le)
  also have "2 powi bits p / 2 powi (bits q - 1) = (2 :: rat) powi (?e + 1)"
    by (simp add: power_int_diff [symmetric] algebra_simps)
  finally have up: "a < pow_rat 2 (?e + 1)" by (simp add: pow_rat_powi)
  have "2 powi (bits p - 1) / 2 powi bits q \<le> a"
    unfolding a using bits_powi(2) [OF q] bits_powi(1) [OF p] q by (intro frac_le) (simp_all add: p less_imp_le)
  moreover have "2 powi (bits p - 1) / 2 powi bits q = (2 :: rat) powi (?e - 1)"
    by (simp add: power_int_diff [symmetric] algebra_simps)
  ultimately have low: "pow_rat 2 (?e - 1) \<le> a" by (simp add: pow_rat_powi)
  show "pow_rat 2 (ilog2 a) \<le> a" "a < pow_rat 2 (ilog2 a + 1)"
    using up low by (auto simp: ilog2_def pq Let_def)
qed

lemma ilog2_unique:
  assumes "pow_rat 2 e \<le> a" "a < pow_rat 2 (e + 1)"
  shows "ilog2 a = e"
proof -
  have "0 < a" using assms(1) pow2_pos [of e] by linarith
  note b = ilog2_bounds [OF this]
  have "pow_rat 2 e < pow_rat 2 (ilog2 a + 1)" using assms b by linarith
  moreover have "pow_rat 2 (ilog2 a) < pow_rat 2 (e + 1)" using assms b by linarith
  ultimately show ?thesis by (simp add: pow2_less)
qed

section \<open>Rounding\<close>

lemma half_even_close:
  fixes x :: rat
  assumes "of_int f \<le> x" "x < of_int f + 1"
  shows "\<bar>of_int (if x - of_int f < 1 / 2 then f else if 1 / 2 < x - of_int f then f + 1 else if even f then f else f + 1) - x\<bar> \<le> 1 / 2"
  using assms by (auto simp: abs_le_iff)

lemma round_half_even_close: "\<bar>of_int (round_half_even x) - x\<bar> \<le> 1 / 2"
  using half_even_close [of "\<lfloor>x\<rfloor>" x] unfolding round_half_even_def Let_def by linarith

lemma round_half_even_unique:
  assumes "\<bar>x - of_int k\<bar> < 1 / 2"
  shows "round_half_even x = k"
proof -
  have "\<bar>of_int (round_half_even x) - of_int k\<bar> < (1 :: rat)"
    using assms round_half_even_close [of x] by linarith
  then have "\<bar>round_half_even x - k\<bar> < 1" by (simp only: of_int_diff [symmetric] of_int_abs [symmetric] of_int_less_1_iff)
  then show ?thesis by simp
qed

definition ulp_exp :: "rat \<Rightarrow> int" where
  "ulp_exp a = max (ilog2 a - 52) (- 1074)"

definition float64 :: "rat \<Rightarrow> bool" where
  "float64 x \<longleftrightarrow> round_float64 x = Some x"

lemma round_float64_pos:
  "0 < a \<Longrightarrow> round_float64 a =
     (let v = of_int (round_half_even (a / pow_rat 2 (ulp_exp a))) * pow_rat 2 (ulp_exp a)
      in if pow_rat 2 1024 \<le> v then None else Some v)"
  by (simp add: round_float64_def ulp_exp_def Let_def)

lemma round_float64_minus: "round_float64 (- x) = map_option uminus (round_float64 x)"
  unfolding round_float64_def Let_def abs_minus by (auto simp: not_less)

lemma float64_grid:
  assumes "float64 x" "0 < x"
  obtains k where "x = of_int k * pow_rat 2 (ulp_exp x)" "x < pow_rat 2 1024"
proof -
  let ?v = "of_int (round_half_even (x / pow_rat 2 (ulp_exp x))) * pow_rat 2 (ulp_exp x)"
  have "?v = x" "\<not> pow_rat 2 1024 \<le> ?v" using assms by (auto simp: float64_def round_float64_pos Let_def split: if_splits)
  then show thesis using that [of "round_half_even (x / pow_rat 2 (ulp_exp x))"] by simp
qed


lemma pow2_half: "pow_rat 2 e = 2 * pow_rat 2 (e - 1)"
  using pow_rat_add [of 2 "e - 1" 1] by (simp add: pow_rat_def)

lemma pow2_multiple: assumes "q \<le> e" obtains n where "pow_rat 2 e = of_int n * pow_rat 2 q"
proof -
  have "pow_rat 2 e = pow_rat 2 (e - q) * pow_rat 2 q" using pow_rat_add [of 2 "e - q" q] by simp
  moreover have "pow_rat 2 (e - q) = of_int (2 ^ nat (e - q))" using assms by (simp add: pow_rat_def)
  ultimately show thesis using that by metis
qed

text \<open>Points of the grid with the spacing \<open>w\<close> are a spacing apart.\<close>

lemma grid_gap: "0 < w \<Longrightarrow> of_int a * w < of_int b * w \<Longrightarrow> of_int a * w + w \<le> of_int b * (w :: rat)"
proof -
  assume w: "0 < w" and "of_int a * w < of_int b * w"
  then have "a + 1 \<le> b" by simp
  then have "of_int (a + 1) * w \<le> of_int b * w" using w by (simp only: mult_right_mono of_int_le_iff less_imp_le)
  then show ?thesis by (simp add: distrib_right)
qed

lemma round_on_grid:
  assumes "0 < y" "x = of_int k * pow_rat 2 (ulp_exp y)" "\<bar>y - x\<bar> < pow_rat 2 (ulp_exp y - 1)" "x < pow_rat 2 1024"
  shows "round_float64 y = Some x"
proof -
  let ?w = "pow_rat 2 (ulp_exp y)"
  have "y / ?w - of_int k = (y - x) / ?w" by (simp add: assms(2) diff_divide_distrib)
  then have "\<bar>y / ?w - of_int k\<bar> = \<bar>y - x\<bar> / ?w" using abs_of_pos [OF pow2_pos [of "ulp_exp y"]] by (simp add: abs_divide)
  also have "\<dots> < 1 / 2" using assms(3) pow2_half [of "ulp_exp y"] by (simp add: divide_simps)
  finally have "round_half_even (y / ?w) = k" by (rule round_half_even_unique)
  with assms(1,2,4) show ?thesis by (simp add: round_float64_pos)
qed

text \<open>
  A positive number is the rounding of all that is closer to it than half a unit in its last place, and at a power of two
  of what is closer than a quarter.
\<close>

lemma round_float64_close:
  assumes x: "float64 x" "0 < x" and close: "\<bar>y - x\<bar> < pow_rat 2 (ulp_exp x - 1)"
    and below: "x = pow_rat 2 (ilog2 x) \<Longrightarrow> \<bar>y - x\<bar> < pow_rat 2 (ulp_exp x - 2)"
  shows "round_float64 y = Some x"
proof -
  define L q where "L = ilog2 x" and "q = ulp_exp x"
  obtain k where k: "x = of_int k * pow_rat 2 q" "x < pow_rat 2 1024" using float64_grid [OF x] unfolding q_def .
  have xL: "pow_rat 2 L \<le> x" "x < pow_rat 2 (L + 1)" using ilog2_bounds [OF x(2)] by (simp_all add: L_def)
  have w: "0 < pow_rat 2 q" "pow_rat 2 q = 2 * pow_rat 2 (q - 1)" "pow_rat 2 (q - 1) = 2 * pow_rat 2 (q - 2)"
    using pow2_half [of q] pow2_half [of "q - 1"] by simp_all
  have "pow_rat 2 q \<le> x" using grid_gap [of "pow_rat 2 q" 0 k] x(2) by (simp add: k(1) [symmetric])
  then have "pow_rat 2 q < pow_rat 2 (L + 1)" using xL(2) by linarith
  then have qL: "q \<le> L" by (simp add: pow2_less)
  obtain m where m: "pow_rat 2 L = of_int m * pow_rat 2 q" using pow2_multiple [OF qL] .
  obtain n where n: "pow_rat 2 (L + 1) = of_int n * pow_rat 2 q" using pow2_multiple [of q "L + 1"] qL by auto
  have close': "\<bar>y - x\<bar> < pow_rat 2 (q - 1)" using close by (simp add: q_def)
  show ?thesis
  proof (cases "pow_rat 2 L \<le> y")
    case True
    have "x + pow_rat 2 q \<le> pow_rat 2 (L + 1)"
      using grid_gap [OF w(1), of k n] xL(2) by (simp add: k(1) [symmetric] n [symmetric])
    then have "y < pow_rat 2 (L + 1)" using close' w by linarith
    with True have "ilog2 y = L" by (intro ilog2_unique)
    then have "ulp_exp y = q" by (simp add: ulp_exp_def q_def L_def)
    moreover have "0 < y" using True pow2_pos [of L] by linarith
    ultimately show ?thesis using round_on_grid [of y x k] k close' by simp
  next
    case False
    have "x = pow_rat 2 L"
    proof (rule ccontr)
      assume "x \<noteq> pow_rat 2 L"
      with xL(1) have "pow_rat 2 L + pow_rat 2 q \<le> x"
        using grid_gap [OF w(1), of m k] by (simp add: k(1) [symmetric] m [symmetric])
      then show False using False close' w by linarith
    qed
    then have near: "\<bar>y - x\<bar> < pow_rat 2 (q - 2)" using below by (simp add: L_def q_def)
    have "pow_rat 2 (q - 2) \<le> pow_rat 2 (L - 1)" using qL by (simp add: pow2_le)
    then have yL: "pow_rat 2 (L - 1) \<le> y" using near \<open>x = pow_rat 2 L\<close> pow2_half [of L] by linarith
    with False have log: "ilog2 y = L - 1" by (intro ilog2_unique) simp_all
    have pos: "0 < y" using yL pow2_pos [of "L - 1"] by linarith
    show ?thesis
    proof (cases "L - 52 > - 1074")
      case True
      then have u: "ulp_exp y = q - 1" using log by (simp add: ulp_exp_def q_def L_def)
      have "x = of_int (2 * k) * pow_rat 2 (q - 1)" using k(1) w(2) by simp
      then show ?thesis using round_on_grid [of y x "2 * k"] pos near k(2) u by simp
    next
      case False
      then have "ulp_exp y = q" using log by (simp add: ulp_exp_def q_def L_def)
      then show ?thesis using round_on_grid [of y x k] pos close' k by simp
    qed
  qed
qed

section \<open>Seventeen digits\<close>

lemma nat_digits_bounds: "n < 10 ^ length (nat_digits n)" "0 < n \<Longrightarrow> 10 ^ (length (nat_digits n) - 1) \<le> n"
proof (induction n rule: nat_digits.induct)
  case (1 n)
  {
    case 1
    show ?case
    proof (cases "n < 10")
      case False
      with "1.IH"(1) have "n div 10 < 10 ^ length (nat_digits (n div 10))" by simp
      then have "n < 10 * 10 ^ length (nat_digits (n div 10))" by linarith
      with False show ?thesis by (simp add: nat_digits.simps [of n])
    qed (simp add: nat_digits.simps [of n])
  next
    case 2
    show ?case
    proof (cases "n < 10")
      case False
      with "1.IH"(2) have IH: "10 ^ (length (nat_digits (n div 10)) - 1) \<le> n div 10" by simp
      have "length (nat_digits (n div 10)) \<noteq> 0" by simp
      then obtain l where l: "length (nat_digits (n div 10)) = Suc l" using not0_implies_Suc by blast
      from IH have "10 * 10 ^ l \<le> n" using l by (simp; linarith)
      with False l show ?thesis by (simp add: nat_digits.simps [of n])
    qed (use 2 in \<open>simp add: nat_digits.simps [of n]\<close>)
  }
qed

lemma log10_floor_le:
  assumes "0 < x"
  shows "pow_rat 10 (log10_floor x) \<le> x"
proof (cases "1 \<le> x")
  case True
  let ?n = "nat \<lfloor>x\<rfloor>"
  have n: "0 < ?n" "of_nat ?n \<le> x" using True by (simp_all add: le_floor_iff)
  have "(of_nat (10 ^ (length (nat_digits ?n) - 1)) :: rat) \<le> of_nat ?n"
    using nat_digits_bounds(2) [OF n(1)] by (simp only: of_nat_le_iff)
  with n(2) have "10 ^ (length (nat_digits ?n) - 1) \<le> x" by (simp only: of_nat_power of_nat_numeral)
  moreover have "nat (int (length (nat_digits ?n)) - 1) = length (nat_digits ?n) - 1" by simp
  moreover have "1 \<le> length (nat_digits ?n)" by (simp add: Suc_le_eq)
  ultimately show ?thesis using True by (simp add: log10_floor_def pow_rat_def)
next
  case False
  let ?n = "nat (\<lceil>1 / x\<rceil> - 1)" and ?l = "length (nat_digits (nat (\<lceil>1 / x\<rceil> - 1)))"
  have "1 < 1 / x" using False assms by simp
  then have "1 \<le> \<lceil>1 / x\<rceil> - 1" by linarith
  then have "1 / x \<le> of_nat (?n + 1)" by (simp add: of_nat_nat) linarith
  also have "\<dots> \<le> of_nat (10 ^ ?l)" using nat_digits_bounds(1) [of ?n] by (simp only: of_nat_le_iff)
  finally have "1 / x \<le> 10 ^ ?l" by simp
  then have "1 / 10 ^ ?l \<le> x" using assms by (simp add: divide_simps mult.commute)
  moreover have "0 < ?l" by simp
  ultimately show ?thesis using False by (simp add: log10_floor_def pow_rat_def)
qed

lemma seventeen_digits:
  assumes x: "float64 x" "0 < x"
  shows "\<exists>m e. (m, e) \<in> set (decimal_candidates x 17) \<and> round_float64 (of_int m * pow_rat 10 e) = Some x"
proof -
  define e where "e = log10_floor x - 16"
  define m where "m = round_half_even (x / pow_rat 10 e)"
  let ?c = "of_int m * pow_rat 10 e"
  have mem: "(m, e) \<in> set (decimal_candidates x 17)" by (simp add: decimal_candidates_def Let_def m_def e_def)
  have "?c - x = (of_int m - x / pow_rat 10 e) * pow_rat 10 e"
    by (simp add: left_diff_distrib)
  then have "\<bar>?c - x\<bar> = \<bar>of_int m - x / pow_rat 10 e\<bar> * pow_rat 10 e" by (simp add: abs_mult less_imp_le)
  also have "\<dots> \<le> 1 / 2 * pow_rat 10 e"
    unfolding m_def by (rule mult_right_mono [OF round_half_even_close]) (simp add: less_imp_le)
  finally have "\<bar>?c - x\<bar> \<le> 1 / 2 * pow_rat 10 e" .
  moreover have "pow_rat 10 (log10_floor x) = 10 ^ 16 * pow_rat 10 e"
    using pow_rat_add [of 10 16 e] by (simp add: e_def pow_rat_def)
  ultimately have near: "\<bar>?c - x\<bar> \<le> x / (2 * 10 ^ 16)" using log10_floor_le [OF x(2)] by simp
  let ?L = "ilog2 x" and ?q = "ulp_exp x"
  note xL = ilog2_bounds [OF x(2)]
  have pow: "pow_rat 2 ?L = 2 ^ 53 * pow_rat 2 (?L - 53)" "pow_rat 2 ?L = 2 ^ 54 * pow_rat 2 (?L - 54)"
    using pow_rat_add [of 2 53 "?L - 53"] pow_rat_add [of 2 54 "?L - 54"] by (simp_all add: pow_rat_def)
  have q: "pow_rat 2 (?L - 53) \<le> pow_rat 2 (?q - 1)" "pow_rat 2 (?L - 54) \<le> pow_rat 2 (?q - 2)"
    by (simp_all add: pow2_le ulp_exp_def)
  have "x < 18014398509481984 * pow_rat 2 (?L - 53)" using xL(2) pow(1) pow2_half [of "?L + 1"] by simp
  then have "x < 20000000000000000 * pow_rat 2 (?L - 53)" using pow2_pos [of "?L - 53"] by linarith
  then have "x / (2 * 10 ^ 16) < pow_rat 2 (?L - 53)" by simp
  moreover have "x / (2 * 10 ^ 16) < pow_rat 2 (?L - 54)" if "x = pow_rat 2 ?L"
  proof -
    have "x = 18014398509481984 * pow_rat 2 (?L - 54)" using that pow(2) by simp
    then have "x < 20000000000000000 * pow_rat 2 (?L - 54)" using pow2_pos [of "?L - 54"] by linarith
    then show ?thesis by simp
  qed
  ultimately have "round_float64 ?c = Some x" using near q by (intro round_float64_close [OF x]) (fastforce+)
  with mem show ?thesis by blast
qed

lemma shortest_decimal_reads:
  assumes "float64 x" "0 < x" "shortest_decimal x = (m, e)"
  shows "round_float64 (of_int m * pow_rat 10 e) = Some x"
proof -
  let ?P = "\<lambda>(m, e). round_float64 (of_int m * pow_rat 10 e) = Some x"
  let ?cs = "concat (map (decimal_candidates x) [1..<18])"
  have "\<exists>p \<in> set ?cs. ?P p" using seventeen_digits [OF assms(1,2)] by fastforce
  then obtain p where "find ?P ?cs = Some p" by (metis find_None_iff2 not_None_eq)
  moreover from this have "?P p" by (auto simp: find_Some_iff)
  ultimately have "?P p" and "shortest_decimal x = p" unfolding shortest_decimal_def by simp_all
  with assms(3) show ?thesis by simp
qed

section \<open>Reading numbers back\<close>

lemma log10_floor_less:
  assumes "0 < x"
  shows "x < pow_rat 10 (log10_floor x + 1)"
proof (cases "1 \<le> x")
  case True
  let ?n = "nat \<lfloor>x\<rfloor>"
  have "?n + 1 \<le> 10 ^ length (nat_digits ?n)" using nat_digits_bounds(1) [of ?n] by linarith
  then have "(of_nat (?n + 1) :: rat) \<le> of_nat (10 ^ length (nat_digits ?n))" by (simp only: of_nat_le_iff)
  moreover have "x < of_nat (?n + 1)" using True by simp linarith
  ultimately have "x < 10 ^ length (nat_digits ?n)" by simp
  with True show ?thesis by (simp add: log10_floor_def pow_rat_def)
next
  case False
  let ?n = "nat (\<lceil>1 / x\<rceil> - 1)" and ?l = "length (nat_digits (nat (\<lceil>1 / x\<rceil> - 1)))"
  have "1 < 1 / x" using False assms by simp
  then have one: "1 \<le> \<lceil>1 / x\<rceil> - 1" by linarith
  then have "10 ^ (?l - 1) \<le> ?n" by (intro nat_digits_bounds(2)) simp
  then have "(of_nat (10 ^ (?l - 1)) :: rat) \<le> of_nat ?n" by (simp only: of_nat_le_iff)
  also have "of_nat ?n < 1 / x" using one by (simp add: of_nat_nat) linarith
  finally have "10 ^ (?l - 1) < 1 / x" by simp
  then have "x < 1 / 10 ^ (?l - 1)" using assms by (simp add: divide_simps mult.commute)
  moreover have "?l \<noteq> 0" by simp
  then obtain k where "?l = Suc k" using not0_implies_Suc by blast
  ultimately show ?thesis using False by (auto simp: log10_floor_def pow_rat_def)
qed

lemma log10_floor_unique:
  assumes "pow_rat 10 e \<le> x" "x < pow_rat 10 (e + 1)"
  shows "log10_floor x = e"
proof -
  have "0 < x" using assms(1) pow10_pos [of e] by linarith
  note b = log10_floor_le [OF this] log10_floor_less [OF this]
  have "pow_rat 10 e < pow_rat 10 (log10_floor x + 1)" "pow_rat 10 (log10_floor x) < pow_rat 10 (e + 1)"
    using assms b by linarith+
  then show ?thesis by (simp add: pow10_less)
qed

text \<open>What may follow a number: nothing that would continue it.\<close>

definition number_end :: "string \<Rightarrow> bool" where
  "number_end rest \<longleftrightarrow> (case rest of [] \<Rightarrow> True | c # _ \<Rightarrow> \<not> is_digit c \<and> c \<noteq> CHR ''.'' \<and> c \<noteq> CHR ''e'' \<and> c \<noteq> CHR ''E'')"

definition no_digit :: "string \<Rightarrow> bool" where
  "no_digit rest \<longleftrightarrow> (case rest of [] \<Rightarrow> True | c # _ \<Rightarrow> \<not> is_digit c)"

lemma digits_of_append: "list_all is_digit ds \<Longrightarrow> no_digit rest \<Longrightarrow> digits_of (ds @ rest) = (ds, rest)"
  by (cases rest) (auto simp: digits_of_def no_digit_def list_all_iff takeWhile_append dropWhile_append)

definition int_part :: "string \<Rightarrow> bool" where
  "int_part ip \<longleftrightarrow> ip \<noteq> [] \<and> list_all is_digit ip \<and> (hd ip = CHR ''0'' \<longrightarrow> ip = ''0'')"

lemma number_int_text: "int_part ip \<Longrightarrow> no_digit rest \<Longrightarrow> number_int (ip @ rest) = Some (ip, rest)"
  using digits_of_append [of ip rest] by (cases ip) (auto simp: number_int_def int_part_def)

abbreviation frac_text :: "string \<Rightarrow> string" where
  "frac_text fp \<equiv> (if fp = [] then [] else CHR ''.'' # fp)"

lemma number_frac_text:
  assumes "list_all is_digit fp" "no_digit rest" "rest = [] \<or> hd rest \<noteq> CHR ''.''"
  shows "number_frac (frac_text fp @ rest) = Some (fp, rest)"
  using assms digits_of_append [of fp rest] by (cases rest) (auto simp: number_frac_def)

definition exp_text :: "int \<Rightarrow> string" where
  "exp_text ex = (if ex < 0 then ''e-'' @ nat_digits (nat (- ex)) else ''e+'' @ nat_digits (nat ex))"

lemma number_exp_text: "number_end rest \<Longrightarrow> number_exp (exp_text ex @ rest) = Some (ex, rest)"
proof -
  assume "number_end rest"
  then have "no_digit rest" by (auto simp: number_end_def no_digit_def split: list.splits)
  then have "digits_of (nat_digits n @ rest) = (nat_digits n, rest)" for n
    by (rule digits_of_append [OF nat_digits_all])
  then show ?thesis by (simp add: number_exp_def exp_text_def)
qed

lemma number_exp_none: "number_end rest \<Longrightarrow> number_exp rest = Some (0, rest)"
  by (auto simp: number_end_def number_exp_def split: list.splits)

lemma json_number_text:
  assumes ip: "int_part ip" and fp: "list_all is_digit fp" and rest: "number_end rest"
    and ex: "et = [] \<and> ex = 0 \<or> et = exp_text ex"
    and val: "round_float64 (of_nat (digits_val 0 (ip @ fp)) * pow_rat 10 (ex - int (length fp))) = Some v"
  shows "json_number (ip @ frac_text fp @ et @ rest) = Some (v, rest)"
    and "json_number (CHR ''-'' # ip @ frac_text fp @ et @ rest) = Some (- v, rest)"
proof -
  let ?m = "of_nat (digits_val 0 (ip @ fp)) * pow_rat 10 (ex - int (length fp))"
  have e: "no_digit (et @ rest) \<and> (et @ rest = [] \<or> hd (et @ rest) \<noteq> CHR ''.'') \<and> number_exp (et @ rest) = Some (ex, rest)"
    using ex
  proof
    assume "et = [] \<and> ex = 0"
    then show ?thesis using rest number_exp_none [OF rest] by (auto simp: number_end_def no_digit_def split: list.splits)
  next
    assume "et = exp_text ex"
    then show ?thesis using number_exp_text [OF rest] by (auto simp: exp_text_def no_digit_def is_digit_def Let_def)
  qed
  then have f: "number_frac (frac_text fp @ et @ rest) = Some (fp, et @ rest)" by (intro number_frac_text fp) simp_all
  have "no_digit (frac_text fp @ et @ rest)" using e by (simp add: no_digit_def is_digit_def Let_def)
  then have i: "number_int (ip @ frac_text fp @ et @ rest) = Some (ip, frac_text fp @ et @ rest)" by (rule number_int_text [OF ip])
  obtain c cs where c: "ip = c # cs" "is_digit c" using ip by (cases ip) (auto simp: int_part_def)
  then have "c \<noteq> CHR ''-''" using is_digit_no_sign by blast
  then have sign: "number_sign (ip @ s) = (False, ip @ s)" for s using c by simp
  show "json_number (ip @ frac_text fp @ et @ rest) = Some (v, rest)"
    unfolding json_number_def sign using i f e val by (simp add: Let_def)
  have "round_float64 (- ?m) = Some (- v)" using val(1) by (simp only: round_float64_minus option.map)
  then show "json_number (CHR ''-'' # ip @ frac_text fp @ et @ rest) = Some (- v, rest)"
    unfolding json_number_def using i f e by (simp add: Let_def)
qed

section \<open>Writing numbers\<close>

lemma digits_val_linear: "digits_val acc s = acc * 10 ^ length s + digits_val 0 s"
proof (induction s arbitrary: acc)
  case (Cons c s)
  show ?case
    using Cons.IH [of "10 * acc + (of_char c - 48)"] Cons.IH [of "of_char c - 48"] by (simp add: algebra_simps)
qed simp

lemma digits_val_append: "digits_val 0 (s @ t) = digits_val 0 s * 10 ^ length t + digits_val 0 t"
proof -
  have "digits_val acc (s @ t) = digits_val (digits_val acc s) t" for acc by (induction s arbitrary: acc) simp_all
  then show ?thesis using digits_val_linear [of "digits_val 0 s" t] by simp
qed

lemma digits_val_zeros [simp]: "digits_val 0 (replicate k (CHR ''0'')) = 0"
  by (induction k) simp_all

lemma strip_zeros_split: "\<exists>k. s = strip_zeros s @ replicate k (CHR ''0'')"
proof -
  let ?p = "\<lambda>c. c = CHR ''0''"
  have "rev s = takeWhile ?p (rev s) @ dropWhile ?p (rev s)" by simp
  then have "s = rev (dropWhile ?p (rev s)) @ rev (takeWhile ?p (rev s))" by (metis rev_append rev_rev_ident)
  moreover have "rev (takeWhile ?p (rev s)) = replicate (length (takeWhile ?p (rev s))) (CHR ''0'')"
    by (intro replicate_eqI) (auto dest: set_takeWhileD)
  ultimately show ?thesis unfolding strip_zeros_def by metis
qed

lemma digit_char_zero: "n < 10 \<Longrightarrow> digit_char n = CHR ''0'' \<Longrightarrow> n = 0"
  using of_char_digit_char [of n] by simp

lemma hd_nat_digits: "0 < n \<Longrightarrow> hd (nat_digits n) \<noteq> CHR ''0''"
proof (induction n rule: nat_digits.induct)
  case (1 n)
  then show ?case by (cases "n < 10") (auto simp: nat_digits.simps [of n] dest: digit_char_zero)
qed

lemma zeros_digits: "list_all is_digit (replicate k (CHR ''0''))"
  by (simp add: list_all_iff is_digit_def Let_def)

text \<open>The digits of \<open>m\<close> with a point before the last \<open>k\<close> of them.\<close>

lemma format_digits:
  assumes m: "0 < m" and k: "0 < k"
  defines "ds \<equiv> nat_digits m"
  defines "padded \<equiv> replicate (k + 1 - length ds) (CHR ''0'') @ ds"
  defines "ip \<equiv> take (length padded - k) padded" and "fp \<equiv> strip_zeros (drop (length padded - k) padded)"
  shows "int_part ip" "list_all is_digit fp"
    "(of_nat (digits_val 0 (ip @ fp)) :: rat) * pow_rat 10 (- int (length fp)) = of_nat m * pow_rat 10 (- int k)"
proof -
  have digits: "list_all is_digit padded" unfolding padded_def ds_def using nat_digits_all zeros_digits by (simp add: list_all_append)
  have len: "k < length padded" by (simp add: padded_def)
  have ds: "ds \<noteq> []" "hd ds \<noteq> CHR ''0''" using hd_nat_digits [OF m] by (simp_all add: ds_def)
  have "hd ip = CHR ''0'' \<Longrightarrow> ip = ''0''"
  proof (cases "k < length ds")
    case True
    then have "hd ip = hd ds" using ds by (simp add: ip_def padded_def)
    then show "hd ip = CHR ''0'' \<Longrightarrow> ip = ''0''" using ds by simp
  next
    case False
    then have "length padded - k = 1" by (simp add: padded_def)
    then show "hd ip = CHR ''0'' \<Longrightarrow> ip = ''0''" using len by (cases padded) (auto simp: ip_def)
  qed
  then show "int_part ip" using digits len by (auto simp: int_part_def ip_def list_all_iff dest: in_set_takeD)
  obtain z where z: "drop (length padded - k) padded = fp @ replicate z (CHR ''0'')"
    using strip_zeros_split unfolding fp_def by blast
  then have "set fp \<subseteq> set padded" using set_drop_subset [of "length padded - k" padded] by auto
  then show "list_all is_digit fp" using digits by (auto simp: list_all_iff)
  have lz: "k = length fp + z" using arg_cong [OF z, of length] len by simp
  have "padded = ip @ fp @ replicate z (CHR ''0'')" using z by (simp add: ip_def flip: z)
  moreover have "digits_val 0 padded = m" by (simp add: padded_def ds_def digits_val_append)
  ultimately have "m = digits_val 0 (ip @ fp) * 10 ^ z" using digits_val_append [of "ip @ fp" "replicate z (CHR ''0'')"] by simp
  then show "(of_nat (digits_val 0 (ip @ fp)) :: rat) * pow_rat 10 (- int (length fp)) = of_nat m * pow_rat 10 (- int k)"
    using pow_rat_add [of 10 "- int (length fp)" "- int z"] by (simp add: lz pow_rat_def [of 10 "- int z"])
qed

lemma shortest_decimal_pos:
  assumes "float64 x" "0 < x" "shortest_decimal x = (m, e)"
  shows "0 < m"
proof (rule ccontr)
  assume "\<not> 0 < m"
  then have "0 \<le> - (of_int m * pow_rat 10 e)" by (simp add: mult_nonpos_nonneg less_imp_le)
  moreover have "0 \<le> v" if "0 \<le> y" "round_float64 y = Some v" for y v
  proof (cases "y = 0")
    case False
    with that have y: "0 < y" by simp
    have "0 \<le> round_half_even (y / pow_rat 2 (ulp_exp y))"
    proof -
      have "- (1 :: rat) < of_int (round_half_even (y / pow_rat 2 (ulp_exp y)))"
        using round_half_even_close [of "y / pow_rat 2 (ulp_exp y)"] divide_pos_pos [OF y pow2_pos [of "ulp_exp y"]] by linarith
      then show ?thesis by (simp add: less_le_not_le)
    qed
    then show ?thesis using that(2) y by (auto simp: round_float64_pos Let_def less_imp_le split: if_splits)
  qed (use that in \<open>simp add: round_float64_def\<close>)
  moreover have "round_float64 (- (of_int m * pow_rat 10 e)) = Some (- x)"
    using shortest_decimal_reads [OF assms] by (simp add: round_float64_minus)
  ultimately have "0 \<le> - x" by blast
  then show False using assms(2) by simp
qed

text \<open>The text of a positive number is an integer part, a fraction and an exponent whose value rounds to it.\<close>

lemma format_f_pos:
  assumes x: "float64 x" "0 < x"
  obtains ip fp where "format_f x = ip @ frac_text fp" "int_part ip" "list_all is_digit fp"
    "round_float64 (of_nat (digits_val 0 (ip @ fp)) * pow_rat 10 (0 - int (length fp))) = Some x"
proof -
  obtain m e where me: "shortest_decimal x = (m, e)" by fastforce
  note reads = shortest_decimal_reads [OF x me] and pos = shortest_decimal_pos [OF x me]
  have m: "of_int m = (of_nat (nat m) :: rat)" "0 < nat m" using pos by (simp_all add: of_nat_nat)
  show thesis
  proof (cases "0 \<le> e")
    case True
    let ?ip = "nat_digits (nat m) @ replicate (nat e) (CHR ''0'')"
    have "int_part ?ip" using hd_nat_digits [OF m(2)] nat_digits_all zeros_digits by (simp add: int_part_def list_all_append)
    moreover have "of_nat (digits_val 0 (?ip @ [])) * pow_rat 10 (0 - int (length [])) = of_int m * pow_rat 10 e"
      using True pos by (simp add: digits_val_append pow_rat_def)
    ultimately show thesis
      using that [of ?ip "[]"] True x(2) reads by (simp add: format_f_def me)
  next
    case False
    then have k: "0 < nat (- e)" "e = - int (nat (- e))" by simp_all
    note f = format_digits [OF m(2) k(1)]
    let ?p = "replicate (nat (- e) + 1 - length (nat_digits (nat m))) (CHR ''0'') @ nat_digits (nat m)"
    have "format_f x = take (length ?p - nat (- e)) ?p @ frac_text (strip_zeros (drop (length ?p - nat (- e)) ?p))"
      using False x(2) by (simp add: format_f_def me Let_def)
    then show thesis
    proof (rule that [OF _ f(1,2)])
      show "round_float64 (of_nat (digits_val 0 (take (length ?p - nat (- e)) ?p @ strip_zeros (drop (length ?p - nat (- e)) ?p)))
          * pow_rat 10 (0 - int (length (strip_zeros (drop (length ?p - nat (- e)) ?p))))) = Some x"
        using reads unfolding diff_0 f(3) m(1) k(2) [symmetric] .
    qed
  qed
qed

lemma exponent_pos:
  assumes x: "float64 x" "0 < x" and me: "shortest_decimal x = (m, e)"
  defines "ds \<equiv> strip_zeros (nat_digits (nat m))" and "ex \<equiv> log10_floor (of_int m * pow_rat 10 e)"
  shows "int_part [hd ds]" "list_all is_digit (tl ds)" "ds = hd ds # tl ds"
    "round_float64 (of_nat (digits_val 0 ([hd ds] @ tl ds)) * pow_rat 10 (ex - int (length (tl ds)))) = Some x"
proof -
  note reads = shortest_decimal_reads [OF x me] and pos = shortest_decimal_pos [OF x me]
  let ?n = "nat m" and ?l = "length (nat_digits (nat m))"
  obtain z where z: "nat_digits ?n = ds @ replicate z (CHR ''0'')" using strip_zeros_split unfolding ds_def by blast
  have n: "0 < ?n" "of_int m = (of_nat ?n :: rat)" using pos by (simp_all add: of_nat_nat)
  have val: "?n = digits_val 0 ds * 10 ^ z"
    using digits_val_append [of ds "replicate z (CHR ''0'')"] digits_val_nat_digits [of ?n] by (simp add: z)
  then have "ds \<noteq> []" using n(1) by auto
  then show ds: "ds = hd ds # tl ds" by simp
  have digits: "list_all is_digit ds" using nat_digits_all [of ?n] by (simp add: z list_all_append)
  then show "list_all is_digit (tl ds)" using ds by (cases ds) simp_all
  have "hd ds \<noteq> CHR ''0''" using hd_nat_digits [OF n(1)] \<open>ds \<noteq> []\<close> by (simp add: z)
  then show "int_part [hd ds]" using digits \<open>ds \<noteq> []\<close> by (cases ds) (simp_all add: int_part_def)
  have l: "?l = length ds + z" by (simp add: z)
  have lpos: "0 < ?l" by simp
  have "pow_rat 10 (int ?l - 1) \<le> of_nat ?n"
  proof -
    have "(of_nat (10 ^ (?l - 1)) :: rat) \<le> of_nat ?n" using nat_digits_bounds(2) [OF n(1)] by (simp only: of_nat_le_iff)
    moreover have "nat (int ?l - 1) = ?l - 1" by simp
    ultimately show ?thesis using lpos by (simp add: pow_rat_def)
  qed
  moreover have "of_nat ?n < pow_rat 10 (int ?l)"
  proof -
    have "(of_nat ?n :: rat) < of_nat (10 ^ ?l)" using nat_digits_bounds(1) [of ?n] by (simp only: of_nat_less_iff)
    then show ?thesis by (simp add: pow_rat_def)
  qed
  ultimately have "pow_rat 10 (int ?l - 1) * pow_rat 10 e \<le> of_int m * pow_rat 10 e"
      "of_int m * pow_rat 10 e < pow_rat 10 (int ?l) * pow_rat 10 e"
    unfolding n(2) by (simp_all only: mult_right_mono mult_strict_right_mono pow10_pos less_imp_le)
  then have ex: "ex = int ?l - 1 + e"
    unfolding ex_def by (intro log10_floor_unique) (simp_all add: pow_rat_add [symmetric] algebra_simps)
  have "length ds = Suc (length (tl ds))" using \<open>ds \<noteq> []\<close> by simp
  then have shift: "ex - int (length (tl ds)) = int z + e" using l ex by linarith
  have "(of_nat ?n :: rat) = of_nat (digits_val 0 ds) * 10 ^ z" using arg_cong [OF val, of "of_nat :: nat \<Rightarrow> rat"] by simp
  moreover have "pow_rat 10 (int z + e) = 10 ^ z * pow_rat 10 e"
    using pow_rat_add [of 10 "int z" e] by (simp add: pow_rat_def [of 10 "int z"])
  ultimately have "of_nat (digits_val 0 ds) * pow_rat 10 (ex - int (length (tl ds))) = of_nat ?n * pow_rat 10 e"
    unfolding shift by simp
  then show "round_float64 (of_nat (digits_val 0 ([hd ds] @ tl ds)) * pow_rat 10 (ex - int (length (tl ds)))) = Some x"
    using reads unfolding n(2) append_Cons append_Nil ds [symmetric] by (simp only:)
qed

lemma float64_abs: "float64 x \<Longrightarrow> float64 \<bar>x\<bar>"
  by (cases "x < 0") (simp_all add: float64_def round_float64_minus)

lemma json_float_zero: "json_float 0 = ''0''"
  by code_simp

lemma shortest_of_abs: "format_f x = (if x < 0 then CHR ''-'' # format_f \<bar>x\<bar> else format_f \<bar>x\<bar>)"
  by (auto simp: format_f_def Let_def case_prod_beta)

text \<open>Every \<open>float64\<close> that is written is read back as it was.\<close>

lemma json_float_reads:
  assumes x: "float64 x" and rest: "number_end rest"
  shows "json_number (json_float x @ rest) = Some (x, rest)"
proof (cases "x = 0")
  case True
  have "round_float64 0 = Some 0" by (simp add: round_float64_def)
  then have "json_number (''0'' @ frac_text [] @ [] @ rest) = Some (0, rest)"
    by (intro json_number_text(1) [where ex = 0] rest) (simp_all add: int_part_def is_digit_def Let_def)
  then show ?thesis by (simp add: True json_float_zero)
next
  case False
  let ?a = "\<bar>x\<bar>"
  have a: "float64 ?a" "0 < ?a" using float64_abs [OF x] False by simp_all
  have done_: "json_number ((if x < 0 then CHR ''-'' # t else t) @ rest) = Some (x, rest)"
    if "t = ip @ frac_text fp @ et" "int_part ip" "list_all is_digit fp" "et = [] \<and> ex = 0 \<or> et = exp_text ex"
      "round_float64 (of_nat (digits_val 0 (ip @ fp)) * pow_rat 10 (ex - int (length fp))) = Some ?a" for t ip fp et ex
    using json_number_text [OF that(2,3) rest that(4,5)] by (simp add: that(1))
  show ?thesis
  proof (cases "pow_rat 10 (- 6) \<le> ?a \<and> ?a < pow_rat 10 21")
    case True
    obtain ip fp where "format_f ?a = ip @ frac_text fp" "int_part ip" "list_all is_digit fp"
      "round_float64 (of_nat (digits_val 0 (ip @ fp)) * pow_rat 10 (0 - int (length fp))) = Some ?a"
      using format_f_pos [OF a] .
    then have "json_number ((if x < 0 then CHR ''-'' # format_f ?a else format_f ?a) @ rest) = Some (x, rest)"
      by (intro done_ [of _ ip fp "[]" 0]) simp_all
    moreover have "json_float x = format_f x" using True by (simp add: json_float_def Let_def)
    ultimately show ?thesis by (simp add: shortest_of_abs [symmetric])
  next
    case small: False
    obtain m e where me: "shortest_decimal ?a = (m, e)" by fastforce
    let ?ds = "strip_zeros (nat_digits (nat m))" and ?ex = "log10_floor (of_int m * pow_rat 10 e)"
    note f = exponent_pos [OF a me]
    let ?t = "[hd ?ds] @ frac_text (tl ?ds) @ exp_text ?ex"
    have read: "json_number ((if x < 0 then CHR ''-'' # ?t else ?t) @ rest) = Some (x, rest)"
      using f by (intro done_ [of _ "[hd ?ds]" "tl ?ds" "exp_text ?ex" ?ex]) simp_all
    have cond: "\<not> (?a = 0 \<or> pow_rat 10 (- 6) \<le> ?a \<and> ?a < pow_rat 10 21)" using small False by simp
    have "json_float x = (if x < 0 then CHR ''-'' # ?t else ?t)"
      unfolding json_float_def Let_def if_not_P [OF cond] me by (simp add: exp_text_def)
    with read show ?thesis by simp
  qed
qed

text \<open>What is read is a \<open>float64\<close>.\<close>

lemma float64_multiple:
  assumes "0 < v" "v = of_int k * pow_rat 2 (ulp_exp v)" "v < pow_rat 2 1024"
  shows "float64 v"
  unfolding float64_def using round_on_grid [OF assms(1,2) _ assms(3)] by simp

lemma round_float64_le:
  assumes "0 < x" "x < of_int n * pow_rat 2 q"
  shows "round_half_even (x / pow_rat 2 q) \<le> n"
proof -
  have "x / pow_rat 2 q < of_int n" using assms(2) by (simp add: divide_simps)
  then have "of_int (round_half_even (x / pow_rat 2 q)) < of_int n + (1 :: rat)"
    using round_half_even_close [of "x / pow_rat 2 q"] by linarith
  then show ?thesis by linarith
qed

lemma round_float64_grid:
  assumes x: "0 < x" and v: "v = of_int (round_half_even (x / pow_rat 2 (ulp_exp x))) * pow_rat 2 (ulp_exp x)" "0 < v"
  shows "\<exists>k. v = of_int k * pow_rat 2 (ulp_exp v)"
proof (cases "ulp_exp v \<le> ulp_exp x")
  case True
  then obtain n where "pow_rat 2 (ulp_exp x) = of_int n * pow_rat 2 (ulp_exp v)" by (rule pow2_multiple)
  then show ?thesis using v(1) by (metis mult.assoc of_int_mult)
next
  case False
  define L q where "L = ilog2 x" and "q = ulp_exp x"
  have xL: "x < pow_rat 2 (L + 1)" using ilog2_bounds(2) [OF x] by (simp add: L_def)
  have vL: "pow_rat 2 (ilog2 v) \<le> v" using ilog2_bounds(1) [OF v(2)] .
  have log: "ilog2 v - 52 > q" "ulp_exp v = ilog2 v - 52" "L - 52 \<le> q" using False by (auto simp: ulp_exp_def q_def L_def)
  have "q \<le> L + 1"
  proof (rule ccontr)
    assume "\<not> q \<le> L + 1"
    then have "pow_rat 2 (L + 1) < pow_rat 2 q" by (simp add: pow2_less)
    then have "x < of_int 1 * pow_rat 2 q" using xL by simp
    then have "round_half_even (x / pow_rat 2 q) \<le> 1" by (rule round_float64_le [OF x])
    then have "v \<le> pow_rat 2 q" using v(1) by (simp add: q_def mult_left_le_one_le)
    then have "pow_rat 2 (ilog2 v) \<le> pow_rat 2 q" using vL by linarith
    then show False using log by (simp add: pow2_le)
  qed
  then obtain n where n: "pow_rat 2 (L + 1) = of_int n * pow_rat 2 q" by (rule pow2_multiple)
  then have "round_half_even (x / pow_rat 2 q) \<le> n" using xL by (intro round_float64_le [OF x]) simp
  then have le: "v \<le> pow_rat 2 (L + 1)" unfolding v(1) n q_def [symmetric] by (intro mult_right_mono) (simp_all add: less_imp_le)
  have "L + 1 \<le> ilog2 v" using log by linarith
  then have "pow_rat 2 (L + 1) \<le> pow_rat 2 (ilog2 v)" by (simp add: pow2_le)
  with le vL have "v = pow_rat 2 (ilog2 v)" by linarith
  moreover have "ulp_exp v \<le> ilog2 v" using log by simp
  ultimately show ?thesis by (metis pow2_multiple)
qed

lemma round_float64_float64:
  assumes "round_float64 x = Some v"
  shows "float64 v"
proof -
  have pos: "float64 v" if r: "round_float64 x = Some v" and x: "0 < x" for x v
  proof -
    let ?n = "round_half_even (x / pow_rat 2 (ulp_exp x))"
    from r x have v: "v = of_int ?n * pow_rat 2 (ulp_exp x)" "v < pow_rat 2 1024"
      by (auto simp: round_float64_pos Let_def split: if_splits)
    have "- (1 :: rat) < of_int ?n"
      using round_half_even_close [of "x / pow_rat 2 (ulp_exp x)"] divide_pos_pos [OF x pow2_pos [of "ulp_exp x"]] by linarith
    then have "0 \<le> ?n" by linarith
    then have "0 \<le> v" by (simp add: v(1) less_imp_le)
    then consider "v = 0" | "0 < v" by linarith
    then show ?thesis
    proof cases
      case 1
      then show ?thesis by (simp add: float64_def round_float64_def)
    next
      case 2
      from round_float64_grid [OF x v(1) 2] obtain k where "v = of_int k * pow_rat 2 (ulp_exp v)" ..
      with 2 v(2) show ?thesis by (intro float64_multiple)
    qed
  qed
  consider "x = 0" | "0 < x" | "0 < - x" by linarith
  then show ?thesis
  proof cases
    case 1
    with assms show ?thesis by (auto simp: round_float64_def float64_def)
  next
    case 2
    with assms show ?thesis by (intro pos)
  next
    case 3
    have "round_float64 (- x) = Some (- v)" using assms by (simp add: round_float64_minus)
    then have "float64 (- v)" using 3 by (rule pos)
    then show ?thesis by (simp add: float64_def round_float64_minus)
  qed
qed

end
