(* ===== verification/JsonLaws.thy ===== *)
theory JsonLaws
  imports Float64
begin

text \<open>
  The laws of the JSON model: every call of the decoder consumes input, so its bound on calls is
  never what stops it; a string written by the encoder reads back as itself; and a whole document
  reads back with its members sorted by key.
\<close>

section \<open>The decoder consumes its input\<close>

lemma length_skip_ws: "length (skip_ws s) \<le> length s"
  by (simp add: skip_ws_def length_dropWhile_le)

lemma skip_ws_Cons: "skip_ws s = c # t \<Longrightarrow> length t < length s"
  using length_skip_ws [of s] by simp

lemma length_digits_of: "length (snd (digits_of s)) \<le> length s"
  by (simp add: digits_of_def length_dropWhile_le)

lemma length_number_sign: "length (snd (number_sign s)) \<le> length s"
  by (cases s) simp_all

lemma length_number_int: "number_int s = Some (x, t) \<Longrightarrow> length t < length s"
  by (auto simp: number_int_def digits_of_def length_dropWhile_le less_Suc_eq_le split: list.splits if_splits)

lemma length_number_frac: "number_frac s = Some (x, t) \<Longrightarrow> length t \<le> length s"
  by (auto simp: number_frac_def digits_of_def split: list.splits if_splits)
    (meson le_SucI length_dropWhile_le)

lemma length_split_sign: "length (snd (split_sign s)) \<le> length s"
  by (cases s) simp_all

lemma length_number_exp: "number_exp s = Some (x, t) \<Longrightarrow> length t \<le> length s"
proof (cases s)
  case (Cons c u)
  assume "number_exp s = Some (x, t)"
  with Cons show ?thesis
    using length_split_sign [of u] length_digits_of [of "snd (split_sign u)"]
    by (auto simp: number_exp_def Let_def split: if_splits prod.splits)
qed (simp add: number_exp_def)

lemma length_json_number: "json_number s = Some (x, t) \<Longrightarrow> length t < length s"
  using length_number_sign [of s] length_number_int length_number_frac length_number_exp
  by (fastforce simp: json_number_def Let_def split: prod.splits option.splits)

lemma length_json_scalar: "json_scalar s = Some (v, t) \<Longrightarrow> length t < length s"
  by (cases s) (auto simp: json_scalar_def dest!: length_json_number split: if_splits)

lemma next_byte_shorter: "next_byte s = Some (c, t) \<Longrightarrow> length t < length s"
  using skip_ws_Cons [of s] by (auto simp: next_byte_def split: list.splits)

lemma next_byte_tl: "next_byte s = Some (c, t) \<Longrightarrow> tl (skip_ws s) = t"
  by (auto simp: next_byte_def split: list.splits)

lemma length_member_key: "member_key s = Some (k, t) \<Longrightarrow> length t < length s"
  by (auto simp: member_key_def dest!: next_byte_shorter length_string_body
      split: option.splits if_splits)

lemma json_consumes:
  "json_value n d s = Some (v, u) \<Longrightarrow> length u < length s"
  "json_elems n d s = Some (vs, u) \<Longrightarrow> length u < length s"
  "json_members n d acc s = Some (m, u) \<Longrightarrow> length u < length s"
proof (induction n d s and n d s and n d acc s arbitrary: v u and vs u and m u
    rule: json_value_json_elems_json_members.induct)
  case (2 n d s)
  then obtain c t where nb: "next_byte s = Some (c, t)" by (auto split: option.splits)
  note len = next_byte_shorter [OF nb]
  consider (str) "c = CHR 0x22" | (obj) "c = CHR 0x7B" | (arr) "c = CHR 0x5B"
    | (other) "c \<noteq> CHR 0x22" "c \<noteq> CHR 0x7B" "c \<noteq> CHR 0x5B" by blast
  then show ?case
  proof cases
    case str
    with "2.prems" nb len show ?thesis by (auto dest: length_string_body)
  next
    case obj
    then show ?thesis
      using "2.prems" "2.IH"(1) [OF nb refl] nb len
      by (auto simp: next_byte_tl dest: next_byte_shorter split: if_splits)
  next
    case arr
    then show ?thesis
      using "2.prems" "2.IH"(2) [OF nb refl] nb len
      by (auto simp: next_byte_tl dest: next_byte_shorter split: if_splits)
  next
    case other
    have "length (c # t) \<le> length s" using len by simp
    with other "2.prems" nb show ?thesis by (auto dest!: length_json_scalar)
  qed
next
  case (4 n d s)
  from "4.prems" obtain v' u' where v: "json_value n d s = Some (v', u')" by (auto split: option.splits)
  from v "4.prems" obtain c t where t: "next_byte u' = Some (c, t)" by (auto split: option.splits)
  show ?case
    using "4.prems" "4.IH"(1) [OF v] "4.IH"(2) [OF v refl t] v t next_byte_shorter [OF t]
    by (fastforce split: if_splits)
next
  case (6 n d acc s)
  from "6.prems" obtain k t where k: "member_key s = Some (k, t)" by (auto split: option.splits)
  from k "6.prems" obtain v' u' where v: "json_value n d t = Some (v', u')" by (auto split: option.splits)
  from k v "6.prems" obtain c w where w: "next_byte u' = Some (c, w)" by (auto split: option.splits)
  show ?case
    using "6.prems" "6.IH"(1) [OF k refl v] "6.IH"(2) [OF k refl v refl w] k v w
      length_member_key [OF k] next_byte_shorter [OF w]
    by (fastforce split: if_splits)
qed simp_all

text \<open>The bound on calls does not matter once it is twice the length of the text.\<close>

lemma json_fuel:
  "2 * length s + 1 \<le> n \<Longrightarrow> 2 * length s + 1 \<le> m \<Longrightarrow> json_value n d s = json_value m d s"
  "2 * length s + 2 \<le> n \<Longrightarrow> 2 * length s + 2 \<le> m \<Longrightarrow> json_elems n d s = json_elems m d s"
  "2 * length s + 2 \<le> n \<Longrightarrow> 2 * length s + 2 \<le> m \<Longrightarrow> json_members n d acc s = json_members m d acc s"
proof (induction n arbitrary: m d s acc)
  case (Suc n)
  { case 1
    then obtain m' where m: "m = Suc m'" by (cases m) auto
    have len: "length t < length s" if "next_byte s = Some (c, t)" for c t
      using next_byte_shorter that by blast
    have "json_members n (Suc d) [] t = json_members m' (Suc d) [] t"
      "json_elems n (Suc d) t = json_elems m' (Suc d) t" if "next_byte s = Some (c, t)" for c t
      using Suc.IH(2,3) [of t m'] len [OF that] 1 m by auto
    then show ?case
      unfolding m json_value.simps by (auto split: option.splits)
  next
    case 2
    then obtain m' where m: "m = Suc m'" by (cases m) auto
    have v: "json_value n d s = json_value m' d s" using 2 m by (intro Suc.IH(1)) auto
    have "json_elems n d t = json_elems m' d t"
      if "json_value m' d s = Some (x, u)" "next_byte u = Some (c, t)" for x u c t
      using json_consumes(1) [OF that(1)] next_byte_shorter [OF that(2)] 2 m by (intro Suc.IH(2)) auto
    then show ?case unfolding m json_elems.simps v by (auto split: option.splits)
  next
    case 3
    then obtain m' where m: "m = Suc m'" by (cases m) auto
    have v: "json_value n d t = json_value m' d t" if "member_key s = Some (k, t)" for k t
      using length_member_key [OF that] 3 m by (intro Suc.IH(1)) auto
    have "json_members n d acc' w = json_members m' d acc' w"
      if "member_key s = Some (k, t)" "json_value m' d t = Some (x, u)" "next_byte u = Some (c, w)"
      for k t x u c w acc'
      using length_member_key [OF that(1)] json_consumes(1) [OF that(2)] next_byte_shorter [OF that(3)] 3 m
      by (intro Suc.IH(3)) auto
    with v show ?case unfolding m json_members.simps by (auto split: option.splits) }
qed auto

section \<open>Strings\<close>

text \<open>What a string becomes in a document: each invalid byte is the replacement character.\<close>

function utf8_coerce :: "string \<Rightarrow> string" where
  "utf8_coerce [] = []"
| "utf8_coerce (a # s) =
     (if utf8_len (a # s) = 0 then replacement @ utf8_coerce s
      else take (utf8_len (a # s)) (a # s) @ utf8_coerce (drop (utf8_len (a # s)) (a # s)))"
  by pat_completeness auto
termination by (relation "measure length") (auto simp del: utf8_len.simps)

declare utf8_coerce.simps(2) [simp del]

definition utf8_valid :: "string \<Rightarrow> bool" where
  "utf8_valid s \<longleftrightarrow> utf8_coerce s = s"

lemma utf8_len_le: "utf8_len s \<le> length s"
  by (cases s) (auto split: list.splits)

lemma utf8_len_take:
  assumes "utf8_len s = k" and "0 < k"
  shows "utf8_len (take k s @ t) = k"
proof (cases s)
  case (Cons a u)
  with assms show ?thesis
    by (auto split: list.splits if_splits)
qed (use assms in simp)

lemma ascii_char: "in_range 0 0x7F a \<longleftrightarrow> (of_char a :: nat) < 128"
  by (auto simp: in_range_def)

lemma utf8_len_ascii: "in_range 0 0x7F a \<Longrightarrow> utf8_len (a # s) = 1"
  by simp

lemma hex_value_less: "hex_value c = Some n \<Longrightarrow> n < 16"
  by (auto simp: hex_value_def Let_def split: if_splits)

lemma hex4_byte: "hex4 (''00'' @ hex_byte c @ t) = Some (of_char c, t)"
proof -
  have "(of_char c :: nat) div 16 < 16" using of_char_less_256 [of c] by (simp add: less_mult_imp_div_less)
  then have "hex_value (hex_digit (of_char c div 16)) = Some (of_char c div 16)"
    "hex_value (hex_digit (of_char c mod 16)) = Some (of_char c mod 16)" by simp_all
  moreover have "hex_value (CHR ''0'') = Some 0" by (simp add: hex_value_def)
  ultimately show ?thesis by (simp add: hex_byte_def Let_def)
qed

lemma unicode_escape_byte: "in_range 0 0x7F c \<Longrightarrow> unicode_escape (of_char c) t = ([c], t)"
  by (simp add: unicode_escape_def utf8_encode_def ascii_char)

lemma of_char_eq: "(of_char a :: nat) = k \<longleftrightarrow> k < 256 \<and> a = char_of k"
  using of_char_less_256 [of a] by auto

lemma char_of_codes:
  "char_of (8 :: nat) = CHR 0x08" "char_of (12 :: nat) = CHR 0x0C" "char_of (10 :: nat) = CHR 0x0A"
  "char_of (13 :: nat) = CHR 0x0D" "char_of (9 :: nat) = CHR 0x09" "char_of (239 :: nat) = CHR 0xEF"
  "char_of (191 :: nat) = CHR 0xBF" "char_of (189 :: nat) = CHR 0xBD" "char_of (226 :: nat) = CHR 0xE2"
  "char_of (128 :: nat) = CHR 0x80" "char_of (168 :: nat) = CHR 0xA8" "char_of (169 :: nat) = CHR 0xA9"
  by code_simp+

lemma json_ascii_body:
  assumes "in_range 0 0x7F a"
  shows "string_body (json_ascii a @ t) = prepend [a] (string_body t)"
proof -
  let ?n = "of_char a :: nat"
  consider (escape) "a \<in> {CHR 0x22, CHR 0x5C} \<or> ?n \<in> {8, 12, 10, 13, 9}"
    | (hex) "a \<noteq> CHR 0x22 \<and> a \<noteq> CHR 0x5C" "?n \<notin> {8, 12, 10, 13, 9}"
        "?n < 32 \<or> a = CHR ''<'' \<or> a = CHR ''>'' \<or> a = CHR ''&''"
    | (plain) "a \<noteq> CHR 0x22 \<and> a \<noteq> CHR 0x5C" "32 \<le> ?n" "a \<noteq> CHR ''<''" "a \<noteq> CHR ''>''" "a \<noteq> CHR ''&''"
    by fastforce
  then show ?thesis
  proof cases
    case escape
    then have "a \<in> {CHR 0x22, CHR 0x5C, CHR 0x08, CHR 0x0C, CHR 0x0A, CHR 0x0D, CHR 0x09}"
      by (auto simp: of_char_eq char_of_codes)
    then show ?thesis
      by (elim insertE emptyE) (simp_all add: json_ascii_def backslash_def string_body_escape simple_escape_def)
  next
    case hex
    then have "json_ascii a @ t = CHR 0x5C # CHR ''u'' # (''00'' @ hex_byte a @ t)"
      by (auto simp: json_ascii_def backslash_def Let_def)
    then show ?thesis
      by (simp only: string_body_unicode hex4_byte) (simp add: unicode_escape_byte [OF assms])
  next
    case plain
    then have "json_ascii a = [a]" by (auto simp: json_ascii_def Let_def)
    with plain assms show ?thesis by (simp add: string_body_char)
  qed
qed

lemma string_body_escape4:
  assumes "hex4 (h @ t) = Some (r, t)" and "\<not> (0xD800 \<le> r \<and> r < 0xE000)"
  shows "string_body (backslash @ CHR ''u'' # h @ t) = prepend (utf8_encode r) (string_body t)"
proof -
  have "unicode_escape r t = (utf8_encode r, t)"
    using assms(2) unfolding unicode_escape_def by (rule if_not_P)
  with assms(1) show ?thesis by (simp add: backslash_def string_body_unicode)
qed

lemma escape_fffd: "string_body (backslash @ ''ufffd'' @ t) = prepend replacement (string_body t)"
  using string_body_escape4 [of "''fffd''" t "0xFFFD"]
  by (simp add: hex_value_def utf8_encode_def replacement_def char_of_codes)

lemma escape_2028: "string_body (backslash @ ''u2028'' @ t) = prepend [CHR 0xE2, CHR 0x80, CHR 0xA8] (string_body t)"
  using string_body_escape4 [of "''2028''" t "0x2028"]
  by (simp add: hex_value_def utf8_encode_def char_of_codes)

lemma escape_2029: "string_body (backslash @ ''u2029'' @ t) = prepend [CHR 0xE2, CHR 0x80, CHR 0xA9] (string_body t)"
  using string_body_escape4 [of "''2029''" t "0x2029"]
  by (simp add: hex_value_def utf8_encode_def char_of_codes)

lemmas escape_simps = escape_fffd [simplified] escape_2028 [simplified] escape_2029 [simplified]

lemma string_body_rune:
  assumes "\<not> in_range 0 0x7F a" and "utf8_len (a # s) = k" and "0 < k"
  shows "string_body (take k (a # s) @ t) = prepend (take k (a # s)) (string_body t)"
proof -
  obtain b where b: "take k (a # s) = a # b" using assms(3) by (cases k) auto
  have len: "utf8_len (a # b @ t) = k" using utf8_len_take [OF assms(2,3)] b by simp
  have "k \<le> length (a # s)" using utf8_len_le [of "a # s"] assms(2) by simp
  then have k: "k = length (a # b)" using b by (metis length_take min.absorb2)
  have "a \<noteq> CHR 0x22" "a \<noteq> CHR 0x5C" "\<not> (of_char a :: nat) < 32" using assms(1) by (auto simp: in_range_def)
  then have "string_body (a # b @ t) = prepend (take k (a # b @ t)) (string_body (drop k (a # b @ t)))"
    using len assms(3) by (simp add: string_body_char del: utf8_len.simps)
  then show ?thesis using b k by simp
qed

lemma utf8_len_separator:
  "take 3 (a # s) = [CHR 0xE2, CHR 0x80, c] \<Longrightarrow> c \<in> {CHR 0xA8, CHR 0xA9} \<Longrightarrow> utf8_len (a # s) = 3"
  by (cases s; cases "tl s") (auto simp: in_range_def)

lemma json_body_rune:
  assumes "\<not> in_range 0 0x7F a" and "utf8_len (a # s) = k" and "0 < k"
  obtains e where "json_body (a # s) = e @ json_body (drop k (a # s))"
    and "\<And>t. string_body (e @ t) = prepend (take k (a # s)) (string_body t)"
proof -
  consider (ls) "take 3 (a # s) = [CHR 0xE2, CHR 0x80, CHR 0xA8]"
    | (ps) "take 3 (a # s) = [CHR 0xE2, CHR 0x80, CHR 0xA9]"
    | (other) "take 3 (a # s) \<noteq> [CHR 0xE2, CHR 0x80, CHR 0xA8]" "take 3 (a # s) \<noteq> [CHR 0xE2, CHR 0x80, CHR 0xA9]"
    by blast
  then show ?thesis
  proof cases
    case ls
    have "k = 3" using utf8_len_separator [OF ls] assms(2) by simp
    then show ?thesis
      using that [of "backslash @ ''u2028''"] ls assms escape_2028
      by (simp add: Let_def del: utf8_len.simps take_Suc_Cons drop_Suc_Cons)
  next
    case ps
    have "k = 3" using utf8_len_separator [OF ps] assms(2) by simp
    then show ?thesis
      using that [of "backslash @ ''u2029''"] ps assms escape_2029
      by (simp add: Let_def del: utf8_len.simps take_Suc_Cons drop_Suc_Cons)
  next
    case other
    then have "json_body (a # s) = take k (a # s) @ json_body (drop k (a # s))"
      using assms(1,3) by (simp only: json_body.simps Let_def assms(2) if_False neq0_conv [symmetric])
    then show ?thesis by (rule that) (rule string_body_rune [OF assms])
  qed
qed

lemma string_body_json_body:
  "string_body (json_body s @ CHR 0x22 # rest) = Some (utf8_coerce s, rest)"
proof (induction s rule: json_body.induct)
  case 1
  show ?case by simp
next
  case (2 a s)
  show ?case
  proof (cases "in_range 0 0x7F a")
    case True
    with 2 show ?thesis
      by (simp add: json_ascii_body utf8_coerce.simps utf8_len_ascii del: utf8_len.simps)
  next
    case False
    define k where "k = utf8_len (a # s)"
    show ?thesis
    proof (cases "k = 0")
      case True
      with "2.IH"(2) [OF False k_def] False show ?thesis
        by (simp add: escape_simps utf8_coerce.simps k_def [symmetric] del: utf8_len.simps)
    next
      case pos: False
      have IH: "string_body (json_body (drop k (a # s)) @ CHR 0x22 # rest) = Some (utf8_coerce (drop k (a # s)), rest)"
        using "2.IH"(3,4,5) [OF False k_def pos] by blast
      obtain e where e: "json_body (a # s) = e @ json_body (drop k (a # s))"
        and step: "string_body (e @ t) = prepend (take k (a # s)) (string_body t)" for t
        using json_body_rune [OF False k_def [symmetric]] pos by blast
      have "utf8_coerce (a # s) = take k (a # s) @ utf8_coerce (drop k (a # s))"
        using pos unfolding utf8_coerce.simps k_def by simp
      with e step IH show ?thesis by (simp del: json_body.simps drop_Suc_Cons take_Suc_Cons)
    qed
  qed
qed

lemma utf8_valid_ascii: "\<forall>c \<in> set s. (of_char c :: nat) < 128 \<Longrightarrow> utf8_valid s"
  unfolding utf8_valid_def
proof (induction s)
  case (Cons a s)
  then have "utf8_len (a # s) = 1" by (intro utf8_len_ascii) (simp add: ascii_char)
  with Cons show ?case by (simp add: utf8_coerce.simps del: utf8_len.simps)
qed simp

section \<open>Documents\<close>

text \<open>A document of \<open>float64\<close> numbers and valid text, with distinct keys in every object.\<close>

fun plain :: "json \<Rightarrow> bool" where
  "plain JNull = True"
| "plain (JBool b) = True"
| "plain (JNum x) = float64 x"
| "plain (JStr s) = utf8_valid s"
| "plain (JArr vs) = (\<forall>v \<in> set vs. plain v)"
| "plain (JObj m) = (distinct (map fst m) \<and> (\<forall>k \<in> set (map fst m). utf8_valid k) \<and> (\<forall>v \<in> set (map snd m). plain v))"

fun nesting :: "json \<Rightarrow> nat" where
  "nesting (JArr vs) = Suc (Max (insert 0 (nesting ` set vs)))"
| "nesting (JObj m) = Suc (Max (insert 0 (nesting ` set (map snd m))))"
| "nesting _ = 0"

text \<open>The same document with the members of every object in the order of their keys.\<close>

fun sort_members :: "json \<Rightarrow> json" where
  "sort_members (JArr vs) = JArr (map sort_members vs)"
| "sort_members (JObj m) = JObj (sort_key fst (map (map_prod id sort_members) m))"
| "sort_members v = v"

lemma sort_key_map_prod: "sort_key fst (map (map_prod id f) m) = map (map_prod id f) (sort_key fst m)"
proof (induction m)
  case (Cons x m)
  have "insort_key fst (map_prod id f x) (map (map_prod id f) xs) = map (map_prod id f) (insort_key fst x xs)" for xs
    by (induction xs) auto
  with Cons show ?case by (simp only: list.map sort_key_simps)
qed simp

lemma next_byte_solid [simp]: "\<not> is_ws c \<Longrightarrow> next_byte (c # t) = Some (c, t)"
  by (simp add: next_byte_def skip_ws_def)

lemma skip_ws_solid [simp]: "\<not> is_ws c \<Longrightarrow> skip_ws (c # t) = c # t"
  by (simp add: skip_ws_def)

lemma not_ws [simp]:
  "\<not> is_ws (CHR 0x22)" "\<not> is_ws (CHR 0x7B)" "\<not> is_ws (CHR 0x7D)" "\<not> is_ws (CHR 0x5B)" "\<not> is_ws (CHR 0x5D)"
  "\<not> is_ws (CHR '','')" "\<not> is_ws (CHR '':'')" "\<not> is_ws (CHR ''t'')" "\<not> is_ws (CHR ''f'')" "\<not> is_ws (CHR ''n'')"
  by (simp_all add: is_ws_def)

lemma string_body_json_string: "utf8_valid s \<Longrightarrow> json_string s @ t = CHR 0x22 # u \<Longrightarrow> string_body u = Some (s, t)"
  by (auto simp: json_string_def utf8_valid_def string_body_json_body)

lemma json_value_string: "utf8_valid s \<Longrightarrow> json_value (Suc n) d (json_string s @ t) = Some (JStr s, t)"
  by (simp add: json_string_def utf8_valid_def string_body_json_body)

lemma member_key_string: "utf8_valid k \<Longrightarrow> member_key (json_string k @ CHR '':'' # t) = Some (k, t)"
  by (simp add: member_key_def json_string_def utf8_valid_def string_body_json_body)

lemma json_number_head:
  "json_number s = Some r \<Longrightarrow> \<exists>c t. s = c # t \<and> (c = CHR ''-'' \<or> is_digit c)"
  by (cases s rule: number_sign.cases)
    (auto simp: json_number_def number_int_def digits_of_def Let_def is_digit_def split: option.splits list.splits if_splits)

lemma digit_or_sign:
  "c = CHR ''-'' \<or> is_digit c \<Longrightarrow> \<not> is_ws c \<and> c \<notin> {CHR 0x22, CHR 0x7B, CHR 0x5B, CHR 0x5D, CHR ''t'', CHR ''f'', CHR ''n''}"
  by (auto simp: is_ws_def is_digit_def)

lemma float_head:
  assumes "float64 x"
  obtains c t where "json_float x = c # t" and "c = CHR ''-'' \<or> is_digit c"
  using json_number_head [OF json_float_reads [OF assms, of "[]"]] by (auto simp: number_end_def)

lemma marshal_head:
  assumes "plain v"
  obtains c t where "json_marshal v = c # t" and "\<not> is_ws c" and "c \<noteq> CHR 0x5D"
proof (cases v)
  case (JNum x)
  with assms obtain c t where "json_float x = c # t" "c = CHR ''-'' \<or> is_digit c" by (auto elim: float_head)
  with JNum digit_or_sign [of c] show ?thesis using that by simp
qed (use that in \<open>cases "v = JBool True"; auto simp: json_string_def json_object_def\<close>)+

lemma json_value_number:
  assumes "float64 x" and "number_end rest"
  shows "json_value (Suc n) d (json_float x @ rest) = Some (JNum x, rest)"
proof -
  obtain c t where c: "json_float x = c # t" "c = CHR ''-'' \<or> is_digit c" using assms(1) by (rule float_head)
  note ct = digit_or_sign [OF c(2)]
  have "json_scalar (c # t @ rest) = Some (JNum x, rest)"
    using json_float_reads [OF assms] c ct by (auto simp: json_scalar_def)
  with c ct show ?thesis by simp
qed

lemma aput_fresh: "k \<notin> fst ` set m \<Longrightarrow> aput k v m = m @ [(k, v)]"
  by (induction m) auto

text \<open>What follows an element or a member does not continue a number.\<close>

lemma number_end_after [simp]:
  "number_end []" "number_end (CHR '','' # t)" "number_end (CHR 0x5D # t)" "number_end (CHR 0x7D # t)"
  by (simp_all add: number_end_def is_digit_def)

definition reads_back :: "json \<Rightarrow> bool" where
  "reads_back v \<longleftrightarrow> (\<forall>n d rest. d + nesting v \<le> max_depth \<longrightarrow> 2 * length (json_marshal v) + 1 \<le> n \<longrightarrow>
     number_end rest \<longrightarrow> json_value n d (json_marshal v @ rest) = Some (sort_members v, rest))"

lemma elems_read_back:
  assumes "\<forall>v \<in> set vs. reads_back v \<and> d + nesting v \<le> max_depth" and "vs \<noteq> []"
    and "2 * length (Join (map json_marshal vs) '','') + 2 \<le> n"
  shows "json_elems n d (Join (map json_marshal vs) '','' @ CHR 0x5D # rest) = Some (map sort_members vs, rest)"
  using assms
proof (induction vs arbitrary: n)
  case (Cons v vs)
  obtain m where n: "n = Suc m" using Cons.prems(3) by (cases n) auto
  have v: "json_value m d (json_marshal v @ t) = Some (sort_members v, t)" if "2 * length (json_marshal v) + 1 \<le> m" "number_end t" for t
    using Cons.prems(1) that by (simp add: reads_back_def)
  show ?case
  proof (cases vs)
    case Nil
    with Cons.prems n v show ?thesis by simp
  next
    case (Cons w ws)
    with Cons.prems n v Cons.IH [of m] show ?thesis by simp
  qed
qed simp

abbreviation member_text :: "string \<times> json \<Rightarrow> string" where
  "member_text \<equiv> (\<lambda>(k, v). json_string k @ '':'' @ json_marshal v)"

lemma members_read_back:
  assumes "\<forall>(k, v) \<in> set m. utf8_valid k \<and> reads_back v \<and> d + nesting v \<le> max_depth" and "m \<noteq> []"
    and "distinct (map fst (acc @ m))" and "2 * length (Join (map member_text m) '','') + 2 \<le> n"
  shows "json_members n d acc (Join (map member_text m) '','' @ CHR 0x7D # rest)
      = Some (acc @ map (map_prod id sort_members) m, rest)"
  using assms
proof (induction m arbitrary: n acc)
  case (Cons kv m)
  obtain k v where kv: "kv = (k, v)" by (cases kv) auto
  obtain i where n: "n = Suc i" using Cons.prems(4) by (cases n) auto
  have v: "json_value i d (json_marshal v @ t) = Some (sort_members v, t)" if "2 * length (json_marshal v) + 1 \<le> i" "number_end t" for t
    using Cons.prems(1) that kv by (simp add: reads_back_def)
  have key: "member_key (json_string k @ CHR '':'' # t) = Some (k, t)" for t
    using Cons.prems(1) kv by (simp add: member_key_string)
  have put: "aput k x acc = acc @ [(k, x)]" for x
    using Cons.prems(3) kv by (intro aput_fresh) auto
  show ?case
  proof (cases m)
    case Nil
    with Cons.prems n v key put kv show ?thesis by simp
  next
    case (Cons w ws)
    with Cons.prems n v key put kv Cons.IH [of "acc @ [(k, sort_members v)]" i] show ?thesis by simp
  qed
qed simp

lemma plain_reads_back: "plain v \<Longrightarrow> reads_back v"
proof (induction v)
  case JNull
  have "json_value n d (''null'' @ rest) = Some (JNull, rest)" if "0 < n" for n d rest
    using that by (cases n) (simp_all add: json_scalar_def)
  then show ?case unfolding reads_back_def by simp
next
  case (JBool b)
  have "json_value n d ((if b then ''true'' else ''false'') @ rest) = Some (JBool b, rest)" if "0 < n" for n d rest
    using that by (cases n) (simp_all add: json_scalar_def)
  then show ?case unfolding reads_back_def by simp
next
  case (JNum x)
  then have "json_value n d (json_float x @ rest) = Some (JNum x, rest)" if "0 < n" "number_end rest" for n d rest
    using that json_value_number by (cases n) (simp_all del: json_value.simps)
  then show ?case unfolding reads_back_def by simp
next
  case (JStr s)
  then show ?case
    unfolding reads_back_def using json_value_string
    by (auto simp del: json_value.simps) (metis Suc_le_D)
next
  case (JArr vs)
  then have all: "\<forall>v \<in> set vs. plain v \<and> reads_back v" by auto
  show ?case
    unfolding reads_back_def
  proof (intro allI impI)
    fix n d rest
    assume depth: "d + nesting (JArr vs) \<le> max_depth" and fuel: "2 * length (json_marshal (JArr vs)) + 1 \<le> n"
      and "number_end rest"
    obtain m where n: "n = Suc m" using fuel by (cases n) auto
    have inner: "\<forall>v \<in> set vs. reads_back v \<and> Suc d + nesting v \<le> max_depth"
    proof
      fix v assume "v \<in> set vs"
      then have "Suc (d + nesting v) \<le> d + nesting (JArr vs)" by simp
      then have "Suc d + nesting v \<le> max_depth" using depth by linarith
      with all \<open>v \<in> set vs\<close> show "reads_back v \<and> Suc d + nesting v \<le> max_depth" by blast
    qed
    show "json_value n d (json_marshal (JArr vs) @ rest) = Some (sort_members (JArr vs), rest)"
    proof (cases vs)
      case Nil
      with n depth show ?thesis by simp
    next
      case (Cons w ws)
      have "plain w" using all Cons by simp
      then obtain c t where "json_marshal w = c # t" "\<not> is_ws c" "c \<noteq> CHR 0x5D" by (rule marshal_head)
      then have "map_option fst (next_byte (Join (map json_marshal vs) '','' @ CHR 0x5D # rest)) \<noteq> Some (CHR 0x5D)"
        using Cons by (cases ws) simp_all
      moreover have "json_elems m (Suc d) (Join (map json_marshal vs) '','' @ CHR 0x5D # rest)
          = Some (map sort_members vs, rest)"
        using fuel n Cons by (intro elems_read_back [OF inner]) simp_all
      ultimately show ?thesis using n depth by simp
    qed
  qed
next
  case (JObj m)
  define m' where "m' = sort_key fst m"
  have "mset (map fst m') = mset (map fst m)"
    by (simp add: m'_def)
  then have "distinct (map fst m')"
    using JObj.prems mset_eq_imp_distinct_iff plain.simps(6) by blast
  then have set: "set m' = set m" "distinct (map fst m')"
    by (simp_all add: m'_def)
  have all: "\<forall>(k, v) \<in> set m'. utf8_valid k \<and> reads_back v"
    using JObj set by (fastforce simp: snds.simps)
  have doc: "json_marshal (JObj m) = CHR 0x7B # Join (map member_text m') '','' @ [CHR 0x7D]"
    by (simp add: json_object_def sort_key_map_prod m'_def comp_def case_prod_unfold)
  show ?case
    unfolding reads_back_def
  proof (intro allI impI)
    fix n d rest
    assume depth: "d + nesting (JObj m) \<le> max_depth" and fuel: "2 * length (json_marshal (JObj m)) + 1 \<le> n"
      and "number_end rest"
    obtain i where n: "n = Suc i" using fuel by (cases n) auto
    have inner: "\<forall>(k, v) \<in> set m'. utf8_valid k \<and> reads_back v \<and> Suc d + nesting v \<le> max_depth"
    proof clarify
      fix k v assume kv: "(k, v) \<in> set m'"
      then have "v \<in> set (map snd m)" using set by force
      then have "Suc (d + nesting v) \<le> d + nesting (JObj m)" by simp
      then have "Suc d + nesting v \<le> max_depth" using depth by linarith
      with all kv show "utf8_valid k \<and> reads_back v \<and> Suc d + nesting v \<le> max_depth" by blast
    qed
    show "json_value n d (json_marshal (JObj m) @ rest) = Some (sort_members (JObj m), rest)"
    proof (cases m')
      case Nil
      then have "m = []" using set by simp
      with n depth show ?thesis by (simp add: json_object_def)
    next
      case (Cons w ws)
      have "map_option fst (next_byte (Join (map member_text m') '','' @ CHR 0x7D # rest)) \<noteq> Some (CHR 0x7D)"
        using Cons by (cases ws) (simp_all add: json_string_def split: prod.splits)
      moreover have "json_members i (Suc d) [] (Join (map member_text m') '','' @ CHR 0x7D # rest)
          = Some (map (map_prod id sort_members) m', rest)"
        using fuel n Cons set doc members_read_back [OF inner, of "[]" i rest] by simp
      ultimately show ?thesis
        using n depth unfolding doc by (simp add: sort_key_map_prod m'_def [symmetric])
    qed
  qed
qed

lemma json_document_roundtrip:
  assumes "plain v" and "nesting v \<le> max_depth"
  shows "json_parse (json_marshal v) = Some (sort_members v)"
proof -
  have "json_value (2 * length (json_marshal v) + 2) 0 (json_marshal v @ []) = Some (sort_members v, [])"
    using plain_reads_back [OF assms(1)] assms(2) unfolding reads_back_def by (simp del: json_value.simps append_Nil2)
  then show ?thesis by (simp add: json_parse_def skip_ws_def del: json_value.simps)
qed
end
