(* ===== verification/OpencodePermissions.thy ===== *)
theory OpencodePermissions
  imports Permissions JsonLaws Model
begin

text \<open>
  The OpenCode permission adapter (\<^verbatim>\<open>opencode/permissions.go\<close>, with \<open>withSnapshotConfig\<close> and
  \<open>setEnvValue\<close> of \<^verbatim>\<open>opencode/runtime.go\<close>): a permission policy is translated to OpenCode's native
  configuration and merged, as JSON, into the environment of the subprocess. Maps are visited in the
  order of their association lists; the theorems hold for every order. The wording of a JSON error
  is the parameter \<open>jerr\<close>. A write to a nil map is the outcome \<open>EnvPanic\<close>.
\<close>

section \<open>Translation\<close>

abbreviation opencodeConfigContentEnv :: string where
  "opencodeConfigContentEnv \<equiv> ''OPENCODE_CONFIG_CONTENT=''"

abbreviation PermissionToolExternalDirectory :: PermissionTool where
  "PermissionToolExternalDirectory \<equiv> ''external_directory''"

definition opencodePermissionTools :: "(PermissionTool \<times> string) list" where
  "opencodePermissionTools =
     [(''read'', ''read''), (''edit'', ''edit''), (''write'', ''edit''), (''patch'', ''edit''),
      (''shell'', ''bash''), (''bash'', ''bash''), (''glob'', ''glob''), (''search'', ''grep''),
      (''list'', ''list''), (''task'', ''task''), (''todo'', ''todowrite''), (''question'', ''question''),
      (''web_fetch'', ''webfetch''), (''web_search'', ''websearch''), (''repo_clone'', ''repo_clone''),
      (''repo_overview'', ''repo_overview''), (''external_directory'', ''external_directory''),
      (''doom_loop'', ''doom_loop''), (''language_server'', ''lsp''), (''skill'', ''skill'')]"

type_synonym native_config = "(string \<times> json) list"

record permissionTranslation =
  pt_config :: "native_config option"
  pt_metadata :: PermissionMetadata

definition unsupportedFeature ::
  "string \<Rightarrow> PermissionUnsupportedBehavior \<Rightarrow> string \<Rightarrow> PermissionFeatureSupport" where
  "unsupportedFeature feature behavior reason =
     \<lparr>pfs_Feature = feature,
      pfs_Enforcement = (if behavior = PermissionUnsupportedBestEffort then PermissionEnforcementBestEffort
                         else PermissionEnforcementUnsupported),
      pfs_Reason = reason\<rparr>"

definition unsupportedPermissionError :: "PermissionFeatureSupport \<Rightarrow> SDKError" where
  "unsupportedPermissionError feature =
     NewError ErrorConfiguration ''opencode permissions'' (pfs_Reason feature) None
       [WithDebugDetail (pfs_Feature feature)]"

definition add_support :: "PermissionFeatureSupport \<Rightarrow> PermissionMetadata \<Rightarrow> PermissionMetadata" where
  "add_support f md = md\<lparr>pm_Support := pm_Support md @ [f]\<rparr>"

definition add_audit :: "PermissionTool \<Rightarrow> PermissionAction \<Rightarrow> string \<Rightarrow> PermissionMetadata \<Rightarrow> PermissionMetadata" where
  "add_audit tool action reason md =
     md\<lparr>pm_Audit := pm_Audit md @
        [\<lparr>pa_Source = ''opencode.config'', pa_Tool = tool, pa_Action = action,
          pa_Enforcement = PermissionEnforcementNative, pa_Reason = reason, pa_Metadata = None\<rparr>]\<rparr>"

text \<open>The loop over the tools of a policy.\<close>

fun translate_tools ::
  "PermissionUnsupportedBehavior \<Rightarrow> (PermissionTool \<times> PermissionAction) list
   \<Rightarrow> (string \<times> PermissionAction) list \<Rightarrow> native_config \<Rightarrow> PermissionMetadata
   \<Rightarrow> SDKError + (native_config \<times> PermissionMetadata)" where
  "translate_tools behavior [] explicit config md = Inr (config, md)"
| "translate_tools behavior ((tool, action) # rest) explicit config md =
     (case aget opencodePermissionTools tool of
        None \<Rightarrow>
          (let unsupported = unsupportedFeature tool behavior
                 ''OpenCode subprocess permission config has no native tool mapping'';
               md' = (add_support unsupported md)\<lparr>pm_Unsupported := pm_Unsupported md @ [unsupported]\<rparr>
           in if behavior \<noteq> PermissionUnsupportedBestEffort then Inl (unsupportedPermissionError unsupported)
              else translate_tools behavior rest explicit config md')
      | Some nativeTool \<Rightarrow>
          if action = PermissionActionDefault then translate_tools behavior rest explicit config md
          else if (case aget explicit nativeTool of None \<Rightarrow> False | Some previous \<Rightarrow> previous \<noteq> action) then
            Inl (NewError ErrorConfiguration ''opencode permissions''
                   (''permission aliases for OpenCode tool '' @ go_quote nativeTool @ '' have conflicting actions'')
                   None [WithDebugDetail tool])
          else
            translate_tools behavior rest (aput nativeTool action explicit)
              (aput nativeTool (JStr (permission_action_string action)) config)
              (add_audit tool action ''initialized from SDK permission policy''
                 (add_support
                    \<lparr>pfs_Feature = tool, pfs_Enforcement = PermissionEnforcementNative,
                     pfs_Reason = ''mapped to OpenCode permission '' @ go_quote nativeTool\<rparr> md)))"

text \<open>The loop over the path rules.\<close>

definition rule_paths :: "native_config \<Rightarrow> native_config" where
  "rule_paths config =
     (case aget config PermissionToolExternalDirectory of
        Some (JObj paths) \<Rightarrow> paths
      | Some fallback \<Rightarrow> [(''*'', fallback)]
      | None \<Rightarrow> [])"

definition apply_rule :: "PermissionPathRule \<Rightarrow> native_config \<Rightarrow> native_config" where
  "apply_rule rule config =
     aput PermissionToolExternalDirectory
       (JObj (aput (rule_Path rule) (JStr (permission_action_string (rule_Action rule))) (rule_paths config))) config"

fun translate_rules ::
  "PermissionPathRule list \<Rightarrow> native_config \<Rightarrow> PermissionMetadata \<Rightarrow> native_config \<times> PermissionMetadata" where
  "translate_rules [] config md = (config, md)"
| "translate_rules (rule # rest) config md =
     translate_rules rest (apply_rule rule config)
       (add_audit PermissionToolExternalDirectory (rule_Action rule) ''initialized from SDK path permission rule''
          (add_support
             \<lparr>pfs_Feature = ''path:'' @ rule_Path rule, pfs_Enforcement = PermissionEnforcementNative,
              pfs_Reason = ''mapped to OpenCode external_directory path permissions''\<rparr> md))"

definition default_config :: "PermissionPolicy \<Rightarrow> native_config" where
  "default_config p =
     (if pp_Default p \<noteq> PermissionActionDefault
      then foldl (\<lambda>c (tool, nativeTool). aput nativeTool (JStr (permission_action_string (pp_Default p))) c) []
             opencodePermissionTools
      else [])"

definition translatePermissions :: "RunRequest \<Rightarrow> SDKError + permissionTranslation" where
  "translatePermissions req =
     (let metadata = zero_PermissionMetadata\<lparr>pm_Mode := req_Permissions req\<rparr>
      in case req_PermissionPolicy req of
           None \<Rightarrow> Inr \<lparr>pt_config = None, pt_metadata = metadata\<rparr>
         | Some p \<Rightarrow>
             (case ValidatePermissionPolicy (Some p) of
                Some err \<Rightarrow> Inl err
              | None \<Rightarrow>
                  (let md1 = metadata\<lparr>pm_Policy := policy_Summary p, pm_PolicyID := pps_ID (policy_Summary p)\<rparr>;
                       md2 = (if pp_Default p \<noteq> PermissionActionDefault
                              then add_support
                                     \<lparr>pfs_Feature = ''default'', pfs_Enforcement = PermissionEnforcementNative,
                                      pfs_Reason = ''expanded to OpenCode native tool permissions''\<rparr> md1
                              else md1)
                   in case translate_tools (pp_UnsupportedBehavior p) (entries (pp_Tools p)) [] (default_config p) md2 of
                        Inl err \<Rightarrow> Inl err
                      | Inr (config, md3) \<Rightarrow>
                          (let (config', md4) = translate_rules (pp_PathRules p) config md3
                           in Inr \<lparr>pt_config = (if config' = [] then None else Some config'), pt_metadata = md4\<rparr>))))"

section \<open>The environment\<close>

datatype env_outcome =
    EnvOk "string list"
  | EnvErr SDKError
  | EnvPanic

text \<open>
  \<open>json.Unmarshal\<close> into a map that may hold members already: they are overwritten key by key, and
  null makes the map nil.
\<close>

definition unmarshal_into :: "string \<Rightarrow> native_config option \<Rightarrow> native_config option option" where
  "unmarshal_into s existing =
     (case json_parse_map s of
        None \<Rightarrow> None
      | Some None \<Rightarrow> Some None
      | Some (Some m) \<Rightarrow> Some (Some (foldl (\<lambda>e (k, v). aput k v e) (entries existing) m)))"

text \<open>The loop both functions share: the other entries in order, and the configuration found.\<close>

fun collect_config :: "string list \<Rightarrow> native_config option \<Rightarrow> string + (string list \<times> native_config option)" where
  "collect_config [] existing = Inr ([], existing)"
| "collect_config (item # rest) existing =
     (if HasPrefix item opencodeConfigContentEnv then
        (case unmarshal_into (TrimPrefix item opencodeConfigContentEnv) existing of
           None \<Rightarrow> Inl (TrimPrefix item opencodeConfigContentEnv)
         | Some existing' \<Rightarrow> collect_config rest existing')
      else map_sum id (\<lambda>(out, e). (item # out, e)) (collect_config rest existing))"

definition mergeEnv :: "(string \<Rightarrow> go_error) \<Rightarrow> string list \<Rightarrow> native_config option \<Rightarrow> env_outcome" where
  "mergeEnv jerr base permissionConfig =
     (if entries permissionConfig = [] then EnvOk base
      else case collect_config base (Some []) of
             Inl body \<Rightarrow> EnvErr (NewError ErrorConfiguration ''opencode permissions''
               ''existing OPENCODE_CONFIG_CONTENT is not valid JSON'' (Some (jerr body)) [])
           | Inr (out, existing) \<Rightarrow>
               (let finish = (\<lambda>permission.
                      case existing of
                        None \<Rightarrow> EnvPanic
                      | Some e \<Rightarrow>
                          (let permission' = foldl (\<lambda>m (k, v). aput k v m) permission (entries permissionConfig)
                           in EnvOk (out @ [opencodeConfigContentEnv @
                                json_marshal (JObj (aput ''permission'' (JObj permission') e))])))
                in case aget (entries existing) ''permission'' of
                     None \<Rightarrow> finish []
                   | Some (JObj permission) \<Rightarrow> finish permission
                   | Some _ \<Rightarrow> EnvErr (NewError ErrorConfiguration ''opencode permissions''
                       ''existing OPENCODE_CONFIG_CONTENT permission value must be an object'' None [])))"

definition withSnapshotConfig :: "(string \<Rightarrow> go_error) \<Rightarrow> string list \<Rightarrow> bool \<Rightarrow> env_outcome" where
  "withSnapshotConfig jerr env enabled =
     (case collect_config env (Some []) of
        Inl body \<Rightarrow> EnvErr (NewError ErrorConfiguration ''opencode snapshots''
          ''existing OPENCODE_CONFIG_CONTENT is not valid JSON'' (Some (jerr body)) [])
      | Inr (result, config) \<Rightarrow>
          (case config of
             None \<Rightarrow> EnvPanic
           | Some c \<Rightarrow>
               EnvOk (result @ [opencodeConfigContentEnv @ json_marshal (JObj (aput ''snapshot'' (JBool enabled) c))])))"

definition setEnvValue :: "string list \<Rightarrow> string \<Rightarrow> string \<Rightarrow> string list" where
  "setEnvValue env key v =
     filter (\<lambda>item. \<not> HasPrefix item (key @ ''='')) env @ [key @ ''='' @ v]"

section \<open>What a policy states of a native tool\<close>

definition stated :: "(PermissionTool \<times> PermissionAction) list \<Rightarrow> string \<Rightarrow> PermissionAction set" where
  "stated tools n = {a. a \<noteq> PermissionActionDefault \<and> (\<exists>t. (t, a) \<in> set tools \<and> aget opencodePermissionTools t = Some n)}"

lemma stated_Nil [simp]: "stated [] n = {}"
  by (simp add: stated_def)

lemma stated_Cons:
  "stated ((t, a) # tools) n =
     (if a \<noteq> PermissionActionDefault \<and> aget opencodePermissionTools t = Some n then {a} else {}) \<union> stated tools n"
  by (auto simp: stated_def)

definition all_native :: "(PermissionTool \<times> PermissionAction) list \<Rightarrow> bool" where
  "all_native tools \<longleftrightarrow> (\<forall>t \<in> fst ` set tools. aget opencodePermissionTools t \<noteq> None)"

lemma translate_tools_Inr:
  assumes "translate_tools behavior tools explicit config md = Inr (config', md')"
  shows "(behavior = PermissionUnsupportedBestEffort \<or> all_native tools)
    \<and> (\<forall>n. \<forall>a \<in> stated tools n \<union> set_option (aget explicit n). \<forall>b \<in> stated tools n. a = b)
    \<and> (\<forall>n a. a \<in> stated tools n \<longrightarrow> aget config' n = Some (JStr (permission_action_string a)))
    \<and> (\<forall>n. stated tools n = {} \<longrightarrow> aget config' n = aget config n)
    \<and> (distinct (map fst config) \<longrightarrow> distinct (map fst config'))"
  using assms
proof (induction behavior tools explicit config md rule: translate_tools.induct)
  case (2 behavior tool action rest explicit config md)
  show ?case
  proof (cases "aget opencodePermissionTools tool")
    case None
    with "2.prems" have be: "behavior = PermissionUnsupportedBestEffort" by (auto simp: Let_def split: if_splits)
    have "stated ((tool, action) # rest) n = stated rest n" for n using None by (simp add: stated_Cons)
    then show ?thesis using "2.IH"(1) [OF None refl refl] "2.prems" None be by (simp add: Let_def)
  next
    case (Some nt)
    show ?thesis
    proof (cases "action = PermissionActionDefault")
      case True
      then have "stated ((tool, action) # rest) n = stated rest n" for n by (simp add: stated_Cons)
      then show ?thesis using "2.IH"(2) [OF Some True] "2.prems" Some True by (simp add: all_native_def)
    next
      case False
      from "2.prems" Some False have ok: "\<not> (case aget explicit nt of None \<Rightarrow> False | Some previous \<Rightarrow> previous \<noteq> action)"
        by (auto split: if_splits)
      have run: "translate_tools behavior rest (aput nt action explicit)
              (aput nt (JStr (permission_action_string action)) config)
              (add_audit tool action ''initialized from SDK permission policy''
                 (add_support
                    \<lparr>pfs_Feature = tool, pfs_Enforcement = PermissionEnforcementNative,
                     pfs_Reason = ''mapped to OpenCode permission '' @ go_quote nt\<rparr> md)) = Inr (config', md')"
        using "2.prems" Some False ok by simp
      note IH = "2.IH"(3) [OF Some False ok run]
      have st: "stated ((tool, action) # rest) n = (if n = nt then {action} else {}) \<union> stated rest n" for n
        using Some False by (auto simp: stated_Cons)
      have ex: "set_option (aget explicit nt) \<subseteq> {action}"
        using ok by (auto split: option.splits)
      from IH have agree: "\<forall>a \<in> stated rest n \<union> set_option (aget (aput nt action explicit) n). \<forall>b \<in> stated rest n. a = b" for n
        by blast
      have rest: "stated rest nt \<subseteq> {action}" using agree [of nt] by auto
      have nt: "aget config' nt = Some (JStr (permission_action_string action))"
        using IH rest by (cases "stated rest nt = {}") auto
      show ?thesis
      proof (intro conjI allI ballI impI)
        show "behavior = PermissionUnsupportedBestEffort \<or> all_native ((tool, action) # rest)"
          using IH Some by (auto simp: all_native_def)
        show "a = b" if "a \<in> stated ((tool, action) # rest) n \<union> set_option (aget explicit n)"
          "b \<in> stated ((tool, action) # rest) n" for n a b
          using that ex rest agree [of n] by (cases "n = nt") (auto simp: st)
        show "aget config' n = Some (JStr (permission_action_string a))" if "a \<in> stated ((tool, action) # rest) n" for n a
          using that IH nt rest by (cases "n = nt") (auto simp: st)
        show "aget config' n = aget config n" if "stated ((tool, action) # rest) n = {}" for n
          using that IH by (cases "n = nt") (auto simp: st)
        show "distinct (map fst config')" if "distinct (map fst config)"
          using that IH by simp
      qed
    qed
  qed
qed (simp add: all_native_def)

lemma translate_tools_Inl:
  assumes "translate_tools behavior tools explicit config md = Inl e"
  shows "err_Category e = ErrorConfiguration
    \<and> (behavior \<noteq> PermissionUnsupportedBestEffort \<and> \<not> all_native tools
       \<or> (\<exists>n. \<exists>a \<in> stated tools n \<union> set_option (aget explicit n). \<exists>b \<in> stated tools n. a \<noteq> b))"
  using assms
proof (induction behavior tools explicit config md rule: translate_tools.induct)
  case (2 behavior tool action rest explicit config md)
  show ?case
  proof (cases "aget opencodePermissionTools tool")
    case None
    have st: "stated ((tool, action) # rest) n = stated rest n" for n using None by (simp add: stated_Cons)
    show ?thesis
    proof (cases "behavior = PermissionUnsupportedBestEffort")
      case True
      with "2.IH"(1) [OF None refl refl] "2.prems" None st show ?thesis by (simp add: Let_def)
    next
      case False
      with "2.prems" None show ?thesis
        by (auto simp: Let_def all_native_def unsupportedPermissionError_def)
    qed
  next
    case (Some nt)
    show ?thesis
    proof (cases "action = PermissionActionDefault")
      case True
      then have "stated ((tool, action) # rest) n = stated rest n" for n by (simp add: stated_Cons)
      then show ?thesis using "2.IH"(2) [OF Some True] "2.prems" Some True by (auto simp: all_native_def)
    next
      case False
      have st: "stated ((tool, action) # rest) n = (if n = nt then {action} else {}) \<union> stated rest n" for n
        using Some False by (auto simp: stated_Cons)
      show ?thesis
      proof (cases "case aget explicit nt of None \<Rightarrow> False | Some previous \<Rightarrow> previous \<noteq> action")
        case True
        with "2.prems" Some False have "err_Category e = ErrorConfiguration" by auto
        moreover have "\<exists>a \<in> stated ((tool, action) # rest) nt \<union> set_option (aget explicit nt).
            \<exists>b \<in> stated ((tool, action) # rest) nt. a \<noteq> b"
          using True by (auto simp: st split: option.splits)
        ultimately show ?thesis by blast
      next
        case ok: False
        then have run: "translate_tools behavior rest (aput nt action explicit)
              (aput nt (JStr (permission_action_string action)) config)
              (add_audit tool action ''initialized from SDK permission policy''
                 (add_support
                    \<lparr>pfs_Feature = tool, pfs_Enforcement = PermissionEnforcementNative,
                     pfs_Reason = ''mapped to OpenCode permission '' @ go_quote nt\<rparr> md)) = Inl e"
          using "2.prems" Some False by simp
        note IH = "2.IH"(3) [OF Some False ok run]
        then show ?thesis
        proof (elim conjE disjE)
          assume "\<exists>n. \<exists>a \<in> stated rest n \<union> set_option (aget (aput nt action explicit) n). \<exists>b \<in> stated rest n. a \<noteq> b"
          then obtain n a b where "a \<in> stated rest n \<union> set_option (aget (aput nt action explicit) n)" "b \<in> stated rest n" "a \<noteq> b"
            by blast
          then have "\<exists>n. \<exists>a \<in> stated ((tool, action) # rest) n \<union> set_option (aget explicit n).
              \<exists>b \<in> stated ((tool, action) # rest) n. a \<noteq> b"
            by (intro exI [of _ n]) (auto simp: st split: if_splits)
          with IH show ?thesis by blast
        qed (use IH in \<open>auto simp: all_native_def\<close>)
      qed
    qed
  qed
qed simp

lemma foldl_aput_const:
  "aget (foldl (\<lambda>c (t, n). aput n x c) c0 kvs) k = (if k \<in> snd ` set kvs then Some x else aget c0 k)"
  by (induction kvs arbitrary: c0) (auto split: if_splits)

lemma foldl_aput_const_distinct:
  "distinct (map fst c0) \<Longrightarrow> distinct (map fst (foldl (\<lambda>c (t, n). aput n x c) c0 kvs))"
  by (induction kvs arbitrary: c0) auto

abbreviation native_tools :: "string set" where
  "native_tools \<equiv> snd ` set opencodePermissionTools"

lemma aget_default_config:
  "aget (default_config p) n =
     (if pp_Default p \<noteq> PermissionActionDefault \<and> n \<in> native_tools
      then Some (JStr (permission_action_string (pp_Default p))) else None)"
  by (simp add: default_config_def foldl_aput_const)

lemma distinct_default_config: "distinct (map fst (default_config p))"
  by (simp add: default_config_def foldl_aput_const_distinct)

subsection \<open>Path rules\<close>

lemma translate_rules_fst: "fst (translate_rules rules config md) = foldl (\<lambda>c r. apply_rule r c) config rules"
  by (induction rules arbitrary: config md) simp_all

lemma apply_rules_other:
  "n \<noteq> PermissionToolExternalDirectory \<Longrightarrow> aget (foldl (\<lambda>c r. apply_rule r c) config rules) n = aget config n"
  by (induction rules arbitrary: config) (simp_all add: apply_rule_def)

lemma rule_paths_apply:
  "rule_paths (apply_rule r config) = aput (rule_Path r) (JStr (permission_action_string (rule_Action r))) (rule_paths config)"
  by (simp add: rule_paths_def apply_rule_def)

text \<open>The last rule for a path decides; the action of the tool itself stays under the pattern \<open>*\<close>.\<close>

definition rule_for :: "PermissionPathRule list \<Rightarrow> string \<Rightarrow> PermissionPathRule option" where
  "rule_for rules path = find (\<lambda>r. rule_Path r = path) (rev rules)"

lemma rule_for_snoc: "rule_for (rules @ [r]) path = (if rule_Path r = path then Some r else rule_for rules path)"
  by (simp add: rule_for_def)

lemma apply_rules_paths:
  "aget (rule_paths (foldl (\<lambda>c r. apply_rule r c) config rules)) path =
     (case rule_for rules path of
        Some r \<Rightarrow> Some (JStr (permission_action_string (rule_Action r)))
      | None \<Rightarrow> aget (rule_paths config) path)"
proof (induction rules rule: rev_induct)
  case Nil
  then show ?case by (simp add: rule_for_def)
next
  case (snoc r rules)
  then show ?case by (simp add: rule_paths_apply rule_for_snoc)
qed

lemma apply_rules_paths_distinct:
  "distinct (map fst (rule_paths config)) \<Longrightarrow>
     distinct (map fst (rule_paths (foldl (\<lambda>c r. apply_rule r c) config rules)))"
  by (induction rules arbitrary: config) (simp_all add: rule_paths_apply)

lemma apply_rules_object:
  "rules \<noteq> [] \<Longrightarrow> aget (foldl (\<lambda>c r. apply_rule r c) config rules) PermissionToolExternalDirectory
     = Some (JObj (rule_paths (foldl (\<lambda>c r. apply_rule r c) config rules)))"
  by (cases rules rule: rev_cases) (simp_all add: apply_rule_def rule_paths_apply, simp add: rule_paths_def apply_rule_def)

lemma apply_rules_distinct:
  "distinct (map fst config) \<Longrightarrow> distinct (map fst (foldl (\<lambda>c r. apply_rule r c) config rules))"
  by (induction rules arbitrary: config) (simp_all add: apply_rule_def)

section \<open>What the translation promises\<close>

definition translatable :: "PermissionPolicy \<Rightarrow> bool" where
  "translatable p \<longleftrightarrow>
     policy_ok p
     \<and> (pp_UnsupportedBehavior p = PermissionUnsupportedBestEffort \<or> all_native (entries (pp_Tools p)))
     \<and> (\<forall>n. \<forall>a \<in> stated (entries (pp_Tools p)) n. \<forall>b \<in> stated (entries (pp_Tools p)) n. a = b)"

text \<open>The action in force for a native tool: the one stated for it, else the default of the policy.\<close>

definition tool_action :: "PermissionPolicy \<Rightarrow> string \<Rightarrow> PermissionAction option" where
  "tool_action p n =
     (let named = filter (\<lambda>(t, a). a \<noteq> PermissionActionDefault \<and> aget opencodePermissionTools t = Some n) (entries (pp_Tools p))
      in if named \<noteq> [] then Some (snd (hd named))
         else if pp_Default p \<noteq> PermissionActionDefault \<and> n \<in> native_tools then Some (pp_Default p) else None)"

lemma tool_action_stated:
  "tool_action p n =
     (if stated (entries (pp_Tools p)) n = {}
      then (if pp_Default p \<noteq> PermissionActionDefault \<and> n \<in> native_tools then Some (pp_Default p) else None)
      else Some (snd (hd (filter (\<lambda>(t, a). a \<noteq> PermissionActionDefault \<and> aget opencodePermissionTools t = Some n)
              (entries (pp_Tools p))))))"
  by (auto simp: tool_action_def stated_def Let_def filter_empty_conv)

lemma hd_named_stated:
  assumes "stated tools n \<noteq> {}"
  shows "snd (hd (filter (\<lambda>(t, a). a \<noteq> PermissionActionDefault \<and> aget opencodePermissionTools t = Some n) tools)) \<in> stated tools n"
proof -
  let ?f = "filter (\<lambda>(t, a). a \<noteq> PermissionActionDefault \<and> aget opencodePermissionTools t = Some n) tools"
  from assms have "?f \<noteq> []" by (auto simp: stated_def filter_empty_conv)
  then have mem: "hd ?f \<in> set ?f" by (rule hd_in_set)
  obtain t a where ta: "hd ?f = (t, a)" by fastforce
  with mem have "(t, a) \<in> set ?f" by metis
  then show ?thesis unfolding ta by (auto simp: stated_def)
qed

definition action_value :: "PermissionAction \<Rightarrow> json" where
  "action_value a = JStr (permission_action_string a)"

text \<open>The native configuration a policy stands for.\<close>

definition config_of_policy :: "PermissionPolicy \<Rightarrow> native_config \<Rightarrow> bool" where
  "config_of_policy p config \<longleftrightarrow>
     distinct (map fst config)
     \<and> (\<forall>n. n \<noteq> PermissionToolExternalDirectory \<or> pp_PathRules p = [] \<longrightarrow>
          aget config n = map_option action_value (tool_action p n))
     \<and> (pp_PathRules p \<noteq> [] \<longrightarrow>
          (\<exists>paths. aget config PermissionToolExternalDirectory = Some (JObj paths) \<and> distinct (map fst paths) \<and>
             (\<forall>path. aget paths path =
                (case rule_for (pp_PathRules p) path of
                   Some r \<Rightarrow> Some (action_value (rule_Action r))
                 | None \<Rightarrow> if path = ''*'' then map_option action_value (tool_action p PermissionToolExternalDirectory)
                           else None))))"

lemma translatePermissions_Inr:
  assumes "req_PermissionPolicy req = Some p" and "translatePermissions req = Inr t"
  shows "translatable p \<and> config_of_policy p (entries (pt_config t))"
proof -
  from assms obtain md config md' where valid: "ValidatePermissionPolicy (Some p) = None"
    and tools: "translate_tools (pp_UnsupportedBehavior p) (entries (pp_Tools p)) [] (default_config p) md = Inr (config, md')"
    and t: "entries (pt_config t) = foldl (\<lambda>c r. apply_rule r c) config (pp_PathRules p)"
    by (auto simp: translatePermissions_def Let_def translate_rules_fst case_prod_beta
        split: option.splits sum.splits)
  note spec = translate_tools_Inr [OF tools, simplified]
  have before: "aget config n = map_option action_value (tool_action p n)" for n
  proof (cases "stated (entries (pp_Tools p)) n = {}")
    case True
    with spec show ?thesis by (simp add: tool_action_stated action_value_def aget_default_config)
  next
    case False
    with spec hd_named_stated [OF False] show ?thesis by (simp add: tool_action_stated action_value_def)
  qed
  then have star: "aget (rule_paths config) path =
      (if path = ''*'' then map_option action_value (tool_action p PermissionToolExternalDirectory) else None)" for path
    by (simp add: rule_paths_def action_value_def split: option.splits)
  have "distinct (map fst (rule_paths config))"
    using before [of PermissionToolExternalDirectory]
    by (auto simp: rule_paths_def action_value_def split: option.splits json.splits)
  note paths_distinct = apply_rules_paths_distinct [OF this, of "pp_PathRules p"]
  have "translatable p"
    using spec valid ValidatePermissionPolicy_None_iff by (auto simp: translatable_def)
  moreover have "config_of_policy p (entries (pt_config t))"
    unfolding config_of_policy_def t
    using apply_rules_object [of "pp_PathRules p" config] paths_distinct spec distinct_default_config [of p]
    by (auto simp: apply_rules_paths apply_rules_other apply_rules_distinct before star action_value_def
        split: option.splits)
  ultimately show ?thesis ..
qed

lemma translatePermissions_Inl:
  assumes "req_PermissionPolicy req = Some p" and "translatePermissions req = Inl e"
  shows "\<not> translatable p \<and> err_Category e = ErrorConfiguration"
proof (cases "ValidatePermissionPolicy (Some p)")
  case None
  with assms obtain md where
    "translate_tools (pp_UnsupportedBehavior p) (entries (pp_Tools p)) [] (default_config p) md = Inl e"
    by (auto simp: translatePermissions_def Let_def split: sum.splits prod.splits)
  from translate_tools_Inl [OF this] show ?thesis by (auto simp: translatable_def)
next
  case (Some err)
  with assms have "e = err" by (simp add: translatePermissions_def Let_def)
  with Some ValidatePermissionPolicy_None_iff [of p] ValidatePermissionPolicy_Some [of "Some p"] show ?thesis
    by (auto simp: translatable_def)
qed

section \<open>What OpenCode reads\<close>

lemma native_tools_valid: "n \<in> native_tools \<Longrightarrow> utf8_valid n"
  by (rule utf8_valid_ascii) (auto simp: opencodePermissionTools_def)

lemma known_action_valid: "known_action a \<Longrightarrow> utf8_valid (permission_action_string a)"
  by (rule utf8_valid_ascii) (cases a; auto simp: known_action_def)

lemma foldl_aput_fresh:
  "distinct (map fst (acc @ kvs)) \<Longrightarrow> foldl (\<lambda>m (k, v). aput k v m) acc kvs = acc @ kvs"
proof (induction kvs arbitrary: acc)
  case (Cons kv kvs)
  obtain k v where kv: "kv = (k, v)" by fastforce
  have "aput k v acc = acc @ [(k, v)]" using Cons.prems kv by (intro aput_fresh) auto
  with Cons kv show ?case by simp
qed simp

lemma aget_sort_key:
  assumes "distinct (map fst m)"
  shows "aget (sort_key fst (map (map_prod id f) m)) k = map_option f (aget m k)"
proof -
  have "aget (map (map_prod id f) kvs) k = map_option f (aget kvs k)" for kvs
    by (induction kvs) auto
  moreover have "aget (sort_key fst m) = aget m"
  proof (rule map_of_inject_set [THEN iffD2])
    show "distinct (map fst m)" by (rule assms)
    have "mset (map fst (sort_key fst m)) = mset (map fst m)" by simp
    then show "distinct (map fst (sort_key fst m))" using assms mset_eq_imp_distinct_iff by blast
    show "set (sort_key fst m) = set m" by simp
  qed
  ultimately show ?thesis by (simp only: sort_key_map_prod)
qed

lemma distinct_sort_members:
  assumes "distinct (map fst m)"
  shows "distinct (map fst (sort_key fst (map (map_prod id f) m)))"
proof -
  have "mset (map fst (sort_key fst (map (map_prod id f) m))) = mset (map fst m)"
    by (simp add: image_mset.compositionality comp_def)
  then show ?thesis using assms mset_eq_imp_distinct_iff by blast
qed

lemma config_of_policy_sorted:
  assumes "config_of_policy p config"
  shows "config_of_policy p (sort_key fst (map (map_prod id sort_members) config))"
proof -
  let ?s = "\<lambda>m. sort_key fst (map (map_prod id sort_members) m)"
  have keep: "map_option sort_members (map_option action_value x) = map_option action_value x" for x
    by (cases x) (simp_all add: action_value_def)
  have d: "distinct (map fst config)" using assms by (simp add: config_of_policy_def)
  show ?thesis
    unfolding config_of_policy_def
  proof (intro conjI allI impI)
    show "distinct (map fst (?s config))" using d by (rule distinct_sort_members)
    show "aget (?s config) n = map_option action_value (tool_action p n)"
      if "n \<noteq> PermissionToolExternalDirectory \<or> pp_PathRules p = []" for n
      using assms that by (simp only: aget_sort_key [OF d] config_of_policy_def keep)
  next
    assume "pp_PathRules p \<noteq> []"
    with assms obtain paths where paths: "aget config PermissionToolExternalDirectory = Some (JObj paths)"
      and dp: "distinct (map fst paths)"
      and look: "\<And>path. aget paths path = (case rule_for (pp_PathRules p) path of
                   Some r \<Rightarrow> Some (action_value (rule_Action r))
                 | None \<Rightarrow> if path = ''*'' then map_option action_value (tool_action p PermissionToolExternalDirectory)
                           else None)"
      unfolding config_of_policy_def by blast
    have "aget (?s config) PermissionToolExternalDirectory = Some (JObj (?s paths))"
      using paths by (simp only: aget_sort_key [OF d]) simp
    moreover have "aget (?s paths) path = aget paths path" for path
      using keep by (simp only: aget_sort_key [OF dp] look) (simp add: action_value_def split: option.splits)
    ultimately show "\<exists>paths. aget (?s config) PermissionToolExternalDirectory = Some (JObj paths) \<and> distinct (map fst paths) \<and>
             (\<forall>path. aget paths path =
                (case rule_for (pp_PathRules p) path of
                   Some r \<Rightarrow> Some (action_value (rule_Action r))
                 | None \<Rightarrow> if path = ''*'' then map_option action_value (tool_action p PermissionToolExternalDirectory)
                           else None))"
      using distinct_sort_members [OF dp] look by (metis (no_types, lifting))
  qed
qed


lemma tool_action_known:
  assumes "translatable p" and "tool_action p n = Some a"
  shows "known_action a \<and> n \<in> native_tools"
proof (cases "stated (entries (pp_Tools p)) n = {}")
  case True
  with assms show ?thesis
    by (auto simp: tool_action_stated translatable_def policy_ok_def split: if_splits)
next
  case False
  with hd_named_stated [OF False] assms(2) have "a \<in> stated (entries (pp_Tools p)) n"
    by (simp add: tool_action_stated)
  then obtain t where "(t, a) \<in> set (entries (pp_Tools p))" "aget opencodePermissionTools t = Some n"
    by (auto simp: stated_def)
  moreover from this have "known_action a"
    using assms(1) unfolding translatable_def policy_ok_def by fastforce
  ultimately show ?thesis by (metis imageI map_of_SomeD snd_conv)
qed

lemma action_value_plain: "known_action a \<Longrightarrow> plain (action_value a) \<and> nesting (action_value a) = 0"
  by (simp add: action_value_def known_action_valid)

lemma plain_object:
  assumes "distinct (map fst m)"
    and "\<And>k v. aget m k = Some v \<Longrightarrow> utf8_valid k \<and> plain v \<and> nesting v \<le> d"
  shows "plain (JObj m) \<and> nesting (JObj m) \<le> Suc d"
proof -
  have "utf8_valid k \<and> plain v \<and> nesting v \<le> d" if "(k, v) \<in> set m" for k v
    using assms(2) [of k v] that assms(1) by simp
  then show ?thesis using assms(1) by (auto simp: image_iff)
qed

lemma config_plain:
  assumes "translatable p" and config: "config_of_policy p config"
    and paths: "\<forall>r \<in> set (pp_PathRules p). utf8_valid (rule_Path r)"
  shows "plain (JObj config) \<and> nesting (JObj config) \<le> 2"
proof -
  let ?ext = PermissionToolExternalDirectory
  have tool: "utf8_valid n \<and> plain v \<and> nesting v \<le> 1"
    if "map_option action_value (tool_action p n) = Some v" for n v
    using that tool_action_known [OF assms(1)] native_tools_valid action_value_plain by fastforce
  have ext: "utf8_valid ?ext" by (rule utf8_valid_ascii) simp
  have "utf8_valid n \<and> plain v \<and> nesting v \<le> 1" if v: "aget config n = Some v" for n v
  proof (cases "n \<noteq> ?ext \<or> pp_PathRules p = []")
    case True
    with v config have "map_option action_value (tool_action p n) = Some v"
      by (simp add: config_of_policy_def)
    then show ?thesis by (rule tool)
  next
    case False
    with config obtain ps where ps: "aget config ?ext = Some (JObj ps)" "distinct (map fst ps)"
      and look: "\<And>path. aget ps path = (case rule_for (pp_PathRules p) path of
                   Some r \<Rightarrow> Some (action_value (rule_Action r))
                 | None \<Rightarrow> if path = ''*'' then map_option action_value (tool_action p ?ext) else None)"
      unfolding config_of_policy_def by blast
    have "utf8_valid path \<and> plain w \<and> nesting w \<le> 0" if w: "aget ps path = Some w" for path w
    proof (cases "rule_for (pp_PathRules p) path")
      case None
      have star: "utf8_valid ''*''" by (rule utf8_valid_ascii) simp
      from None w look have "path = ''*''" "map_option action_value (tool_action p ?ext) = Some w"
        by (simp_all split: if_splits)
      with star tool_action_known [OF assms(1)] action_value_plain show ?thesis by fastforce
    next
      case (Some r)
      then have r: "r \<in> set (pp_PathRules p)" "rule_Path r = path"
        using find_Some_in [of "\<lambda>r. rule_Path r = path" "rev (pp_PathRules p)" r] by (simp_all add: rule_for_def)
      then have "known_action (rule_Action r)" using assms(1) by (simp add: translatable_def policy_ok_def)
      with r paths Some w look action_value_plain show ?thesis by fastforce
    qed
    with plain_object [OF ps(2), of 0] have "plain (JObj ps) \<and> nesting (JObj ps) \<le> Suc 0" by blast
    with ps v False ext show ?thesis by auto
  qed
  with plain_object [of config 1] config show ?thesis by (simp add: config_of_policy_def numeral_2_eq_2)
qed

lemma collect_config_none:
  "\<forall>item \<in> set base. \<not> HasPrefix item opencodeConfigContentEnv \<Longrightarrow> collect_config base e = Inr (base, e)"
  by (induction base) auto

section \<open>Properties\<close>

text \<open>
  A permission policy is translated exactly when it is well-formed, every tool has a native
  counterpart (or best effort was asked for) and no two aliases of one native tool disagree; a refusal
  is a configuration error. The configuration then gives every native tool the action stated for it,
  else the default of the policy, and every path the action of the last rule for it.
\<close>

theorem permission_translation_exact:
  assumes "req_PermissionPolicy req = Some p"
  shows "case translatePermissions req of
      Inl e \<Rightarrow> \<not> translatable p \<and> err_Category e = ErrorConfiguration
    | Inr t \<Rightarrow> translatable p \<and> config_of_policy p (entries (pt_config t))"
  using translatePermissions_Inr [OF assms] translatePermissions_Inl [OF assms]
  by (auto split: sum.splits)

definition sample_request :: RunRequest where
  "sample_request = zero_RunRequest\<lparr>req_PermissionPolicy := Some sample_policy\<rparr>"

theorem permission_translation_exact_witness:
  "translatable sample_policy \<and> config_of_policy sample_policy
     (entries (pt_config (projr (translatePermissions sample_request))))
   \<and> (case translatePermissions (zero_RunRequest\<lparr>req_PermissionPolicy :=
          Some (sample_policy\<lparr>pp_Tools := Some [(''shell'', PermissionActionAllow), (''bash'', PermissionActionDeny)]\<rparr>)\<rparr>) of
        Inl e \<Rightarrow> err_Category e = ErrorConfiguration | Inr t \<Rightarrow> False)"
proof -
  have ok: "\<exists>t. translatePermissions sample_request = Inr t"
    by (simp add: sample_request_def sample_policy_def translatePermissions_def ValidatePermissionPolicy_def
        validatePermissionAction_def opencodePermissionTools_def Let_def case_prod_beta)
  have bad: "\<exists>e. translatePermissions (zero_RunRequest\<lparr>req_PermissionPolicy :=
          Some (sample_policy\<lparr>pp_Tools := Some [(''shell'', PermissionActionAllow), (''bash'', PermissionActionDeny)]\<rparr>)\<rparr>)
        = Inl e"
    by (simp add: sample_policy_def translatePermissions_def ValidatePermissionPolicy_def
        validatePermissionAction_def opencodePermissionTools_def Let_def case_prod_beta)
  show ?thesis
    using ok bad permission_translation_exact [of sample_request sample_policy]
      permission_translation_exact [of "zero_RunRequest\<lparr>req_PermissionPolicy :=
          Some (sample_policy\<lparr>pp_Tools := Some [(''shell'', PermissionActionAllow), (''bash'', PermissionActionDeny)]\<rparr>)\<rparr>"]
    by (auto simp: sample_request_def split: sum.splits)
qed



text \<open>
  An existing configuration that is the JSON text \<open>null\<close> decodes without an error and leaves a nil
  map behind; the write that follows panics, in both functions that merge into it.
\<close>

lemma null_config_panics:
  "mergeEnv jerr [''OPENCODE_CONFIG_CONTENT=null''] (Some [(''bash'', JStr ''deny'')]) = EnvPanic
   \<and> withSnapshotConfig jerr [''OPENCODE_CONFIG_CONTENT=null''] enabled = EnvPanic"
proof -
  have "json_parse_map ''null'' = Some None"
    using json_document_roundtrip [of JNull] by (simp add: json_parse_map_def)
  then have "collect_config [''OPENCODE_CONFIG_CONTENT=null''] (Some []) = Inr ([], None)"
    by (simp add: unmarshal_into_def HasPrefix_def TrimPrefix_def)
  then show ?thesis by (simp add: mergeEnv_def withSnapshotConfig_def)
qed

end
