(* ===== verification/Process.thy ===== *)
theory Process
  imports Errors
begin

text \<open>
  The subprocess layer of the OpenCode adapter (\<^verbatim>\<open>opencode/process.go, process_unix.go, process_linux.go\<close>):
  the bounded buffer that collects standard error, and the cancellation of a process group, first with
  SIGTERM and then with SIGKILL. The operating system is a parameter: the answer of \<open>kill\<close> to each
  signal, and whether the process is known to have exited each time the code looks.
\<close>

section \<open>The bounded buffer\<close>

record limitBuffer =
  lb_limit :: int
  lb_buf :: string

definition newLimitBuffer :: "int \<Rightarrow> limitBuffer" where
  "newLimitBuffer limit = \<lparr>lb_limit = limit, lb_buf = []\<rparr>"

text \<open>Every write reports that all bytes were taken.\<close>

definition limitBuffer_Write :: "limitBuffer \<Rightarrow> string \<Rightarrow> int \<times> limitBuffer" where
  "limitBuffer_Write b p =
     (let written = int (length p)
      in if lb_limit b \<le> 0 then (written, b)
         else if int (length (lb_buf b)) + written \<le> lb_limit b then (written, b\<lparr>lb_buf := lb_buf b @ p\<rparr>)
         else let remaining = lb_limit b - int (length (lb_buf b))
              in (written, if remaining > 0 then b\<lparr>lb_buf := lb_buf b @ take (nat remaining) p\<rparr> else b))"

definition limitBuffer_String :: "limitBuffer \<Rightarrow> string" where
  "limitBuffer_String b = lb_buf b"

text \<open>\<open>io.Copy\<close> writes the chunks of a stream one by one.\<close>

definition captureStderr :: "limitBuffer \<Rightarrow> string list \<Rightarrow> limitBuffer" where
  "captureStderr b chunks = foldl (\<lambda>b p. snd (limitBuffer_Write b p)) b chunks"

section \<open>Process groups\<close>

record processSpec =
  ps_Executable :: string
  ps_Args :: "string list"
  ps_Env :: "string list"
  ps_WorkDir :: string
  ps_Stdin :: string

record processResult =
  pres_ExitCode :: int
  pres_Err :: "go_error option"

record cleanupResult =
  cr_GracefulAttempted :: bool
  cr_ForceAttempted :: bool
  cr_Err :: "go_error option"

text \<open>A signal as the system call gets it: the target, negative for a group, and the signal.\<close>

datatype signal = SIGTERM | SIGKILL

text \<open>The answers of \<open>kill\<close>: sent, no such process, another error.\<close>

datatype kill_answer = Sent | ESRCH | KillError go_error

record process_env =
  penv_kill :: "int \<Rightarrow> signal \<Rightarrow> kill_answer"
  penv_exited :: "nat \<Rightarrow> bool"

datatype signal_result = SignalOK | ProcessDone | SignalError go_error

text \<open>The signals sent are collected in the order of the calls.\<close>

definition signalProcessGroup ::
  "process_env \<Rightarrow> int option \<Rightarrow> bool \<Rightarrow> (int \<times> signal) list \<Rightarrow> signal_result \<times> (int \<times> signal) list" where
  "signalProcessGroup env proc force sent =
     (case proc of
        None \<Rightarrow> (ProcessDone, sent)
      | Some pid \<Rightarrow>
          if pid \<le> 0 then (ProcessDone, sent)
          else let sig = (if force then SIGKILL else SIGTERM)
               in (case penv_kill env (- pid) sig of
                     Sent \<Rightarrow> SignalOK | ESRCH \<Rightarrow> ProcessDone | KillError e \<Rightarrow> SignalError e,
                   sent @ [(- pid, sig)]))"

text \<open>
  The variants of the build: other Unix systems signal the group in the same way; elsewhere there are no
  groups and every signal is \<open>os.Process.Kill\<close>.
\<close>

definition signalProcessGroup_unix ::
  "process_env \<Rightarrow> int option \<Rightarrow> bool \<Rightarrow> (int \<times> signal) list \<Rightarrow> signal_result \<times> (int \<times> signal) list" where
  "signalProcessGroup_unix env proc force sent =
     (case proc of
        None \<Rightarrow> (ProcessDone, sent)
      | Some pid \<Rightarrow>
          if pid \<le> 0 then (ProcessDone, sent)
          else let sig = (if force then SIGKILL else SIGTERM)
               in (case penv_kill env (- pid) sig of
                     Sent \<Rightarrow> SignalOK | ESRCH \<Rightarrow> ProcessDone | KillError e \<Rightarrow> SignalError e,
                   sent @ [(- pid, sig)]))"

definition process_Kill ::
  "process_env \<Rightarrow> int \<Rightarrow> (int \<times> signal) list \<Rightarrow> signal_result \<times> (int \<times> signal) list" where
  "process_Kill env pid sent =
     (case penv_kill env pid SIGKILL of Sent \<Rightarrow> SignalOK | ESRCH \<Rightarrow> ProcessDone | KillError e \<Rightarrow> SignalError e,
      sent @ [(pid, SIGKILL)])"

definition signalProcessGroup_windows ::
  "process_env \<Rightarrow> int option \<Rightarrow> bool \<Rightarrow> (int \<times> signal) list \<Rightarrow> signal_result \<times> (int \<times> signal) list" where
  "signalProcessGroup_windows env proc force sent =
     (case proc of None \<Rightarrow> (ProcessDone, sent) | Some pid \<Rightarrow> process_Kill env pid sent)"

definition signalProcessGroup_other ::
  "process_env \<Rightarrow> int option \<Rightarrow> bool \<Rightarrow> (int \<times> signal) list \<Rightarrow> signal_result \<times> (int \<times> signal) list" where
  "signalProcessGroup_other env proc force sent =
     (case proc of None \<Rightarrow> (ProcessDone, sent) | Some pid \<Rightarrow> process_Kill env pid sent)"

text \<open>\<open>Cancel\<close> over the variant that was built; the text below is that of Linux.\<close>

definition process_Cancel_with ::
  "(int option \<Rightarrow> bool \<Rightarrow> (int \<times> signal) list \<Rightarrow> signal_result \<times> (int \<times> signal) list) \<Rightarrow> process_env \<Rightarrow> int option
     \<Rightarrow> cleanupResult \<times> (int \<times> signal) list" where
  "process_Cancel_with signalGroup env proc =
     (let start = \<lparr>cr_GracefulAttempted = False, cr_ForceAttempted = False, cr_Err = None\<rparr>;
          result = start\<lparr>cr_GracefulAttempted := True\<rparr>
      in if proc = None then (start, [])
         else if penv_exited env 0 then (result, [])
         else case signalGroup proc False [] of
                (ProcessDone, sent) \<Rightarrow> (result, sent)
              | (r, sent) \<Rightarrow>
                  (let result1 = (case r of SignalError e \<Rightarrow> result\<lparr>cr_Err := Some e\<rparr> | _ \<Rightarrow> result)
                   in if penv_exited env 1 then (result1, sent)
                      else let result2 = result1\<lparr>cr_ForceAttempted := True\<rparr>
                           in case signalGroup proc True sent of
                                (SignalError e, sent') \<Rightarrow>
                                  (if cr_Err result2 = None then result2\<lparr>cr_Err := Some e\<rparr> else result2, sent')
                              | (_, sent') \<Rightarrow> (result2, sent')))"

definition process_Cancel :: "process_env \<Rightarrow> int option \<Rightarrow> cleanupResult \<times> (int \<times> signal) list" where
  "process_Cancel env = process_Cancel_with (signalProcessGroup env) env"

section \<open>Starting and waiting\<close>

text \<open>
  The command \<open>Start\<close> builds for \<^verbatim>\<open>os/exec\<close>. Values for the process come after the inherited ones, and
  \<^verbatim>\<open>os/exec\<close> passes on the last assignment of every variable; without any the process inherits.
\<close>

record exec_cmd =
  cmd_Path :: string
  cmd_Args :: "string list"
  cmd_Dir :: string
  cmd_Env :: "string list"
  cmd_Stdin :: string
  cmd_Setpgid :: bool
  cmd_Pdeathsig :: "signal option"

record exec_env =
  ee_environ :: "string list"
  ee_stdoutPipe :: "go_error option"
  ee_stderrPipe :: "go_error option"
  ee_start :: "exec_cmd \<Rightarrow> go_error option"

definition configureProcessGroup :: "exec_cmd \<Rightarrow> exec_cmd" where
  "configureProcessGroup cmd = cmd\<lparr>cmd_Setpgid := True, cmd_Pdeathsig := Some SIGTERM\<rparr>"

definition configureProcessGroup_unix :: "exec_cmd \<Rightarrow> exec_cmd" where
  "configureProcessGroup_unix cmd = cmd\<lparr>cmd_Setpgid := True, cmd_Pdeathsig := None\<rparr>"

definition configureProcessGroup_windows :: "exec_cmd \<Rightarrow> exec_cmd" where
  "configureProcessGroup_windows cmd = cmd"

definition configureProcessGroup_other :: "exec_cmd \<Rightarrow> exec_cmd" where
  "configureProcessGroup_other cmd = cmd"

definition exec_command :: "string list \<Rightarrow> processSpec \<Rightarrow> exec_cmd" where
  "exec_command environ spec =
     configureProcessGroup
       \<lparr>cmd_Path = ps_Executable spec, cmd_Args = ps_Args spec, cmd_Dir = ps_WorkDir spec,
        cmd_Env = (if ps_Env spec \<noteq> [] then environ @ ps_Env spec else environ), cmd_Stdin = ps_Stdin spec,
        cmd_Setpgid = False, cmd_Pdeathsig = None\<rparr>"

definition process_Start :: "exec_env \<Rightarrow> processSpec \<Rightarrow> go_error + exec_cmd" where
  "process_Start env spec =
     (let cmd = exec_command (ee_environ env) spec
      in case ee_stdoutPipe env of
           Some e \<Rightarrow> Inl e
         | None \<Rightarrow>
             (case ee_stderrPipe env of
                Some e \<Rightarrow> Inl e
              | None \<Rightarrow> (case ee_start env cmd of Some e \<Rightarrow> Inl e | None \<Rightarrow> Inr cmd)))"

text \<open>
  \<open>Wait\<close> waits once and keeps the result. The answer of \<open>cmd.Wait\<close> is its error, the exit code of the
  process state if there is one, and the exit code of the \<open>exec.ExitError\<close> in the error if it is one.
\<close>

definition wait_result :: "go_error option \<Rightarrow> int option \<Rightarrow> int option \<Rightarrow> processResult" where
  "wait_result err state exitErr =
     (let code = (case state of None \<Rightarrow> 0 | Some c \<Rightarrow> c)
      in \<lparr>pres_ExitCode = (if err = None then code else case exitErr of Some c \<Rightarrow> c | None \<Rightarrow> code), pres_Err = err\<rparr>)"

definition process_Wait ::
  "go_error option \<times> int option \<times> int option \<Rightarrow> processResult option \<Rightarrow> processResult \<times> processResult option" where
  "process_Wait answer result =
     (case result of
        Some r \<Rightarrow> (r, result)
      | None \<Rightarrow> (case answer of (err, state, exitErr) \<Rightarrow> let r = wait_result err state exitErr in (r, Some r)))"

section \<open>The buffer keeps a prefix\<close>

text \<open>What a stream buffer promises: after any writes it holds a prefix of what was written.\<close>

locale prefix_buffer =
  fixes bytes :: "'b \<Rightarrow> string" and add :: "'b \<Rightarrow> string \<Rightarrow> 'b" and room :: "'b \<Rightarrow> nat"
  assumes add_bytes: "bytes (add b p) = bytes b @ take (room b - length (bytes b)) p"
    and add_room: "room (add b p) = room b"
begin

lemma copy_room: "room (foldl add b ps) = room b"
  by (induction ps arbitrary: b) (simp_all add: add_room)

lemma copy_bytes:
  assumes "length (bytes b) \<le> room b"
  shows "bytes (foldl add b ps) = take (room b) (bytes b @ concat ps)"
  using assms
proof (induction ps arbitrary: b)
  case (Cons p ps)
  from Cons.prems have "length (bytes (add b p)) \<le> room (add b p)" by (simp add: add_room add_bytes)
  from Cons.IH [OF this] show ?case
    using Cons.prems by (simp add: add_room add_bytes min_def)
qed simp

end

definition lb_room :: "limitBuffer \<Rightarrow> nat" where
  "lb_room b = max (nat (lb_limit b)) (if lb_limit b \<le> 0 then length (lb_buf b) else 0)"

interpretation lb: prefix_buffer lb_buf "\<lambda>b p. snd (limitBuffer_Write b p)" lb_room
  by unfold_locales (auto simp: limitBuffer_Write_def lb_room_def Let_def nat_diff_distrib' take_all_iff)

lemma captured_prefix:
  "limitBuffer_String (captureStderr (newLimitBuffer limit) chunks) = take (nat limit) (concat chunks)"
  using lb.copy_bytes [of "newLimitBuffer limit" chunks]
  by (auto simp: captureStderr_def limitBuffer_String_def lb_room_def newLimitBuffer_def)

section \<open>Other platforms\<close>

lemma signal_unix: "signalProcessGroup_unix = signalProcessGroup"
  by (simp add: fun_eq_iff signalProcessGroup_unix_def signalProcessGroup_def)

text \<open>
  Without process groups the graceful attempt of the cleanup is a kill of the process alone: it is reported as
  graceful, and no process it started is signalled.
\<close>

lemma kill_reported_graceful:
  assumes "\<not> penv_exited env 0"
  shows "cr_GracefulAttempted (fst (process_Cancel_with (signalProcessGroup_windows env) env (Some pid)))
    \<and> hd (snd (process_Cancel_with (signalProcessGroup_windows env) env (Some pid))) = (pid, SIGKILL)"
  using assms
  by (simp add: process_Cancel_with_def signalProcessGroup_windows_def process_Kill_def Let_def split: kill_answer.split)

section \<open>Properties\<close>


end
