(* ===== verification/Config.thy ===== *)
theory Config
  imports Errors Model
begin

text \<open>
  Effective configuration (\<^verbatim>\<open>config.go\<close>): layers of optional values are merged from low to high
  precedence into a configuration that records, field by field, the value and the layer it came
  from. A Go pointer field of a layer is an option; the zero value of an unset field keeps the zero
  of its type and \<open>Set = false\<close>. The contract of one merged field is the locale \<open>config_field\<close>,
  interpreted for each of the nine fields.
\<close>

section \<open>Data\<close>

datatype ConfigSource =
    ConfigSourceDefault | ConfigSourceAdapterOption | ConfigSourceEnvironment
  | ConfigSourceConfigProvider | ConfigSourceCallerRequest | ConfigSourceRuntimeDiscovered
  | ConfigSourceOther string

abbreviation NoConfigSource :: ConfigSource where "NoConfigSource \<equiv> ConfigSourceOther ''''"

record 'a ConfigValue =
  cv_Value :: 'a
  cv_Source :: ConfigSource
  cv_Set :: bool

record SecretValue =
  sec_Name :: string
  sec_Source :: ConfigSource
  sec_Present :: bool

record EffectiveConfig =
  cfg_RuntimeKind :: RuntimeKind
  cfg_RuntimeName :: "string ConfigValue"
  cfg_Executable :: "string ConfigValue"
  cfg_Provider :: "ProviderID ConfigValue"
  cfg_Model :: "ModelID ConfigValue"
  cfg_WorkDir :: "string ConfigValue"
  cfg_Permissions :: "PermissionMode ConfigValue"
  cfg_Sandbox :: "SandboxMode ConfigValue"
  cfg_Timeout :: "duration ConfigValue"
  cfg_SessionID :: "SessionID ConfigValue"
  cfg_Metadata :: "string ConfigValue smap"
  cfg_Secrets :: "SecretValue list"

record ConfigLayer =
  lay_Source :: ConfigSource
  lay_RuntimeName :: "string option"
  lay_Executable :: "string option"
  lay_Provider :: "ProviderID option"
  lay_Model :: "ModelID option"
  lay_WorkDir :: "string option"
  lay_Permissions :: "PermissionMode option"
  lay_Sandbox :: "SandboxMode option"
  lay_Timeout :: "duration option"
  lay_SessionID :: "SessionID option"
  lay_Metadata :: "string smap option"
  lay_Secrets :: "SecretValue list"

definition unset :: "'a \<Rightarrow> 'a ConfigValue" where
  "unset z = \<lparr>cv_Value = z, cv_Source = NoConfigSource, cv_Set = False\<rparr>"

definition zero_EffectiveConfig :: EffectiveConfig where
  "zero_EffectiveConfig =
     \<lparr>cfg_RuntimeKind = [], cfg_RuntimeName = unset [], cfg_Executable = unset [], cfg_Provider = unset [],
      cfg_Model = unset [], cfg_WorkDir = unset [], cfg_Permissions = unset [], cfg_Sandbox = unset [],
      cfg_Timeout = unset 0, cfg_SessionID = unset [], cfg_Metadata = [], cfg_Secrets = []\<rparr>"

definition zero_ConfigLayer :: ConfigLayer where
  "zero_ConfigLayer =
     \<lparr>lay_Source = NoConfigSource, lay_RuntimeName = None, lay_Executable = None, lay_Provider = None,
      lay_Model = None, lay_WorkDir = None, lay_Permissions = None, lay_Sandbox = None,
      lay_Timeout = None, lay_SessionID = None, lay_Metadata = None, lay_Secrets = []\<rparr>"

section \<open>The operations\<close>

text \<open>One \<open>if layer.F != nil\<close> of the merge.\<close>

definition merge_field :: "ConfigSource \<Rightarrow> 'a option \<Rightarrow> 'a ConfigValue \<Rightarrow> 'a ConfigValue" where
  "merge_field src new old =
     (case new of None \<Rightarrow> old | Some v \<Rightarrow> \<lparr>cv_Value = v, cv_Source = src, cv_Set = True\<rparr>)"

text \<open>The body of the loop over the layers.\<close>

definition merge_layer :: "EffectiveConfig \<Rightarrow> ConfigLayer \<Rightarrow> EffectiveConfig" where
  "merge_layer cfg layer =
     (let src = lay_Source layer
      in cfg\<lparr>cfg_RuntimeName := merge_field src (lay_RuntimeName layer) (cfg_RuntimeName cfg),
             cfg_Executable := merge_field src (lay_Executable layer) (cfg_Executable cfg),
             cfg_Provider := merge_field src (lay_Provider layer) (cfg_Provider cfg),
             cfg_Model := merge_field src (lay_Model layer) (cfg_Model cfg),
             cfg_WorkDir := merge_field src (lay_WorkDir layer) (cfg_WorkDir cfg),
             cfg_Permissions := merge_field src (lay_Permissions layer) (cfg_Permissions cfg),
             cfg_Sandbox := merge_field src (lay_Sandbox layer) (cfg_Sandbox cfg),
             cfg_Timeout := merge_field src (lay_Timeout layer) (cfg_Timeout cfg),
             cfg_SessionID := merge_field src (lay_SessionID layer) (cfg_SessionID cfg),
             cfg_Metadata :=
               foldl (\<lambda>m (k, v). aput k \<lparr>cv_Value = v, cv_Source = src, cv_Set = True\<rparr> m)
                 (cfg_Metadata cfg) (entries (lay_Metadata layer)),
             cfg_Secrets := cfg_Secrets cfg @ map (sec_Source_update (\<lambda>_. src)) (lay_Secrets layer)\<rparr>)"

definition MergeEffectiveConfig :: "RuntimeKind \<Rightarrow> ConfigLayer list \<Rightarrow> EffectiveConfig" where
  "MergeEffectiveConfig kind layers =
     foldl merge_layer (zero_EffectiveConfig\<lparr>cfg_RuntimeKind := kind\<rparr>) layers"

definition configValidationError :: "string \<Rightarrow> SDKError" where
  "configValidationError detail =
     NewError ErrorConfiguration ''config validation'' detail (Some (EPlain detail)) []"

definition ValidateEffectiveConfig :: "EffectiveConfig \<Rightarrow> SDKError option" where
  "ValidateEffectiveConfig cfg =
     (if cv_Set (cfg_RuntimeName cfg) \<and> cv_Value (cfg_RuntimeName cfg) = []
        then Some (configValidationError ''runtime name cannot be empty'')
      else if cv_Set (cfg_Executable cfg) \<and> cv_Value (cfg_Executable cfg) = []
        then Some (configValidationError ''runtime executable cannot be empty'')
      else if cv_Set (cfg_Provider cfg) \<and> cv_Value (cfg_Provider cfg) = []
        then Some (configValidationError ''provider cannot be empty when set'')
      else if cv_Set (cfg_Model cfg) \<and> cv_Value (cfg_Model cfg) = []
        then Some (configValidationError ''model cannot be empty when set'')
      else if cv_Set (cfg_Timeout cfg) \<and> cv_Value (cfg_Timeout cfg) < 0
        then Some (configValidationError ''timeout cannot be negative'')
      else if cv_Set (cfg_WorkDir cfg) \<and> cv_Value (cfg_WorkDir cfg) = []
        then Some (configValidationError ''workdir cannot be empty when set'')
      else None)"

definition nonzero :: "'a \<Rightarrow> 'a \<Rightarrow> 'a option" where
  "nonzero z v = (if v = z then None else Some v)"

definition CallerConfigLayer :: "RunRequest \<Rightarrow> ConfigLayer" where
  "CallerConfigLayer req =
     zero_ConfigLayer\<lparr>lay_Source := ConfigSourceCallerRequest, lay_Metadata := req_Metadata req,
       lay_Provider := nonzero [] (req_Provider req), lay_Model := nonzero [] (req_Model req),
       lay_WorkDir := nonzero [] (req_WorkDir req), lay_Permissions := nonzero [] (req_Permissions req),
       lay_Sandbox := nonzero [] (req_Sandbox req), lay_Timeout := nonzero 0 (req_Timeout req),
       lay_SessionID := nonzero [] (req_SessionID req)\<rparr>"

text \<open>\<open>ConfigValue.String\<close>, with the formatting of the value type as an argument.\<close>

definition ConfigValue_String :: "('a \<Rightarrow> string) \<Rightarrow> 'a ConfigValue \<Rightarrow> string" where
  "ConfigValue_String sprint v = (if \<not> cv_Set v then [] else sprint (cv_Value v))"

section \<open>Precedence\<close>

text \<open>The reference: the value of the last layer that sets the field, with that layer's source.\<close>

definition resolve :: "('l \<Rightarrow> 'a option) \<Rightarrow> ('l \<Rightarrow> ConfigSource) \<Rightarrow> 'a ConfigValue \<Rightarrow> 'l list \<Rightarrow> 'a ConfigValue" where
  "resolve get src z layers =
     (case find (\<lambda>l. get l \<noteq> None) (rev layers) of
        None \<Rightarrow> z
      | Some l \<Rightarrow> \<lparr>cv_Value = the (get l), cv_Source = src l, cv_Set = True\<rparr>)"

lemma resolve_Nil [simp]: "resolve get src z [] = z"
  by (simp add: resolve_def)

lemma resolve_snoc [simp]:
  "resolve get src z (layers @ [l]) = merge_field (src l) (get l) (resolve get src z layers)"
  by (auto simp: resolve_def merge_field_def split: option.splits)

text \<open>What the merge promises of one field: each layer overwrites it, or leaves it alone.\<close>

locale config_field =
  fixes get :: "ConfigLayer \<Rightarrow> 'a option" and field :: "EffectiveConfig \<Rightarrow> 'a ConfigValue"
  assumes merge_step: "field (merge_layer cfg l) = merge_field (lay_Source l) (get l) (field cfg)"
begin

lemma merge_resolves: "field (foldl merge_layer cfg layers) = resolve get lay_Source (field cfg) layers"
  by (induction layers rule: rev_induct) (simp_all add: merge_step)

lemma higher_layer_wins:
  assumes "get l = Some v" and "\<forall>l' \<in> set hi. get l' = None"
  shows "field (foldl merge_layer cfg (lo @ l # hi)) = \<lparr>cv_Value = v, cv_Source = lay_Source l, cv_Set = True\<rparr>"
  using assms(2) by (induction hi rule: rev_induct) (simp_all add: merge_step merge_field_def assms(1))

end

lemmas merge_layer_simps = merge_layer_def Let_def

interpretation runtime_name: config_field lay_RuntimeName cfg_RuntimeName
  by unfold_locales (simp add: merge_layer_simps)

interpretation executable: config_field lay_Executable cfg_Executable
  by unfold_locales (simp add: merge_layer_simps)

interpretation provider: config_field lay_Provider cfg_Provider
  by unfold_locales (simp add: merge_layer_simps)

interpretation model: config_field lay_Model cfg_Model
  by unfold_locales (simp add: merge_layer_simps)

interpretation work_dir: config_field lay_WorkDir cfg_WorkDir
  by unfold_locales (simp add: merge_layer_simps)

interpretation permissions: config_field lay_Permissions cfg_Permissions
  by unfold_locales (simp add: merge_layer_simps)

interpretation sandbox: config_field lay_Sandbox cfg_Sandbox
  by unfold_locales (simp add: merge_layer_simps)

interpretation timeout: config_field lay_Timeout cfg_Timeout
  by unfold_locales (simp add: merge_layer_simps)

interpretation session_id: config_field lay_SessionID cfg_SessionID
  by unfold_locales (simp add: merge_layer_simps)

lemmas fields_resolve =
  runtime_name.merge_resolves executable.merge_resolves provider.merge_resolves model.merge_resolves
  work_dir.merge_resolves permissions.merge_resolves sandbox.merge_resolves timeout.merge_resolves
  session_id.merge_resolves

text \<open>The metadata is merged key by key, in the same way.\<close>

lemma merge_entries:
  assumes "distinct (map fst kvs)"
  shows "aget (foldl (\<lambda>m (k, v). aput k (f v) m) m kvs) k =
    (case aget kvs k of None \<Rightarrow> aget m k | Some v \<Rightarrow> Some (f v))"
  using assms by (induction kvs arbitrary: m) (force split: option.splits dest: map_of_SomeD)+

definition metadata_source :: "string \<Rightarrow> ConfigLayer \<Rightarrow> string option" where
  "metadata_source k l = aget (entries (lay_Metadata l)) k"

lemma metadata_resolves:
  assumes "\<forall>l \<in> set layers. distinct (map fst (entries (lay_Metadata l)))" and "cfg_Metadata cfg = []"
  shows "aget_or (unset []) (cfg_Metadata (foldl merge_layer cfg layers)) k
       = resolve (metadata_source k) lay_Source (unset []) layers"
  using assms(1)
proof (induction layers rule: rev_induct)
  case Nil
  then show ?case by (simp add: assms(2))
next
  case (snoc l layers)
  then show ?case
    by (auto simp: merge_layer_simps merge_entries metadata_source_def merge_field_def aget_or_def
        split: option.splits)
qed

lemma secrets_concat:
  "cfg_Secrets (foldl merge_layer cfg layers)
   = cfg_Secrets cfg @ concat (map (\<lambda>l. map (sec_Source_update (\<lambda>_. lay_Source l)) (lay_Secrets l)) layers)"
  by (induction layers rule: rev_induct) (simp_all add: merge_layer_simps)

lemma kind_kept: "cfg_RuntimeKind (foldl merge_layer cfg layers) = cfg_RuntimeKind cfg"
  by (induction layers rule: rev_induct) (simp_all add: merge_layer_simps)

lemma zero_config_fields [simp]:
  "cfg_RuntimeName zero_EffectiveConfig = unset []" "cfg_Executable zero_EffectiveConfig = unset []"
  "cfg_Provider zero_EffectiveConfig = unset []" "cfg_Model zero_EffectiveConfig = unset []"
  "cfg_WorkDir zero_EffectiveConfig = unset []" "cfg_Permissions zero_EffectiveConfig = unset []"
  "cfg_Sandbox zero_EffectiveConfig = unset []" "cfg_Timeout zero_EffectiveConfig = unset 0"
  "cfg_SessionID zero_EffectiveConfig = unset []" "cfg_Metadata zero_EffectiveConfig = []"
  "cfg_Secrets zero_EffectiveConfig = []"
  by (simp_all add: zero_EffectiveConfig_def)

text \<open>What a valid configuration is.\<close>

definition config_ok :: "EffectiveConfig \<Rightarrow> bool" where
  "config_ok cfg \<longleftrightarrow>
     (\<forall>f \<in> {cfg_RuntimeName, cfg_Executable, cfg_Provider, cfg_Model, cfg_WorkDir}.
        cv_Set (f cfg) \<longrightarrow> cv_Value (f cfg) \<noteq> [])
     \<and> (cv_Set (cfg_Timeout cfg) \<longrightarrow> 0 \<le> cv_Value (cfg_Timeout cfg))"

lemma ValidateEffectiveConfig_None_iff: "ValidateEffectiveConfig cfg = None \<longleftrightarrow> config_ok cfg"
  by (auto simp: ValidateEffectiveConfig_def config_ok_def)

lemma ValidateEffectiveConfig_Some:
  "ValidateEffectiveConfig cfg = Some e \<Longrightarrow> err_Category e = ErrorConfiguration"
  by (auto simp: ValidateEffectiveConfig_def configValidationError_def split: if_splits)

lemma merge_field_nonzero:
  "merge_field src (nonzero z v) old = (if v = z then old else \<lparr>cv_Value = v, cv_Source = src, cv_Set = True\<rparr>)"
  by (simp add: merge_field_def nonzero_def)

lemma CallerConfigLayer_simps [simp]:
  "lay_Source (CallerConfigLayer req) = ConfigSourceCallerRequest"
  "lay_RuntimeName (CallerConfigLayer req) = None" "lay_Executable (CallerConfigLayer req) = None"
  "lay_Provider (CallerConfigLayer req) = nonzero [] (req_Provider req)"
  "lay_Model (CallerConfigLayer req) = nonzero [] (req_Model req)"
  "lay_WorkDir (CallerConfigLayer req) = nonzero [] (req_WorkDir req)"
  "lay_Permissions (CallerConfigLayer req) = nonzero [] (req_Permissions req)"
  "lay_Sandbox (CallerConfigLayer req) = nonzero [] (req_Sandbox req)"
  "lay_Timeout (CallerConfigLayer req) = nonzero 0 (req_Timeout req)"
  "lay_SessionID (CallerConfigLayer req) = nonzero [] (req_SessionID req)"
  "lay_Secrets (CallerConfigLayer req) = []"
  by (simp_all add: CallerConfigLayer_def zero_ConfigLayer_def)

section \<open>Properties\<close>

text \<open>
  C25. Precedence: every field of the effective configuration, and every metadata key, has the value
  and the source of the last layer that sets it and is unset when no layer does; the secrets of all
  layers are kept in order, each marked with the source of its layer.
\<close>

theorem config_precedence:
  assumes "\<forall>l \<in> set layers. distinct (map fst (entries (lay_Metadata l)))"
    and "cfg = MergeEffectiveConfig kind layers"
  shows "cfg_RuntimeKind cfg = kind
    \<and> cfg_RuntimeName cfg = resolve lay_RuntimeName lay_Source (unset []) layers
    \<and> cfg_Executable cfg = resolve lay_Executable lay_Source (unset []) layers
    \<and> cfg_Provider cfg = resolve lay_Provider lay_Source (unset []) layers
    \<and> cfg_Model cfg = resolve lay_Model lay_Source (unset []) layers
    \<and> cfg_WorkDir cfg = resolve lay_WorkDir lay_Source (unset []) layers
    \<and> cfg_Permissions cfg = resolve lay_Permissions lay_Source (unset []) layers
    \<and> cfg_Sandbox cfg = resolve lay_Sandbox lay_Source (unset []) layers
    \<and> cfg_Timeout cfg = resolve lay_Timeout lay_Source (unset 0) layers
    \<and> cfg_SessionID cfg = resolve lay_SessionID lay_Source (unset []) layers
    \<and> (\<forall>k. aget_or (unset []) (cfg_Metadata cfg) k = resolve (metadata_source k) lay_Source (unset []) layers)
    \<and> cfg_Secrets cfg = concat (map (\<lambda>l. map (sec_Source_update (\<lambda>_. lay_Source l)) (lay_Secrets l)) layers)"
  using assms metadata_resolves [OF assms(1)]
  by (simp add: MergeEffectiveConfig_def fields_resolve secrets_concat kind_kept)

definition sample_layers :: "ConfigLayer list" where
  "sample_layers =
     [zero_ConfigLayer\<lparr>lay_Source := ConfigSourceDefault, lay_Executable := Some ''opencode'',
        lay_Model := Some ''small'', lay_Metadata := Some [(''team'', ''a'')]\<rparr>,
      zero_ConfigLayer\<lparr>lay_Source := ConfigSourceCallerRequest, lay_Model := Some ''large'',
        lay_Metadata := Some [(''team'', ''b'')]\<rparr>]"

theorem config_precedence_witness:
  "cfg_Model (MergeEffectiveConfig ''opencode'' sample_layers)
     = \<lparr>cv_Value = ''large'', cv_Source = ConfigSourceCallerRequest, cv_Set = True\<rparr>
   \<and> cfg_Executable (MergeEffectiveConfig ''opencode'' sample_layers)
     = \<lparr>cv_Value = ''opencode'', cv_Source = ConfigSourceDefault, cv_Set = True\<rparr>"
  using config_precedence [of sample_layers "MergeEffectiveConfig ''opencode'' sample_layers" "''opencode''"]
  by (simp add: sample_layers_def zero_ConfigLayer_def resolve_def)

text \<open>
  The caller's request is the top layer: each field it states is in force with the caller as its
  source, each field it leaves at its zero value keeps what the lower layers gave, and a validation
  error of the merged configuration is a configuration error raised exactly when a set name is empty
  or the timeout is negative.
\<close>

theorem caller_request_overrides:
  assumes "low = MergeEffectiveConfig kind layers"
    and "cfg = MergeEffectiveConfig kind (layers @ [CallerConfigLayer req])"
  shows "cfg_Model cfg = (if req_Model req = [] then cfg_Model low
           else \<lparr>cv_Value = req_Model req, cv_Source = ConfigSourceCallerRequest, cv_Set = True\<rparr>)
    \<and> cfg_Provider cfg = (if req_Provider req = [] then cfg_Provider low
           else \<lparr>cv_Value = req_Provider req, cv_Source = ConfigSourceCallerRequest, cv_Set = True\<rparr>)
    \<and> cfg_WorkDir cfg = (if req_WorkDir req = [] then cfg_WorkDir low
           else \<lparr>cv_Value = req_WorkDir req, cv_Source = ConfigSourceCallerRequest, cv_Set = True\<rparr>)
    \<and> cfg_Permissions cfg = (if req_Permissions req = [] then cfg_Permissions low
           else \<lparr>cv_Value = req_Permissions req, cv_Source = ConfigSourceCallerRequest, cv_Set = True\<rparr>)
    \<and> cfg_Sandbox cfg = (if req_Sandbox req = [] then cfg_Sandbox low
           else \<lparr>cv_Value = req_Sandbox req, cv_Source = ConfigSourceCallerRequest, cv_Set = True\<rparr>)
    \<and> cfg_Timeout cfg = (if req_Timeout req = 0 then cfg_Timeout low
           else \<lparr>cv_Value = req_Timeout req, cv_Source = ConfigSourceCallerRequest, cv_Set = True\<rparr>)
    \<and> cfg_SessionID cfg = (if req_SessionID req = [] then cfg_SessionID low
           else \<lparr>cv_Value = req_SessionID req, cv_Source = ConfigSourceCallerRequest, cv_Set = True\<rparr>)
    \<and> cfg_Executable cfg = cfg_Executable low \<and> cfg_Secrets cfg = cfg_Secrets low
    \<and> (case ValidateEffectiveConfig cfg of None \<Rightarrow> config_ok cfg
         | Some e \<Rightarrow> \<not> config_ok cfg \<and> err_Category e = ErrorConfiguration)"
proof -
  have valid: "case ValidateEffectiveConfig cfg of None \<Rightarrow> config_ok cfg
         | Some e \<Rightarrow> \<not> config_ok cfg \<and> err_Category e = ErrorConfiguration"
    using ValidateEffectiveConfig_None_iff [of cfg] ValidateEffectiveConfig_Some [of cfg]
    by (cases "ValidateEffectiveConfig cfg") auto
  have "cfg = merge_layer low (CallerConfigLayer req)"
    using assms by (simp add: MergeEffectiveConfig_def)
  with valid show ?thesis
    by (simp add: merge_layer_simps merge_field_nonzero, simp add: merge_field_def)
qed

theorem caller_request_overrides_witness:
  "cfg_Model (MergeEffectiveConfig ''opencode'' (sample_layers @ [CallerConfigLayer zero_RunRequest]))
     = cfg_Model (MergeEffectiveConfig ''opencode'' sample_layers)
   \<and> ValidateEffectiveConfig (MergeEffectiveConfig ''opencode''
       (sample_layers @ [CallerConfigLayer (zero_RunRequest\<lparr>req_Timeout := -1\<rparr>)])) \<noteq> None"
  using caller_request_overrides [OF refl refl, of "''opencode''" sample_layers zero_RunRequest]
    caller_request_overrides [OF refl refl, of "''opencode''" sample_layers "zero_RunRequest\<lparr>req_Timeout := -1\<rparr>"]
  by (auto simp: zero_RunRequest_def config_ok_def split: option.splits)

end
