(* ===== verification/Health.thy ===== *)
theory Health
  imports Config Policy
begin

text \<open>
  Health reports (\<^verbatim>\<open>health.go\<close>): the results of preflight checks, their aggregation into one status,
  and the decision whether the required checks of a run block it. Go iterates the set of required
  checks in an unspecified order when it looks for a missing one; the model visits them in the order
  of the request, which only decides which missing check the error names.
\<close>

section \<open>Data\<close>

datatype HealthStatus =
    HealthReady | HealthDegraded | HealthTransientFail | HealthUnrecoverable | HealthUnknown
  | HealthSkipped | HealthUnsupported | HealthStatusOther string

fun health_status_string :: "HealthStatus \<Rightarrow> string" where
  "health_status_string HealthReady = ''ready''"
| "health_status_string HealthDegraded = ''degraded''"
| "health_status_string HealthTransientFail = ''transient_failure''"
| "health_status_string HealthUnrecoverable = ''unrecoverable_failure''"
| "health_status_string HealthUnknown = ''unknown''"
| "health_status_string HealthSkipped = ''skipped''"
| "health_status_string HealthUnsupported = ''unsupported''"
| "health_status_string (HealthStatusOther s) = s"

datatype HealthSeverity =
  HealthSeverityInfo | HealthSeverityWarn | HealthSeverityError | HealthSeverityOther string

abbreviation HealthCheckRuntimeAvailable :: HealthCheckID where "HealthCheckRuntimeAvailable \<equiv> ''runtime_available''"
abbreviation HealthCheckStructuredOutput :: HealthCheckID where "HealthCheckStructuredOutput \<equiv> ''structured_output''"
abbreviation HealthCheckWorkDir :: HealthCheckID where "HealthCheckWorkDir \<equiv> ''workdir''"
abbreviation HealthCheckConfig :: HealthCheckID where "HealthCheckConfig \<equiv> ''config''"
abbreviation HealthCheckProvider :: HealthCheckID where "HealthCheckProvider \<equiv> ''provider''"
abbreviation HealthCheckModel :: HealthCheckID where "HealthCheckModel \<equiv> ''model''"
abbreviation HealthCheckAuthentication :: HealthCheckID where "HealthCheckAuthentication \<equiv> ''authentication''"
abbreviation HealthCheckRuntimePaths :: HealthCheckID where "HealthCheckRuntimePaths \<equiv> ''runtime_paths''"

record HealthCheckRequest =
  hq_Context :: RuntimeContext
  hq_WorkDir :: string
  hq_Provider :: ProviderID
  hq_Model :: ModelID
  hq_Permissions :: PermissionMode
  hq_Sandbox :: SandboxMode
  hq_Timeout :: duration
  hq_Metadata :: "string smap option"
  hq_Checks :: "HealthCheckID list"
  hq_RequiredChecks :: "HealthCheckID list"
  hq_IncludeRefresh :: bool

record HealthResult =
  hr_Check :: HealthCheckID
  hr_Status :: HealthStatus
  hr_Severity :: HealthSeverity
  hr_UserDetail :: string
  hr_DebugDetail :: string
  hr_NativeMetadata :: "anymap option"
  hr_Err :: "SDKError option"
  hr_StartedAt :: gtime
  hr_FinishedAt :: gtime

record HealthReport =
  rep_Context :: RuntimeContext
  rep_EffectiveConfig :: EffectiveConfig
  rep_Results :: "HealthResult list"
  rep_OverallStatus :: HealthStatus
  rep_GeneratedAt :: gtime
  rep_NativeMetadata :: "anymap option"

section \<open>The operations\<close>

text \<open>The loop of \<open>OverallHealthStatus\<close>, with the status so far as its accumulator.\<close>

fun overall_loop :: "HealthStatus \<Rightarrow> HealthResult list \<Rightarrow> HealthStatus" where
  "overall_loop status [] = status"
| "overall_loop status (r # rs) =
     (case hr_Status r of
        HealthUnrecoverable \<Rightarrow> HealthUnrecoverable
      | HealthTransientFail \<Rightarrow> overall_loop (if status \<noteq> HealthDegraded then HealthTransientFail else status) rs
      | HealthDegraded \<Rightarrow> overall_loop HealthDegraded rs
      | HealthUnknown \<Rightarrow>
          overall_loop (if status \<in> {HealthReady, HealthSkipped, HealthUnsupported} then HealthUnknown else status) rs
      | HealthSkipped \<Rightarrow> overall_loop (if status = HealthReady then HealthSkipped else status) rs
      | HealthUnsupported \<Rightarrow> overall_loop (if status = HealthReady then HealthUnsupported else status) rs
      | _ \<Rightarrow> overall_loop status rs)"

definition OverallHealthStatus :: "HealthResult list \<Rightarrow> HealthStatus" where
  "OverallHealthStatus results = overall_loop HealthReady results"

definition AggregateHealth :: "HealthReport \<Rightarrow> HealthReport" where
  "AggregateHealth report = report\<lparr>rep_OverallStatus := OverallHealthStatus (rep_Results report)\<rparr>"

definition preflight_error :: "HealthResult \<Rightarrow> string \<Rightarrow> SDKError" where
  "preflight_error r detail =
     (case hr_Err r of
        Some e \<Rightarrow> e
      | None \<Rightarrow> NewError ErrorHealth ''health preflight'' detail None [WithDebugDetail (hr_Check r)])"

text \<open>The loop over the results, then the one over the required checks that were not seen.\<close>

fun required_loop :: "HealthCheckID list \<Rightarrow> HealthResult list \<Rightarrow> SDKError option" where
  "required_loop req [] = None"
| "required_loop req (r # rs) =
     (if hr_Check r \<notin> set req then required_loop req rs
      else case hr_Status r of
             HealthReady \<Rightarrow> required_loop req rs
           | HealthSkipped \<Rightarrow> required_loop req rs
           | HealthUnknown \<Rightarrow> Some (preflight_error r ''required health check is unknown'')
           | HealthUnsupported \<Rightarrow> Some (preflight_error r ''required health check is unsupported'')
           | _ \<Rightarrow> Some (preflight_error r ''required health check failed''))"

definition missing_check :: "HealthCheckID list \<Rightarrow> HealthResult list \<Rightarrow> SDKError option" where
  "missing_check required results =
     map_option (\<lambda>check. NewError ErrorHealth ''health preflight'' ''required health check is missing'' None
                           [WithDebugDetail check])
       (find (\<lambda>check. check \<notin> hr_Check ` set results) required)"

definition RequiredHealthFailure :: "HealthReport \<Rightarrow> HealthCheckID list \<Rightarrow> SDKError option" where
  "RequiredHealthFailure report required =
     (let req = (if required = [] then map hr_Check (rep_Results report) else required)
      in case required_loop req (rep_Results report) of
           Some e \<Rightarrow> Some e
         | None \<Rightarrow> if required \<noteq> [] then missing_check required (rep_Results report) else None)"

definition ErrorForHealthStatus ::
  "HealthCheckID \<Rightarrow> HealthStatus \<Rightarrow> ErrorCategory \<Rightarrow> string \<Rightarrow> string \<Rightarrow> go_error option \<Rightarrow> SDKError" where
  "ErrorForHealthStatus check status category userDetail debugDetail cause =
     (let category' = (if category = NoErrorCategory then ErrorHealth else category);
          debug = WithDebugDetail (if debugDetail = [] then check else debugDetail);
          meta = (if status = HealthStatusOther '''' then []
                  else [WithMetadata (Some [(''health_status'', health_status_string status), (''health_check'', check)])])
      in NewError category' (''health '' @ check) userDetail cause (debug # meta))"

section \<open>The status of a report\<close>

text \<open>The statuses in the order the aggregation gives them: a later one replaces an earlier one.\<close>

fun status_rank :: "HealthStatus \<Rightarrow> nat" where
  "status_rank HealthUnrecoverable = 5"
| "status_rank HealthDegraded = 4"
| "status_rank HealthTransientFail = 3"
| "status_rank HealthUnknown = 2"
| "status_rank HealthSkipped = 1"
| "status_rank HealthUnsupported = 1"
| "status_rank _ = 0"

definition known_status :: "HealthStatus \<Rightarrow> bool" where
  "known_status s \<longleftrightarrow> (\<forall>t. s \<noteq> HealthStatusOther t)"

lemma overall_loop_upper:
  assumes "known_status status" and "status \<noteq> HealthUnrecoverable"
  shows "status_rank status \<le> status_rank (overall_loop status rs)
    \<and> (\<forall>r \<in> set rs. status_rank (hr_Status r) \<le> status_rank (overall_loop status rs))"
  using assms
proof (induction rs arbitrary: status)
  case (Cons r rs)
  have bound: "status_rank s \<le> 5" for s by (cases s) auto
  from Cons.prems show ?case
    using Cons.IH [of status] Cons.IH [of HealthTransientFail] Cons.IH [of HealthDegraded]
      Cons.IH [of HealthUnknown] Cons.IH [of HealthSkipped] Cons.IH [of HealthUnsupported]
    by (cases "hr_Status r"; cases status) (auto simp: known_status_def bound)
qed simp

lemma overall_loop_member: "overall_loop status rs \<in> insert status (hr_Status ` set rs)"
proof (induction rs arbitrary: status)
  case (Cons r rs)
  show ?case
    using Cons [of status] Cons [of HealthTransientFail] Cons [of HealthDegraded]
      Cons [of HealthUnknown] Cons [of HealthSkipped] Cons [of HealthUnsupported]
    by (cases "hr_Status r") auto
qed simp

section \<open>Required checks\<close>

definition passes :: "HealthResult \<Rightarrow> bool" where
  "passes r \<longleftrightarrow> hr_Status r \<in> {HealthReady, HealthSkipped}"

lemma required_loop_None_iff:
  "required_loop req rs = None \<longleftrightarrow> (\<forall>r \<in> set rs. hr_Check r \<in> set req \<longrightarrow> passes r)"
proof (induction rs)
  case (Cons r rs)
  then show ?case by (cases "hr_Status r") (auto simp: passes_def)
qed simp

lemma required_loop_Some:
  assumes "required_loop req rs = Some e"
  shows "\<exists>r \<in> set rs. hr_Check r \<in> set req \<and> \<not> passes r
      \<and> (hr_Err r = Some e \<or> hr_Err r = None \<and> err_Category e = ErrorHealth)"
  using assms
proof (induction rs)
  case (Cons r rs)
  have own: "hr_Err r = Some (preflight_error r d)
      \<or> hr_Err r = None \<and> err_Category (preflight_error r d) = ErrorHealth" for d
    by (cases "hr_Err r") (simp_all add: preflight_error_def)
  show ?case
  proof (cases "hr_Check r \<in> set req \<and> \<not> passes r")
    case True
    then have "\<exists>d. e = preflight_error r d"
      using Cons.prems by (cases "hr_Status r") (auto simp: passes_def)
    with True own show ?thesis by auto
  next
    case False
    then have "required_loop req rs = Some e"
      using Cons.prems by (cases "hr_Status r") (auto simp: passes_def split: if_splits)
    with Cons.IH show ?thesis by auto
  qed
qed simp

lemma missing_check_None_iff:
  "missing_check required rs = None \<longleftrightarrow> set required \<subseteq> hr_Check ` set rs"
  by (auto simp: missing_check_def find_None_iff)

lemma missing_check_Some: "missing_check required rs = Some e \<Longrightarrow> err_Category e = ErrorHealth"
  by (auto simp: missing_check_def)

text \<open>The checks a run waits for: those it names, or every check of the report.\<close>

definition required_met :: "HealthReport \<Rightarrow> HealthCheckID list \<Rightarrow> bool" where
  "required_met report required \<longleftrightarrow>
     (\<forall>r \<in> set (rep_Results report). required = [] \<or> hr_Check r \<in> set required \<longrightarrow> passes r)
     \<and> set required \<subseteq> hr_Check ` set (rep_Results report)"

section \<open>Properties\<close>

text \<open>
  C26. Preflight fails closed: it lets a run start exactly when every required check was reported and
  is ready or skipped; otherwise the error is the one the failing check recorded, or a health error.
\<close>

theorem required_health_exact:
  "case RequiredHealthFailure report required of
     None \<Rightarrow> required_met report required
   | Some e \<Rightarrow> \<not> required_met report required
       \<and> (err_Category e = ErrorHealth \<or> (\<exists>r \<in> set (rep_Results report). \<not> passes r \<and> hr_Err r = Some e))"
proof -
  define rs req where "rs = rep_Results report"
    and "req = (if required = [] then map hr_Check (rep_Results report) else required)"
  have met: "required_met report required \<longleftrightarrow>
      (\<forall>r \<in> set rs. hr_Check r \<in> set req \<longrightarrow> passes r) \<and> set required \<subseteq> hr_Check ` set rs"
    by (auto simp: required_met_def rs_def req_def)
  have call: "RequiredHealthFailure report required = (case required_loop req rs of Some e \<Rightarrow> Some e
      | None \<Rightarrow> if required \<noteq> [] then missing_check required rs else None)"
    unfolding RequiredHealthFailure_def rs_def req_def Let_def ..
  show ?thesis
  proof (cases "required_loop req rs")
    case None
    then have all: "\<forall>r \<in> set rs. hr_Check r \<in> set req \<longrightarrow> passes r"
      by (simp add: required_loop_None_iff)
    show ?thesis
    proof (cases "missing_check required rs")
      assume "missing_check required rs = None"
      moreover from this all met have "required_met report required"
        by (simp add: missing_check_None_iff)
      ultimately show ?thesis
        using None by (auto simp: call rs_def)
    next
      fix e assume e: "missing_check required rs = Some e"
      then have "\<not> set required \<subseteq> hr_Check ` set rs" and "required \<noteq> []"
        using missing_check_None_iff [of required rs] by auto
      with None e met missing_check_Some [OF e] show ?thesis
        by (simp add: call)
    qed
  next
    case (Some e)
    with required_loop_Some [OF Some] met show ?thesis
      by (auto simp: call rs_def)
  qed
qed

text \<open>
  The overall status of a report is the status of one of its results (or ready), and no result
  has a higher rank, where unrecoverable is above degraded, degraded above a transient failure, that
  above unknown, and unknown above skipped and unsupported. In particular one unrecoverable result
  makes the report unrecoverable.
\<close>

theorem overall_health_rank:
  "(let s = rep_OverallStatus (AggregateHealth report); seen = hr_Status ` set (rep_Results report)
    in s \<in> insert HealthReady seen \<and> (\<forall>t \<in> seen. status_rank t \<le> status_rank s)
       \<and> (s = HealthUnrecoverable) = (HealthUnrecoverable \<in> seen))"
proof -
  have ready: "known_status HealthReady" by (simp add: known_status_def)
  let ?s = "OverallHealthStatus (rep_Results report)"
  have up: "\<forall>r \<in> set (rep_Results report). status_rank (hr_Status r) \<le> status_rank ?s"
    using overall_loop_upper [OF ready] by (simp add: OverallHealthStatus_def)
  have mem: "?s \<in> insert HealthReady (hr_Status ` set (rep_Results report))"
    using overall_loop_member [of HealthReady] by (simp add: OverallHealthStatus_def)
  have "status_rank ?s = 5 \<longleftrightarrow> ?s = HealthUnrecoverable" "status_rank ?s \<le> 5"
    by (cases ?s; simp)+
  with up mem show ?thesis
    by (auto simp: AggregateHealth_def Let_def)
qed

theorem overall_health_rank_witness:
  "rep_OverallStatus (AggregateHealth
      \<lparr>rep_Context = zero_RuntimeContext, rep_EffectiveConfig = zero_EffectiveConfig, rep_Results = [],
       rep_OverallStatus = HealthUnknown, rep_GeneratedAt = 0, rep_NativeMetadata = None\<rparr>) = HealthReady"
  using overall_health_rank [of
      "\<lparr>rep_Context = zero_RuntimeContext, rep_EffectiveConfig = zero_EffectiveConfig, rep_Results = [],
       rep_OverallStatus = HealthUnknown, rep_GeneratedAt = 0, rep_NativeMetadata = None\<rparr>"]
  by (simp add: Let_def)

text \<open>
  The rank is not the severity the names suggest: a transient failure is an error, a degraded check
  a warning, yet a report with both is degraded, so a consumer of the overall status alone does not
  see the failure.
\<close>

lemma transient_failure_hidden_by_degraded:
  assumes "hr_Status r1 = HealthDegraded" and "hr_Status r2 = HealthTransientFail"
  shows "OverallHealthStatus [r1, r2] = HealthDegraded \<and> OverallHealthStatus [r2, r1] = HealthDegraded"
  using assms by (simp add: OverallHealthStatus_def)

end
