(* ===== verification/GoTime.thy ===== *)
theory GoTime
  imports Float64 "HOL-Library.Monad_Syntax"
begin

text \<open>
  The text of a time: the UTC form of RFC 3339 that \<open>time.Time.MarshalJSON\<close> writes, with the fraction
  of a second that is needed, and what \<open>time.Parse\<close> accepts with the layouts \<open>time.RFC3339\<close> and
  \<open>time.RFC3339Nano\<close>, which is also what \<open>time.Time.UnmarshalJSON\<close> accepts. A time is the number of
  nanoseconds since the start of year 1, the zero time of Go. What is written is read back.
\<close>

section \<open>The calendar\<close>

definition leap_year :: "int \<Rightarrow> bool" where
  "leap_year y \<longleftrightarrow> y mod 4 = 0 \<and> (y mod 100 \<noteq> 0 \<or> y mod 400 = 0)"

text \<open>Days from the start of year 1 to the start of a year.\<close>

definition year_start :: "int \<Rightarrow> int" where
  "year_start y = (let x = y - 1 in 365 * x + x div 4 - x div 100 + x div 400)"

text \<open>The year of a day: the mean length of a year gives it up to one.\<close>

definition year_of :: "int \<Rightarrow> int" where
  "year_of d =
     (let y = 400 * d div 146097 + 1
      in if d < year_start y then y - 1 else if year_start (y + 1) \<le> d then y + 1 else y)"

text \<open>Days from the start of a year to the start of its month; the thirteenth starts the next year.\<close>

definition month_start :: "bool \<Rightarrow> nat \<Rightarrow> int" where
  "month_start leap m =
     [0, 31, 59, 90, 120, 151, 181, 212, 243, 273, 304, 334, 365] ! (m - 1) + (if leap \<and> 2 < m then 1 else 0)"

definition daysIn :: "nat \<Rightarrow> int \<Rightarrow> int" where
  "daysIn m y = month_start (leap_year y) (m + 1) - month_start (leap_year y) m"

definition month_of :: "bool \<Rightarrow> int \<Rightarrow> nat" where
  "month_of leap yd = last (filter (\<lambda>m. month_start leap m \<le> yd) [1..<13])"

text \<open>A day as its year, its month and its day of the month, and back.\<close>

definition civil :: "int \<Rightarrow> int \<times> nat \<times> nat" where
  "civil d =
     (let y = year_of d; yd = d - year_start y; m = month_of (leap_year y) yd
      in (y, m, nat (yd - month_start (leap_year y) m + 1)))"

definition day_number :: "int \<Rightarrow> nat \<Rightarrow> nat \<Rightarrow> int" where
  "day_number y m d = year_start y + month_start (leap_year y) m + int d - 1"

section \<open>Writing and reading times\<close>

definition day_ns :: int where "day_ns = 24 * hour"

definition time_text :: "gtime \<Rightarrow> string option" where
  "time_text t =
     (let (y, m, d) = civil (t div day_ns); r = t mod day_ns; s = r div second; ns = r mod second
      in if y < 0 \<or> 9999 < y then None
         else Some (pad_digits 4 (nat y) @ ''-'' @ pad_digits 2 m @ ''-'' @ pad_digits 2 d @ ''T''
                    @ pad_digits 2 (nat (s div 3600)) @ '':'' @ pad_digits 2 (nat (s div 60 mod 60)) @ '':''
                    @ pad_digits 2 (nat (s mod 60)) @ (if ns = 0 then [] else fmt_frac (nat ns) 9) @ ''Z''))"

definition fixed_digits :: "nat \<Rightarrow> string \<Rightarrow> (nat \<times> string) option" where
  "fixed_digits k s =
     (let ds = take k s
      in if length ds = k \<and> list_all is_digit ds then Some (digits_val 0 ds, drop k s) else None)"

text \<open>The layout's hour is read from one digit or two.\<close>

definition hour_digits :: "string \<Rightarrow> (nat \<times> string) option" where
  "hour_digits s = (case fixed_digits 2 s of Some r \<Rightarrow> Some r | None \<Rightarrow> fixed_digits 1 s)"

definition skip_char :: "char \<Rightarrow> string \<Rightarrow> string option" where
  "skip_char c s = (case s of [] \<Rightarrow> None | x # r \<Rightarrow> if x = c then Some r else None)"

text \<open>A fraction of a second, after a point or a comma, beyond nine digits ignored.\<close>

definition fraction :: "string \<Rightarrow> int \<times> string" where
  "fraction s =
     (case s of
        c # d # r \<Rightarrow>
          if (c = CHR ''.'' \<or> c = CHR '','') \<and> is_digit d
          then (let ds = take 9 (takeWhile is_digit (d # r))
                in (int (digits_val 0 ds) * 10 ^ (9 - length ds), dropWhile is_digit (d # r)))
          else (0, s)
      | _ \<Rightarrow> (0, s))"

text \<open>The offset of the zone in seconds.\<close>

definition zone_offset :: "string \<Rightarrow> (int \<times> string) option" where
  "zone_offset s =
     (case s of
        [] \<Rightarrow> None
      | c # r \<Rightarrow>
          if c = CHR ''Z'' then Some (0, r)
          else if c = CHR ''+'' \<or> c = CHR ''-'' then
            do { (hr, r) \<leftarrow> fixed_digits 2 r;
                 r \<leftarrow> skip_char (CHR '':'') r;
                 (mm, r) \<leftarrow> fixed_digits 2 r;
                 if 24 < hr \<or> 60 < mm then None
                 else let off = int ((hr * 60 + mm) * 60) in Some (if c = CHR ''-'' then - off else off, r) }
          else None)"

definition time_Parse :: "string \<Rightarrow> gtime option" where
  "time_Parse s =
     do { (y, s) \<leftarrow> fixed_digits 4 s;
          s \<leftarrow> skip_char (CHR ''-'') s;
          (m, s) \<leftarrow> fixed_digits 2 s;
          s \<leftarrow> skip_char (CHR ''-'') s;
          (d, s) \<leftarrow> fixed_digits 2 s;
          s \<leftarrow> skip_char (CHR ''T'') s;
          (h, s) \<leftarrow> hour_digits s;
          s \<leftarrow> skip_char (CHR '':'') s;
          (mi, s) \<leftarrow> fixed_digits 2 s;
          s \<leftarrow> skip_char (CHR '':'') s;
          (sec, s) \<leftarrow> fixed_digits 2 s;
          (let (ns, s) = fraction s
           in do { (off, s) \<leftarrow> zone_offset s;
                   if s \<noteq> [] \<or> m < 1 \<or> 12 < m \<or> 24 \<le> h \<or> 60 \<le> mi \<or> 60 \<le> sec \<or> d < 1 \<or> daysIn m (int y) < int d then None
                   else Some (day_number (int y) m d * day_ns
                              + ((int h * 60 + int mi) * 60 + int sec - off) * second + ns) }) }"

section \<open>The calendar is right\<close>

lemma div_bounds: "0 < k \<Longrightarrow> k * (x div k) \<le> x \<and> x < k * (x div k) + (k :: int)"
  using pos_mod_bound [of k x] pos_mod_sign [of k x] mult_div_mod_eq [of k x] by linarith

lemma year_start_bounds:
  "146097 * (y - 1) - 699 \<le> 400 * year_start y" "400 * year_start y \<le> 146097 * (y - 1) + 396"
proof -
  define x where "x = y - 1"
  have "400 * year_start y = 146000 * x + 400 * (x div 4) - 400 * (x div 100) + 400 * (x div 400)"
    by (simp add: year_start_def Let_def x_def)
  then show "146097 * (y - 1) - 699 \<le> 400 * year_start y" "400 * year_start y \<le> 146097 * (y - 1) + 396"
    using div_bounds [of 4 x] div_bounds [of 100 x] div_bounds [of 400 x] unfolding x_def [symmetric] by simp_all
qed

lemma year_of_bounds: "year_start (year_of d) \<le> d" "d < year_start (year_of d + 1)"
proof -
  define y where "y = 400 * d div 146097 + 1"
  have y: "146097 * (y - 1) \<le> 400 * d" "400 * d < 146097 * y" using div_bounds [of 146097 "400 * d"] unfolding y_def by simp_all
  note b = year_start_bounds
  have "year_start (y - 1) \<le> d" using y b(2) [of "y - 1"] by simp
  moreover have "d < year_start (2 + y)" using y b(1) [of "2 + y"] by simp
  moreover have "year_of d = (if d < year_start y then y - 1 else if year_start (y + 1) \<le> d then y + 1 else y)"
    by (simp add: year_of_def Let_def y_def)
  ultimately show "year_start (year_of d) \<le> d" "d < year_start (year_of d + 1)"
    by (auto split: if_splits)
qed

lemma div_step: assumes k: "0 < k" shows "(y :: int) div k = (y - 1) div k + (if y mod k = 0 then 1 else 0)"
proof (cases "y mod k = 0")
  case True
  then obtain q where q: "y = k * q" by blast
  then have "y - 1 = k * (q - 1) + (k - 1)" by (simp add: algebra_simps)
  then have "(y - 1) div k = q - 1" using k by (intro int_div_pos_eq [of _ _ _ "k - 1"]) simp_all
  then show ?thesis using True q k by simp
next
  case False
  have "y - 1 = k * (y div k) + (y mod k - 1)" using mult_div_mod_eq [of k y] by linarith
  moreover have "0 \<le> y mod k - 1" "y mod k - 1 < k" using False k pos_mod_sign [of k y] pos_mod_bound [of k y] by linarith+
  ultimately have "(y - 1) div k = y div k" by (rule int_div_pos_eq)
  then show ?thesis using False by simp
qed

lemma div_diff: "0 < k \<Longrightarrow> (y :: int) div k - (y - 1) div k = (if y mod k = 0 then 1 else 0)"
  using div_step [of k y] by simp

lemma leap_days:
  "(c \<Longrightarrow> b) \<Longrightarrow> (b \<Longrightarrow> a) \<Longrightarrow> 365 + (if a then 1 else 0) - (if b then 1 else 0) + (if c then 1 else 0)
    = (if a \<and> (\<not> b \<or> c) then 366 else (365 :: int))"
  by (cases a; cases b; cases c) simp_all

lemma year_length: "year_start (y + 1) - year_start y = (if leap_year y then 366 else 365)"
proof -
  have "year_start (y + 1) - year_start y
      = 365 + (y div 4 - (y - 1) div 4) - (y div 100 - (y - 1) div 100) + (y div 400 - (y - 1) div 400)"
    by (simp add: year_start_def Let_def)
  also have "\<dots> = (if leap_year y then 366 else 365)"
    unfolding leap_year_def div_diff [OF zero_less_numeral]
    by (rule leap_days) (use mod_mod_cancel [of 100 400 y] mod_mod_cancel [of 4 100 y] in auto)
  finally show ?thesis .
qed

lemma year_start_mono: "y \<le> z \<Longrightarrow> year_start y \<le> year_start z"
proof (cases "y = z")
  case False
  assume "y \<le> z"
  with False have "y + 1 \<le> z" by simp
  with year_start_bounds(2) [of y] year_start_bounds(1) [of z] show ?thesis by simp
qed simp

lemma month_starts:
  "month_start l 1 = 0" "month_start l 2 = 31"
  "month_start l 3 = (if l then 60 else 59)" "month_start l 4 = (if l then 91 else 90)"
  "month_start l 5 = (if l then 121 else 120)" "month_start l 6 = (if l then 152 else 151)"
  "month_start l 7 = (if l then 182 else 181)" "month_start l 8 = (if l then 213 else 212)"
  "month_start l 9 = (if l then 244 else 243)" "month_start l 10 = (if l then 274 else 273)"
  "month_start l 11 = (if l then 305 else 304)" "month_start l 12 = (if l then 335 else 334)"
  "month_start l 13 = (if l then 366 else 365)"
  by (simp_all add: month_start_def)

lemma month_of_bounds:
  assumes "0 \<le> yd" "yd < (if l then 366 else 365)"
  shows "1 \<le> month_of l yd" "month_of l yd \<le> 12"
    "month_start l (month_of l yd) \<le> yd" "yd < month_start l (month_of l yd + 1)"
proof -
  let ?P = "\<lambda>m. month_start l m \<le> yd"
  let ?ms = "filter ?P [1..<13]"
  have one: "1 \<in> set ?ms" using assms(1) month_starts(1) [of l] by simp
  have ne: "?ms \<noteq> []" using one by (metis emptyE list.set(1))
  have last: "last ?ms \<in> set ?ms" using ne by (rule last_in_set)
  then show m: "1 \<le> month_of l yd" "month_of l yd \<le> 12" "month_start l (month_of l yd) \<le> yd"
    by (simp_all add: month_of_def)
  show "yd < month_start l (month_of l yd + 1)"
  proof (rule ccontr)
    assume no: "\<not> ?thesis"
    have "month_of l yd \<noteq> 12" using no assms(2) month_starts(13) [of l] by auto
    then have "month_of l yd + 1 \<in> set ?ms" using no m by simp
    moreover have "x \<le> last ?ms" if "x \<in> set ?ms" for x
    proof -
      have "sorted ?ms" by (intro sorted_wrt_filter) simp
      with that ne show ?thesis by (metis in_set_conv_nth last_conv_nth length_pos_if_in_set One_nat_def Suc_pred
            diff_less le_simps(2) lessI sorted_nth_mono zero_less_one)
    qed
    ultimately show False by (fastforce simp: month_of_def)
  qed
qed

lemma days_in_month: "1 \<le> m \<Longrightarrow> m \<le> 12 \<Longrightarrow> 1 \<le> daysIn m y \<and> daysIn m y \<le> 31"
proof -
  assume "1 \<le> m" "m \<le> 12"
  then have "m \<in> {1,2,3,4,5,6,7,8,9,10,11,12}" by (simp add: numeral_eq_Suc le_Suc_eq)
  then show ?thesis by (elim insertE emptyE) (simp_all add: daysIn_def month_start_def)
qed

lemma civil_day:
  assumes "civil d = (y, m, dd)"
  shows "day_number y m dd = d" "1 \<le> m" "m \<le> 12" "1 \<le> dd" "int dd \<le> daysIn m y" "dd < 100"
proof -
  define yd where "yd = d - year_start y"
  from assms have y: "y = year_of d" and m: "m = month_of (leap_year y) yd"
    and dd: "dd = nat (yd - month_start (leap_year y) m + 1)"
    by (auto simp: civil_def Let_def yd_def)
  have "0 \<le> yd" "yd < (if leap_year y then 366 else 365)"
    using year_of_bounds [of d] year_length [of y] unfolding yd_def y by linarith+
  note b = month_of_bounds [OF this, folded m]
  show ms: "1 \<le> m" "m \<le> 12" by (fact b)+
  show "day_number y m dd = d" "1 \<le> dd" "int dd \<le> daysIn m y"
    using b dd by (auto simp: day_number_def daysIn_def yd_def)
  then show "dd < 100" using days_in_month [OF ms, of y] by linarith
qed

section \<open>The round trip\<close>

lemma digits_val_zeros_append: "digits_val 0 (replicate k (CHR ''0'') @ s) = digits_val 0 s"
  by (simp add: digits_val_append)

lemma nat_digits_length: "n < 10 ^ k \<Longrightarrow> 0 < k \<Longrightarrow> length (nat_digits n) \<le> k"
proof (rule ccontr)
  assume n: "n < 10 ^ k" "0 < k" and long: "\<not> length (nat_digits n) \<le> k"
  show False
  proof (cases "n = 0")
    case True
    with long n show ?thesis by (simp add: nat_digits.simps)
  next
    case False
    then have "10 ^ (length (nat_digits n) - 1) \<le> n" using nat_digits_bounds(2) by simp
    moreover have "(10 :: nat) ^ k \<le> 10 ^ (length (nat_digits n) - 1)" using long by (intro power_increasing) auto
    ultimately show ?thesis using n(1) by linarith
  qed
qed

lemma pad_digits_props:
  assumes "n < 10 ^ k" "0 < k"
  shows "length (pad_digits k n) = k" "list_all is_digit (pad_digits k n)" "digits_val 0 (pad_digits k n) = n"
  using nat_digits_length [OF assms] nat_digits_all [of n] zeros_digits
  by (simp_all add: pad_digits_def Let_def digits_val_zeros_append)

lemma fixed_digits_pad: "n < 10 ^ k \<Longrightarrow> 0 < k \<Longrightarrow> fixed_digits k (pad_digits k n @ s) = Some (n, s)"
  by (simp add: fixed_digits_def pad_digits_props)

lemma hour_digits_pad: "n < 100 \<Longrightarrow> hour_digits (pad_digits 2 n @ s) = Some (n, s)"
  using fixed_digits_pad [of n 2] by (simp add: hour_digits_def)

lemma fraction_frac:
  assumes "0 \<le> n" "n < second" "s = [] \<or> \<not> is_digit (hd s) \<and> hd s \<noteq> CHR ''.'' \<and> hd s \<noteq> CHR '',''"
  shows "fraction ((if n = 0 then [] else fmt_frac (nat n) 9) @ s) = (n, s)"
proof (cases "n = 0")
  case True
  then show ?thesis using assms(3) by (auto simp: fraction_def split: list.splits)
next
  case False
  define ds where "ds = strip_zeros (pad_digits 9 (nat n))"
  have n: "nat n < 10 ^ 9" using assms(1,2) by (simp add: second_def millisecond_def nat_less_iff)
  note p = pad_digits_props [OF n, simplified]
  obtain k where k: "pad_digits 9 (nat n) = ds @ replicate k (CHR ''0'')" using strip_zeros_split ds_def by metis
  have all: "list_all is_digit ds" using p(2) k by simp
  have len: "length ds + k = 9" using p(1) k by (metis length_append length_replicate)
  have "digits_val 0 ds * 10 ^ k = nat n" using p(3) k by (simp add: digits_val_append)
  then have val: "int (digits_val 0 ds) * 10 ^ k = n"
    using assms(1) by (metis of_nat_mult of_nat_numeral of_nat_power int_nat_eq)
  with False have "ds \<noteq> []" by auto
  then obtain c r where ds: "ds = c # r" by (cases ds) auto
  have tw: "takeWhile is_digit (ds @ s) = ds" "dropWhile is_digit (ds @ s) = s"
    using all assms(3) by (cases s; auto simp: list_all_iff takeWhile_append dropWhile_append)+
  have "fmt_frac (nat n) 9 = CHR ''.'' # ds" using n False assms(1) by (simp add: fmt_frac_def ds_def)
  then have "fraction (fmt_frac (nat n) 9 @ s) = (int (digits_val 0 ds) * 10 ^ (9 - length ds), s)"
    using tw all len unfolding ds by (simp add: fraction_def Let_def)
  also have "9 - length ds = k" using len by simp
  finally show ?thesis using val False by simp
qed

lemma clock_split:
  assumes "0 \<le> s" "s < 86400"
  shows "((s div 3600) * 60 + s div 60 mod 60) * 60 + s mod 60 = (s :: int)" "0 \<le> s div 3600" "s div 3600 < 24"
proof -
  have "s div 3600 = s div 60 div 60" using zdiv_zmult2_eq [of 60 s 60] by simp
  then show "((s div 3600) * 60 + s div 60 mod 60) * 60 + s mod 60 = s" by (simp only: div_mult_mod_eq)
  have "3600 * (s div 3600) < 3600 * 24" using div_bounds [of 3600 s] assms(2) by simp
  then show "s div 3600 < 24" by (simp only: mult_less_cancel_left_pos zero_less_numeral)
  show "0 \<le> s div 3600" using assms(1) by (simp only: pos_imp_zdiv_nonneg_iff zero_less_numeral)
qed

lemma time_text_parse:
  assumes "time_text t = Some x"
  shows "time_Parse x = Some t"
proof -
  obtain y m d where c: "civil (t div day_ns) = (y, m, d)" by (metis prod_cases3)
  note cd = civil_day [OF c]
  define r s ns where "r = t mod day_ns" and "s = r div second" and "ns = r mod second"
  define hh mi ss where "hh = nat (s div 3600)" and "mi = nat (s div 60 mod 60)" and "ss = nat (s mod 60)"
  have ns: "0 \<le> ns" "ns < second" "second * s + ns = r" by (simp_all add: ns_def s_def second_def millisecond_def)
  have "0 < day_ns" "day_ns = 86400 * second" by (simp_all add: day_ns_def hour_def second_def millisecond_def)
  then have "0 \<le> r" "r < 86400 * second" unfolding r_def using pos_mod_bound [of day_ns t] by simp_all
  then have s: "0 \<le> s" "s < 86400"
    unfolding s_def by (simp_all add: second_def millisecond_def pos_imp_zdiv_nonneg_iff)
  have parts: "int hh = s div 3600" "int mi = s div 60 mod 60" "int ss = s mod 60"
    using clock_split(2) [OF s] by (simp_all only: hh_def mi_def ss_def int_nat_eq pos_mod_sign [OF zero_less_numeral] if_True)
  have "int hh < 24" "int mi < 60" "int ss < 60"
    unfolding parts using clock_split(3) [OF s] by (simp_all only: pos_mod_bound [OF zero_less_numeral])
  moreover have "(int hh * 60 + int mi) * 60 + int ss = s" unfolding parts by (rule clock_split(1) [OF s])
  ultimately have clock: "(int hh * 60 + int mi) * 60 + int ss = s" "hh < 24" "mi < 60" "ss < 60" by simp_all
  then have low: "hh < 100" "mi < 100" "ss < 100" "\<not> 24 \<le> hh" "\<not> 60 \<le> mi" "\<not> 60 \<le> ss" by simp_all
  from assms have y: "0 \<le> y" "nat y < 10 ^ 4"
    and body: "x = pad_digits 4 (nat y) @ ''-'' @ pad_digits 2 m @ ''-'' @ pad_digits 2 d @ ''T''
                @ pad_digits 2 hh @ '':'' @ pad_digits 2 mi @ '':'' @ pad_digits 2 ss
                @ (if ns = 0 then [] else fmt_frac (nat ns) 9) @ ''Z''"
    by (auto simp: time_text_def c Let_def r_def s_def ns_def hh_def mi_def ss_def split: if_splits)
  have small: "m < 100" "d < 100" using cd by simp_all
  have frac: "fraction ((if ns = 0 then [] else fmt_frac (nat ns) 9) @ ''Z'') = (ns, ''Z'')"
    using ns by (intro fraction_frac) (simp_all add: is_digit_def)
  have "time_Parse x = Some (day_number y m d * day_ns + ((int hh * 60 + int mi) * 60 + int ss) * second + ns)"
    using y cd(2-5) unfolding body time_Parse_def
    by (simp add: fixed_digits_pad small low hour_digits_pad skip_char_def frac [simplified] zone_offset_def)
  moreover have "t = t div day_ns * day_ns + (s * second + ns)" using ns(3) r_def by (simp add: mult.commute [of s])
  ultimately show ?thesis using clock(1) cd(1) by simp
qed

text \<open>Every time of the years 0 to 9999 has a text.\<close>

lemma time_text_year_one: "0 \<le> t \<Longrightarrow> t < year_start 10000 * day_ns \<Longrightarrow> time_text t \<noteq> None"
proof -
  assume t: "0 \<le> t" "t < year_start 10000 * day_ns"
  have ns: "0 < day_ns" by (simp add: day_ns_def hour_def second_def millisecond_def)
  define d where "d = t div day_ns"
  have "day_ns * d \<le> t" using div_bounds [OF ns, of t] by (simp add: d_def)
  then have "day_ns * d < day_ns * year_start 10000" using t(2) by (simp add: mult.commute)
  then have d: "0 \<le> d" "d < year_start 10000"
    using t(1) ns by (simp_all add: d_def pos_imp_zdiv_nonneg_iff)
  have "year_start 1 = 0" by (simp add: year_start_def)
  then have "\<not> year_of d + 1 \<le> 1" using d(1) year_of_bounds(2) [of d] year_start_mono [of "year_of d + 1" 1] by fastforce
  moreover have "\<not> 10000 \<le> year_of d" using d(2) year_of_bounds(1) [of d] year_start_mono [of 10000 "year_of d"] by fastforce
  ultimately show ?thesis by (simp add: time_text_def civil_def Let_def d_def [symmetric])
qed

end
