(* ===== verification/JsonScan.thy ===== *)
theory JsonScan
  imports JsonLaws GoTime
begin

text \<open>
  \<open>json.Unmarshal\<close> into a struct or a map with typed values. The text is first scanned into a tree that keeps
  every member and the literals as they were written, and then stored in the value that is decoded into: the members
  in their order, so that a later one overwrites or extends what an earlier one stored, a key matched
  with a field up to case, null storing nothing, and any literal of another type an error. Decoding into
  \<open>any\<close> from that tree is \<^const>\<open>json_parse\<close>.
\<close>

section \<open>Scanning\<close>

text \<open>
  A number with its sign, its digits before and after the point and its exponent; a string with its
  text between the quotes and its value.
\<close>

datatype jraw =
    RNull
  | RBool bool
  | RNum bool string string "int option"
  | RStr string string
  | RArr "jraw list"
  | RObj "(string \<times> jraw) list"

definition scan_number :: "string \<Rightarrow> (jraw \<times> string) option" where
  "scan_number s =
     (let (neg, s1) = number_sign s
      in case number_int s1 of
           None \<Rightarrow> None
         | Some (ip, s2) \<Rightarrow>
             (case number_frac s2 of
                None \<Rightarrow> None
              | Some (fp, s3) \<Rightarrow>
                  (case number_exp s3 of
                     None \<Rightarrow> None
                   | Some (e, rest) \<Rightarrow> Some (RNum neg ip fp (if rest = s3 then None else Some e), rest))))"

definition scan_scalar :: "string \<Rightarrow> (jraw \<times> string) option" where
  "scan_scalar s =
     (if prefix ''true'' s then Some (RBool True, drop 4 s)
      else if prefix ''false'' s then Some (RBool False, drop 5 s)
      else if prefix ''null'' s then Some (RNull, drop 4 s)
      else scan_number s)"

definition scan_string :: "string \<Rightarrow> (jraw \<times> string) option" where
  "scan_string t = map_option (\<lambda>(x, u). (RStr (take (length t - Suc (length u)) t) x, u)) (string_body t)"

fun scan_value :: "nat \<Rightarrow> nat \<Rightarrow> string \<Rightarrow> (jraw \<times> string) option"
  and scan_elems :: "nat \<Rightarrow> nat \<Rightarrow> string \<Rightarrow> (jraw list \<times> string) option"
  and scan_members :: "nat \<Rightarrow> nat \<Rightarrow> string \<Rightarrow> ((string \<times> jraw) list \<times> string) option"
where
  "scan_value 0 d s = None"
| "scan_value (Suc n) d s =
     (case next_byte s of
        None \<Rightarrow> None
      | Some (c, t) \<Rightarrow>
          if c = CHR 0x22 then scan_string t
          else if c = CHR 0x7B then
            (if max_depth \<le> d then None
             else if map_option fst (next_byte t) = Some (CHR 0x7D) then Some (RObj [], tl (skip_ws t))
             else map_option (\<lambda>(x, u). (RObj x, u)) (scan_members n (Suc d) t))
          else if c = CHR 0x5B then
            (if max_depth \<le> d then None
             else if map_option fst (next_byte t) = Some (CHR 0x5D) then Some (RArr [], tl (skip_ws t))
             else map_option (\<lambda>(x, u). (RArr x, u)) (scan_elems n (Suc d) t))
          else scan_scalar (c # t))"
| "scan_elems 0 d s = None"
| "scan_elems (Suc n) d s =
     (case scan_value n d s of
        None \<Rightarrow> None
      | Some (v, u) \<Rightarrow>
          (case next_byte u of
             None \<Rightarrow> None
           | Some (c, t) \<Rightarrow>
               if c = CHR 0x5D then Some ([v], t)
               else if c = CHR '','' then map_option (\<lambda>(vs, w). (v # vs, w)) (scan_elems n d t)
               else None))"
| "scan_members 0 d s = None"
| "scan_members (Suc n) d s =
     (case member_key s of
        None \<Rightarrow> None
      | Some (k, t) \<Rightarrow>
          (case scan_value n d t of
             None \<Rightarrow> None
           | Some (v, u) \<Rightarrow>
               (case next_byte u of
                  None \<Rightarrow> None
                | Some (c, w) \<Rightarrow>
                    if c = CHR 0x7D then Some ([(k, v)], w)
                    else if c = CHR '','' then map_option (\<lambda>(m, x). ((k, v) # m, x)) (scan_members n d w)
                    else None)))"

definition json_scan :: "string \<Rightarrow> jraw option" where
  "json_scan s =
     (case scan_value (2 * length s + 2) 0 s of
        None \<Rightarrow> None
      | Some (r, rest) \<Rightarrow> if skip_ws rest = [] then Some r else None)"

section \<open>Decoding into any\<close>

definition raw_float :: "bool \<Rightarrow> string \<Rightarrow> string \<Rightarrow> int option \<Rightarrow> rat option" where
  "raw_float neg ip fp e =
     (let m = of_nat (digits_val 0 (ip @ fp)) * pow_rat 10 (case_option 0 id e - int (length fp))
      in round_float64 (if neg then - m else m))"

definition put_members :: "(string \<times> 'a) list \<Rightarrow> (string \<times> 'a) list \<Rightarrow> (string \<times> 'a) list" where
  "put_members acc m = foldl (\<lambda>a (k, v). aput k v a) acc m"

text \<open>A number out of range is an error; of two members with one key the later is kept.\<close>

fun json_of_raw :: "jraw \<Rightarrow> json option" where
  "json_of_raw RNull = Some JNull"
| "json_of_raw (RBool b) = Some (JBool b)"
| "json_of_raw (RNum neg ip fp e) = map_option JNum (raw_float neg ip fp e)"
| "json_of_raw (RStr lit x) = Some (JStr x)"
| "json_of_raw (RArr rs) = map_option JArr (those (map json_of_raw rs))"
| "json_of_raw (RObj m) =
     map_option (\<lambda>vs. JObj (put_members [] (zip (map fst m) vs))) (those (map json_of_raw (map snd m)))"

lemma json_number_scan:
  "json_number s = (case scan_number s of Some (RNum neg ip fp e, rest) \<Rightarrow> map_option (\<lambda>v. (v, rest)) (raw_float neg ip fp e) | _ \<Rightarrow> None)"
proof -
  have zero: "e = 0" if "number_exp s3 = Some (e, s3)" for e s3
  proof (cases s3)
    case (Cons c t)
    have "length (snd (digits_of (snd (split_sign t)))) \<le> length t"
      using length_digits_of length_split_sign le_trans by blast
    with that Cons show ?thesis by (auto simp: number_exp_def Let_def split: if_splits prod.splits)
  qed (use that in \<open>simp add: number_exp_def\<close>)
  show ?thesis
    by (auto simp: json_number_def scan_number_def raw_float_def Let_def dest!: zero split: option.splits prod.splits)
qed

lemma scan_number_form: "scan_number s = Some (r, rest) \<Longrightarrow> \<exists>neg ip fp e. r = RNum neg ip fp e"
  by (auto simp: scan_number_def Let_def split: option.splits prod.splits)

lemma json_scalar_scan:
  "json_scalar s = (case scan_scalar s of None \<Rightarrow> None | Some (r, u) \<Rightarrow> map_option (\<lambda>v. (v, u)) (json_of_raw r))"
  by (auto simp: json_scalar_def scan_scalar_def json_number_scan option.map_comp comp_def split: option.splits
      dest!: scan_number_form)

text \<open>Scanning and then decoding into \<open>any\<close> is parsing.\<close>

lemma scan_decodes:
  "json_value n d s = (case scan_value n d s of None \<Rightarrow> None | Some (r, u) \<Rightarrow> map_option (\<lambda>v. (v, u)) (json_of_raw r))"
  "json_elems n d s
    = (case scan_elems n d s of None \<Rightarrow> None | Some (rs, u) \<Rightarrow> map_option (\<lambda>vs. (vs, u)) (those (map json_of_raw rs)))"
  "json_members n d acc s
    = (case scan_members n d s of
         None \<Rightarrow> None
       | Some (m, u) \<Rightarrow>
           map_option (\<lambda>vs. (put_members acc (zip (map fst m) vs), u)) (those (map json_of_raw (map snd m))))"
proof (induction n arbitrary: d s acc)
  case (Suc n)
  { case 1
    show ?case
      unfolding json_value.simps scan_value.simps Suc.IH json_scalar_scan
      by (auto simp: scan_string_def put_members_def option.map_comp comp_def split: option.splits)
  next
    case 2
    show ?case
      unfolding json_elems.simps scan_elems.simps Suc.IH
      by (auto simp: option.map_comp comp_def split: option.splits)
  next
    case 3
    show ?case
      unfolding json_members.simps scan_members.simps Suc.IH
      by (auto simp: put_members_def option.map_comp comp_def split: option.splits) }
qed simp_all

lemma json_parse_scan: "json_parse s = Option.bind (json_scan s) json_of_raw"
  unfolding json_parse_def json_scan_def scan_decodes
  by (auto split: option.splits prod.splits)

section \<open>Decoding into a struct\<close>

text \<open>
  Field names are compared up to simple case folding. Besides the ASCII letters, the long s (U+017F) and
  the Kelvin sign (U+212A) fold to one.
\<close>

function fold_name :: "string \<Rightarrow> string" where
  "fold_name [] = []"
| "fold_name (c # s) =
     (if take 2 (c # s) = [CHR 0xC5, CHR 0xBF] then CHR ''s'' # fold_name (drop 1 s)
      else if take 3 (c # s) = [CHR 0xE2, CHR 0x84, CHR 0xAA] then CHR ''k'' # fold_name (drop 2 s)
      else lower_char c # fold_name s)"
  by pat_completeness auto
termination by (relation "measure length") auto

type_synonym 'a field = "string \<times> ('a \<Rightarrow> jraw \<Rightarrow> 'a option)"

definition store_member :: "'a field list \<Rightarrow> 'a option \<Rightarrow> string \<times> jraw \<Rightarrow> 'a option" where
  "store_member fs acc kv =
     (case acc of
        None \<Rightarrow> None
      | Some x \<Rightarrow>
          (case find (\<lambda>(name, _). fold_name name = fold_name (fst kv)) fs of
             None \<Rightarrow> Some x
           | Some (_, put) \<Rightarrow> put x (snd kv)))"

fun decode_struct :: "'a field list \<Rightarrow> 'a \<Rightarrow> jraw \<Rightarrow> 'a option" where
  "decode_struct fs x (RObj m) = foldl (store_member fs) (Some x) m"
| "decode_struct fs x RNull = Some x"
| "decode_struct fs x _ = None"

text \<open>The values of fields: a string, an \<open>int\<close>, a \<open>float64\<close>, a time, a map.\<close>

fun decode_string :: "string \<Rightarrow> jraw \<Rightarrow> string option" where
  "decode_string x (RStr lit s) = Some s"
| "decode_string x RNull = Some x"
| "decode_string x _ = None"

fun decode_int :: "int \<Rightarrow> jraw \<Rightarrow> int option" where
  "decode_int x (RNum neg ip fp e) =
     (if fp = [] \<and> e = None then Atoi ((if neg then ''-'' else []) @ ip) else None)"
| "decode_int x RNull = Some x"
| "decode_int x _ = None"

fun decode_float :: "rat \<Rightarrow> jraw \<Rightarrow> rat option" where
  "decode_float x (RNum neg ip fp e) = raw_float neg ip fp e"
| "decode_float x RNull = Some x"
| "decode_float x _ = None"

text \<open>\<open>time.Time.UnmarshalJSON\<close> reads the text between the quotes as it stands.\<close>

fun decode_time :: "gtime \<Rightarrow> jraw \<Rightarrow> gtime option" where
  "decode_time x (RStr lit s) = time_Parse lit"
| "decode_time x RNull = Some x"
| "decode_time x _ = None"

text \<open>Null makes a map nil; an object adds its members to the map that is there.\<close>

definition store_entry :: "(jraw \<Rightarrow> 'a option) \<Rightarrow> (string \<times> 'a) list option \<Rightarrow> string \<times> jraw \<Rightarrow> (string \<times> 'a) list option" where
  "store_entry elem acc kv =
     (case acc of None \<Rightarrow> None | Some m \<Rightarrow> map_option (\<lambda>v. aput (fst kv) v m) (elem (snd kv)))"

fun decode_map :: "(jraw \<Rightarrow> 'a option) \<Rightarrow> (string \<times> 'a) list \<Rightarrow> jraw \<Rightarrow> (string \<times> 'a) list option" where
  "decode_map elem x (RObj m) = foldl (store_entry elem) (Some x) m"
| "decode_map elem x RNull = Some []"
| "decode_map elem x _ = None"

definition json_decode :: "('a \<Rightarrow> jraw \<Rightarrow> 'a option) \<Rightarrow> 'a \<Rightarrow> string \<Rightarrow> 'a option" where
  "json_decode put x s = (case json_scan s of None \<Rightarrow> None | Some r \<Rightarrow> put x r)"

section \<open>What is written is scanned\<close>

text \<open>A text is scanned as a tree of at most the given depth, whatever follows it.\<close>

definition scans :: "nat \<Rightarrow> string \<Rightarrow> jraw \<Rightarrow> bool" where
  "scans h t r \<longleftrightarrow> (\<forall>n d rest. d + h \<le> max_depth \<longrightarrow> 2 * length t + 1 \<le> n \<longrightarrow> number_end rest \<longrightarrow>
     scan_value n d (t @ rest) = Some (r, rest))"

lemma scansI:
  "(\<And>n d rest. d + h \<le> max_depth \<Longrightarrow> 2 * length t \<le> n \<Longrightarrow> number_end rest \<Longrightarrow>
     scan_value (Suc n) d (t @ rest) = Some (r, rest)) \<Longrightarrow> scans h t r"
  unfolding scans_def by (metis Suc_eq_plus1 Suc_le_D Suc_le_mono)

lemma scans_mono: "scans h t r \<Longrightarrow> h \<le> k \<Longrightarrow> scans k t r"
  unfolding scans_def by (meson add_le_mono le_refl le_trans)

lemma scans_string: "scans 0 (json_string s) (RStr (json_body s) (utf8_coerce s))"
  by (rule scansI) (simp add: json_string_def scan_string_def string_body_json_body)

text \<open>A number is scanned the same way whatever follows it.\<close>

lemma number_end_no_digit: "number_end rest \<Longrightarrow> no_digit rest \<and> (rest = [] \<or> hd rest \<noteq> CHR ''.'')"
  by (cases rest) (simp_all add: number_end_def no_digit_def)

lemma digits_of_more: "no_digit rest \<Longrightarrow> digits_of (s @ rest) = (fst (digits_of s), snd (digits_of s) @ rest)"
  by (induction s) (cases rest; auto simp: digits_of_def no_digit_def)+

lemma number_int_more: "number_int s = Some (ip, t) \<Longrightarrow> no_digit rest \<Longrightarrow> number_int (s @ rest) = Some (ip, t @ rest)"
  using digits_of_more [of rest s] by (cases s) (auto simp: number_int_def split: if_splits)

lemma number_frac_more:
  "number_frac s = Some (fp, t) \<Longrightarrow> number_end rest \<Longrightarrow> number_frac (s @ rest) = Some (fp, t @ rest)"
  using digits_of_more [of rest "tl s"] number_end_no_digit [of rest]
  by (cases s; cases rest) (auto simp: number_frac_def split: if_splits)

lemma split_sign_more: "u \<noteq> [] \<Longrightarrow> split_sign (u @ rest) = (fst (split_sign u), snd (split_sign u) @ rest)"
  by (cases u) simp_all

lemma number_exp_more:
  assumes "number_exp s = Some (e, t)" "number_end rest"
  shows "number_exp (s @ rest) = Some (e, t @ rest)"
proof (cases s)
  case Nil
  with assms show ?thesis using number_exp_none [of rest] by (auto simp: number_exp_def)
next
  case (Cons c u)
  have "u \<noteq> []" if "c = CHR ''e'' \<or> c = CHR ''E''"
    using assms(1) Cons that by (auto simp: number_exp_def digits_of_def)
  with Cons assms number_end_no_digit [of rest] digits_of_more [of rest "snd (split_sign u)"] show ?thesis
    by (auto simp: number_exp_def split_sign_more Let_def case_prod_beta split: if_splits)
qed

lemma number_sign_more: "s \<noteq> [] \<Longrightarrow> number_sign (s @ rest) = (fst (number_sign s), snd (number_sign s) @ rest)"
  by (cases s) simp_all

lemma scan_number_more:
  assumes "scan_number s = Some (r, t)" "number_end rest"
  shows "scan_number (s @ rest) = Some (r, t @ rest)"
proof -
  obtain neg s1 where s1: "number_sign s = (neg, s1)" by fastforce
  from assms(1) obtain ip s2 fp s3 e where i: "number_int s1 = Some (ip, s2)" and f: "number_frac s2 = Some (fp, s3)"
    and x: "number_exp s3 = Some (e, t)" and r: "r = RNum neg ip fp (if t = s3 then None else Some e)"
    by (auto simp: scan_number_def s1 Let_def split: option.splits)
  have "s \<noteq> []" using i s1 by (auto simp: number_int_def)
  then have "number_sign (s @ rest) = (neg, s1 @ rest)" using s1 by (simp add: number_sign_more)
  with number_int_more [OF i] number_frac_more [OF f] number_exp_more [OF x] number_end_no_digit assms(2) r show ?thesis
    by (simp add: scan_number_def)
qed

lemma scans_float:
  assumes "float64 x"
  obtains neg ip fp e where "scans 0 (json_float x) (RNum neg ip fp e)" and "raw_float neg ip fp e = Some x"
proof -
  obtain c t where c: "json_float x = c # t" "c = CHR ''-'' \<or> is_digit c" using assms by (rule float_head)
  note ct = digit_or_sign [OF c(2)]
  from json_float_reads [OF assms, of "[]"] obtain r where r: "scan_number (json_float x) = Some (r, [])"
    by (auto simp: json_number_scan split: option.splits jraw.splits)
  then obtain neg ip fp e where n: "r = RNum neg ip fp e" using scan_number_form by blast
  have "raw_float neg ip fp e = Some x" using json_float_reads [OF assms, of "[]"] r n by (auto simp: json_number_scan)
  moreover have "scans 0 (json_float x) (RNum neg ip fp e)"
    using scan_number_more [OF r] ct unfolding n c(1) by (intro scansI) (auto simp: scan_scalar_def)
  ultimately show thesis using that by blast
qed

text \<open>A text of printable ASCII characters is its own literal.\<close>

definition literal_char :: "char \<Rightarrow> bool" where
  "literal_char c \<longleftrightarrow> in_range 0x20 0x7E c \<and> c \<noteq> CHR 0x22 \<and> c \<noteq> CHR 0x5C"

lemma string_body_literal: "list_all literal_char s \<Longrightarrow> string_body (s @ CHR 0x22 # rest) = Some (s, rest)"
proof (induction s)
  case (Cons c s)
  then have "in_range 0 0x7F c" by (auto simp: literal_char_def in_range_def)
  then have "utf8_len (c # t) = 1" for t by (rule utf8_len_ascii)
  with Cons show ?case by (auto simp: string_body_char literal_char_def in_range_def simp del: utf8_len.simps)
qed simp

lemma scans_literal: "list_all literal_char s \<Longrightarrow> scans 0 (CHR 0x22 # s @ [CHR 0x22]) (RStr s s)"
  by (rule scansI) (simp add: scan_string_def string_body_literal)

text \<open>Objects, from the texts of their members.\<close>

abbreviation raw_members :: "(string \<times> string \<times> jraw) list \<Rightarrow> (string \<times> jraw) list" where
  "raw_members ms \<equiv> map (\<lambda>(k, t, r). (k, r)) ms"

abbreviation text_members :: "(string \<times> string \<times> jraw) list \<Rightarrow> (string \<times> string) list" where
  "text_members ms \<equiv> map (\<lambda>(k, t, r). (k, t)) ms"

lemma scan_members_texts:
  assumes "\<forall>(k, t, r) \<in> set ms. utf8_valid k \<and> scans h t r" and "ms \<noteq> []" and "d + h \<le> max_depth"
    and "2 * length (Join (map (\<lambda>(k, t, r). json_string k @ '':'' @ t) ms) '','') + 2 \<le> n"
  shows "scan_members n d (Join (map (\<lambda>(k, t, r). json_string k @ '':'' @ t) ms) '','' @ CHR 0x7D # rest)
    = Some (raw_members ms, rest)"
  using assms
proof (induction ms arbitrary: n)
  case (Cons x ms)
  obtain k t r where x: "x = (k, t, r)" by (cases x) auto
  obtain i where n: "n = Suc i" using Cons.prems(4) by (cases n) auto
  have v: "scan_value i d (t @ u) = Some (r, u)" if "2 * length t + 1 \<le> i" "number_end u" for u
    using Cons.prems(1,3) that x by (simp add: scans_def)
  have key: "member_key (json_string k @ CHR '':'' # u) = Some (k, u)" for u
    using Cons.prems(1) x by (simp add: member_key_string)
  show ?case
  proof (cases ms)
    case Nil
    with Cons.prems n v key x show ?thesis by simp
  next
    case (Cons w ws)
    with Cons.prems n v key x Cons.IH [of i] show ?thesis by simp
  qed
qed simp

lemma scans_object:
  assumes "\<forall>(k, t, r) \<in> set ms. utf8_valid k \<and> scans h t r"
  shows "scans (Suc h) (json_object (text_members ms)) (RObj (raw_members ms))"
proof (rule scansI)
  fix n d rest
  assume depth: "d + Suc h \<le> max_depth" and fuel: "2 * length (json_object (text_members ms)) \<le> n"
  let ?body = "Join (map (\<lambda>(k, t, r). json_string k @ '':'' @ t) ms) '',''"
  have obj: "json_object (text_members ms) = CHR 0x7B # ?body @ [CHR 0x7D]"
    by (simp add: json_object_def comp_def case_prod_unfold)
  show "scan_value (Suc n) d (json_object (text_members ms) @ rest) = Some (RObj (raw_members ms), rest)"
  proof (cases ms)
    case Nil
    then show ?thesis using depth by (simp add: json_object_def)
  next
    case (Cons w ws)
    have "map_option fst (next_byte (?body @ CHR 0x7D # rest)) \<noteq> Some (CHR 0x7D)"
      using Cons by (cases ws) (simp_all add: json_string_def split: prod.splits)
    moreover have "scan_members n (Suc d) (?body @ CHR 0x7D # rest) = Some (raw_members ms, rest)"
      using fuel depth Cons unfolding obj by (intro scan_members_texts [OF assms]) simp_all
    ultimately show ?thesis using depth unfolding obj by simp
  qed
qed

lemma json_scan_text:
  assumes "scans h t r" "h \<le> max_depth"
  shows "json_scan t = Some r"
proof -
  have "scan_value (2 * length t + 2) 0 (t @ []) = Some (r, [])"
    using assms unfolding scans_def by (simp del: scan_value.simps append_Nil2)
  then show ?thesis by (simp add: json_scan_def skip_ws_def del: scan_value.simps)
qed

end
