(* ===== verification/Utf8.thy ===== *)
theory Utf8
  imports JsonScan
begin

text \<open>
  Valid UTF-8: a text is valid when it is a sequence of encoded runes, and then so is what trimming,
  splitting at an ASCII character and lower case make of it. Every string and every key that the JSON decoder returns is
  valid, so a document that was read can be written and read again.
\<close>

section \<open>Runes\<close>

definition rune :: "string \<Rightarrow> bool" where
  "rune e \<longleftrightarrow> e \<noteq> [] \<and> utf8_len e = length e"

lemma rune_len: "rune e \<Longrightarrow> utf8_len (e @ t) = length e"
  using utf8_len_take [of e "length e" t] by (simp add: rune_def)

lemma utf8_coerce_rune: "rune e \<Longrightarrow> utf8_coerce (e @ t) = e @ utf8_coerce t"
proof -
  assume e: "rune e"
  then obtain a u where au: "e = a # u" by (cases e) (simp_all add: rune_def)
  have "utf8_len (a # u @ t) = length e" using rune_len [OF e, of t] au by simp
  with e au show ?thesis
    by (simp add: utf8_coerce.simps rune_def del: utf8_len.simps)
qed

lemma rune_take: "utf8_len s = k \<Longrightarrow> 0 < k \<Longrightarrow> rune (take k s)"
  using utf8_len_take [of s k "[]"] utf8_len_le [of s] by (auto simp: rune_def)

lemma utf8_valid_Nil [simp]: "utf8_valid []"
  by (simp add: utf8_valid_def)

lemma utf8_valid_rune: "rune e \<Longrightarrow> utf8_valid (e @ t) \<longleftrightarrow> utf8_valid t"
  by (simp add: utf8_valid_def utf8_coerce_rune)

lemma utf8_valid_single: "rune e \<Longrightarrow> utf8_valid e"
  using utf8_valid_rune [of e "[]"] by simp

lemma utf8_coerce_longer: "length s \<le> length (utf8_coerce s)"
proof (induction s rule: utf8_coerce.induct)
  case (2 a s)
  show ?case
  proof (cases "utf8_len (a # s) = 0")
    case True
    with 2(1) show ?thesis by (simp add: utf8_coerce.simps replacement_def del: utf8_len.simps)
  next
    case False
    with 2(2) utf8_len_le [of "a # s"] show ?thesis by (simp add: utf8_coerce.simps del: utf8_len.simps)
  qed
qed simp

lemma utf8_valid_cases:
  assumes "utf8_valid s" and "s \<noteq> []"
  obtains e t where "s = e @ t" "rune e" "utf8_valid t"
proof -
  obtain a u where s: "s = a # u" using assms(2) by (cases s) auto
  define k where "k = utf8_len s"
  have "k \<noteq> 0"
  proof
    assume "k = 0"
    then have "length (utf8_coerce s) = 3 + length (utf8_coerce u)"
      by (simp add: s k_def utf8_coerce.simps replacement_def del: utf8_len.simps)
    with utf8_coerce_longer [of u] assms(1) show False by (simp add: utf8_valid_def s)
  qed
  then have r: "rune (take k s)" using rune_take k_def by blast
  with assms(1) utf8_valid_rune [OF r, of "drop k s"] show thesis using that [of "take k s" "drop k s"] by simp
qed

lemma utf8_valid_induct [consumes 1, case_names Nil rune]:
  assumes "utf8_valid s" and "P []" and "\<And>e t. rune e \<Longrightarrow> utf8_valid t \<Longrightarrow> P t \<Longrightarrow> P (e @ t)"
  shows "P s"
  using assms(1)
proof (induction "length s" arbitrary: s rule: less_induct)
  case less
  show ?case
  proof (cases "s = []")
    case False
    with less.prems obtain e t where s: "s = e @ t" "rune e" "utf8_valid t" by (rule utf8_valid_cases)
    with less.hyps [of t] assms(3) show ?thesis by (simp add: rune_def)
  qed (simp add: assms(2))
qed

lemma utf8_valid_append: "utf8_valid s \<Longrightarrow> utf8_valid t \<Longrightarrow> utf8_valid (s @ t)"
  by (induction s rule: utf8_valid_induct) (simp_all add: utf8_valid_rune)

text \<open>A rune starts with a byte that does not continue one, and goes on with bytes that do.\<close>

abbreviation continues :: "char \<Rightarrow> bool" where
  "continues \<equiv> in_range 0x80 0xBF"

lemma rune_shape:
  assumes "rune e"
  shows "\<not> continues (hd e) \<and> list_all continues (tl e)"
proof -
  obtain a u where e: "e = a # u" using assms by (cases e) (simp_all add: rune_def)
  have len: "utf8_len (a # u) = Suc (length u)" using assms by (simp add: rune_def e)
  consider "u = []" | b where "u = [b]" | b c where "u = [b, c]" | b c d v where "u = b # c # d # v"
    by (metis list.exhaust)
  then show ?thesis
  proof cases
    case 1
    with len show ?thesis by (auto simp: e in_range_def split: if_splits)
  next
    case (2 b)
    with len show ?thesis by (auto simp: e in_range_def split: if_splits)
  next
    case (3 b c)
    with len show ?thesis by (simp add: e split: if_splits) (auto simp: in_range_def)
  next
    case (4 b c d v)
    with len show ?thesis by (simp add: e split: if_splits) (auto simp: in_range_def)
  qed
qed

lemma rune_suffix_unique:
  assumes "p @ e = q @ r" and "rune e" and "rune r"
  shows "p = q"
proof -
  have no: "us = []" if "rune a" "rune b" "a = us @ b" for us a b
  proof (rule ccontr)
    assume "us \<noteq> []"
    then have "hd b \<in> set (tl a)" using that(2,3) by (cases us; cases b) (simp_all add: rune_def)
    then show False using rune_shape that(1,2) by (auto simp: list_all_iff)
  qed
  from assms(1) obtain us where us: "p = q @ us \<and> us @ e = r \<or> p @ us = q \<and> e = us @ r"
    by (auto simp: append_eq_append_conv2)
  then have "us = []" using no [OF assms(3,2), of us] no [OF assms(2,3), of us] by metis
  with us show ?thesis by simp
qed

lemma utf8_valid_drop_last: "utf8_valid s \<Longrightarrow> s = p @ e \<Longrightarrow> rune e \<Longrightarrow> utf8_valid p"
proof (induction s arbitrary: p rule: utf8_valid_induct)
  case Nil
  then show ?case by simp
next
  case (rune r t)
  from rune.prems(1) obtain us where "r = p @ us \<and> us @ t = e \<or> r @ us = p \<and> t = us @ e"
    by (auto simp: append_eq_append_conv2)
  then show ?case
  proof
    assume a: "r = p @ us \<and> us @ t = e"
    show ?thesis
    proof (cases "p = []")
      case False
      have "t \<noteq> []"
      proof
        assume "t = []"
        then show False using rune_suffix_unique [of p e "[]" r] a rune.hyps(1) rune.prems(2) False by simp
      qed
      with rune.hyps(2) obtain b t' where t: "t = b @ t'" "rune b" by (rule utf8_valid_cases)
      then have "hd b \<in> set t" "\<not> continues (hd b)" using rune_shape by (auto simp: rune_def)
      moreover have "us \<noteq> [] \<Longrightarrow> set t \<subseteq> set (tl e)" using a by (cases us) auto
      ultimately have "us = []" using rune_shape [OF rune.prems(2)] by (auto simp: list_all_iff)
      then show ?thesis using a rune.hyps(1) utf8_valid_single by simp
    qed simp
  next
    assume "r @ us = p \<and> t = us @ e"
    with rune.IH [of us] rune.prems(2) rune.hyps(1) show ?thesis by (auto simp: utf8_valid_rune)
  qed
qed

section \<open>What the program does with names\<close>

lemma space_runes: "e \<in> set space_encodings \<Longrightarrow> rune e"
  by (auto simp: space_encodings_def rune_def in_range_def)

lemma space_prefix_pos:
  assumes "space_prefix encs s = Suc n"
  obtains e where "e \<in> set encs" "s = e @ drop (Suc n) s"
proof (cases "find (\<lambda>e. prefix e s) encs")
  case None
  with assms show thesis by (simp add: space_prefix_def)
next
  case (Some e)
  then have "e \<in> set encs" "prefix e s" by (auto simp: find_Some_iff)
  moreover have "length e = Suc n" using assms Some by (simp add: space_prefix_def)
  ultimately show thesis using that [of e] by (auto simp: prefix_def)
qed

lemma trim_left_valid: "utf8_valid s \<Longrightarrow> utf8_valid (trim_left space_encodings s)"
proof (induction "length s" arbitrary: s rule: less_induct)
  case less
  show ?case
  proof (cases "space_prefix space_encodings s")
    case 0
    with less.prems show ?thesis by (subst trim_left.simps) simp
  next
    case (Suc n)
    then obtain e where e: "e \<in> set space_encodings" "s = e @ drop (Suc n) s" by (rule space_prefix_pos)
    have "utf8_valid (drop (Suc n) s)" using less.prems e utf8_valid_rune [OF space_runes [OF e(1)]] by metis
    moreover have "length (drop (Suc n) s) < length s" using Suc space_prefix_le [of space_encodings s] by simp
    ultimately show ?thesis using less.hyps Suc by (subst trim_left.simps) simp
  qed
qed

lemma trim_right_valid: "utf8_valid (rev s) \<Longrightarrow> utf8_valid (rev (trim_left (map rev space_encodings) s))"
proof (induction "length s" arbitrary: s rule: less_induct)
  case less
  show ?case
  proof (cases "space_prefix (map rev space_encodings) s")
    case 0
    with less.prems show ?thesis by (subst trim_left.simps) simp
  next
    case (Suc n)
    then obtain e where e: "e \<in> set (map rev space_encodings)" "s = e @ drop (Suc n) s" by (rule space_prefix_pos)
    then have r: "rune (rev e)" using space_runes by auto
    have "rev s = rev (drop (Suc n) s) @ rev e" using e(2) by (metis rev_append)
    then have "utf8_valid (rev (drop (Suc n) s))" using utf8_valid_drop_last [OF less.prems _ r] by blast
    moreover have "length (drop (Suc n) s) < length s" using Suc space_prefix_le [of "map rev space_encodings" s] by simp
    ultimately show ?thesis using less.hyps Suc by (subst trim_left.simps) simp
  qed
qed

lemma TrimSpace_valid: "utf8_valid s \<Longrightarrow> utf8_valid (TrimSpace s)"
  unfolding TrimSpace_def using trim_right_valid [of "rev (trim_left space_encodings s)"] trim_left_valid by simp

lemma lower_char_range:
  "in_range lo hi (lower_char c) \<longleftrightarrow> in_range lo hi c" if "128 \<le> lo"
  using that by (auto simp: in_range_def lower_char_def Let_def)

lemma lower_char_ascii: "in_range 0 0x7F (lower_char c) \<longleftrightarrow> in_range 0 0x7F c"
  by (auto simp: in_range_def lower_char_def Let_def)

lemma lower_char_same: "\<not> in_range 0 0x7F c \<Longrightarrow> lower_char c = c"
  by (auto simp: in_range_def lower_char_def Let_def)

lemma lower_rune: assumes "rune e" shows "rune (map lower_char e)"
proof -
  obtain a u where e: "e = a # u" using assms by (cases e) (simp_all add: rune_def)
  show ?thesis
  proof (cases "in_range 0 0x7F a")
    case True
    then have "u = []" using assms by (simp add: rune_def e)
    with True show ?thesis by (simp add: rune_def e lower_char_ascii)
  next
    case False
    have "lower_char c = c" if "c \<in> set u" for c
      using that rune_shape [OF assms] by (intro lower_char_same) (auto simp: e list_all_iff in_range_def)
    then have "map lower_char e = e" using lower_char_same [OF False] by (simp add: e map_idI)
    with assms show ?thesis by simp
  qed
qed

lemma ToLower_valid: "utf8_valid s \<Longrightarrow> utf8_valid (ToLower s)"
  unfolding ToLower_def by (induction s rule: utf8_valid_induct) (simp_all add: utf8_valid_rune lower_rune)

lemma utf8_valid_after:
  "utf8_valid s \<Longrightarrow> s = p @ c # q \<Longrightarrow> in_range 0 0x7F c \<Longrightarrow> utf8_valid q"
proof (induction s arbitrary: p rule: utf8_valid_induct)
  case Nil
  then show ?case by simp
next
  case (rune e t)
  from rune.prems(1) obtain us where "e = p @ us \<and> us @ t = c # q \<or> e @ us = p \<and> t = us @ c # q"
    by (auto simp: append_eq_append_conv2)
  then show ?case
  proof
    assume a: "e = p @ us \<and> us @ t = c # q"
    show ?thesis
    proof (cases us)
      case Nil
      with a have t: "t = [c] @ q" by simp
      have "rune [c]" using rune.prems(2) by (simp add: rune_def)
      with rune.hyps(2) t show ?thesis using utf8_valid_rune by metis
    next
      case (Cons x xs)
      with a have x: "e = p @ c # xs" "q = xs @ t" by auto
      have "p = []"
      proof (rule ccontr)
        assume "p \<noteq> []"
        then have "c \<in> set (tl e)" using x by (cases p) auto
        then show False using rune_shape [OF rune.hyps(1)] rune.prems(2) by (auto simp: list_all_iff in_range_def)
      qed
      then have "xs = []" using rune.hyps(1) rune.prems(2) x by (simp add: rune_def)
      with x rune.hyps(2) show ?thesis by simp
    qed
  next
    assume "e @ us = p \<and> t = us @ c # q"
    with rune.IH [of us] rune.prems(2) show ?thesis by blast
  qed
qed

lemma last_Split: "last (Split d s) = s \<or> (\<exists>p. s = p @ d # last (Split d s))"
proof -
  have "Join ps [d] = last ps \<or> (\<exists>p. Join ps [d] = p @ d # last ps)" if "ps \<noteq> []" for ps
    using that
  proof (induction ps)
    case (Cons x ps)
    show ?case
    proof (cases ps)
      case (Cons y ys)
      with Cons.IH consider "Join ps [d] = last ps" | p where "Join ps [d] = p @ d # last ps" by auto
      then show ?thesis
      proof cases
        case 1
        with Cons show ?thesis by auto
      next
        case (2 p)
        with Cons have "Join (x # ps) [d] = (x @ d # p) @ d # last (x # ps)" by simp
        then show ?thesis by blast
      qed
    qed simp
  qed simp
  from this [of "Split d s"] show ?thesis by (auto simp: Join_Split)
qed

lemma last_Split_valid: "utf8_valid s \<Longrightarrow> in_range 0 0x7F d \<Longrightarrow> utf8_valid (last (Split d s))"
  using last_Split [of d s] utf8_valid_after by metis

section \<open>Strings of a document\<close>

lemma of_char_char_of: "n < 256 \<Longrightarrow> (of_char (char_of n :: char) :: nat) = n"
  by simp

lemma char_eq_code: "c = CHR 0xE0 \<longleftrightarrow> (of_char c :: nat) = 0xE0" "c = CHR 0xED \<longleftrightarrow> (of_char c :: nat) = 0xED"
  "c = CHR 0xF0 \<longleftrightarrow> (of_char c :: nat) = 0xF0" "c = CHR 0xF4 \<longleftrightarrow> (of_char c :: nat) = 0xF4"
  by (auto simp: of_char_eq) (code_simp+)

lemma rune2: "rune [a, b]" if "in_range 0xC2 0xDF a" "continues b"
  using that by (auto simp: rune_def in_range_def)

lemma rune3: "rune [a, b, c]"
  if "in_range 0xE0 0xEF a" "if a = CHR 0xE0 then in_range 0xA0 0xBF b else if a = CHR 0xED then in_range 0x80 0x9F b else continues b"
    "continues c"
  using that by (auto simp: rune_def in_range_def)

lemma rune4: "rune [a, b, c, d]"
  if "in_range 0xF0 0xF4 a" "if a = CHR 0xF0 then in_range 0x90 0xBF b else if a = CHR 0xF4 then in_range 0x80 0x8F b else continues b"
    "continues c" "continues d"
  using that by (auto simp: rune_def in_range_def)

lemma rune_ascii: "in_range 0 0x7F c \<Longrightarrow> rune [c]"
  by (simp add: rune_def)

lemma continues_code: "continues (char_of (128 + n mod 64 :: nat))"
proof -
  have "n mod 64 < 64" by simp
  then show ?thesis unfolding in_range_def by (subst (1 2) of_char_char_of) simp_all
qed

lemma utf8_encode_rune:
  assumes "r < 0x110000" and "\<not> (0xD800 \<le> r \<and> r < 0xE000)"
  shows "rune (utf8_encode r)"
proof -
  consider "r < 0x80" | "0x80 \<le> r" "r < 0x800" | "0x800 \<le> r" "r < 0x10000" | "0x10000 \<le> r" by linarith
  then show ?thesis
  proof cases
    case 1
    then show ?thesis by (auto simp: utf8_encode_def in_range_def intro!: rune_ascii)
  next
    case 2
    then have "2 \<le> r div 64" "r div 64 < 32" by (simp_all add: less_eq_div_iff_mult_less_eq div_less_iff_less_mult)
    then have "in_range 0xC2 0xDF (char_of (0xC0 + r div 64))" unfolding in_range_def by (subst (1 2) of_char_char_of) simp_all
    with 2 show ?thesis by (simp add: utf8_encode_def rune2 continues_code)
  next
    case 3
    define h k where "h = r div 4096" and "k = r div 64 mod 64"
    have hk: "h < 16" "k < 64" "r = h * 4096 + k * 64 + r mod 64" "r mod 64 < 64"
    proof -
      show "h < 16" using 3 by (simp add: h_def div_less_iff_less_mult)
      show "k < 64" "r mod 64 < 64" by (simp_all add: k_def)
      have "r div 64 = h * 64 + k" unfolding h_def k_def using div_mult2_eq [of r 64 64] div_mult_mod_eq [of "r div 64" 64] by simp
      then show "r = h * 4096 + k * 64 + r mod 64" using div_mult_mod_eq [of r 64] by simp
    qed
    have a: "(of_char (char_of (0xE0 + h) :: char) :: nat) = 0xE0 + h" using hk by (intro of_char_char_of) simp
    have b: "(of_char (char_of (0x80 + k) :: char) :: nat) = 0x80 + k" using hk by (intro of_char_char_of) simp
    have "h = 0 \<Longrightarrow> 32 \<le> k" "h = 13 \<Longrightarrow> k \<le> 31" using 3 assms(2) hk by linarith+
    then have "rune [char_of (0xE0 + h), char_of (0x80 + k), char_of (0x80 + r mod 64)]"
      using hk by (intro rune3 continues_code) (simp_all add: in_range_def char_eq_code a b)
    with 3 show ?thesis by (simp add: utf8_encode_def h_def k_def)
  next
    case 4
    define g h k where "g = r div 262144" and "h = r div 4096 mod 64" and "k = r div 64 mod 64"
    have gh: "g < 5" "h < 64" "r div 4096 = g * 64 + h"
    proof -
      show "g < 5" using assms(1) by (simp add: g_def div_less_iff_less_mult)
      show "h < 64" by (simp add: h_def)
      show "r div 4096 = g * 64 + h"
        unfolding g_def h_def using div_mult2_eq [of r 4096 64] div_mult_mod_eq [of "r div 4096" 64] by simp
    qed
    have "16 \<le> r div 4096" "r div 4096 < 272"
      using 4 assms(1) by (simp_all add: less_eq_div_iff_mult_less_eq div_less_iff_less_mult)
    then have "g = 0 \<Longrightarrow> 16 \<le> h" "g = 4 \<Longrightarrow> h \<le> 15" using gh by linarith+
    moreover have "(of_char (char_of (0xF0 + g) :: char) :: nat) = 0xF0 + g" "(of_char (char_of (0x80 + h) :: char) :: nat) = 0x80 + h"
      using gh by (intro of_char_char_of; simp)+
    ultimately have "rune [char_of (0xF0 + g), char_of (0x80 + h), char_of (0x80 + k), char_of (0x80 + r mod 64)]"
      using gh unfolding k_def by (intro rune4 continues_code) (simp_all add: in_range_def char_eq_code)
    with 4 show ?thesis by (simp add: utf8_encode_def g_def h_def k_def)
  qed
qed

lemma hex4_bound: "hex4 s = Some (r, t) \<Longrightarrow> r < 0x10000"
proof (cases s rule: hex4.cases)
  case (1 a b c d u)
  assume "hex4 s = Some (r, t)"
  with 1 obtain w x y z where "hex_value a = Some w" "hex_value b = Some x" "hex_value c = Some y" "hex_value d = Some z"
    and r: "r = ((w * 16 + x) * 16 + y) * 16 + z" by (auto split: option.splits)
  then have "w < 16" "x < 16" "y < 16" "z < 16" by (auto dest: hex_value_less)
  with r show ?thesis by simp
qed simp_all

lemma replacement_rune: "rune replacement"
  by (simp add: replacement_def rune_def in_range_def)

lemma unicode_escape_rune: "r < 0x10000 \<Longrightarrow> rune (fst (unicode_escape r s))"
  by (auto simp: unicode_escape_def low_surrogate_def replacement_rune intro!: utf8_encode_rune
      split: option.splits list.splits if_splits)

lemma string_body_valid: "string_body s = Some (x, t) \<Longrightarrow> utf8_valid x"
proof (induction "length s" arbitrary: s x rule: less_induct)
  case less
  have IH: "utf8_valid (b @ y)" if "string_body u = Some (y, t)" "length u < length s" "rune b" for b y u
    using less.hyps [OF that(2,1)] that(3) by (simp add: utf8_valid_rune)
  obtain c u where s: "s = c # u" using less.prems by (cases s) (simp_all add: string_body.simps)
  consider (quote) "c = CHR 0x22" | (escape) "c = CHR 0x5C" | (char) "c \<noteq> CHR 0x22" "c \<noteq> CHR 0x5C" by blast
  then show ?case
  proof cases
    case quote
    with less.prems s show ?thesis by simp
  next
    case escape
    then obtain e v where u: "u = e # v" using less.prems s by (cases u) (simp_all add: string_body.simps)
    show ?thesis
    proof (cases "e = CHR ''u''")
      case True
      with less.prems s escape u obtain r w y where w: "hex4 v = Some (r, w)"
        and y: "string_body (snd (unicode_escape r w)) = Some (y, t)" "x = fst (unicode_escape r w) @ y"
        by (auto simp: string_body_unicode prepend_eq_Some split: option.splits)
      have "length (snd (unicode_escape r w)) < length s"
        using length_unicode_escape [of r w] length_hex4 [OF w] s u by simp
      from IH [OF y(1) this unicode_escape_rune [OF hex4_bound [OF w]]] show ?thesis by (simp add: y(2))
    next
      case False
      with less.prems s escape u obtain z y where z: "simple_escape e = Some z" "string_body v = Some (y, t)" "x = z # y"
        by (auto simp: string_body_escape prepend_eq_Some split: option.splits)
      have "in_range 0 0x7F z" using z(1) by (auto simp: simple_escape_def in_range_def split: if_splits)
      from IH [OF z(2) _ rune_ascii [OF this]] show ?thesis by (simp add: z(3) s u)
    qed
  next
    case char
    show ?thesis
    proof (cases "utf8_len s = 0")
      case True
      with less.prems s char obtain y where "string_body u = Some (y, t)" "x = replacement @ y"
        by (auto simp: string_body_char prepend_eq_Some simp del: utf8_len.simps split: if_splits)
      with IH [of u y replacement] s replacement_rune show ?thesis by simp
    next
      case False
      with less.prems s char obtain y where y: "string_body (drop (utf8_len s) s) = Some (y, t)" "x = take (utf8_len s) s @ y"
        by (auto simp: string_body_char prepend_eq_Some simp del: utf8_len.simps split: if_splits)
      have "length (drop (utf8_len s) s) < length s" using False s by (simp del: utf8_len.simps)
      from IH [OF y(1) this rune_take [OF refl]] False show ?thesis by (simp add: y(2))
    qed
  qed
qed

section \<open>Documents that were read\<close>

text \<open>A scanned tree of at most the given depth, with valid strings and keys.\<close>

fun raw_ok :: "nat \<Rightarrow> jraw \<Rightarrow> bool" where
  "raw_ok h (RStr lit x) = utf8_valid x"
| "raw_ok h (RArr rs) = (0 < h \<and> (\<forall>r \<in> set rs. raw_ok (h - 1) r))"
| "raw_ok h (RObj m) = (0 < h \<and> (\<forall>k \<in> set (map fst m). utf8_valid k) \<and> (\<forall>r \<in> set (map snd m). raw_ok (h - 1) r))"
| "raw_ok h _ = True"

lemma member_key_valid: "member_key s = Some (k, t) \<Longrightarrow> utf8_valid k"
  by (auto simp: member_key_def split: option.splits if_splits) (rule string_body_valid)

lemma scan_scalar_ok: "scan_scalar s = Some (r, u) \<Longrightarrow> raw_ok h r"
  by (auto simp: scan_scalar_def dest!: scan_number_form split: if_splits)

lemma scan_ok:
  "scan_value n d s = Some (r, u) \<Longrightarrow> raw_ok (max_depth - d) r"
  "scan_elems n d s = Some (rs, u) \<Longrightarrow> \<forall>r \<in> set rs. raw_ok (max_depth - d) r"
  "scan_members n d s = Some (m, u) \<Longrightarrow> (\<forall>k \<in> set (map fst m). utf8_valid k) \<and> (\<forall>r \<in> set (map snd m). raw_ok (max_depth - d) r)"
proof (induction n arbitrary: d s r rs m u)
  case (Suc n)
  { case 1
    then obtain c t where nb: "next_byte s = Some (c, t)" by (auto split: option.splits)
    consider (str) "c = CHR 0x22" | (obj) "c = CHR 0x7B" | (arr) "c = CHR 0x5B"
      | (other) "c \<noteq> CHR 0x22" "c \<noteq> CHR 0x7B" "c \<noteq> CHR 0x5B" by blast
    then show ?case
    proof cases
      case str
      with 1 nb show ?thesis by (auto simp: scan_string_def dest: string_body_valid)
    next
      case obj
      with 1 nb Suc.IH(3) [of "Suc d" t] show ?thesis by (auto split: if_splits)
    next
      case arr
      with 1 nb Suc.IH(2) [of "Suc d" t] show ?thesis by (auto split: if_splits)
    next
      case other
      with 1 nb show ?thesis by (auto intro: scan_scalar_ok)
    qed
  next
    case 2
    from 2 obtain v w where v: "scan_value n d s = Some (v, w)" by (auto split: option.splits)
    from v 2 obtain c t where "next_byte w = Some (c, t)" by (auto split: option.splits)
    with v 2 Suc.IH(1) [OF v] Suc.IH(2) [of d t] show ?case by (auto split: if_splits)
  next
    case 3
    from 3 obtain k t where k: "member_key s = Some (k, t)" by (auto split: option.splits)
    from k 3 obtain v w where v: "scan_value n d t = Some (v, w)" by (auto split: option.splits)
    from k v 3 obtain c x where "next_byte w = Some (c, x)" by (auto split: option.splits)
    with k v 3 Suc.IH(1) [OF v] Suc.IH(3) [of d x] member_key_valid [OF k] show ?case by (fastforce split: if_splits) }
qed simp_all

lemma those_set: "those xs = Some ys \<Longrightarrow> set xs = Some ` set ys"
  by (induction xs arbitrary: ys) (auto split: option.splits)

lemma aput_subset: "set (aput k v m) \<subseteq> insert (k, v) (set m)"
  by (induction m) auto

lemma put_members_set: "set (put_members acc m) \<subseteq> set acc \<union> set m"
proof (induction m arbitrary: acc)
  case (Cons kv m)
  from aput_subset [of "fst kv" "snd kv" acc] Cons [of "aput (fst kv) (snd kv) acc"]
  have "set (put_members (aput (fst kv) (snd kv) acc) m) \<subseteq> set acc \<union> insert kv (set m)" by auto
  then show ?case by (simp add: put_members_def case_prod_unfold)
qed (simp add: put_members_def)

lemma put_members_distinct: "distinct (map fst acc) \<Longrightarrow> distinct (map fst (put_members acc m))"
  by (induction m arbitrary: acc) (auto simp: put_members_def case_prod_unfold)

lemma nesting_le: "\<forall>v \<in> set vs. nesting v \<le> h \<Longrightarrow> nesting (JArr vs) \<le> Suc h"
  "\<forall>v \<in> set (map snd m). nesting v \<le> h \<Longrightarrow> nesting (JObj m) \<le> Suc h"
  by simp_all

lemma json_of_raw_plain: "json_of_raw r = Some v \<Longrightarrow> raw_ok h r \<Longrightarrow> plain v \<and> nesting v \<le> h"
proof (induction r arbitrary: v h)
  case (RNum neg ip fp e)
  then show ?case by (auto simp: raw_float_def Let_def intro: round_float64_float64)
next
  case (RArr rs)
  then obtain vs where vs: "those (map json_of_raw rs) = Some vs" "v = JArr vs" by auto
  have each: "plain x \<and> nesting x \<le> h - 1" if "x \<in> set vs" for x
  proof -
    have "Some x \<in> json_of_raw ` set rs" using those_set [OF vs(1)] that by auto
    then obtain r where "r \<in> set rs" "json_of_raw r = Some x" by auto
    with RArr.IH RArr.prems(2) show ?thesis by auto
  qed
  then have "nesting v \<le> Suc (h - 1)" unfolding vs(2) by (intro nesting_le) simp
  with each RArr.prems(2) vs(2) show ?case by (simp del: nesting.simps)
next
  case (RObj m)
  then obtain vs where vs: "those (map json_of_raw (map snd m)) = Some vs" "v = JObj (put_members [] (zip (map fst m) vs))" by auto
  let ?o = "put_members [] (zip (map fst m) vs)"
  have sub: "set ?o \<subseteq> set (zip (map fst m) vs)" using put_members_set [of "[]"] by simp
  have each: "plain x \<and> nesting x \<le> h - 1" if "x \<in> set (map snd ?o)" for x
  proof -
    have "x \<in> set vs" using that sub by (auto dest!: subsetD elim: set_zip_rightD)
    then have "Some x \<in> json_of_raw ` set (map snd m)" using those_set [OF vs(1)] by (metis image_eqI list.set_map)
    then obtain kv where "kv \<in> set m" "json_of_raw (snd kv) = Some x" by auto
    with RObj.IH [of kv "snd kv" x "h - 1"] RObj.prems(2) show ?thesis by (auto simp: snds.simps)
  qed
  have "utf8_valid k" if "k \<in> set (map fst ?o)" for k
  proof -
    have "k \<in> set (map fst m)" using that sub by (auto dest!: subsetD dest: set_zip_leftD)
    with RObj.prems(2) show ?thesis unfolding raw_ok.simps by blast
  qed
  moreover have "distinct (map fst ?o)" by (rule put_members_distinct) simp
  ultimately have "plain v" using each unfolding vs(2) by simp
  moreover have "nesting v \<le> Suc (h - 1)" unfolding vs(2) by (intro nesting_le ballI) (use each in blast)
  ultimately show ?case using RObj.prems(2) by (simp del: nesting.simps)
qed auto

lemma json_parse_plain: "json_parse s = Some v \<Longrightarrow> plain v \<and> nesting v \<le> max_depth"
  using scan_ok(1) [of _ 0]
  by (fastforce simp: json_parse_scan json_scan_def bind_eq_Some_conv simp del: scan_value.simps
      dest: json_of_raw_plain split: option.splits if_splits prod.splits)

text \<open>A document that was read is written so that it is read as it was, up to the order of its members.\<close>

lemma json_reread: "json_parse s = Some v \<Longrightarrow> json_parse (json_marshal v) = Some (sort_members v)"
  using json_parse_plain json_document_roundtrip by blast

end
