(* ===== verification/Pricing.thy ===== *)
theory Pricing
  imports Utf8 Model
begin

text \<open>
  Cost estimation (\<^verbatim>\<open>pricing.go\<close>): the rate table parsed from a catalog of model prices, the pricing of
  token totals, and the store that keeps a table in memory and on disk and fetches it when it is older
  than a day. The HTTP exchange, the file operations and the clock are parameters of the store; the text
  of the snapshot file is written and read as \<open>encoding/json\<close> does.
\<close>

section \<open>Arithmetic on float64\<close>

text \<open>Where Go has an infinity, the exact value stays.\<close>

definition to_float :: "rat \<Rightarrow> rat" where
  "to_float x = (case round_float64 x of Some r \<Rightarrow> r | None \<Rightarrow> x)"

definition float_add :: "rat \<Rightarrow> rat \<Rightarrow> rat" where
  "float_add a b = to_float (a + b)"

definition float_sub :: "rat \<Rightarrow> rat \<Rightarrow> rat" where
  "float_sub a b = to_float (a - b)"

definition float_mul :: "rat \<Rightarrow> rat \<Rightarrow> rat" where
  "float_mul a b = to_float (a * b)"

section \<open>Rate tables\<close>

record ModelRates =
  mr_InputPerToken :: rat
  mr_OutputPerToken :: rat
  mr_CacheReadPerToken :: rat
  mr_CacheWritePerToken :: rat

text \<open>The table is its map; a nil map is empty.\<close>

type_synonym RateTable = "(string \<times> ModelRates) list"

definition NormalizeModelName :: "string \<Rightarrow> string" where
  "NormalizeModelName model = last (Split (CHR ''/'') (ToLower (TrimSpace model)))"

definition Lookup :: "RateTable \<Rightarrow> string \<Rightarrow> ModelRates option" where
  "Lookup t model = (if t = [] then None else aget t (NormalizeModelName model))"

definition RateTable_Len :: "RateTable \<Rightarrow> int" where
  "RateTable_Len t = int (length t)"

record PricedUsage =
  pu_Amount :: rat
  pu_Currency :: string
  pu_Source :: CostSource

definition int64Value :: "int option \<Rightarrow> int" where
  "int64Value v = (case v of None \<Rightarrow> 0 | Some n \<Rightarrow> n)"

definition token_cost :: "int option \<Rightarrow> rat \<Rightarrow> rat" where
  "token_cost n rate = float_mul (to_float (of_int (int64Value n))) rate"

definition PriceUsage :: "RateTable \<Rightarrow> string \<Rightarrow> Usage \<Rightarrow> PricedUsage" where
  "PriceUsage table model usage =
     (case Lookup table model of
        None \<Rightarrow> \<lparr>pu_Amount = 0, pu_Currency = ''USD'', pu_Source = CostSourceUnpriced\<rparr>
      | Some rate \<Rightarrow>
          \<lparr>pu_Amount =
             float_add
               (float_add
                 (float_add
                   (float_add 0 (token_cost (us_InputTokens usage) (mr_InputPerToken rate)))
                   (token_cost (us_CacheReadTokens usage) (mr_CacheReadPerToken rate)))
                 (token_cost (us_CacheWriteTokens usage) (mr_CacheWritePerToken rate)))
               (token_cost (us_OutputTokens usage) (mr_OutputPerToken rate)),
           pu_Currency = ''USD'', pu_Source = CostSourceModelPriced\<rparr>)"

definition CacheSavings :: "RateTable \<Rightarrow> string \<Rightarrow> Usage \<Rightarrow> rat \<times> bool" where
  "CacheSavings table model usage =
     (case Lookup table model of
        None \<Rightarrow> (0, False)
      | Some rate \<Rightarrow>
          (token_cost (us_CacheReadTokens usage) (float_sub (mr_InputPerToken rate) (mr_CacheReadPerToken rate)), True))"

text \<open>
  A number of the catalog, also as the text of one; the text \<open>null\<close> unmarshals into zero. A decoded
  document holds neither infinities nor values of type \<open>json.Number\<close>.
\<close>

fun finiteNumber :: "gval \<Rightarrow> rat option" where
  "finiteNumber (GFloat64 x) = Some x"
| "finiteNumber (GString s) =
     (case json_parse s of Some (JNum x) \<Rightarrow> Some x | Some JNull \<Rightarrow> Some 0 | _ \<Rightarrow> None)"
| "finiteNumber _ = None"

definition entry_rates :: "anymap \<Rightarrow> ModelRates option" where
  "entry_rates entry =
     (case (finiteNumber (gget entry ''input_cost_per_token''), finiteNumber (gget entry ''output_cost_per_token'')) of
        (Some input, Some output) \<Rightarrow>
          (let or_input = (\<lambda>k. case finiteNumber (gget entry k) of Some x \<Rightarrow> x | None \<Rightarrow> input)
           in Some \<lparr>mr_InputPerToken = input, mr_OutputPerToken = output,
                    mr_CacheReadPerToken = or_input ''cache_read_input_token_cost'',
                    mr_CacheWritePerToken = or_input ''cache_creation_input_token_cost''\<rparr>)
      | _ \<Rightarrow> None)"

text \<open>\<open>json.Unmarshal\<close> into \<open>map[string]map[string]any\<close>: every member is an object or null.\<close>

fun catalog_entry :: "json \<Rightarrow> anymap option" where
  "catalog_entry (JObj m) = Some (members_of_json m)"
| "catalog_entry JNull = Some []"
| "catalog_entry _ = None"

definition catalog_entries :: "string \<Rightarrow> (string \<times> anymap) list option" where
  "catalog_entries document =
     (case json_parse_map document of
        None \<Rightarrow> None
      | Some m \<Rightarrow>
          (if list_all (\<lambda>(k, v). catalog_entry v \<noteq> None) (entries m)
           then Some (map (\<lambda>(k, v). (k, the (catalog_entry v))) (entries m)) else None))"

definition add_entry :: "RateTable \<Rightarrow> string \<times> anymap \<Rightarrow> RateTable" where
  "add_entry t ne =
     (let key = NormalizeModelName (fst ne)
      in if key = [] \<or> key = ''synthetic'' then t
         else case entry_rates (snd ne) of None \<Rightarrow> t | Some r \<Rightarrow> aput key r t)"

definition ParseRateTable :: "(string \<Rightarrow> go_error) \<Rightarrow> string \<Rightarrow> go_error + RateTable" where
  "ParseRateTable jerr document =
     (case catalog_entries document of
        None \<Rightarrow> Inl (EWrap (''parse rate catalog: '' @ error_text (jerr document)) (jerr document))
      | Some es \<Rightarrow>
          (let t = foldl add_entry [] es
           in if t = [] then Inl (EPlain ''rate catalog contained no priced models'') else Inr t))"

section \<open>The store\<close>

definition RatesTTL :: duration where "RatesTTL = 24 * hour"

record RatesInfo =
  ri_Status :: string
  ri_Source :: string
  ri_FetchedAt :: gtime
  ri_KnownModels :: int

record ratesSnapshot =
  rs_Version :: int
  rs_FetchedAt :: gtime
  rs_Source :: string
  rs_Rates :: RateTable

text \<open>
  The store, with the snapshot file as part of its state (\<open>None\<close> when there is none) and the number
  of times the clock and the network were used.
\<close>

record RateTableStore =
  rts_dir :: string
  rts_url :: string
  rts_table :: RateTable
  rts_fetchedAt :: gtime
  rts_source :: string
  rts_resolved :: bool
  rts_file :: "string option"
  rts_ticks :: nat
  rts_fetches :: nat

datatype http_answer = HttpFailed go_error | HttpAnswer int "go_error + string"

record rates_env =
  rte_now :: "nat \<Rightarrow> gtime"
  rte_http :: "nat \<Rightarrow> http_answer"
  rte_writable :: bool
  rte_jerr :: "string \<Rightarrow> go_error"

text \<open>The options of a store; a nil client, an empty URL and a nil clock change nothing.\<close>

datatype RateOption =
    WithRateHTTPClient "(nat \<Rightarrow> http_answer) option"
  | WithRatesURL string
  | withRateClock "(nat \<Rightarrow> gtime) option"

fun rate_option :: "rates_env \<times> RateTableStore \<Rightarrow> RateOption \<Rightarrow> rates_env \<times> RateTableStore" where
  "rate_option (env, s) (WithRateHTTPClient client) =
     (case client of None \<Rightarrow> (env, s) | Some c \<Rightarrow> (env\<lparr>rte_http := c\<rparr>, s))"
| "rate_option (env, s) (WithRatesURL url) = (if url \<noteq> [] then (env, s\<lparr>rts_url := url\<rparr>) else (env, s))"
| "rate_option (env, s) (withRateClock now) =
     (case now of None \<Rightarrow> (env, s) | Some f \<Rightarrow> (env\<lparr>rte_now := f\<rparr>, s))"

text \<open>The environment has the default client and clock; \<open>file\<close> is what is in the directory.\<close>

definition NewRateTableStore :: "rates_env \<Rightarrow> string \<Rightarrow> string option \<Rightarrow> RateOption list \<Rightarrow> rates_env \<times> RateTableStore" where
  "NewRateTableStore env dir file options =
     foldl rate_option
       (env, \<lparr>rts_dir = dir,
              rts_url = ''https://raw.githubusercontent.com/BerriAI/litellm/main/model_prices_and_context_window.json'',
              rts_table = [], rts_fetchedAt = 0, rts_source = [], rts_resolved = False, rts_file = file, rts_ticks = 0,
              rts_fetches = 0\<rparr>) options"

text \<open>The text of a snapshot: \<open>json.Marshal\<close> writes the fields in their order and the keys of the map sorted.\<close>

definition rate_members :: "ModelRates \<Rightarrow> (string \<times> rat) list" where
  "rate_members r =
     [(''InputPerToken'', mr_InputPerToken r), (''OutputPerToken'', mr_OutputPerToken r),
      (''CacheReadPerToken'', mr_CacheReadPerToken r), (''CacheWritePerToken'', mr_CacheWritePerToken r)]"

definition rate_text :: "ModelRates \<Rightarrow> string" where
  "rate_text r = json_object (map (map_prod id json_float) (rate_members r))"

definition snapshot_text :: "ratesSnapshot \<Rightarrow> string option" where
  "snapshot_text snap =
     (case time_text (rs_FetchedAt snap) of
        None \<Rightarrow> None
      | Some stamp \<Rightarrow>
          Some (json_object
            [(''version'', itoa (rs_Version snap)), (''fetched_at'', CHR 0x22 # stamp @ [CHR 0x22]),
             (''source'', json_string (rs_Source snap)),
             (''rates'', json_object (map (map_prod id rate_text) (sort_key fst (rs_Rates snap))))]))"

text \<open>Reading it: \<open>json.Unmarshal\<close> into the two structs.\<close>

definition rate_fields :: "ModelRates field list" where
  "rate_fields =
     [(''InputPerToken'', \<lambda>r v. map_option (\<lambda>x. r\<lparr>mr_InputPerToken := x\<rparr>) (decode_float (mr_InputPerToken r) v)),
      (''OutputPerToken'', \<lambda>r v. map_option (\<lambda>x. r\<lparr>mr_OutputPerToken := x\<rparr>) (decode_float (mr_OutputPerToken r) v)),
      (''CacheReadPerToken'',
        \<lambda>r v. map_option (\<lambda>x. r\<lparr>mr_CacheReadPerToken := x\<rparr>) (decode_float (mr_CacheReadPerToken r) v)),
      (''CacheWritePerToken'',
        \<lambda>r v. map_option (\<lambda>x. r\<lparr>mr_CacheWritePerToken := x\<rparr>) (decode_float (mr_CacheWritePerToken r) v))]"

definition zero_rates :: ModelRates where
  "zero_rates = \<lparr>mr_InputPerToken = 0, mr_OutputPerToken = 0, mr_CacheReadPerToken = 0, mr_CacheWritePerToken = 0\<rparr>"

definition snapshot_fields :: "ratesSnapshot field list" where
  "snapshot_fields =
     [(''version'', \<lambda>s v. map_option (\<lambda>x. s\<lparr>rs_Version := x\<rparr>) (decode_int (rs_Version s) v)),
      (''fetched_at'', \<lambda>s v. map_option (\<lambda>x. s\<lparr>rs_FetchedAt := x\<rparr>) (decode_time (rs_FetchedAt s) v)),
      (''source'', \<lambda>s v. map_option (\<lambda>x. s\<lparr>rs_Source := x\<rparr>) (decode_string (rs_Source s) v)),
      (''rates'', \<lambda>s v. map_option (\<lambda>x. s\<lparr>rs_Rates := x\<rparr>)
                          (decode_map (decode_struct rate_fields zero_rates) (rs_Rates s) v))]"

definition snapshot_decode :: "string \<Rightarrow> ratesSnapshot option" where
  "snapshot_decode body =
     json_decode (decode_struct snapshot_fields) \<lparr>rs_Version = 0, rs_FetchedAt = 0, rs_Source = [], rs_Rates = []\<rparr> body"

definition rates_now :: "rates_env \<Rightarrow> RateTableStore \<Rightarrow> gtime \<times> RateTableStore" where
  "rates_now env s = (rte_now env (rts_ticks s), s\<lparr>rts_ticks := Suc (rts_ticks s)\<rparr>)"

definition rates_info :: "RateTableStore \<Rightarrow> string \<Rightarrow> RatesInfo" where
  "rates_info s status =
     \<lparr>ri_Status = status, ri_Source = rts_source s, ri_FetchedAt = rts_fetchedAt s,
      ri_KnownModels = RateTable_Len (rts_table s)\<rparr>"

definition rates_apply :: "gtime \<Rightarrow> RateTable \<Rightarrow> string \<Rightarrow> RateTableStore \<Rightarrow> RateTableStore" where
  "rates_apply fetchedAt table source s =
     s\<lparr>rts_table := table, rts_fetchedAt := fetchedAt, rts_source := source, rts_resolved := table \<noteq> []\<rparr>"

definition loadSnapshot :: "RateTableStore \<Rightarrow> ratesSnapshot option" where
  "loadSnapshot s =
     (if rts_dir s = [] then None
      else case rts_file s of
             None \<Rightarrow> None
           | Some body \<Rightarrow>
               (case snapshot_decode body of
                  None \<Rightarrow> None
                | Some snap \<Rightarrow>
                    if rs_Version snap \<noteq> 1 then None
                    else if rs_Rates snap = [] \<or> time_IsZero (rs_FetchedAt snap) then None
                    else Some snap))"

definition writeSnapshot :: "rates_env \<Rightarrow> gtime \<Rightarrow> RateTable \<Rightarrow> RateTableStore \<Rightarrow> RateTableStore" where
  "writeSnapshot env fetchedAt table s =
     (if rts_dir s = [] \<or> table = [] then s
      else if \<not> rte_writable env then s
      else case snapshot_text \<lparr>rs_Version = 1, rs_FetchedAt = fetchedAt, rs_Source = rts_url s, rs_Rates = table\<rparr> of
             None \<Rightarrow> s
           | Some body \<Rightarrow> s\<lparr>rts_file := Some body\<rparr>)"

definition rates_fetch :: "rates_env \<Rightarrow> RateTableStore \<Rightarrow> (go_error + RateTable) \<times> RateTableStore" where
  "rates_fetch env s =
     ((case rte_http env (rts_fetches s) of
         HttpFailed e \<Rightarrow> Inl (EWrap (''fetch rate catalog: '' @ error_text e) e)
       | HttpAnswer status body \<Rightarrow>
           if status \<noteq> 200 then Inl (EPlain (''fetch rate catalog: unexpected status '' @ itoa status))
           else (case body of
                   Inl e \<Rightarrow> Inl (EWrap (''read rate catalog: '' @ error_text e) e)
                 | Inr document \<Rightarrow>
                     if length document > 32 * 2 ^ 20
                     then Inl (EWrap ''read rate catalog: http: request body too large'' (EPlain ''http: request body too large''))
                     else ParseRateTable (rte_jerr env) document)),
      s\<lparr>rts_fetches := Suc (rts_fetches s)\<rparr>)"

definition rates_refresh :: "rates_env \<Rightarrow> RateTable \<Rightarrow> RateTableStore \<Rightarrow> RateTableStore" where
  "rates_refresh env table s =
     (let (fetchedAt, s1) = rates_now env s
      in writeSnapshot env fetchedAt table (rates_apply fetchedAt table (rts_url s1) s1))"

definition rates_use :: "ratesSnapshot \<Rightarrow> RateTableStore \<Rightarrow> RateTableStore" where
  "rates_use snap s = rates_apply (rs_FetchedAt snap) (rs_Rates snap) (rs_Source snap) s"

definition rates_answer :: "string \<Rightarrow> RateTableStore \<Rightarrow> (RateTable \<times> RatesInfo \<times> go_error option) \<times> RateTableStore" where
  "rates_answer status s = ((rts_table s, rates_info s status, None), s)"

definition Ensure :: "rates_env \<Rightarrow> RateTableStore \<Rightarrow> (RateTable \<times> RatesInfo \<times> go_error option) \<times> RateTableStore" where
  "Ensure env s0 =
     (let (now, s) = rates_now env s0
      in if rts_resolved s \<and> time_sub now (rts_fetchedAt s) < RatesTTL then rates_answer ''fresh'' s
         else
           (let stale = loadSnapshot s
            in if stale \<noteq> None \<and> time_sub now (rs_FetchedAt (the stale)) < RatesTTL
               then rates_answer ''fresh'' (rates_use (the stale) s)
               else case rates_fetch env s of
                      (Inr table, s1) \<Rightarrow> rates_answer ''fresh'' (rates_refresh env table s1)
                    | (Inl e, s1) \<Rightarrow>
                        if stale \<noteq> None then rates_answer ''cached'' (rates_use (the stale) s1)
                        else if rts_resolved s1 then rates_answer ''cached'' s1
                        else (([], \<lparr>ri_Status = ''unavailable'', ri_Source = rts_url s1, ri_FetchedAt = 0, ri_KnownModels = 0\<rparr>,
                               Some (EPlain ''model rates unavailable'')), s1)))"

definition rates_Status :: "RateTableStore \<Rightarrow> RatesInfo" where
  "rates_Status s =
     (if \<not> rts_resolved s
      then \<lparr>ri_Status = ''unavailable'', ri_Source = rts_url s, ri_FetchedAt = 0, ri_KnownModels = 0\<rparr>
      else rates_info s ''cached'')"

section \<open>The table of a catalog\<close>

definition priced :: "string \<times> anymap \<Rightarrow> (string \<times> ModelRates) option" where
  "priced ne =
     (let key = NormalizeModelName (fst ne)
      in if key = [] \<or> key = ''synthetic'' then None else map_option (Pair key) (entry_rates (snd ne)))"

lemma add_entry_priced: "add_entry t ne = (case priced ne of None \<Rightarrow> t | Some (k, r) \<Rightarrow> aput k r t)"
  by (simp add: add_entry_def priced_def Let_def split: option.splits)

lemma foldl_add_entry: "foldl add_entry t es = foldl (\<lambda>t (k, r). aput k r t) t (List.map_filter priced es)"
  by (induction es arbitrary: t) (simp_all add: add_entry_priced List.map_filter_simps split: option.splits)

lemma dom_foldl_aput: "dom (aget (foldl (\<lambda>t (k, r). aput k r t) t ps)) = dom (aget t) \<union> fst ` set ps"
  by (induction ps arbitrary: t) (auto simp del: dom_def)

lemma foldl_aput_Some:
  "aget (foldl (\<lambda>t (k, r). aput k r t) t ps) key = Some r \<Longrightarrow> aget t key = Some r \<or> (key, r) \<in> set ps"
proof (induction ps arbitrary: t)
  case (Cons p ps)
  then show ?case by (cases p) (fastforce split: if_splits)
qed simp

lemma Lookup_aget: "Lookup t model = aget t (NormalizeModelName model)"
  by (simp add: Lookup_def)

lemma aget_empty_iff: "dom (aget t) = {} \<longleftrightarrow> t = []"
  by (cases t) auto

section \<open>The snapshot file\<close>

definition float_rates :: "ModelRates \<Rightarrow> bool" where
  "float_rates r \<longleftrightarrow> (\<forall>(k, x) \<in> set (rate_members r). float64 x)"

lemma digit_literal: "is_digit c \<Longrightarrow> literal_char c"
  by (auto simp: is_digit_def literal_char_def in_range_def Let_def)

lemma pad_digits_literal [simp]: "list_all literal_char (pad_digits k n)"
  using nat_digits_all [of n] by (auto simp: pad_digits_def Let_def list_all_iff digit_literal is_digit_def)

lemma strip_zeros_literal: "list_all literal_char s \<Longrightarrow> list_all literal_char (strip_zeros s)"
  using strip_zeros_split [of s] by (metis list_all_append)

lemma time_text_literal: "time_text t = Some s \<Longrightarrow> list_all literal_char s"
  by (auto simp: time_text_def Let_def fmt_frac_def strip_zeros_literal literal_char_def in_range_def
      split: prod.splits if_splits)

lemma rate_names:
  "fold_name ''InputPerToken'' = ''inputpertoken''" "fold_name ''OutputPerToken'' = ''outputpertoken''"
  "fold_name ''CacheReadPerToken'' = ''cachereadpertoken''" "fold_name ''CacheWritePerToken'' = ''cachewritepertoken''"
  "fold_name ''version'' = ''version''" "fold_name ''fetched_at'' = ''fetched_at''"
  "fold_name ''source'' = ''source''" "fold_name ''rates'' = ''rates''"
  by (simp_all add: lower_char_def char_of_def bit_0)

lemma valid_names:
  "utf8_valid ''InputPerToken''" "utf8_valid ''OutputPerToken''" "utf8_valid ''CacheReadPerToken''"
  "utf8_valid ''CacheWritePerToken''" "utf8_valid ''version''" "utf8_valid ''fetched_at''" "utf8_valid ''source''"
  "utf8_valid ''rates''"
  by (rule utf8_valid_ascii; simp)+

lemma rate_scans:
  assumes "float_rates r"
  obtains raw where "scans 1 (rate_text r) raw" "decode_struct rate_fields zero_rates raw = Some r"
proof -
  have f: "float64 (mr_InputPerToken r)" "float64 (mr_OutputPerToken r)" "float64 (mr_CacheReadPerToken r)"
    "float64 (mr_CacheWritePerToken r)" using assms by (simp_all add: float_rates_def rate_members_def)
  have "\<exists>v. scans 0 (json_float x) v \<and> (\<forall>y. decode_float y v = Some x)" if "float64 x" for x
    using scans_float [OF that] by (metis decode_float.simps(1))
  then obtain raw where raw: "scans 0 (json_float x) (raw x)" "decode_float y (raw x) = Some x" if "float64 x" for x y
    by metis
  let ?ms = "map (\<lambda>(k, x). (k, json_float x, raw x)) (rate_members r)"
  have "scans (Suc 0) (json_object (text_members ?ms)) (RObj (raw_members ?ms))"
    by (rule scans_object) (simp add: rate_members_def valid_names raw(1) f)
  then have "scans 1 (rate_text r) (RObj (raw_members ?ms))"
    by (simp add: rate_text_def comp_def case_prod_unfold map_prod_def)
  moreover have "decode_struct rate_fields zero_rates (RObj (raw_members ?ms)) = Some r"
    by (simp add: rate_members_def store_member_def rate_fields_def zero_rates_def rate_names raw(2) f)
  ultimately show thesis using that by blast
qed

lemma put_members_fresh: "distinct (map fst (acc @ m)) \<Longrightarrow> put_members acc m = acc @ m"
proof (induction m arbitrary: acc)
  case (Cons kv m)
  then have "aput (fst kv) (snd kv) acc = acc @ [kv]" by (subst aput_fresh) auto
  with Cons show ?case by (simp add: put_members_def case_prod_unfold)
qed (simp add: put_members_def)

lemma rates_scan:
  assumes "\<forall>(k, r) \<in> set t. utf8_valid k \<and> float_rates r" and "distinct (map fst t)"
  obtains raw where "scans 2 (json_object (map (map_prod id rate_text) t)) raw"
    "decode_map (decode_struct rate_fields zero_rates) [] raw = Some t"
proof -
  have "\<exists>v. scans 1 (rate_text r) v \<and> decode_struct rate_fields zero_rates v = Some r" if "float_rates r" for r
    using rate_scans [OF that] by metis
  then obtain raw where raw: "scans 1 (rate_text r) (raw r)"
    "decode_struct rate_fields zero_rates (raw r) = Some r" if "float_rates r" for r by metis
  let ?ms = "map (\<lambda>(k, r). (k, rate_text r, raw r)) t"
  have "scans (Suc 1) (json_object (text_members ?ms)) (RObj (raw_members ?ms))"
    using assms(1) raw(1) by (intro scans_object) fastforce
  then have "scans 2 (json_object (map (map_prod id rate_text) t)) (RObj (raw_members ?ms))"
    by (simp add: comp_def case_prod_unfold map_prod_def numeral_2_eq_2)
  moreover have "foldl (store_entry (decode_struct rate_fields zero_rates)) (Some acc) (raw_members ?ms) = Some (put_members acc t)"
    for acc using assms(1)
    by (induction t arbitrary: acc) (auto simp: store_entry_def put_members_def raw(2))
  then have "decode_map (decode_struct rate_fields zero_rates) [] (RObj (raw_members ?ms)) = Some t"
    using assms(2) put_members_fresh [of "[]" t] by simp
  ultimately show thesis using that by blast
qed

lemma scans_one: "scans 0 (itoa 1) (RNum False ''1'' [] None)"
proof -
  have one: "itoa 1 = ''1''" and num: "scan_number ''1'' = Some (RNum False ''1'' [] None, [])" by code_simp+
  have ws: "\<not> is_ws (CHR ''1'')" by code_simp
  show ?thesis unfolding one
    using scan_number_more [OF num] ws by (intro scansI) (simp add: scan_scalar_def)
qed

text \<open>A snapshot is read back with its keys sorted and its source as valid UTF-8.\<close>

lemma snapshot_roundtrip:
  assumes "rs_Version snap = 1" and "\<forall>(k, r) \<in> set (rs_Rates snap). utf8_valid k \<and> float_rates r"
    and "distinct (map fst (rs_Rates snap))" and "snapshot_text snap = Some body"
  shows "snapshot_decode body
    = Some (snap\<lparr>rs_Source := utf8_coerce (rs_Source snap), rs_Rates := sort_key fst (rs_Rates snap)\<rparr>)"
proof -
  let ?t = "sort_key fst (rs_Rates snap)"
  have d: "distinct (map fst ?t)" using assms(3) mset_eq_imp_distinct_iff [of "map fst ?t" "map fst (rs_Rates snap)"] by simp
  obtain raw where raw: "scans 2 (json_object (map (map_prod id rate_text) ?t)) raw"
    "decode_map (decode_struct rate_fields zero_rates) [] raw = Some ?t"
    by (rule rates_scan [OF _ d]) (use assms(2) in auto)
  from assms(4) obtain stamp where st: "time_text (rs_FetchedAt snap) = Some stamp"
    by (auto simp: snapshot_text_def split: option.splits)
  let ?ms = "[(''version'', itoa 1, RNum False ''1'' [] None), (''fetched_at'', CHR 0x22 # stamp @ [CHR 0x22], RStr stamp stamp),
      (''source'', json_string (rs_Source snap), RStr (json_body (rs_Source snap)) (utf8_coerce (rs_Source snap))),
      (''rates'', json_object (map (map_prod id rate_text) ?t), raw)]"
  have "scans (Suc 2) (json_object (text_members ?ms)) (RObj (raw_members ?ms))"
    using scans_mono [OF scans_literal [OF time_text_literal [OF st]], of 2] scans_mono [OF scans_one, of 2]
      scans_mono [OF scans_string, of 2] raw(1)
    by (intro scans_object) (simp add: valid_names)
  then have "json_scan (json_object (text_members ?ms)) = Some (RObj (raw_members ?ms))"
    by (rule json_scan_text) (simp add: max_depth_def)
  moreover have "body = json_object (text_members ?ms)" using assms(1,4) st by (simp add: snapshot_text_def)
  moreover have "Atoi ''1'' = Some 1" by code_simp
  ultimately show ?thesis
    using time_text_parse [OF st] raw(2) assms(1)
    by (simp add: snapshot_decode_def json_decode_def store_member_def snapshot_fields_def rate_names)
qed

text \<open>The rates of a catalog are numbers of type \<open>float64\<close>, under distinct and valid keys.\<close>

lemma float64_zero [simp]: "float64 0"
  by (simp add: float64_def round_float64_def)

lemma gval_float: "gval_of_json v = GFloat64 y \<Longrightarrow> v = JNum y"
  by (cases v) simp_all

lemma gget_float: "gget (members_of_json m) k = GFloat64 y \<Longrightarrow> JNum y \<in> snd ` set m"
proof (induction m)
  case (Cons kv m)
  then show ?case by (cases kv) (auto simp: aget_or_def dest!: gval_float split: if_splits)
qed (simp add: aget_or_def)

lemma finiteNumber_float:
  assumes "finiteNumber g = Some x" and "\<And>y. g = GFloat64 y \<Longrightarrow> float64 y"
  shows "float64 x"
  using assms by (cases g rule: finiteNumber.cases) (auto dest!: json_parse_plain split: option.splits json.splits)

lemma catalog_entry_float: "catalog_entry v = Some e \<Longrightarrow> plain v \<Longrightarrow> gget e k = GFloat64 y \<Longrightarrow> float64 y"
proof (induction v rule: catalog_entry.induct)
  case (1 m)
  then have "JNum y \<in> snd ` set m" by (intro gget_float) simp
  then have "plain (JNum y)" using 1 by (metis plain.simps(6) list.set_map)
  then show ?case by simp
qed (simp_all add: aget_or_def)

text \<open>What a table of a catalog is: not empty, keyed once, with prices that are numbers.\<close>

definition catalog_table :: "RateTable \<Rightarrow> bool" where
  "catalog_table t \<longleftrightarrow> t \<noteq> [] \<and> distinct (map fst t) \<and> (\<forall>(k, r) \<in> set t. utf8_valid k \<and> float_rates r)"

lemma NormalizeModelName_valid: "utf8_valid model \<Longrightarrow> utf8_valid (NormalizeModelName model)"
  unfolding NormalizeModelName_def by (intro last_Split_valid ToLower_valid TrimSpace_valid) (simp_all add: in_range_def)

lemma entry_rates_float:
  assumes "entry_rates e = Some r" and "\<And>k y. gget e k = GFloat64 y \<Longrightarrow> float64 y"
  shows "float_rates r"
proof -
  have "float64 x" if "finiteNumber (gget e k) = Some x" for k x
    using finiteNumber_float [OF that] assms(2) by blast
  with assms(1) show ?thesis
    by (auto simp: entry_rates_def float_rates_def rate_members_def Let_def split: option.splits)
qed

lemma catalog_entries_plain:
  assumes "catalog_entries document = Some es" and "ne \<in> set es"
  shows "utf8_valid (fst ne)" "gget (snd ne) k = GFloat64 y \<Longrightarrow> float64 y"
proof -
  from assms(1) obtain m where m: "json_parse_map document = Some m"
    and es: "es = map (\<lambda>(k, v). (k, the (catalog_entry v))) (entries m)"
    and ok: "list_all (\<lambda>(k, v). catalog_entry v \<noteq> None) (entries m)"
    by (auto simp: catalog_entries_def split: option.splits if_splits)
  have obj: "plain (JObj (entries m))"
  proof (cases m)
    case (Some x)
    with m have "json_parse document = Some (JObj x)" by (auto simp: json_parse_map_def split: option.splits json.splits)
    from json_parse_plain [OF this] Some show ?thesis by (simp only: entries_simps)
  qed simp
  from es assms(2) obtain kv where kv: "kv \<in> set (entries m)" "fst ne = fst kv" "snd ne = the (catalog_entry (snd kv))" by auto
  then have "fst ne \<in> set (map fst (entries m))" "snd kv \<in> set (map snd (entries m))" by auto
  with obj have v: "utf8_valid (fst ne)" "plain (snd kv)" unfolding plain.simps by blast+
  then show "utf8_valid (fst ne)" by simp
  have "catalog_entry (snd kv) = Some (snd ne)" using ok kv by (auto simp: list_all_iff)
  then show "gget (snd ne) k = GFloat64 y \<Longrightarrow> float64 y" using catalog_entry_float v(2) by blast
qed

lemma foldl_add_entry_table:
  assumes "\<forall>ne \<in> set es. utf8_valid (fst ne) \<and> (\<forall>r. entry_rates (snd ne) = Some r \<longrightarrow> float_rates r)"
    and "distinct (map fst t)" and "\<forall>(k, r) \<in> set t. utf8_valid k \<and> float_rates r"
  shows "distinct (map fst (foldl add_entry t es)) \<and> (\<forall>(k, r) \<in> set (foldl add_entry t es). utf8_valid k \<and> float_rates r)"
  using assms
proof (induction es arbitrary: t)
  case (Cons ne es)
  consider "add_entry t ne = t"
    | r where "entry_rates (snd ne) = Some r" "add_entry t ne = aput (NormalizeModelName (fst ne)) r t"
    by (cases "entry_rates (snd ne)"; cases "NormalizeModelName (fst ne) = [] \<or> NormalizeModelName (fst ne) = ''synthetic''")
      (simp_all add: add_entry_def Let_def)
  then have "distinct (map fst (add_entry t ne)) \<and> (\<forall>(k, r) \<in> set (add_entry t ne). utf8_valid k \<and> float_rates r)"
  proof cases
    case (2 r)
    then have "float_rates r" "utf8_valid (NormalizeModelName (fst ne))"
      using Cons.prems(1) NormalizeModelName_valid by simp_all
    with 2 Cons.prems(2,3) aput_subset [of "NormalizeModelName (fst ne)" r t] show ?thesis by auto
  qed (use Cons.prems in simp)
  then show ?case
    unfolding foldl.simps using Cons.prems(1) by (intro Cons.IH) simp_all
qed simp

lemma ParseRateTable_table:
  assumes "ParseRateTable jerr document = Inr t"
  shows "catalog_table t"
proof -
  from assms obtain es where es: "catalog_entries document = Some es" "t = foldl add_entry [] es" "t \<noteq> []"
    by (auto simp: ParseRateTable_def Let_def split: option.splits if_splits)
  have "\<forall>ne \<in> set es. utf8_valid (fst ne) \<and> (\<forall>r. entry_rates (snd ne) = Some r \<longrightarrow> float_rates r)"
    using entry_rates_float catalog_entries_plain [OF es(1)] by blast
  with foldl_add_entry_table [of es "[]"] es(2,3) show ?thesis by (simp add: catalog_table_def)
qed

section \<open>The store keeps a usable table\<close>

definition store_ok :: "RateTableStore \<Rightarrow> bool" where
  "store_ok s \<longleftrightarrow> (rts_resolved s \<longleftrightarrow> rts_table s \<noteq> [])"

lemma store_fields [simp]:
  "rts_table (rates_use snap s) = rs_Rates snap" "rts_fetchedAt (rates_use snap s) = rs_FetchedAt snap"
  "rts_resolved (rates_use snap s) = (rs_Rates snap \<noteq> [])" "rts_fetches (rates_use snap s) = rts_fetches s"
  "rts_table (rates_refresh env t s) = t" "rts_resolved (rates_refresh env t s) = (t \<noteq> [])"
  "rts_fetches (rates_refresh env t s) = rts_fetches s"
  "rts_fetchedAt (rates_refresh env t s) = rte_now env (rts_ticks s)"
  by (simp_all add: rates_use_def rates_refresh_def rates_apply_def writeSnapshot_def rates_now_def
      split: option.splits)

lemma rates_fetch_eq: "snd (rates_fetch env s) = s\<lparr>rts_fetches := Suc (rts_fetches s)\<rparr>"
  by (simp add: rates_fetch_def)

lemma rates_fetch_table: "rates_fetch env s = (Inr t, s') \<Longrightarrow> catalog_table t"
  by (auto simp: rates_fetch_def intro: ParseRateTable_table split: http_answer.splits if_splits sum.splits)

lemma loadSnapshot_rates: "loadSnapshot s = Some snap \<Longrightarrow> rs_Rates snap \<noteq> []"
  by (auto simp: loadSnapshot_def split: if_splits option.splits)

text \<open>The ways a call ends.\<close>

lemma Ensure_outcomes:
  assumes call: "Ensure env s = (answer, s')"
  defines "now \<equiv> rte_now env (rts_ticks s)"
  obtains
    (Memory) "answer = fst (rates_answer ''fresh'' s')" "s' = s\<lparr>rts_ticks := Suc (rts_ticks s)\<rparr>" "rts_resolved s"
      "time_sub now (rts_fetchedAt s) < RatesTTL"
  | (Disk) snap where "answer = fst (rates_answer ''fresh'' s')" "s' = rates_use snap (s\<lparr>rts_ticks := Suc (rts_ticks s)\<rparr>)"
      "rs_Rates snap \<noteq> []" "time_sub now (rs_FetchedAt snap) < RatesTTL"
  | (Fetched) table where "answer = fst (rates_answer ''fresh'' s')" "catalog_table table"
      "s' = rates_refresh env table (s\<lparr>rts_ticks := Suc (rts_ticks s), rts_fetches := Suc (rts_fetches s)\<rparr>)"
  | (Stale) snap where "answer = fst (rates_answer ''cached'' s')" "rs_Rates snap \<noteq> []"
      "s' = rates_use snap (s\<lparr>rts_ticks := Suc (rts_ticks s), rts_fetches := Suc (rts_fetches s)\<rparr>)"
  | (Kept) "answer = fst (rates_answer ''cached'' s')" "rts_resolved s"
      "s' = s\<lparr>rts_ticks := Suc (rts_ticks s), rts_fetches := Suc (rts_fetches s)\<rparr>"
  | (Unavailable) info e where "answer = ([], info, Some e)" "ri_Status info = ''unavailable''" "\<not> rts_resolved s"
      "s' = s\<lparr>rts_ticks := Suc (rts_ticks s), rts_fetches := Suc (rts_fetches s)\<rparr>"
proof -
  let ?s1 = "s\<lparr>rts_ticks := Suc (rts_ticks s)\<rparr>"
  obtain r where f: "rates_fetch env ?s1 = (r, ?s1\<lparr>rts_fetches := Suc (rts_fetches s)\<rparr>)"
    using rates_fetch_eq [of env ?s1] by (cases "rates_fetch env ?s1") simp
  have E: "Ensure env s =
      (if rts_resolved s \<and> time_sub now (rts_fetchedAt s) < RatesTTL then rates_answer ''fresh'' ?s1
       else (let stale = loadSnapshot ?s1
         in if stale \<noteq> None \<and> time_sub now (rs_FetchedAt (the stale)) < RatesTTL
            then rates_answer ''fresh'' (rates_use (the stale) ?s1)
            else case (r, ?s1\<lparr>rts_fetches := Suc (rts_fetches s)\<rparr>) of
                (Inr table, s1) \<Rightarrow> rates_answer ''fresh'' (rates_refresh env table s1)
              | (Inl e, s1) \<Rightarrow>
                  if stale \<noteq> None then rates_answer ''cached'' (rates_use (the stale) s1)
                  else if rts_resolved s1 then rates_answer ''cached'' s1
                  else (([], \<lparr>ri_Status = ''unavailable'', ri_Source = rts_url s1, ri_FetchedAt = 0, ri_KnownModels = 0\<rparr>,
                         Some (EPlain ''model rates unavailable'')), s1)))"
    by (cases r) (auto simp: Ensure_def rates_now_def now_def f Let_def)
  have ans: "rates_answer status u = (answer, s') \<Longrightarrow> answer = fst (rates_answer status s') \<and> s' = u" for status u
    by (auto simp: rates_answer_def)
  show thesis
  proof (cases "rts_resolved s \<and> time_sub now (rts_fetchedAt s) < RatesTTL")
    case True
    then have "rates_answer ''fresh'' ?s1 = (answer, s')" using call unfolding E by simp
    with True Memory ans show thesis by blast
  next
    case old: False
    show thesis
    proof (cases "loadSnapshot ?s1 \<noteq> None \<and> time_sub now (rs_FetchedAt (the (loadSnapshot ?s1))) < RatesTTL")
      case True
      have "rates_answer ''fresh'' (rates_use (the (loadSnapshot ?s1)) ?s1) = (answer, s')"
        using call unfolding E Let_def if_not_P [OF old] if_P [OF True] .
      with True Disk ans loadSnapshot_rates show thesis by fastforce
    next
      case unread: False
      show thesis
      proof (cases r)
        case (Inr table)
        have "rates_answer ''fresh'' (rates_refresh env table (?s1\<lparr>rts_fetches := Suc (rts_fetches s)\<rparr>)) = (answer, s')"
          using call unfolding E Let_def if_not_P [OF old] if_not_P [OF unread] Inr by simp
        from ans [OF this] rates_fetch_table [OF f [unfolded Inr]] show thesis
          by (intro Fetched [of table]) simp_all
      next
        case (Inl e)
        show thesis
        proof (cases "loadSnapshot ?s1")
          case None
          have "(if rts_resolved s then rates_answer ''cached'' (?s1\<lparr>rts_fetches := Suc (rts_fetches s)\<rparr>)
              else (([], \<lparr>ri_Status = ''unavailable'', ri_Source = rts_url s, ri_FetchedAt = 0, ri_KnownModels = 0\<rparr>,
                     Some (EPlain ''model rates unavailable'')), ?s1\<lparr>rts_fetches := Suc (rts_fetches s)\<rparr>)) = (answer, s')"
            using call unfolding E Let_def if_not_P [OF old] if_not_P [OF unread] Inl None by (auto split: if_splits)
          then consider (kept) "rts_resolved s" "rates_answer ''cached'' (?s1\<lparr>rts_fetches := Suc (rts_fetches s)\<rparr>) = (answer, s')"
            | (none) "\<not> rts_resolved s" "s' = ?s1\<lparr>rts_fetches := Suc (rts_fetches s)\<rparr>"
              "answer = ([], \<lparr>ri_Status = ''unavailable'', ri_Source = rts_url s, ri_FetchedAt = 0, ri_KnownModels = 0\<rparr>,
                 Some (EPlain ''model rates unavailable''))"
            by (cases "rts_resolved s") simp_all
          then show thesis
          proof cases
            case kept
            from ans [OF kept(2)] kept(1) show thesis by (intro Kept) simp_all
          next
            case none
            then show thesis using Unavailable [OF none(3) _ none(1)] by simp
          qed
        next
          case (Some snap)
          have "rates_answer ''cached'' (rates_use snap (?s1\<lparr>rts_fetches := Suc (rts_fetches s)\<rparr>)) = (answer, s')"
            using call unfolding E Let_def if_not_P [OF old] if_not_P [OF unread] Inl unfolding Some by simp
          from ans [OF this] loadSnapshot_rates [OF Some] show thesis
            by (intro Stale [of snap]) simp_all
        qed
      qed
    qed
  qed
qed

text \<open>The states of a store that was created and used any number of times.\<close>

inductive rates_reachable :: "rates_env \<Rightarrow> RateTableStore \<Rightarrow> bool" where
  rates_new: "NewRateTableStore env0 dir file options = (env, s) \<Longrightarrow> rates_reachable env s"
| rates_used: "rates_reachable env s \<Longrightarrow> Ensure env s = (answer, s') \<Longrightarrow> rates_reachable env s'"

lemma rate_options_keep:
  "foldl rate_option (env0, s0) options = (env, s) \<Longrightarrow>
     s = s0\<lparr>rts_url := rts_url s\<rparr> \<and> env = env0\<lparr>rte_now := rte_now env, rte_http := rte_http env\<rparr>"
proof (induction options arbitrary: env0 s0)
  case (Cons opt options)
  then show ?case
    by (cases opt) (fastforce split: option.splits if_splits)+
qed simp

lemma new_store:
  assumes "NewRateTableStore env0 dir file options = (env, s)"
  shows "rts_dir s = dir" "rts_file s = file" "rts_table s = []" "\<not> rts_resolved s" "rts_ticks s = 0" "rts_fetches s = 0"
proof -
  have "s = \<lparr>rts_dir = dir, rts_url = rts_url s, rts_table = [], rts_fetchedAt = 0, rts_source = [], rts_resolved = False,
      rts_file = file, rts_ticks = 0, rts_fetches = 0\<rparr>"
    using rate_options_keep [OF assms [unfolded NewRateTableStore_def]] by simp
  then show "rts_dir s = dir" "rts_file s = file" "rts_table s = []" "\<not> rts_resolved s" "rts_ticks s = 0" "rts_fetches s = 0"
    by (metis RateTableStore.select_convs)+
qed

lemma rates_reachable_ok: "rates_reachable env s \<Longrightarrow> store_ok s"
proof (induction rule: rates_reachable.induct)
  case (rates_new env0 dir snapshot options env s)
  from new_store [OF this] show ?case by (simp add: store_ok_def)
next
  case (rates_used env s answer s')
  from rates_used(2) show ?case
    by (rule Ensure_outcomes) (use rates_used(3) in \<open>simp_all add: store_ok_def\<close>)
qed

section \<open>Properties\<close>

text \<open>
  The rate table of a catalog holds exactly the models with an input and an output price, under
  their normalized names, each with the prices of an entry of that name; a catalog that is not one or
  prices nothing is an error.
\<close>

theorem rate_table_exact:
  "case ParseRateTable jerr document of
     Inl e \<Rightarrow> (case catalog_entries document of None \<Rightarrow> True | Some es \<Rightarrow> List.map_filter priced es = [])
   | Inr t \<Rightarrow>
       (case catalog_entries document of
          None \<Rightarrow> False
        | Some es \<Rightarrow> t \<noteq> [] \<and> dom (aget t) = fst ` set (List.map_filter priced es)
            \<and> (\<forall>key. case aget t key of None \<Rightarrow> True | Some r \<Rightarrow> (key, r) \<in> set (List.map_filter priced es)))"
proof (cases "catalog_entries document")
  case (Some es)
  have dom: "dom (aget (foldl add_entry [] es)) = fst ` set (List.map_filter priced es)"
    using dom_foldl_aput [of "[]"] by (simp add: foldl_add_entry)
  have mem: "aget (foldl add_entry [] es) key = Some r \<Longrightarrow> (key, r) \<in> set (List.map_filter priced es)" for key r
    using foldl_aput_Some [of "[]"] by (fastforce simp: foldl_add_entry)
  show ?thesis
    using Some dom mem aget_empty_iff [of "foldl add_entry [] es"]
    by (auto simp: ParseRateTable_def Let_def split: option.splits)
qed (simp add: ParseRateTable_def)

text \<open>
  Two entries whose names differ only before the last slash share a key, and the later one wins: the
  prices of the model depend on the order in which the catalog is iterated.
\<close>

lemma rates_depend_on_order:
  "\<exists>e1 e2. Lookup (foldl add_entry [] [(''a/m'', e1), (''b/m'', e2)]) ''m''
         \<noteq> Lookup (foldl add_entry [] [(''b/m'', e2), (''a/m'', e1)]) ''m''"
proof -
  let ?e = "\<lambda>x. [(''input_cost_per_token'', GFloat64 x), (''output_cost_per_token'', GFloat64 x)]"
  have "Lookup (foldl add_entry [] [(''a/m'', ?e 1), (''b/m'', ?e 2)]) ''m''
      \<noteq> Lookup (foldl add_entry [] [(''b/m'', ?e 2), (''a/m'', ?e 1)]) ''m''"
    by code_simp
  then show ?thesis by blast
qed


definition sample_rates_env :: rates_env where
  "sample_rates_env =
     \<lparr>rte_now = (\<lambda>_. second), rte_http = (\<lambda>_. HttpAnswer 503 (Inr [])), rte_writable = True, rte_jerr = (\<lambda>_. EPlain [])\<rparr>"

definition sample_rate_store :: "rates_env \<Rightarrow> string \<Rightarrow> string option \<Rightarrow> RateTableStore" where
  "sample_rate_store env dir file = snd (NewRateTableStore env dir file [WithRatesURL ''u''])"

lemma sample_rate_store: "NewRateTableStore env dir file [WithRatesURL ''u''] = (env, sample_rate_store env dir file)"
  by (simp add: sample_rate_store_def NewRateTableStore_def)



text \<open>
  C32. A fetched table survives the process: it is written as JSON, and a new store over the same directory
  reads it back and returns the same rates as fresh, without the network, until they are a day old.
\<close>

theorem rates_survive_restart:
  assumes fetched: "Ensure env s = ((t, info, None), s')" "ri_Status info = ''fresh''" "rts_fetches s' = Suc (rts_fetches s)"
    and disk: "rts_dir s \<noteq> []" "rte_writable env"
    and stamp: "rts_fetchedAt s' \<noteq> 0" "time_text (rts_fetchedAt s') \<noteq> None"
    and restart: "NewRateTableStore env0 (rts_dir s) (rts_file s') options = (env', s0)"
    and young: "time_sub (rte_now env' 0) (rts_fetchedAt s') < RatesTTL"
  shows "case Ensure env' s0 of
      ((t', info', err'), s'') \<Rightarrow> (\<forall>model. Lookup t' model = Lookup t model) \<and> err' = None \<and> ri_Status info' = ''fresh''
        \<and> ri_FetchedAt info' = rts_fetchedAt s' \<and> ri_KnownModels info' = RateTable_Len t
        \<and> ri_Source info' = utf8_coerce (rts_url s) \<and> rts_fetches s'' = 0"
proof -
  have s': "s' = rates_refresh env t (s\<lparr>rts_ticks := Suc (rts_ticks s), rts_fetches := Suc (rts_fetches s)\<rparr>)"
    and t: "catalog_table t"
    using fetched(1) by (rule Ensure_outcomes; use fetched(2,3) in \<open>auto simp: rates_answer_def rates_info_def\<close>)+
  have at: "rts_fetchedAt s' = rte_now env (Suc (rts_ticks s))" by (simp add: s')
  let ?snap = "\<lparr>rs_Version = 1, rs_FetchedAt = rts_fetchedAt s', rs_Source = rts_url s, rs_Rates = t\<rparr>"
  let ?stored = "?snap\<lparr>rs_Source := utf8_coerce (rts_url s), rs_Rates := sort_key fst t\<rparr>"
  from stamp(2) obtain body where body: "snapshot_text ?snap = Some body"
    by (auto simp: snapshot_text_def split: option.splits)
  have "rts_file s' = Some body"
    using disk t body unfolding at unfolding s' by (simp add: rates_refresh_def rates_now_def writeSnapshot_def rates_apply_def catalog_table_def)
  moreover have "snapshot_decode body = Some ?stored"
    using t body by (subst snapshot_roundtrip [of ?snap]) (auto simp: catalog_table_def)
  moreover have "sort_key fst t \<noteq> []" using t by (metis catalog_table_def length_0_conv length_sort)
  ultimately have load: "loadSnapshot (s0\<lparr>rts_ticks := Suc 0\<rparr>) = Some ?stored"
    using new_store [OF restart] disk(1) t stamp(1) by (simp add: loadSnapshot_def time_IsZero_def catalog_table_def)
  have "distinct (map fst (sort_key fst t))"
    using t mset_eq_imp_distinct_iff [of "map fst (sort_key fst t)" "map fst t"] by (simp add: catalog_table_def)
  then have "map_of (sort_key fst t) = map_of t"
    using t by (intro map_of_inject_set [THEN iffD2]) (simp_all add: catalog_table_def)
  then have "Lookup (sort_key fst t) model = Lookup t model" for model by (simp add: Lookup_aget)
  then show ?thesis
    using new_store [OF restart] young load
    by (simp add: Ensure_def rates_now_def Let_def rates_info_def rates_use_def rates_answer_def rates_apply_def RateTable_Len_def)
qed

text \<open>A catalog of one model, fetched and stored, read back an hour later by a store that has no network.\<close>

definition sample_catalog :: string where
  "sample_catalog = json_marshal (JObj [(''m'', JObj [(''input_cost_per_token'', JNum 0), (''output_cost_per_token'', JNum 0)])])"

definition sample_rates :: RateTable where
  "sample_rates = [(''m'', zero_rates)]"

definition sample_online :: rates_env where
  "sample_online = sample_rates_env\<lparr>rte_http := (\<lambda>_. HttpAnswer 200 (Inr sample_catalog))\<rparr>"

theorem rates_survive_restart_witness:
  "case Ensure sample_online (sample_rate_store sample_online ''d'' None) of
     (answer, s') \<Rightarrow>
       (case Ensure (sample_rates_env\<lparr>rte_now := (\<lambda>_. hour)\<rparr>)
               (snd (NewRateTableStore sample_rates_env ''d'' (rts_file s') [withRateClock (Some (\<lambda>_. hour))])) of
          ((t', info', err'), s'') \<Rightarrow> Lookup t' ''x/M'' = Some zero_rates \<and> err' = None \<and> ri_Status info' = ''fresh''
            \<and> ri_Source info' = ''u'' \<and> rts_fetches s'' = 0)"
proof -
  let ?s = "sample_rate_store sample_online ''d'' None"
  let ?call = "Ensure sample_online ?s"
  let ?env = "sample_rates_env\<lparr>rte_now := (\<lambda>_. hour)\<rparr>"
  let ?new = "NewRateTableStore sample_rates_env ''d'' (rts_file (snd ?call)) [withRateClock (Some (\<lambda>_. hour))]"
  have parse: "ParseRateTable (\<lambda>_. EPlain []) sample_catalog = Inr sample_rates" by code_simp
  have "length sample_catalog \<le> 100" by code_simp
  then have len: "length sample_catalog \<le> 32 * 2 ^ 20" by simp
  have s: "rts_dir ?s = ''d''" "rts_url ?s = ''u''" "\<not> rts_resolved ?s" "rts_fetches ?s = 0" "rts_ticks ?s = 0" "rts_file ?s = None"
    by (simp_all add: sample_rate_store_def NewRateTableStore_def)
  have call: "?call = ((sample_rates, rates_info (snd ?call) ''fresh'', None), snd ?call)"
      "rts_fetches (snd ?call) = Suc (rts_fetches ?s)" "rts_fetchedAt (snd ?call) = second"
    using parse len s
    by (simp_all add: Ensure_def rates_now_def sample_online_def sample_rates_env_def loadSnapshot_def rates_fetch_def
        rates_answer_def rates_info_def Let_def)
  have new: "?new = (?env, snd ?new)" by (simp add: NewRateTableStore_def)
  have facts: "time_text second \<noteq> None" "second \<noteq> 0" "utf8_coerce ''u'' = ''u''"
      "Lookup sample_rates ''x/M'' = Some zero_rates" "time_sub hour second < RatesTTL" "rte_writable sample_online"
    by code_simp+
  show ?thesis
    using rates_survive_restart [OF call(1) _ call(2), of sample_rates_env "[withRateClock (Some (\<lambda>_. hour))]" ?env "snd ?new"]
      new facts s call(3)
    by (simp add: case_prod_beta rates_info_def)
qed

end
