(* ===== verification/JsonNested.thy ===== *)
theory JsonNested
  imports JsonLaws
begin

text \<open>
  Documents inside strings. The program decodes strings of a decoded document again (rate limit
  bodies, rows of the session database). The number of quotes and backslashes of a text bounds those
  of all its strings together, so such a recursion ends; the functions that recurse this way use
  \<open>weight\<close> as their measure.
\<close>

definition quoting :: "string \<Rightarrow> nat" where
  "quoting s = length (filter (\<lambda>c. c = CHR 0x22 \<or> c = CHR 0x5C) s)"

lemma quoting_simps [simp]:
  "quoting [] = 0"
  "quoting (c # s) = (if c = CHR 0x22 \<or> c = CHR 0x5C then 1 else 0) + quoting s"
  "quoting (s @ t) = quoting s + quoting t"
  by (simp_all add: quoting_def)

lemma quoting_dropWhile: "quoting (dropWhile P s) \<le> quoting s"
  by (induction s) auto

lemma quoting_drop: "quoting (drop k s) \<le> quoting s"
  by (metis append_take_drop_id le_add2 quoting_simps(3))

lemma quoting_high: "(\<And>c. c \<in> set s \<Longrightarrow> 128 \<le> (of_char c :: nat)) \<Longrightarrow> quoting s = 0"
  unfolding quoting_def by (fastforce simp: filter_empty_conv)

lemma quoting_replacement [simp]: "quoting replacement = 0"
  by (simp add: replacement_def)

lemma of_char_high: "128 \<le> n \<Longrightarrow> n < 256 \<Longrightarrow> 128 \<le> (of_char (char_of (n :: nat)) :: nat)"
  by simp

lemma quoting_utf8_encode: "r < 0x110000 \<Longrightarrow> quoting (utf8_encode r) \<le> 1"
proof -
  assume r: "r < 0x110000"
  have m: "r mod 64 < 64" "r div 64 mod 64 < 64" "r div 4096 mod 64 < 64" by simp_all
  show ?thesis
  proof (cases "r < 0x80")
    case False
    have "quoting (utf8_encode r) = 0"
    proof (rule quoting_high)
      have d: "r < 0x800 \<Longrightarrow> r div 64 < 32" "r < 0x10000 \<Longrightarrow> r div 4096 < 16" "r div 262144 < 8"
        using r by (simp_all add: less_mult_imp_div_less)
      have "set (utf8_encode r) \<subseteq> char_of ` {128..<256 :: nat}"
        using m d False by (auto simp: utf8_encode_def simp del: of_char_of intro!: imageI)
      moreover fix c assume "c \<in> set (utf8_encode r)"
      ultimately show "128 \<le> (of_char c :: nat)" by fastforce
    qed
    then show ?thesis by simp
  qed (simp add: utf8_encode_def)
qed

lemma hex4_less: "hex4 s = Some (r, t) \<Longrightarrow> r < 0x10000 \<and> quoting t \<le> quoting s"
  by (cases s rule: hex4.cases) (auto dest!: hex_value_less split: option.splits)

lemma quoting_low_surrogate: "low_surrogate s = Some (r, t) \<Longrightarrow> r < 0xE000 \<and> quoting t \<le> quoting s"
  by (auto simp: low_surrogate_def dest!: hex4_less split: list.splits if_splits option.splits)

lemma quoting_unicode_escape:
  assumes "r < 0x10000"
  shows "quoting (fst (unicode_escape r s)) \<le> 1 \<and> quoting (snd (unicode_escape r s)) \<le> quoting s"
  using assms quoting_utf8_encode
  by (auto simp: unicode_escape_def dest!: quoting_low_surrogate split: option.splits)

lemma quoting_rune:
  assumes "utf8_len (c # s) = k" and "0 < k" and "c \<noteq> CHR 0x22" and "c \<noteq> CHR 0x5C"
  shows "quoting (take k (c # s)) = 0"
proof (cases "in_range 0 0x7F c")
  case True
  with assms(1) have "k = 1" by simp
  with assms(3,4) show ?thesis by simp
next
  case False
  have "\<forall>x \<in> set (take k (c # s)). 128 \<le> (of_char x :: nat)"
    using assms(1,2) False by (auto simp: in_range_def split: list.splits if_splits)
  then show ?thesis by (intro quoting_high) blast
qed

lemma quoting_string_body: "string_body s = Some (out, rest) \<Longrightarrow> Suc (quoting out + quoting rest) \<le> quoting s"
proof (induction "length s" arbitrary: s out rest rule: less_induct)
  case less
  show ?case
  proof (cases s)
    case Nil
    with less.prems show ?thesis by (simp add: string_body.simps)
  next
    case (Cons c t)
    consider (quote) "c = CHR 0x22" | (escape) "c = CHR 0x5C" | (char) "c \<noteq> CHR 0x22" "c \<noteq> CHR 0x5C"
      by blast
    then show ?thesis
    proof cases
      case quote
      with less.prems Cons show ?thesis by simp
    next
      case escape
      show ?thesis
      proof (cases t)
        case Nil
        with less.prems Cons escape show ?thesis by (simp add: string_body.simps)
      next
        case (Cons e u)
        note st = \<open>s = c # t\<close> Cons escape
        show ?thesis
        proof (cases "e = CHR ''u''")
          case True
          with less.prems st obtain r v out' where v: "hex4 u = Some (r, v)"
            and body: "string_body (snd (unicode_escape r v)) = Some (out', rest)"
            and out: "out = fst (unicode_escape r v) @ out'"
            by (auto simp: string_body_unicode prepend_eq_Some split: option.splits)
          have "length (snd (unicode_escape r v)) < length s"
            using length_unicode_escape [of r v] length_hex4 [OF v] st by simp
          with less.hyps [OF _ body] out st quoting_unicode_escape [of r v] hex4_less [OF v] show ?thesis by simp
        next
          case False
          with less.prems st obtain x out' where "string_body u = Some (out', rest)" "out = x # out'" "simple_escape e = Some x"
            by (auto simp: string_body_escape prepend_eq_Some split: option.splits)
          with less.hyps [of u] st show ?thesis by (auto simp: simple_escape_def split: if_splits)
        qed
      qed
    next
      case char
      show ?thesis
      proof (cases "utf8_len s = 0")
        case True
        with less.prems Cons char obtain out' where "string_body t = Some (out', rest)" "out = replacement @ out'"
          by (auto simp: string_body_char prepend_eq_Some simp del: utf8_len.simps split: if_splits)
        with less.hyps [of t] Cons char show ?thesis by simp
      next
        case False
        define k where "k = utf8_len s"
        from False less.prems Cons char obtain out' where body: "string_body (drop k s) = Some (out', rest)"
          and out: "out = take k s @ out'"
          by (auto simp: string_body_char prepend_eq_Some k_def simp del: utf8_len.simps split: if_splits)
        have "quoting (take k s) = 0" using quoting_rune [of c t k] char False Cons by (simp add: k_def)
        moreover have "length (drop k s) < length s" using False Cons by (simp add: k_def)
        ultimately show ?thesis
          using less.hyps [OF _ body] out quoting_drop [of k s] by simp
      qed
    qed
  qed
qed

text \<open>What the strings of a document weigh: their quoting, and one for each.\<close>

fun weight :: "json \<Rightarrow> nat" where
  "weight (JStr s) = Suc (quoting s)"
| "weight (JArr vs) = sum_list (map weight vs)"
| "weight (JObj m) = sum_list (map (\<lambda>kv. weight (snd kv)) m)"
| "weight _ = 0"

lemma quoting_skip_ws: "quoting (skip_ws s) \<le> quoting s"
  by (simp add: skip_ws_def quoting_dropWhile)

lemma quoting_next_byte: "next_byte s = Some (c, t) \<Longrightarrow> quoting (c # t) \<le> quoting s"
  using quoting_skip_ws [of s] by (auto simp: next_byte_def split: list.splits)

lemma quoting_json_scalar:
  assumes "json_scalar s = Some (v, t)"
  shows "weight v = 0 \<and> quoting t \<le> quoting s"
proof -
  have sign: "quoting (snd (number_sign x)) \<le> quoting x" "quoting (snd (split_sign x)) \<le> quoting x" for x
    by (cases x; simp)+
  have int: "number_int x = Some (y, u) \<Longrightarrow> quoting u \<le> quoting x" for x y u
    using quoting_dropWhile [of is_digit x]
    by (auto simp: number_int_def digits_of_def split: list.splits if_splits)
  have frac: "number_frac x = Some (y, u) \<Longrightarrow> quoting u \<le> quoting x" for x y u
    using quoting_dropWhile [of is_digit "tl x"]
    by (auto simp: number_frac_def digits_of_def split: list.splits if_splits)
  have exp: "number_exp x = Some (y, u) \<Longrightarrow> quoting u \<le> quoting x" for x y u
    using sign(2) [of "tl x"] quoting_dropWhile [of is_digit "snd (split_sign (tl x))"]
    by (auto simp: number_exp_def digits_of_def Let_def split: list.splits if_splits prod.splits)
  have "json_number s = Some (x, u) \<Longrightarrow> quoting u \<le> quoting s" for x u
    using sign(1) [of s] int frac exp
    by (fastforce simp: json_number_def Let_def split: prod.splits option.splits)
  with assms quoting_drop [of 4 s] quoting_drop [of 5 s] show ?thesis
    by (auto simp: json_scalar_def split: if_splits)
qed

lemma weight_aput: "sum_list (map (\<lambda>kv. weight (snd kv)) (aput k v m)) \<le> weight v + sum_list (map (\<lambda>kv. weight (snd kv)) m)"
  by (induction m) auto

lemma quoting_member_key: "member_key s = Some (k, t) \<Longrightarrow> quoting t \<le> quoting s"
  by (auto simp: member_key_def dest!: quoting_next_byte quoting_string_body split: option.splits if_splits)


lemma weight_json:
  "json_value n d s = Some (v, u) \<Longrightarrow> weight v + quoting u \<le> quoting s"
  "json_elems n d s = Some (vs, u) \<Longrightarrow> weight (JArr vs) + quoting u \<le> quoting s"
  "json_members n d acc s = Some (m, u) \<Longrightarrow> weight (JObj m) + quoting u \<le> weight (JObj acc) + quoting s"
proof (induction n d s and n d s and n d acc s arbitrary: v u and vs u and m u
    rule: json_value_json_elems_json_members.induct)
  case (2 n d s)
  then obtain c t where nb: "next_byte s = Some (c, t)" by (auto split: option.splits)
  note len = quoting_next_byte [OF nb]
  consider (str) "c = CHR 0x22" | (obj) "c = CHR 0x7B" | (arr) "c = CHR 0x5B"
    | (other) "c \<noteq> CHR 0x22" "c \<noteq> CHR 0x7B" "c \<noteq> CHR 0x5B" by blast
  then show ?case
  proof cases
    case str
    with "2.prems" nb obtain x where "string_body t = Some (x, u)" "v = JStr x" by auto
    with quoting_string_body [OF this(1)] len str show ?thesis by simp
  next
    case obj
    then show ?thesis
      using "2.prems" "2.IH"(1) [OF nb refl] nb len
      by (auto simp: next_byte_tl dest: quoting_next_byte split: if_splits)
  next
    case arr
    then show ?thesis
      using "2.prems" "2.IH"(2) [OF nb refl] nb len
      by (auto simp: next_byte_tl dest: quoting_next_byte split: if_splits)
  next
    case other
    with "2.prems" nb have "json_scalar (c # t) = Some (v, u)" by simp
    with len quoting_json_scalar [OF this] show ?thesis by simp
  qed
next
  case (4 n d s)
  from "4.prems" obtain v' u' where v: "json_value n d s = Some (v', u')" by (auto split: option.splits)
  from v "4.prems" obtain c t where t: "next_byte u' = Some (c, t)" by (auto split: option.splits)
  show ?case
    using "4.prems" "4.IH"(1) [OF v] "4.IH"(2) [OF v refl t] v t quoting_next_byte [OF t]
    by (fastforce split: if_splits)
next
  case (6 n d acc s)
  from "6.prems" obtain k t where k: "member_key s = Some (k, t)" by (auto split: option.splits)
  from k "6.prems" obtain v' u' where v: "json_value n d t = Some (v', u')" by (auto split: option.splits)
  from k v "6.prems" obtain c w where w: "next_byte u' = Some (c, w)" by (auto split: option.splits)
  show ?case
    using "6.prems" "6.IH"(1) [OF k refl v] "6.IH"(2) [OF k refl v refl w] k v w
      quoting_member_key [OF k] quoting_next_byte [OF w] weight_aput [of k v' acc]
    by (fastforce split: if_splits)
qed simp_all

lemma weight_json_parse: "json_parse s = Some v \<Longrightarrow> weight v \<le> quoting s"
proof -
  assume "json_parse s = Some v"
  then obtain n d u where "json_value n d s = Some (v, u)"
    unfolding json_parse_def by (auto simp del: json_value.simps split: option.splits if_splits)
  with weight_json(1) [OF this] show ?thesis by simp
qed

end
