(* ===== verification/RateLimit.thy ===== *)
theory RateLimit
  imports JsonNested Permissions GoTime
begin

text \<open>
  Rate limit classification of the OpenCode adapter (\<^verbatim>\<open>opencode/rate_limit.go\<close>, with the readers of
  dynamic values of \<^verbatim>\<open>opencode/projector.go\<close> it shares): from the text of an error, or the payload of
  an error event, to a classified error with the provider's retry hints, or none when the failure is
  not a rate limit. Parsing of floats, durations and dates with a named zone by the standard library,
  the clock and the printing of composite values are the parameters of \<open>rate_env\<close>.
\<close>

section \<open>Reading dynamic values\<close>

record rate_env =
  rle_now :: gtime
  rle_parseSeconds :: "string \<Rightarrow> duration option"
  rle_rfc1123 :: "string \<Rightarrow> gtime option"
  rle_rfc1123z :: "string \<Rightarrow> gtime option"
  rle_parseDuration :: "string \<Rightarrow> duration option"
  rle_sprint :: "gval \<Rightarrow> string"

fun stringValue :: "gval \<Rightarrow> string" where
  "stringValue (GString s) = s"
| "stringValue _ = []"

fun as_map :: "gval \<Rightarrow> anymap option" where
  "as_map (GMap m) = Some m"
| "as_map _ = None"

fun firstNonNil :: "gval list \<Rightarrow> gval" where
  "firstNonNil [] = GNil"
| "firstNonNil (v # vs) = (if v \<noteq> GNil then v else firstNonNil vs)"

definition containsAny :: "string \<Rightarrow> string list \<Rightarrow> bool" where
  "containsAny v needles = list_ex (\<lambda>needle. Contains v needle) needles"

fun stringify :: "rate_env \<Rightarrow> gval \<Rightarrow> string" where
  "stringify env (GString s) = s"
| "stringify env (GFloat64 x) = format_f x"
| "stringify env (GInt i) = itoa i"
| "stringify env (GInt64 i) = itoa i"
| "stringify env (GBool b) = (if b then ''true'' else ''false'')"
| "stringify env v = rle_sprint env v"

text \<open>\<open>headerMapFromAny\<close> and \<open>stringMapFromAny\<close> have the same body.\<close>

definition stringMapFromAny :: "rate_env \<Rightarrow> gval \<Rightarrow> string smap option" where
  "stringMapFromAny env v =
     (case v of
        GStringMap m \<Rightarrow> RedactStringMap (Some m)
      | GMap m \<Rightarrow> RedactStringMap (Some (map (\<lambda>(k, x). (k, stringify env x)) m))
      | _ \<Rightarrow> None)"

abbreviation headerMapFromAny :: "rate_env \<Rightarrow> gval \<Rightarrow> string smap option" where
  "headerMapFromAny \<equiv> stringMapFromAny"

text \<open>The number \<open>strconv.Atoi\<close> returns beside its error: clamped when out of range, else zero.\<close>

definition Atoi_number :: "string \<Rightarrow> int" where
  "Atoi_number s =
     (let (neg, ds) = split_sign s
      in if ds = [] \<or> \<not> list_all is_digit ds then 0
         else let v = (if neg then - int (digits_val 0 ds) else int (digits_val 0 ds))
              in max minInt64 (min maxInt64 v))"

fun intFromAny :: "gval \<Rightarrow> int \<times> bool" where
  "intFromAny (GInt v) = (v, True)"
| "intFromAny (GInt64 v) = (v, True)"
| "intFromAny (GFloat64 v) = (int64_of_float v, True)"
| "intFromAny (GString s) = (Atoi_number (TrimSpace s), Atoi (TrimSpace s) \<noteq> None)"
| "intFromAny _ = (0, False)"

fun int64From :: "gval \<Rightarrow> int option" where
  "int64From (GFloat64 v) = Some (int64_of_float v)"
| "int64From (GInt64 v) = Some v"
| "int64From (GInt v) = Some v"
| "int64From _ = None"

definition messageFrom :: "anymap \<Rightarrow> string" where
  "messageFrom data =
     (if stringValue (gget data ''message'') \<noteq> [] then stringValue (gget data ''message'')
      else if stringValue (gget data ''error'') \<noteq> [] then stringValue (gget data ''error'')
      else case as_map (gget data ''error'') of
             None \<Rightarrow> []
           | Some errObj \<Rightarrow>
               (case as_map (gget errObj ''data'') of
                  Some dataObj \<Rightarrow> stringValue (gget dataObj ''message'')
                | None \<Rightarrow> stringValue (gget errObj ''message'')))"

definition firstNonEmptyCI :: "string smap option \<Rightarrow> string \<Rightarrow> string" where
  "firstNonEmptyCI vals key =
     (case find (\<lambda>(k, v). EqualFold (TrimSpace k) key \<and> TrimSpace v \<noteq> []) (entries vals) of
        Some (k, v) \<Rightarrow> v
      | None \<Rightarrow> [])"

section \<open>Retry hints\<close>

definition wrap64 :: "int \<Rightarrow> int" where
  "wrap64 x = (x + 2 ^ 63) mod 2 ^ 64 - 2 ^ 63"

definition parseRetryDelay :: "rate_env \<Rightarrow> string \<Rightarrow> duration" where
  "parseRetryDelay env v =
     (let s = TrimSpace v;
          until = (\<lambda>p. case p s of Some w \<Rightarrow> if time_sub w (rle_now env) > 0 then Some (time_sub w (rle_now env)) else None
                        | None \<Rightarrow> None)
      in if s = [] then 0
         else case rle_parseSeconds env s of
                Some d \<Rightarrow> d
              | None \<Rightarrow>
                  (case until (rle_rfc1123 env) of
                     Some d \<Rightarrow> d
                   | None \<Rightarrow>
                       (case until (rle_rfc1123z env) of
                          Some d \<Rightarrow> d
                        | None \<Rightarrow>
                            (case rle_parseDuration env (ToLower s) of Some d \<Rightarrow> d | None \<Rightarrow> 0))))"

definition parseResetAt :: "rate_env \<Rightarrow> string \<Rightarrow> gtime" where
  "parseResetAt env v =
     (let s = TrimSpace v
      in if s = [] then 0
         else if parseRetryDelay env s > 0 then rle_now env + parseRetryDelay env s
         else case time_Parse s of Some w \<Rightarrow> w | None \<Rightarrow> 0)"

text \<open>A delay in milliseconds; the product is of 64 bits.\<close>

definition retry_ms :: "string \<Rightarrow> duration" where
  "retry_ms v =
     (case Atoi (TrimSpace v) of
        Some ms \<Rightarrow> if ms > 0 then wrap64 (ms * millisecond) else 0
      | None \<Rightarrow> 0)"

definition retry_step :: "string smap option \<Rightarrow> string \<Rightarrow> (string \<Rightarrow> duration) \<Rightarrow> duration \<Rightarrow> duration" where
  "retry_step vals key f d =
     (if d = 0 \<and> firstNonEmptyCI vals key \<noteq> [] then f (firstNonEmptyCI vals key) else d)"

definition retry_after :: "rate_env \<Rightarrow> string smap option \<Rightarrow> string smap option \<Rightarrow> duration" where
  "retry_after env headers metadata =
     retry_step metadata ''retry-after'' (parseRetryDelay env)
       (retry_step metadata ''retry-after-ms'' retry_ms
         (retry_step headers ''retry-after'' (parseRetryDelay env)
           (retry_step headers ''retry-after-ms'' retry_ms 0)))"

record header_scan =
  hs_limit :: "string smap"
  hs_remaining :: "string smap"
  hs_reset :: "string smap"
  hs_resetAt :: gtime

definition scan_reset :: "rate_env \<Rightarrow> string \<Rightarrow> string \<Rightarrow> header_scan \<Rightarrow> header_scan" where
  "scan_reset env scope v st =
     st\<lparr>hs_reset := aput scope v (hs_reset st),
        hs_resetAt := (if time_IsZero (hs_resetAt st) then parseResetAt env v else hs_resetAt st)\<rparr>"

definition scan_header :: "rate_env \<Rightarrow> string \<times> string \<Rightarrow> header_scan \<Rightarrow> header_scan" where
  "scan_header env kv st =
     (let lower = ToLower (TrimSpace (fst kv)); v = snd kv;
          anthropic = HasPrefix lower ''anthropic-ratelimit-'';
          scope = (\<lambda>suf. TrimSuffix (TrimPrefix lower ''anthropic-ratelimit-'') suf)
      in if HasPrefix lower ''x-ratelimit-limit-''
         then st\<lparr>hs_limit := aput (TrimPrefix lower ''x-ratelimit-limit-'') v (hs_limit st)\<rparr>
         else if HasPrefix lower ''x-ratelimit-remaining-''
         then st\<lparr>hs_remaining := aput (TrimPrefix lower ''x-ratelimit-remaining-'') v (hs_remaining st)\<rparr>
         else if HasPrefix lower ''x-ratelimit-reset-''
         then scan_reset env (TrimPrefix lower ''x-ratelimit-reset-'') v st
         else if anthropic \<and> Contains lower ''-limit''
         then st\<lparr>hs_limit := aput (scope ''-limit'') v (hs_limit st)\<rparr>
         else if anthropic \<and> Contains lower ''-remaining''
         then st\<lparr>hs_remaining := aput (scope ''-remaining'') v (hs_remaining st)\<rparr>
         else if anthropic \<and> Contains lower ''-reset''
         then scan_reset env (scope ''-reset'') v st
         else st)"

definition userRateLimitDetail :: "string \<Rightarrow> string \<Rightarrow> string" where
  "userRateLimitDetail body message =
     (let lower = ToLower body @ '' '' @ ToLower message
      in if Contains lower ''gousagelimiterror'' then ''OpenCode account rate limit reached''
         else if Contains lower ''freeusagelimiterror'' then ''OpenCode free-tier usage limit reached''
         else if Contains lower ''resource_exhausted'' \<or> Contains lower ([CHR 0x22] @ ''unavailable'' @ [CHR 0x22])
         then ''OpenCode provider is overloaded''
         else if TrimSpace message \<noteq> [] then RedactString message
         else ''OpenCode provider rate limit reached'')"

text \<open>The first metadata entry whose key names the field fills it when it is empty.\<close>

definition fill_from :: "string \<Rightarrow> string smap option \<Rightarrow> string \<Rightarrow> string" where
  "fill_from word metadata v =
     foldl (\<lambda>acc (k, x). if Contains (ToLower k) word \<and> acc = [] then x else acc) v (entries metadata)"

definition rateLimitInfoFrom ::
  "rate_env \<Rightarrow> string smap option \<Rightarrow> string smap option \<Rightarrow> RuntimeContext \<Rightarrow> string \<Rightarrow> string \<Rightarrow> string \<Rightarrow> RateLimitInfo" where
  "rateLimitInfoFrom env headers metadata ctx body message source =
     (let st = foldl (\<lambda>st kv. scan_header env kv st)
                 \<lparr>hs_limit = [], hs_remaining = [], hs_reset = [], hs_resetAt = 0\<rparr> (entries headers)
      in RateLimitInfo
           (fill_from ''provider'' metadata (ctx_Provider ctx)) (fill_from ''model'' metadata (ctx_Model ctx))
           [] [] (retry_after env headers metadata) (hs_resetAt st) None None source (userRateLimitDetail body message)
           (RedactMetadata (Some
              [(''headers'', GStringMap (entries (RedactStringMap headers))),
               (''metadata'', GStringMap (entries (RedactStringMap metadata))),
               (''body'', GString (RedactString body)), (''message'', GString (RedactString message)),
               (''limit'', GStringMap (hs_limit st)), (''remaining'', GStringMap (hs_remaining st)),
               (''reset'', GStringMap (hs_reset st))])))"

section \<open>Classification\<close>

record rateLimitClassification =
  rlc_err :: SDKError
  rlc_info :: RateLimitInfo

text \<open>The verb \<open>%v\<close> on a \<open>map[string]string\<close>: sorted keys.\<close>

definition fmt_string_map :: "string smap option \<Rightarrow> string" where
  "fmt_string_map m = ''map['' @ Join (map (\<lambda>(k, v). k @ '':'' @ v) (sort_key fst (entries m))) '' '' @ '']''"

definition debugRateLimitDetail :: "int \<Rightarrow> string smap option \<Rightarrow> string \<Rightarrow> string \<Rightarrow> string" where
  "debugRateLimitDetail status headers body message =
     ''status='' @ itoa status @ '' headers='' @ fmt_string_map (RedactStringMap headers)
     @ '' message='' @ go_quote (RedactString message) @ '' body='' @ go_quote (RedactString body)"

definition rateLimitErrorOptions ::
  "int \<Rightarrow> string smap option \<Rightarrow> string \<Rightarrow> string smap option \<Rightarrow> RuntimeContext \<Rightarrow> RateLimitInfo \<Rightarrow> ErrorOption list" where
  "rateLimitErrorOptions status headers body metadata ctx info =
     [WithDebugDetail (debugRateLimitDetail status headers body []), WithStatusCode status,
      WithResponse headers body, WithMetadata metadata, WithProviderModel (ctx_Provider ctx) (ctx_Model ctx),
      WithRuntimeKind (ctx_RuntimeKind ctx)]
     @ (if rl_RetryAfter info > 0 then [WithRetryAfter (rl_RetryAfter info)] else [])"

definition rate_limited ::
  "rate_env \<Rightarrow> string \<Rightarrow> string \<Rightarrow> string \<Rightarrow> string smap option \<Rightarrow> string smap option \<Rightarrow> int \<Rightarrow> RuntimeContext
   \<Rightarrow> string \<Rightarrow> string \<Rightarrow> rateLimitClassification" where
  "rate_limited env op body message headers metadata status ctx source detail =
     (let info = rateLimitInfoFrom env headers metadata ctx body message source
      in \<lparr>rlc_err = NewError ErrorRateLimit op detail None
                     (rateLimitErrorOptions status headers body metadata ctx info),
          rlc_info = info\<rparr>)"

text \<open>All strings of a document, and of the documents its strings hold.\<close>

function collectRateLimitStrings :: "json \<Rightarrow> string list"
  and collect_elems :: "json list \<Rightarrow> string list"
  and collect_members :: "(string \<times> json) list \<Rightarrow> string list" where
  "collectRateLimitStrings (JObj m) = collect_members m"
| "collectRateLimitStrings (JArr vs) = collect_elems vs"
| "collectRateLimitStrings (JStr s) =
     (if TrimSpace s = [] then []
      else s # (case json_parse s of None \<Rightarrow> [] | Some nested \<Rightarrow> collectRateLimitStrings nested))"
| "collectRateLimitStrings JNull = []"
| "collectRateLimitStrings (JBool b) = []"
| "collectRateLimitStrings (JNum x) = []"
| "collect_elems [] = []"
| "collect_elems (v # vs) = collectRateLimitStrings v @ collect_elems vs"
| "collect_members [] = []"
| "collect_members ((k, v) # m) = collectRateLimitStrings v @ collect_members m"
  by pat_completeness auto

termination
proof (relation "measures
    [case_sum weight (case_sum (\<lambda>vs. weight (JArr vs)) (\<lambda>m. weight (JObj m))),
     case_sum size (case_sum (size_list size) (size_list (\<lambda>p. size (snd p))))]")
  fix s nested
  assume "json_parse s = Some nested"
  then have "weight nested < weight (JStr s)"
    using weight_json_parse [of s nested] by simp
  then show "(Inl nested, Inl (JStr s)) \<in> measures
    [case_sum weight (case_sum (\<lambda>vs. weight (JArr vs)) (\<lambda>m. weight (JObj m))),
     case_sum size (case_sum (size_list size) (size_list (\<lambda>p. size (snd p))))]"
    by simp
qed (force simp: less_Suc_eq_le intro: size_list_pointwise)+

definition expandNestedRateLimitBody :: "string \<Rightarrow> string" where
  "expandNestedRateLimitBody body0 =
     (let body = TrimSpace body0
      in if body = [] then body
         else case json_parse body of
                None \<Rightarrow> body
              | Some payload \<Rightarrow> Join (body # collectRateLimitStrings payload) [CHR 0x0A])"

definition quota_words :: "string list" where
  "quota_words = [''insufficient_quota'', ''quota_exceeded'', ''freeusagelimiterror'']"

definition safety_words :: "string list" where
  "safety_words = [''content_policy'', ''content_filter'', ''safety'']"

definition body_words :: "string list" where
  "body_words =
     [''gousagelimiterror'', ''too_many_requests'', ''rate_limit_error'', ''usage limit exceeded'',
      [CHR 0x22] @ ''rate_limit'' @ [CHR 0x22], [CHR 0x22] @ ''resource_exhausted'' @ [CHR 0x22],
      [CHR 0x22] @ ''unavailable'' @ [CHR 0x22]]"

definition message_words :: "string list" where
  "message_words =
     [''rate limit'', ''too many requests'', ''usage limit exceeded'', ''rate_limit_error'',
      ''rate increased too quickly'', ''provider is overloaded'', ''resource_exhausted'', ''too_many_requests'']"

definition classifyRateLimitDetails ::
  "rate_env \<Rightarrow> string \<Rightarrow> string \<Rightarrow> string \<Rightarrow> string smap option \<Rightarrow> string smap option \<Rightarrow> int \<Rightarrow> RuntimeContext
   \<Rightarrow> rateLimitClassification option" where
  "classifyRateLimitDetails env op message body0 headers metadata status ctx =
     (let body = expandNestedRateLimitBody body0; lowBody = ToLower body; lowMessage = ToLower message;
          result = rate_limited env op body message headers metadata status ctx
      in if status = 429 then
           (if containsAny lowBody quota_words \<or> containsAny lowMessage (quota_words @ [''quota exceeded'']) then None
            else if containsAny lowBody safety_words \<or> containsAny lowMessage safety_words then None
            else Some (result ''http_429'' (userRateLimitDetail body message)))
         else if containsAny lowBody body_words \<or> containsAny lowMessage message_words
         then Some (result ''message_or_body'' (userRateLimitDetail body message))
         else if status \<in> {503, 504, 529}
         then Some (result ''retryable_status'' ''OpenCode provider is temporarily rate limited or overloaded'')
         else None)"

text \<open>The status, body, message, headers and metadata a text states when it is a JSON object.\<close>

record structured_text =
  stx_status :: int
  stx_body :: string
  stx_message :: string
  stx_headers :: "string smap option"
  stx_metadata :: "string smap option"

definition structured_error :: "rate_env \<Rightarrow> anymap \<Rightarrow> structured_text \<Rightarrow> structured_text" where
  "structured_error env errObj t =
     (let g = gget errObj;
          limited = EqualFold (stringValue (g ''type'')) ''rate_limit_error'';
          t1 = (if limited
                then t\<lparr>stx_message := stringValue (firstNonNil [g ''message'', g ''type'', GString (stx_message t)]),
                       stx_body := (if stx_body t = [] then stringValue (firstNonNil [g ''body'', g ''type'']) else stx_body t)\<rparr>
                else t)
      in t1\<lparr>stx_message := (if stx_message t1 = []
                            then stringValue (firstNonNil [g ''message'', g ''type'', g ''code'']) else stx_message t1),
            stx_body := (if stx_body t1 = [] then stringValue (g ''body'') else stx_body t1),
            stx_headers := (if entries (stx_headers t1) = []
                            then headerMapFromAny env (firstNonNil [g ''responseHeaders'', g ''headers'']) else stx_headers t1),
            stx_metadata := (if entries (stx_metadata t1) = []
                             then stringMapFromAny env (g ''metadata'') else stx_metadata t1)\<rparr>)"

definition parseStructuredRateLimitText :: "rate_env \<Rightarrow> string \<Rightarrow> structured_text" where
  "parseStructuredRateLimitText env text0 =
     (let s = TrimSpace text0;
          none = \<lparr>stx_status = 0, stx_body = [], stx_message = [], stx_headers = None, stx_metadata = None\<rparr>
      in if s = [] then none
         else case json_parse_map s of
                None \<Rightarrow> none\<lparr>stx_body := s, stx_message := s\<rparr>
              | Some m \<Rightarrow>
                  (let g = gget (members_of_json (entries m));
                       t = \<lparr>stx_status = fst (intFromAny (firstNonNil [g ''statusCode'', g ''status'', g ''code''])),
                            stx_body = stringValue (firstNonNil [g ''responseBody'', g ''body'']),
                            stx_message = stringValue (firstNonNil [g ''message'', g ''error'']),
                            stx_headers = headerMapFromAny env (firstNonNil [g ''responseHeaders'', g ''headers'']),
                            stx_metadata = stringMapFromAny env (g ''metadata'')\<rparr>
                   in case as_map (g ''error'') of
                        None \<Rightarrow> t
                      | Some errObj \<Rightarrow> structured_error env errObj t))"

definition classifyRateLimitPayload ::
  "rate_env \<Rightarrow> string \<Rightarrow> string \<Rightarrow> string smap option \<Rightarrow> RuntimeContext \<Rightarrow> rateLimitClassification option" where
  "classifyRateLimitPayload env op s headers ctx =
     (let t = parseStructuredRateLimitText env s
      in classifyRateLimitDetails env op (stx_message t) (stx_body t)
           (if entries headers = [] then stx_headers t else headers) (stx_metadata t) (stx_status t) ctx)"

definition classifyRateLimitText ::
  "rate_env \<Rightarrow> string \<Rightarrow> string \<Rightarrow> RuntimeContext \<Rightarrow> rateLimitClassification option" where
  "classifyRateLimitText env op s ctx = classifyRateLimitPayload env op s None ctx"

text \<open>An error object that names its type as a rate limit.\<close>

definition classify_nested ::
  "rate_env \<Rightarrow> string \<Rightarrow> anymap \<Rightarrow> anymap \<Rightarrow> RuntimeContext \<Rightarrow> rateLimitClassification" where
  "classify_nested env op nested data ctx =
     (let n = gget nested; g = gget data;
          message = stringValue (firstNonNil [n ''message'', g ''message'']);
          headers = headerMapFromAny env (firstNonNil [n ''responseHeaders'', n ''headers'', g ''responseHeaders'', g ''headers'']);
          body = stringValue (firstNonNil [n ''responseBody'', n ''body'', g ''responseBody'', g ''body'']);
          md0 = stringMapFromAny env (n ''metadata'');
          metadata = (if entries md0 = [] then stringMapFromAny env (g ''metadata'') else md0);
          status = fst (intFromAny (firstNonNil [n ''statusCode'', n ''status'', n ''code'',
                                                 g ''statusCode'', g ''status'', g ''code'']))
      in rate_limited env op body message headers metadata status ctx ''nested_error_type''
           (userRateLimitDetail body message))"

definition classifyRateLimitData ::
  "rate_env \<Rightarrow> string \<Rightarrow> anymap \<Rightarrow> RuntimeContext \<Rightarrow> rateLimitClassification option" where
  "classifyRateLimitData env op data ctx =
     (let g = gget data; nested = as_map (g ''error'')
      in if data = [] then None
         else if (case nested of Some m \<Rightarrow> EqualFold (stringValue (gget m ''type'')) ''rate_limit_error'' | None \<Rightarrow> False)
         then Some (classify_nested env op (entries nested) data ctx)
         else
           (let headers0 = headerMapFromAny env (g ''responseHeaders'');
                headers = (if entries headers0 = [] then headerMapFromAny env (g ''headers'') else headers0);
                body0 = stringValue (g ''responseBody'');
                body = (if body0 = [] then stringValue (g ''body'') else body0);
                status = fst (intFromAny (firstNonNil [g ''statusCode'', g ''status'', g ''code'']));
                md0 = stringMapFromAny env (g ''metadata'');
                metadata = (if entries md0 = []
                            then (case nested of Some m \<Rightarrow> stringMapFromAny env (gget m ''metadata'') | None \<Rightarrow> md0)
                            else md0)
            in classifyRateLimitDetails env op (messageFrom data) body headers metadata status ctx))"

section \<open>Words in texts\<close>

text \<open>Some word occurs in some text, letter case aside.\<close>

definition mentions :: "string list \<Rightarrow> string list \<Rightarrow> bool" where
  "mentions texts words \<longleftrightarrow> (\<exists>t \<in> set texts. \<exists>w \<in> set words. sublist w (ToLower t))"

lemma containsAny_mentions: "containsAny (ToLower t) words \<longleftrightarrow> mentions [t] words"
  by (auto simp: containsAny_def mentions_def list_ex_iff Contains_sublist)

lemma sublist_newline:
  assumes "CHR 0x0A \<notin> set w" and "w \<noteq> []"
  shows "sublist w (a @ CHR 0x0A # b) \<longleftrightarrow> sublist w a \<or> sublist w b"
proof
  assume "sublist w (a @ CHR 0x0A # b)"
  then obtain ps ss where split: "a @ CHR 0x0A # b = ps @ w @ ss" by (auto simp: sublist_def)
  show "sublist w a \<or> sublist w b"
  proof (cases "length ps + length w \<le> length a")
    case True
    then have "a = ps @ w @ take (length a - length ps - length w) ss"
      using arg_cong [OF split, of "take (length a)"] by simp
    then show ?thesis by (metis sublist_appendI)
  next
    case False
    have "Suc (length a) \<le> length ps"
    proof (rule ccontr)
      assume "\<not> Suc (length a) \<le> length ps"
      then have i: "length ps \<le> length a" "length a - length ps < length w" using False by auto
      have "(a @ CHR 0x0A # b) ! length a = w ! (length a - length ps)"
        unfolding split using i by (simp add: nth_append)
      then have "CHR 0x0A \<in> set w" using i(2) nth_mem by force
      with assms show False by simp
    qed
    then have "b = drop (Suc (length a)) ps @ w @ ss"
      using arg_cong [OF split, of "drop (Suc (length a))"] by simp
    then show ?thesis by (metis sublist_appendI)
  qed
qed (metis append_Cons append_assoc sublist_append_leftI sublist_append_rightI sublist_order.order.trans append_Nil)

lemma ToLower_Join: "ToLower (Join ts [CHR 0x0A]) = Join (map ToLower ts) [CHR 0x0A]"
  by (induction ts rule: induct_list012) (simp_all add: ToLower_def lower_char_def)

lemma sublist_Join:
  assumes "CHR 0x0A \<notin> set w" and "w \<noteq> []" and "ts \<noteq> []"
  shows "sublist w (Join ts [CHR 0x0A]) \<longleftrightarrow> (\<exists>t \<in> set ts. sublist w t)"
  using assms(3)
proof (induction ts rule: induct_list012)
  case (3 x y zs)
  then show ?case using sublist_newline [OF assms(1,2), of x "Join (y # zs) [CHR 0x0A]"] by simp
qed simp_all

lemma containsAny_Join:
  assumes "\<forall>w \<in> set words. w \<noteq> [] \<and> CHR 0x0A \<notin> set w" and "ts \<noteq> []"
  shows "containsAny (ToLower (Join ts [CHR 0x0A])) words \<longleftrightarrow> mentions ts words"
  using assms
  by (auto simp: containsAny_def mentions_def list_ex_iff Contains_sublist ToLower_Join sublist_Join)


text \<open>The body of an error, and the strings of the documents it holds.\<close>

definition body_texts :: "string \<Rightarrow> string list" where
  "body_texts body =
     TrimSpace body # (case json_parse (TrimSpace body) of None \<Rightarrow> [] | Some d \<Rightarrow> collectRateLimitStrings d)"

lemma expand_texts: "expandNestedRateLimitBody body = Join (body_texts body) [CHR 0x0A]"
proof (cases "TrimSpace body = []")
  case True
  moreover have "json_parse [] = None" by (simp add: json_parse_def next_byte_def skip_ws_def)
  ultimately show ?thesis by (simp add: expandNestedRateLimitBody_def body_texts_def)
qed (simp add: expandNestedRateLimitBody_def body_texts_def Let_def split: option.splits)

lemma words_ok:
  "\<forall>w \<in> set quota_words. w \<noteq> [] \<and> CHR 0x0A \<notin> set w"
  "\<forall>w \<in> set safety_words. w \<noteq> [] \<and> CHR 0x0A \<notin> set w"
  "\<forall>w \<in> set body_words. w \<noteq> [] \<and> CHR 0x0A \<notin> set w"
  by (simp_all add: quota_words_def safety_words_def body_words_def)

lemma body_texts_not_Nil: "body_texts body \<noteq> []"
  by (simp add: body_texts_def)

lemmas body_mentions = words_ok [THEN containsAny_Join, OF body_texts_not_Nil]

text \<open>When an error is a rate limit.\<close>

definition limited :: "int \<Rightarrow> string \<Rightarrow> string \<Rightarrow> bool" where
  "limited status message body \<longleftrightarrow>
     (if status = 429
      then \<not> mentions (message # body_texts body) quota_words \<and> \<not> mentions [message] [''quota exceeded'']
           \<and> \<not> mentions (message # body_texts body) safety_words
      else mentions (body_texts body) body_words \<or> mentions [message] message_words \<or> status \<in> {503, 504, 529})"

lemma mentions_Cons: "mentions (t # ts) words \<longleftrightarrow> mentions [t] words \<or> mentions ts words"
  by (auto simp: mentions_def)

lemma mentions_append: "mentions ts (v @ w) \<longleftrightarrow> mentions ts v \<or> mentions ts w"
  by (auto simp: mentions_def)

definition limit_source :: "int \<Rightarrow> string \<Rightarrow> string \<Rightarrow> string" where
  "limit_source status message body =
     (if status = 429 then ''http_429''
      else if mentions (body_texts body) body_words \<or> mentions [message] message_words then ''message_or_body''
      else ''retryable_status'')"

definition limit_detail :: "int \<Rightarrow> string \<Rightarrow> string \<Rightarrow> string" where
  "limit_detail status message body =
     (if limit_source status message body = ''retryable_status''
      then ''OpenCode provider is temporarily rate limited or overloaded''
      else userRateLimitDetail (Join (body_texts body) [CHR 0x0A]) message)"

lemma classify_eq:
  "classifyRateLimitDetails env op message body headers metadata status ctx =
     (if limited status message body
      then Some (rate_limited env op (Join (body_texts body) [CHR 0x0A]) message headers metadata status ctx
                   (limit_source status message body) (limit_detail status message body))
      else None)"
proof (cases "status = 429")
  case True
  then show ?thesis
    unfolding classifyRateLimitDetails_def limited_def limit_detail_def limit_source_def expand_texts Let_def
      body_mentions
    unfolding containsAny_mentions mentions_append mentions_Cons [of message "body_texts body"]
    by (simp only: if_True simp_thms) simp
next
  case False
  then show ?thesis
    unfolding classifyRateLimitDetails_def limited_def limit_detail_def limit_source_def expand_texts Let_def
      body_mentions
    unfolding containsAny_mentions
    by (simp only: if_False simp_thms) simp
qed

lemma rate_limited_error:
  assumes "c = rate_limited env op body message headers metadata status ctx source detail"
  shows "err_Category (rlc_err c) = ErrorRateLimit" and "err_StatusCode (rlc_err c) = status"
    and "err_RetryAfter (rlc_err c) = max 0 (rl_RetryAfter (rlc_info c))"
    and "err_ResponseHeaders (rlc_err c) = RedactStringMap headers"
    and "err_ResponseBody (rlc_err c) = RedactString body"
    and "err_Metadata (rlc_err c) = RedactStringMap metadata"
    and "rl_RetryAfter (rlc_info c) = retry_after env headers metadata"
  unfolding assms
  by (simp_all add: rate_limited_def rateLimitErrorOptions_def NewError_def WithDebugDetail_def WithStatusCode_def
      WithResponse_def WithMetadata_def WithProviderModel_def WithRuntimeKind_def WithRetryAfter_def
      rateLimitInfoFrom_def Let_def)

section \<open>Properties\<close>


text \<open>
  A delay in milliseconds is multiplied in 64 bits: a value beyond 9223372036854 wraps around, here
  to a negative delay, and the hint is lost.
\<close>

lemma retry_ms_overflow: "retry_ms ''9223372036855'' < 0"
proof -
  have "TrimSpace ''9223372036855'' = ''9223372036855''" by (rule TrimSpace_solid) (simp_all add: solid_def)
  moreover have "Atoi ''9223372036855'' = Some 9223372036855"
    by (simp add: Atoi_def is_digit_def minInt64_def maxInt64_def)
  ultimately show ?thesis by (simp add: retry_ms_def millisecond_def wrap64_def)
qed

end
