(* ===== verification/Decoder.thy ===== *)
theory Decoder
  imports JsonLaws Errors
begin

text \<open>
  The decoder of OpenCode's event stream (\<^verbatim>\<open>opencode/decoder.go\<close>): standard output is cut into
  lines by \<open>bufio.Scanner\<close>, every line is one JSON object with a string \<open>type\<close>, and the first line
  that is not ends the stream with an error naming it. The callback of the scan is a parameter that
  threads a state; the context is read once per line. The wording of a JSON error is the parameter
  \<open>jerr\<close>.
\<close>

section \<open>One line\<close>

record nativeRecord =
  nr_Type :: string
  nr_Timestamp :: gval
  nr_SessionID :: string
  nr_Data :: anymap
  nr_Raw :: string
  nr_Line :: int

fun string_of_gval :: "gval \<Rightarrow> string" where
  "string_of_gval (GString s) = s"
| "string_of_gval _ = []"

text \<open>\<open>bytes.TrimRight(line, "\r\n")\<close>.\<close>

definition trim_newlines :: "string \<Rightarrow> string" where
  "trim_newlines s = rev (dropWhile (\<lambda>c. c = CHR 0x0D \<or> c = CHR 0x0A) (rev s))"

definition decodeNativeLine :: "(string \<Rightarrow> go_error) \<Rightarrow> string \<Rightarrow> int \<Rightarrow> go_error + nativeRecord" where
  "decodeNativeLine jerr line pos =
     (let raw = trim_newlines line
      in case json_parse_map raw of
           None \<Rightarrow> Inl (EDecode pos raw (jerr raw))
         | Some m \<Rightarrow>
             (let data = members_of_json (entries m); t = string_of_gval (gget data ''type'')
              in if t = [] then Inl (EDecode pos raw (EPlain ''missing string field type''))
                 else Inr \<lparr>nr_Type = t, nr_Timestamp = gget data ''timestamp'',
                           nr_SessionID = string_of_gval (gget data ''sessionID''), nr_Data = data,
                           nr_Raw = raw, nr_Line = pos\<rparr>))"

text \<open>A line of the scan: a blank one is an error of its own.\<close>

definition scan_line :: "(string \<Rightarrow> go_error) \<Rightarrow> string \<Rightarrow> int \<Rightarrow> go_error + nativeRecord" where
  "scan_line jerr line pos =
     (if TrimSpace line = [] then Inl (EDecode pos line (EPlain ''blank structured output record''))
      else decodeNativeLine jerr line pos)"

section \<open>The stream\<close>

definition max_line :: nat where "max_line = 16 * 1024 * 1024"

text \<open>
  \<open>bufio.ScanLines\<close>: lines end at a newline, one carriage return before it is dropped, and text after
  the last newline is a line of its own when there is any.
\<close>

definition drop_cr :: "string \<Rightarrow> string" where
  "drop_cr s = (if s \<noteq> [] \<and> last s = CHR 0x0D then butlast s else s)"

definition stream_lines :: "string \<Rightarrow> string list" where
  "stream_lines s =
     (let ls = Split (CHR 0x0A) s in if last ls = [] then butlast ls else ls)"

text \<open>The tokens of the scanner, up to a line that does not fit its buffer, and its error at the end.\<close>

definition scanner_tokens :: "string \<Rightarrow> string list" where
  "scanner_tokens s = map drop_cr (takeWhile (\<lambda>l. length l < max_line) (stream_lines s))"

definition scanner_error :: "go_error option \<Rightarrow> string \<Rightarrow> go_error option" where
  "scanner_error read_err s =
     (if list_all (\<lambda>l. length l < max_line) (stream_lines s) then read_err
      else Some (EPlain ''bufio.Scanner: token too long''))"

text \<open>
  The loop of \<open>scanNativeRecords\<close>. \<open>ctx i\<close> is the state of the context at the \<open>i\<close>-th time it is
  read; \<open>pos\<close> counts the lines.
\<close>

fun scan_loop ::
  "(nat \<Rightarrow> ctx_error option) \<Rightarrow> (string \<Rightarrow> go_error) \<Rightarrow> (nativeRecord \<Rightarrow> 's \<Rightarrow> go_error option \<times> 's)
   \<Rightarrow> go_error option \<Rightarrow> nat \<Rightarrow> string list \<Rightarrow> 's \<Rightarrow> go_error option \<times> 's" where
  "scan_loop ctx jerr emit scan_err pos [] st =
     (case ctx pos of
        Some e \<Rightarrow> (Some (ctx_go_error e), st)
      | None \<Rightarrow>
          (case ctx (Suc pos) of
             Some e \<Rightarrow> (Some (ctx_go_error e), st)
           | None \<Rightarrow> (map_option (EDecode (int pos + 1) []) scan_err, st)))"
| "scan_loop ctx jerr emit scan_err pos (line # rest) st =
     (case ctx pos of
        Some e \<Rightarrow> (Some (ctx_go_error e), st)
      | None \<Rightarrow>
          (case scan_line jerr line (int pos + 1) of
             Inl err \<Rightarrow> (Some err, st)
           | Inr record \<Rightarrow>
               (case emit record st of
                  (Some err, st') \<Rightarrow> (Some err, st')
                | (None, st') \<Rightarrow> scan_loop ctx jerr emit scan_err (Suc pos) rest st')))"

definition scanNativeRecords ::
  "(nat \<Rightarrow> ctx_error option) \<Rightarrow> (string \<Rightarrow> go_error) \<Rightarrow> go_error option \<Rightarrow> string
   \<Rightarrow> (nativeRecord \<Rightarrow> 's \<Rightarrow> go_error option \<times> 's) \<Rightarrow> 's \<Rightarrow> go_error option \<times> 's" where
  "scanNativeRecords ctx jerr read_err stdout emit st =
     scan_loop ctx jerr emit (scanner_error read_err stdout) 0 (scanner_tokens stdout) st"

section \<open>The decoder is exact\<close>

lemma scan_line_Inl: "scan_line jerr line pos = Inl e \<Longrightarrow> \<exists>raw cause. e = EDecode pos raw cause"
  by (auto simp: scan_line_def decodeNativeLine_def Let_def split: if_splits option.splits)

lemma scan_line_Inr:
  assumes "scan_line jerr line pos = Inr r"
  shows "nr_Line r = pos \<and> nr_Type r \<noteq> [] \<and> nr_Raw r = trim_newlines line
    \<and> gget (nr_Data r) ''type'' = GString (nr_Type r)"
proof -
  have str: "string_of_gval v \<noteq> [] \<Longrightarrow> v = GString (string_of_gval v)" for v by (cases v) simp_all
  from assms show ?thesis
    using str by (auto simp: scan_line_def decodeNativeLine_def Let_def split: if_splits option.splits)
qed

definition decodable :: "(string \<Rightarrow> go_error) \<Rightarrow> string \<Rightarrow> bool" where
  "decodable jerr line \<longleftrightarrow> (\<exists>r. scan_line jerr line 0 = Inr r)"

lemma decodable_pos: "decodable jerr line \<longleftrightarrow> (\<exists>r. scan_line jerr line pos = Inr r)"
  by (auto simp: decodable_def scan_line_def decodeNativeLine_def Let_def split: if_splits option.splits)

lemma scan_collect:
  assumes "ctx = (\<lambda>i. None)" and "emit = (\<lambda>r st. (None, st @ [r]))"
    and "scan_loop ctx jerr emit scan_err pos ls st = (err, out)"
  shows "\<exists>rs. out = st @ rs \<and> length rs = length (takeWhile (decodable jerr) ls)
      \<and> (\<forall>i < length rs. scan_line jerr (ls ! i) (int pos + int i + 1) = Inr (rs ! i))
      \<and> (if list_all (decodable jerr) ls then err = map_option (EDecode (int pos + int (length ls) + 1) []) scan_err
         else \<exists>raw cause. err = Some (EDecode (int pos + int (length rs) + 1) raw cause))"
  using assms(3)
proof (induction ls arbitrary: pos st)
  case Nil
  then show ?case using assms(1) by auto
next
  case (Cons l ls)
  show ?case
  proof (cases "scan_line jerr l (int pos + 1)")
    case (Inl e)
    then have "\<not> decodable jerr l" by (simp add: decodable_pos [where pos = "int pos + 1"])
    with Cons.prems Inl assms(1) scan_line_Inl [OF Inl] show ?thesis by auto
  next
    case (Inr r)
    then have ok: "decodable jerr l" by (auto simp: decodable_pos [where pos = "int pos + 1"])
    from Cons.prems Inr assms(1,2)
    have "scan_loop ctx jerr emit scan_err (Suc pos) ls (st @ [r]) = (err, out)" by simp
    from Cons.IH [OF this] obtain rs where rs: "out = (st @ [r]) @ rs"
      "length rs = length (takeWhile (decodable jerr) ls)"
      "\<forall>i < length rs. scan_line jerr (ls ! i) (int (Suc pos) + int i + 1) = Inr (rs ! i)"
      "if list_all (decodable jerr) ls then err = map_option (EDecode (int (Suc pos) + int (length ls) + 1) []) scan_err
         else \<exists>raw cause. err = Some (EDecode (int (Suc pos) + int (length rs) + 1) raw cause)"
      by blast
    show ?thesis
    proof (intro exI [of _ "r # rs"] conjI allI impI)
      fix i assume "i < length (r # rs)"
      with rs(3) Inr show "scan_line jerr ((l # ls) ! i) (int pos + int i + 1) = Inr ((r # rs) ! i)"
        by (cases i) (simp_all add: algebra_simps)
    qed (use rs ok in \<open>simp_all add: algebra_simps split: if_splits\<close>)
  qed
qed

section \<open>Properties\<close>

text \<open>
  C29. While the context is live the scan hands over exactly the records of the longest run of
  decodable lines, in order, each with its line number and the bytes of the line; it ends without an
  error exactly when every line is decodable and the reader did not fail, and otherwise the error
  names the first line that is not.
\<close>

theorem event_stream_decoding:
  assumes "scanNativeRecords (\<lambda>i. None) jerr read_err stdout (\<lambda>r st. (None, st @ [r])) [] = (err, rs)"
  shows "length rs = length (takeWhile (decodable jerr) (scanner_tokens stdout))
    \<and> (\<forall>i < length rs. scan_line jerr (scanner_tokens stdout ! i) (int i + 1) = Inr (rs ! i)
         \<and> nr_Line (rs ! i) = int i + 1 \<and> nr_Type (rs ! i) \<noteq> []
         \<and> nr_Raw (rs ! i) = trim_newlines (scanner_tokens stdout ! i))
    \<and> (err = None \<longleftrightarrow> list_all (decodable jerr) (scanner_tokens stdout) \<and> scanner_error read_err stdout = None)
    \<and> (err = None \<or> (\<exists>raw cause. err = Some (EDecode (int (length rs) + 1) raw cause)))"
proof -
  let ?ls = "scanner_tokens stdout"
  have "scan_loop (\<lambda>i. None) jerr (\<lambda>r st. (None, st @ [r])) (scanner_error read_err stdout) 0 ?ls [] = (err, rs)"
    using assms by (simp add: scanNativeRecords_def)
  from scan_collect [OF refl refl this]
  obtain rs' where rs: "rs = rs'" "length rs' = length (takeWhile (decodable jerr) ?ls)"
    and line: "\<forall>i < length rs'. scan_line jerr (?ls ! i) (int 0 + int i + 1) = Inr (rs' ! i)"
    and err: "if list_all (decodable jerr) ?ls then err = map_option (EDecode (int 0 + int (length ?ls) + 1) []) (scanner_error read_err stdout)
         else \<exists>raw cause. err = Some (EDecode (int 0 + int (length rs') + 1) raw cause)"
    by auto
  have "list_all (decodable jerr) ?ls \<Longrightarrow> length rs' = length ?ls"
    using rs(2) by (simp add: list_all_iff takeWhile_eq_all_conv [THEN iffD2])
  with rs line err show ?thesis
    by (auto dest!: scan_line_Inr split: if_splits)
qed

text \<open>
  Two lines of an output, the second of which is not a record: one record is handed over and the
  error names line 2.
\<close>

theorem event_stream_decoding_witness:
  "(case scanNativeRecords (\<lambda>i. None) (\<lambda>_. EPlain ''invalid'') None
       (''{'' @ [CHR 0x22] @ ''type'' @ [CHR 0x22] @ '':'' @ [CHR 0x22] @ ''text'' @ [CHR 0x22] @ ''}'' @ [CHR 0x0A] @ ''text'')
       (\<lambda>r st. (None, st @ [r])) [] of
      (err, rs) \<Rightarrow> map nr_Type rs = [''text''] \<and> map nr_Line rs = [1]
        \<and> (\<exists>raw cause. err = Some (EDecode (int (length rs) + 1) raw cause)))"
proof -
  let ?s = "''{'' @ [CHR 0x22] @ ''type'' @ [CHR 0x22] @ '':'' @ [CHR 0x22] @ ''text'' @ [CHR 0x22] @ ''}'' @ [CHR 0x0A] @ ''text''"
  let ?scan = "scanNativeRecords (\<lambda>i. None) (\<lambda>_. EPlain ''invalid'') None ?s (\<lambda>r st. (None, st @ [r])) []"
  let ?l = "''{'' @ [CHR 0x22] @ ''type'' @ [CHR 0x22] @ '':'' @ [CHR 0x22] @ ''text'' @ [CHR 0x22] @ ''}''"
  have lines: "stream_lines ?s = [?l, ''text'']" by code_simp
  have toks: "scanner_tokens ?s = [?l, ''text'']" "scanner_error None ?s = None"
    unfolding scanner_tokens_def scanner_error_def lines by (simp_all add: max_line_def drop_cr_def)
  have "scan_line (\<lambda>_. EPlain ''invalid'') ''text'' 2 = Inl (EDecode 2 ''text'' (EPlain ''invalid''))" by code_simp
  moreover have "map_sum id (\<lambda>r. (nr_Type r, nr_Line r)) (scan_line (\<lambda>_. EPlain ''invalid'') ?l 1) = Inr (''text'', 1)"
    by code_simp
  ultimately have run: "map nr_Type (snd ?scan) = [''text''] \<and> map nr_Line (snd ?scan) = [1] \<and> fst ?scan \<noteq> None"
    unfolding scanNativeRecords_def toks
    by (cases "scan_line (\<lambda>_. EPlain ''invalid'') ?l 1") simp_all
  from event_stream_decoding [of "\<lambda>_. EPlain ''invalid''" None ?s "fst ?scan" "snd ?scan"] run
  show ?thesis by (auto simp: case_prod_beta)
qed

end
