(* ===== verification/Projector.thy ===== *)
theory Projector
  imports RateLimit Decoder Model
begin

text \<open>
  The projector of the OpenCode adapter (\<^verbatim>\<open>opencode/projector.go\<close>): one decoded record becomes one SDK
  event, with what the run learns from it (a final or fatal record, an idle session, token usage,
  artifacts, warnings). Everything the rate limit classification takes from its surroundings is in \<open>env\<close>. A Go map is iterated in
  the order of its association list.
\<close>

section \<open>What a record says\<close>

record projectionInput =
  pin_runID :: RunID
  pin_turnID :: TurnID
  pin_ctx :: RuntimeContext
  pin_seq :: int
  pin_now :: gtime
  pin_record :: nativeRecord

record projectionResult =
  pr_event :: Event
  pr_final :: bool
  pr_idle :: bool
  pr_usage :: Usage
  pr_artifacts :: "ArtifactRef list"
  pr_warnings :: "string list"
  pr_fatal :: "SDKError option"
  pr_rateLimit :: "RateLimitInfo option"
  pr_finishReason :: string
  pr_terminalEvidence :: string

text \<open>
  \<open>nestedValue\<close> searches a value breadth before depth on every map: its own keys first, then the
  nested values, to a depth of five. The two loops over nested values are functions of their own.
\<close>

definition own_value :: "anymap \<Rightarrow> string list \<Rightarrow> gval" where
  "own_value m keys = (case find (\<lambda>k. gget m k \<noteq> GNil) keys of Some k \<Rightarrow> gget m k | None \<Rightarrow> GNil)"

fun nestedValue :: "gval \<Rightarrow> string list \<Rightarrow> nat \<Rightarrow> gval"
  and nested_members :: "anymap \<Rightarrow> string list \<Rightarrow> nat \<Rightarrow> gval"
  and nested_elems :: "gval list \<Rightarrow> string list \<Rightarrow> nat \<Rightarrow> gval" where
  "nestedValue v keys depth =
     (if depth > 5 then GNil
      else case v of
             GMap m \<Rightarrow> if own_value m keys \<noteq> GNil then own_value m keys else nested_members m keys (depth + 1)
           | GList vs \<Rightarrow> nested_elems vs keys (depth + 1)
           | _ \<Rightarrow> GNil)"
| "nested_members [] keys depth = GNil"
| "nested_members ((k, v) # m) keys depth =
     (if nestedValue v keys depth \<noteq> GNil then nestedValue v keys depth else nested_members m keys depth)"
| "nested_elems [] keys depth = GNil"
| "nested_elems (v # vs) keys depth =
     (if nestedValue v keys depth \<noteq> GNil then nestedValue v keys depth else nested_elems vs keys depth)"

declare nestedValue.simps [simp del]

definition firstNestedValue :: "gval \<Rightarrow> string list \<Rightarrow> gval" where
  "firstNestedValue v keys = nestedValue v keys 0"

definition firstNestedString :: "gval \<Rightarrow> string list \<Rightarrow> string" where
  "firstNestedString v keys = TrimSpace (stringValue (firstNestedValue v keys))"

definition toolObservationFrom :: "anymap \<Rightarrow> ToolObservation" where
  "toolObservationFrom data =
     (let status = firstNestedString (GMap data) [''tool_status'', ''status'', ''phase'']
      in \<lparr>tool_CallID = firstNestedString (GMap data) [''call_id'', ''callID'', ''tool_call_id'', ''toolCallId'', ''id''],
          tool_Name = firstNestedString (GMap data) [''tool'', ''name'', ''tool_name'', ''toolName''],
          tool_Status = (if status = [] then firstNestedString (GMap data) [''state''] else status),
          tool_Arguments = firstNestedValue (GMap data) [''arguments'', ''args'', ''input'', ''parameters''],
          tool_Result = firstNestedValue (GMap data) [''result'', ''output'', ''content''],
          tool_Error = firstNestedValue (GMap data) [''error'']\<rparr>)"

definition finish_keys :: "string list" where
  "finish_keys = [''finish_reason'', ''finishReason'', ''stopReason'', ''stop_reason'', ''reason'', ''finish'']"

definition first_string :: "anymap \<Rightarrow> string list \<Rightarrow> string" where
  "first_string m keys =
     (case find (\<lambda>k. stringValue (gget m k) \<noteq> []) keys of Some k \<Rightarrow> stringValue (gget m k) | None \<Rightarrow> [])"

definition finishReasonFrom :: "anymap \<Rightarrow> string" where
  "finishReasonFrom data =
     (if first_string data finish_keys \<noteq> [] then first_string data finish_keys
      else case as_map (gget data ''part'') of
             Some part \<Rightarrow> first_string part finish_keys
           | None \<Rightarrow> [])"

definition isTerminalFinish :: "string \<Rightarrow> bool" where
  "isTerminalFinish reason \<longleftrightarrow>
     ToLower (TrimSpace reason) \<in>
       {[], ''stop'', ''end_turn'', ''end-turn'', ''stop_sequence'', ''stop-sequence'', ''complete'', ''completed''}"

text \<open>A status that is the text \<open>idle\<close>, or a map whose \<open>type\<close> is.\<close>

definition isSessionIdleStatus :: "nativeRecord \<Rightarrow> bool" where
  "isSessionIdleStatus r =
     (let g = gget (nr_Data r)
      in if TrimSpace (nr_Type r) \<noteq> ''session.status'' then False
         else if EqualFold (stringValue (g ''status'')) ''idle'' then True
         else case as_map (g ''status'') of
                Some status \<Rightarrow> EqualFold (stringValue (gget status ''type'')) ''idle''
              | None \<Rightarrow>
                  (case as_map (g ''properties'') of
                     Some properties \<Rightarrow>
                       if EqualFold (stringValue (gget properties ''status'')) ''idle'' then True
                       else (case as_map (gget properties ''status'') of
                               Some status \<Rightarrow> EqualFold (stringValue (gget status ''type'')) ''idle''
                             | None \<Rightarrow> False)
                   | None \<Rightarrow> False))"

definition fatal_error :: "ErrorCategory \<Rightarrow> string \<Rightarrow> string \<Rightarrow> RuntimeContext \<Rightarrow> SDKError" where
  "fatal_error category detail message ctx =
     NewError category ''opencode event'' detail None
       [WithDebugDetail message, WithProviderModel (ctx_Provider ctx) (ctx_Model ctx),
        WithRuntimeKind (ctx_RuntimeKind ctx)]"

definition classifyFatalEventError :: "anymap \<Rightarrow> RuntimeContext \<Rightarrow> SDKError" where
  "classifyFatalEventError data ctx =
     (let message = messageFrom data; normalized = ToLower message
      in if Contains normalized ''model not found'' \<or> Contains normalized ''unknown model''
         then fatal_error ErrorModelUnavailable ''OpenCode model is unavailable'' message ctx
         else if Contains normalized ''unauthorized'' \<or> Contains normalized ''authentication''
               \<or> Contains normalized ''invalid api key'' \<or> Contains normalized ''api key''
         then fatal_error ErrorAuthentication ''OpenCode provider authentication failed'' message ctx
         else fatal_error ErrorRuntimeExit ''OpenCode reported a fatal session error'' message ctx)"

definition classify_native :: "string \<Rightarrow> EventKind" where
  "classify_native t =
     (if t = ''step_start'' then EventProgress
      else if t = ''step_finish'' then EventFinalResult
      else if t = ''text'' \<or> t = ''reasoning'' then EventMessage
      else if t = ''tool_use'' then EventTool
      else if t = ''error'' then EventFatalError
      else if Contains t ''permission'' then EventPermission
      else if Contains t ''question'' \<or> Contains t ''status'' \<and> Contains t ''waiting'' then EventBlocking
      else if Contains t ''usage'' \<or> Contains t ''token'' \<or> Contains t ''cost'' then EventUsage
      else if Contains t ''artifact'' \<or> Contains t ''file'' then EventArtifact
      else if Contains t ''warn'' then EventWarning
      else if Contains t ''session'' then EventSession
      else EventNativeExtension)"

definition classify :: "nativeRecord \<Rightarrow> EventKind \<times> string" where
  "classify r = (classify_native (TrimSpace (nr_Type r)), TrimSpace (nr_Type r))"

section \<open>Time, usage, artifacts\<close>

text \<open>Seconds and milliseconds since 1970 as an instant: times count from year 1.\<close>

definition unix_epoch :: gtime where "unix_epoch = 62135596800 * second"

definition unix_number :: "int \<Rightarrow> bool \<Rightarrow> gtime" where
  "unix_number n millis = unix_epoch + n * (if millis then millisecond else second)"

definition eventTime :: "gval \<Rightarrow> gtime \<Rightarrow> gtime" where
  "eventTime v fallback =
     (case v of
        GFloat64 x \<Rightarrow> unix_number (int64_of_float x) (x > 10 ^ 12)
      | GString s \<Rightarrow>
          (case time_Parse s of
             Some t \<Rightarrow> t
           | None \<Rightarrow> (case Atoi s of Some n \<Rightarrow> unix_number n (n > 10 ^ 12) | None \<Rightarrow> fallback))
      | _ \<Rightarrow> fallback)"

definition firstSessionID :: "SessionID list \<Rightarrow> SessionID" where
  "firstSessionID vs = (case find (\<lambda>v. v \<noteq> []) vs of Some v \<Rightarrow> v | None \<Rightarrow> [])"

definition propertiesStringValue :: "anymap \<Rightarrow> string \<Rightarrow> string" where
  "propertiesStringValue data key =
     (case as_map (gget data ''properties'') of
        Some properties \<Rightarrow> stringValue (gget properties key)
      | None \<Rightarrow> [])"

definition or_else :: "'a option \<Rightarrow> 'a option \<Rightarrow> 'a option" where
  "or_else a b = (case a of None \<Rightarrow> b | Some x \<Rightarrow> Some x)"

text \<open>One object of token counts; the first to state a count wins.\<close>

definition usage_tokens :: "Usage \<Rightarrow> anymap \<Rightarrow> Usage" where
  "usage_tokens u tokens =
     (let n = (\<lambda>k. int64From (gget tokens k));
          c = (\<lambda>k. case as_map (gget tokens ''cache'') of
                     Some cache \<Rightarrow> int64From (gget cache k) | None \<Rightarrow> None)
      in case u of Usage i out tot rs cr cw turns native \<Rightarrow>
           Usage (or_else i (n ''input'')) (or_else out (n ''output'')) (or_else tot (n ''total''))
             (or_else rs (n ''reasoning'')) (or_else cr (c ''read'')) (or_else cw (c ''write'')) turns native)"

definition token_objects :: "anymap \<Rightarrow> anymap list" where
  "token_objects data =
     (case as_map (gget data ''tokens'') of Some t \<Rightarrow> [t] | None \<Rightarrow> [])
     @ (case as_map (gget data ''part'') of
          Some part \<Rightarrow> (case as_map (gget part ''tokens'') of Some t \<Rightarrow> [t] | None \<Rightarrow> [])
        | None \<Rightarrow> [])"

definition usageFrom :: "anymap \<Rightarrow> Usage" where
  "usageFrom data =
     (case foldl usage_tokens (Usage None None None None None None None (Some data)) (token_objects data) of
        Usage i out tot rs cr cw turns native \<Rightarrow>
          Usage (or_else i (int64From (gget data ''input_tokens'')))
            (or_else out (int64From (gget data ''output_tokens'')))
            (or_else tot (int64From (gget data ''total_tokens''))) rs cr cw turns native)"

definition counts_tokens :: "Usage \<Rightarrow> bool" where
  "counts_tokens u \<longleftrightarrow>
     us_InputTokens u \<noteq> None \<or> us_OutputTokens u \<noteq> None \<or> us_TotalTokens u \<noteq> None
     \<or> us_CacheReadTokens u \<noteq> None \<or> us_CacheWriteTokens u \<noteq> None \<or> us_ReasoningTokens u \<noteq> None"

definition artifactsFrom :: "anymap \<Rightarrow> ArtifactRef list" where
  "artifactsFrom data =
     (let uri0 = stringValue (gget data ''uri'');
          uri = (if uri0 = [] then stringValue (gget data ''path'') else uri0)
      in if uri = [] then []
         else [\<lparr>art_ID = [], art_URI = uri, art_Kind = stringValue (gget data ''kind''),
                art_Description = stringValue (gget data ''description''), art_Metadata = None\<rparr>])"

section \<open>The projection\<close>

definition native_category :: "nativeRecord \<Rightarrow> EventKind" where
  "native_category r =
     (if TrimSpace (nr_Type r) = ''step_finish''
      then (if isTerminalFinish (finishReasonFrom (nr_Data r)) then EventFinalResult else EventProgress)
      else fst (classify r))"

definition native_payload :: "projectionInput \<Rightarrow> anymap" where
  "native_payload i =
     (let r = pin_record i; reason = finishReasonFrom (nr_Data r);
          p = aput ''context'' (GContext (pin_ctx i))
                (aput ''turn_id'' (GString (pin_turnID i))
                  (aput ''line'' (GInt64 (nr_Line r))
                    (aput ''native_type'' (GString (nr_Type r))
                      (filter (\<lambda>(k, v). k \<noteq> ''type'' \<and> k \<noteq> ''timestamp'') (nr_Data r)))));
          q = put_if (reason \<noteq> []) ''finish_reason'' (GString reason) p
      in if native_category r = EventTool
         then EventPayloadWithToolObservation (Some q) (toolObservationFrom (nr_Data r)) else q)"

text \<open>
  The event of the result shares its payload map with the local one, so the rate limit that is put
  into it at the end is in the event too.
\<close>

definition projectNative ::
  "rate_env \<Rightarrow> projectionInput \<Rightarrow> projectionResult" where
  "projectNative env i =
     (let r = pin_record i; data = nr_Data r;
          category = native_category r; typ = snd (classify r);
          reason = finishReasonFrom data; idle = isSessionIdleStatus r;
          evidence = (if TrimSpace (nr_Type r) = ''step_finish''
                      then (if isTerminalFinish reason then ''step_finish'' else [])
                      else if idle then ''session.status.idle'' else []);
          sid0 = firstSessionID [nr_SessionID r, stringValue (gget data ''sessionID''),
                                 propertiesStringValue data ''sessionID''];
          event = \<lparr>ev_ID = pin_runID i @ '':'' @ itoa (pin_seq i), ev_RunID = pin_runID i,
                   ev_SessionID = (if sid0 = [] then stringValue (gget data ''session_id'') else sid0),
                   ev_Time = eventTime (nr_Timestamp r) (pin_now i), ev_Type = typ,
                   ev_Payload = Some (EventPayloadWithKind category (Some (native_payload i))),
                   ev_Raw = Some \<lparr>raw_Source = ''opencode.stdout'', raw_Encoding = ''json'',
                                  raw_Data = nr_Raw r, raw_Safe = False\<rparr>\<rparr>;
          fatal = category = EventFatalError;
          limited = (if fatal then classifyRateLimitData env ''opencode event'' data (pin_ctx i) else None)
      in \<lparr>pr_event = (case limited of
                        Some c \<Rightarrow> event\<lparr>ev_Payload := Some (aput ''rate_limit'' (GRateLimitPtr (Some (rlc_info c)))
                                                        (entries (ev_Payload event)))\<rparr>
                      | None \<Rightarrow> event),
          pr_final = (category = EventFinalResult \<or> fatal),
          pr_idle = idle,
          pr_usage = (if category = EventUsage \<or> counts_tokens (usageFrom data) then usageFrom data else zero_Usage),
          pr_artifacts = (if category = EventArtifact then artifactsFrom data else []),
          pr_warnings = (if category = EventWarning \<and> messageFrom data \<noteq> [] then [messageFrom data] else []),
          pr_fatal = (if fatal
                      then Some (case limited of Some c \<Rightarrow> rlc_err c | None \<Rightarrow> classifyFatalEventError data (pin_ctx i))
                      else None),
          pr_rateLimit = map_option rlc_info limited,
          pr_finishReason = reason,
          pr_terminalEvidence = evidence\<rparr>)"

section \<open>The bounded search\<close>

text \<open>
  \<open>found_at keys n v w\<close>: \<open>w\<close> is the value of one of the keys in a map that is at most \<open>n\<close> levels
  inside \<open>v\<close>.
\<close>

inductive found_at :: "string list \<Rightarrow> nat \<Rightarrow> gval \<Rightarrow> gval \<Rightarrow> bool" for keys where
  found_own: "own_value m keys = w \<Longrightarrow> w \<noteq> GNil \<Longrightarrow> found_at keys n (GMap m) w"
| found_member: "found_at keys n v w \<Longrightarrow> (k, v) \<in> set m \<Longrightarrow> found_at keys (Suc n) (GMap m) w"
| found_elem: "found_at keys n v w \<Longrightarrow> v \<in> set vs \<Longrightarrow> found_at keys (Suc n) (GList vs) w"

inductive_cases found_GMap: "found_at keys n (GMap m) w"
inductive_cases found_GList: "found_at keys n (GList vs) w"

lemma found_not_nil: "found_at keys n v w \<Longrightarrow> w \<noteq> GNil"
  by (induction rule: found_at.induct) simp_all

lemma nested_members_GNil: "nested_members m keys d = GNil \<longleftrightarrow> (\<forall>(k, v) \<in> set m. nestedValue v keys d = GNil)"
  by (induction m) (auto split: if_splits)

lemma nested_elems_GNil: "nested_elems vs keys d = GNil \<longleftrightarrow> (\<forall>v \<in> set vs. nestedValue v keys d = GNil)"
  by (induction vs) (auto split: if_splits)

lemma nested_sound:
  "nestedValue v keys d \<noteq> GNil \<Longrightarrow> found_at keys (5 - d) v (nestedValue v keys d) \<and> d \<le> 5"
  "nested_members m keys d \<noteq> GNil \<Longrightarrow>
     d \<le> 5 \<and> (\<exists>k v. (k, v) \<in> set m \<and> found_at keys (5 - d) v (nested_members m keys d))"
  "nested_elems vs keys d \<noteq> GNil \<Longrightarrow>
     d \<le> 5 \<and> (\<exists>v. v \<in> set vs \<and> found_at keys (5 - d) v (nested_elems vs keys d))"
proof (induction v keys d and m keys d and vs keys d rule: nestedValue_nested_members_nested_elems.induct)
  case (1 v keys d)
  have Suc: "5 - d = Suc (5 - (d + 1))" if "d + 1 \<le> 5" using that by simp
  from 1 show ?case
    by (subst nestedValue.simps, subst (asm) nestedValue.simps)
      (auto simp: Suc split: gval.splits if_splits intro: found_at.intros)
qed (auto split: if_splits)

lemma nested_complete: "found_at keys n v w \<Longrightarrow> n + d \<le> 5 \<Longrightarrow> nestedValue v keys d \<noteq> GNil"
proof (induction arbitrary: d rule: found_at.induct)
  case (found_own m w n)
  then show ?case by (subst nestedValue.simps) simp
next
  case (found_member n v w k m)
  then have "nestedValue v keys (d + 1) \<noteq> GNil" by simp
  with found_member have "nested_members m keys (d + 1) \<noteq> GNil" 
    by (auto simp: nested_members_GNil intro!: bexI [of _ "(k, v)"])
  with found_member show ?case by (subst nestedValue.simps) simp
next
  case (found_elem n v w vs)
  then have "nestedValue v keys (d + 1) \<noteq> GNil" by simp
  with found_elem have "nested_elems vs keys (d + 1) \<noteq> GNil"
    by (auto simp: nested_elems_GNil intro!: bexI [of _ v])
  with found_elem show ?case by (subst nestedValue.simps) simp
qed

section \<open>Payload and category\<close>

lemma aget_filter_keys: "P k \<Longrightarrow> aget (filter (\<lambda>(k, v). P k) m) k = aget m k"
  by (induction m) auto

lemma aget_put_if: "aget (put_if b k v m) k' = (if b \<and> k' = k then Some v else aget m k')"
  by (simp add: put_if_def)

text \<open>The keys the projection writes itself.\<close>

definition projector_keys :: "string list" where
  "projector_keys =
     [''type'', ''timestamp'', ''native_type'', ''line'', ''turn_id'', ''context'', ''finish_reason'',
      ''tool_call_id'', ''tool_name'', ''tool'', ''tool_status'', ''tool_arguments'', ''tool_result'',
      ''tool_error'', ''event_kind'', ''rate_limit'']"

lemma native_payload_data:
  assumes "k \<notin> set projector_keys"
  shows "aget (native_payload i) k = aget (nr_Data (pin_record i)) k"
proof -
  have k: "k \<noteq> ''type'' \<and> k \<noteq> ''timestamp''" using assms by (auto simp: projector_keys_def)
  show ?thesis
    using assms aget_filter_keys [of "\<lambda>k. k \<noteq> ''type'' \<and> k \<noteq> ''timestamp''", OF k]
    by (simp add: native_payload_def EventPayloadWithToolObservation_def Let_def aget_put_if projector_keys_def)
qed

lemma classify_native_fatal: "classify_native t = EventFatalError \<longleftrightarrow> t = ''error''"
  by (simp add: classify_native_def)

lemma classify_native_final: "classify_native t = EventFinalResult \<longleftrightarrow> t = ''step_finish''"
  by (simp add: classify_native_def)

lemma native_category_fatal: "native_category r = EventFatalError \<longleftrightarrow> TrimSpace (nr_Type r) = ''error''"
  by (auto simp: native_category_def classify_def classify_native_fatal)

lemma native_category_final:
  "native_category r = EventFinalResult \<longleftrightarrow>
     TrimSpace (nr_Type r) = ''step_finish'' \<and> isTerminalFinish (finishReasonFrom (nr_Data r))"
  by (auto simp: native_category_def classify_def classify_native_final)

lemma classify_details_category:
  "classifyRateLimitDetails env op message body headers metadata status ctx = Some c \<Longrightarrow>
     err_Category (rlc_err c) = ErrorRateLimit"
  unfolding classify_eq using rate_limited_error(1) [OF refl] by (auto split: if_splits)

lemma if_chain_Some:
  "(if a then None else if b then Some x else y) = Some c \<Longrightarrow> P x \<Longrightarrow> (y = Some c \<Longrightarrow> P c) \<Longrightarrow> P c"
  by (auto split: if_splits)

lemma classify_data_category:
  "classifyRateLimitData env op data ctx = Some c \<Longrightarrow> err_Category (rlc_err c) = ErrorRateLimit"
  unfolding classifyRateLimitData_def classify_nested_def Let_def
  by (erule if_chain_Some) (rule rate_limited_error(1) [OF refl], erule classify_details_category)

lemma fatal_event_category:
  "err_Category (classifyFatalEventError data ctx) \<in> {ErrorModelUnavailable, ErrorAuthentication, ErrorRuntimeExit}"
  by (simp add: classifyFatalEventError_def fatal_error_def Let_def NewError_class)

section \<open>Properties\<close>

text \<open>
  The search for a nested value is exact: it returns a value of one of the keys found at most five
  levels inside, and returns nothing exactly when there is none.
\<close>

theorem nested_search_exact:
  "if \<exists>w. found_at keys 5 v w
   then firstNestedValue v keys \<noteq> GNil \<and> found_at keys 5 v (firstNestedValue v keys)
   else firstNestedValue v keys = GNil"
  using nested_sound(1) [of v keys 0] nested_complete [of keys 5 v _ 0]
  by (auto simp: firstNestedValue_def)

text \<open>
  C30. A record ends the run's work exactly when it is an error, or the end of a step whose finish
  reason is terminal; it is fatal exactly when it is an error, and reports a rate limit exactly when
  the fatal error is classified as one. The event keeps the bytes of the record, marked unsafe, and
  every member of the record under its key, except the keys the projection writes itself.
\<close>

theorem projection_exact:
  "let p = projectNative env i; r = pin_record i; t = TrimSpace (nr_Type r)
   in (pr_final p \<longleftrightarrow> t = ''error'' \<or> t = ''step_finish'' \<and> isTerminalFinish (finishReasonFrom (nr_Data r)))
      \<and> (pr_fatal p = None \<longleftrightarrow> t \<noteq> ''error'')
      \<and> (pr_rateLimit p = None \<longleftrightarrow> map_option err_Category (pr_fatal p) \<noteq> Some ErrorRateLimit)
      \<and> Kind (pr_event p) = native_category r
      \<and> ev_Raw (pr_event p) = Some \<lparr>raw_Source = ''opencode.stdout'', raw_Encoding = ''json'',
                                    raw_Data = nr_Raw r, raw_Safe = False\<rparr>
      \<and> (\<forall>k. k \<in> set projector_keys \<or> aget (entries (ev_Payload (pr_event p))) k = aget (nr_Data r) k)"
proof -
  let ?c = "classifyRateLimitData env ''opencode event'' (nr_Data (pin_record i)) (pin_ctx i)"
  have keys: "k \<notin> set projector_keys \<Longrightarrow> k \<noteq> ''event_kind'' \<and> k \<noteq> ''rate_limit''" for k
    by (auto simp: projector_keys_def)
  have kind: "Kind (pr_event (projectNative env i)) = native_category (pin_record i)"
    by (simp add: projectNative_def Let_def Kind_def EventPayloadWithKind_def aget_or_def split: option.splits)
  have limit: "pr_rateLimit (projectNative env i) = None \<longleftrightarrow>
      map_option err_Category (pr_fatal (projectNative env i)) \<noteq> Some ErrorRateLimit"
    using classify_data_category [of env "''opencode event''" "nr_Data (pin_record i)" "pin_ctx i"]
      fatal_event_category [of "nr_Data (pin_record i)" "pin_ctx i"]
    by (auto simp: projectNative_def Let_def split: option.splits)
  have payload: "aget (entries (ev_Payload (pr_event (projectNative env i)))) k = aget (nr_Data (pin_record i)) k"
    if "k \<notin> set projector_keys" for k
    using keys [OF that] native_payload_data [OF that]
    by (simp add: projectNative_def Let_def EventPayloadWithKind_def split: option.splits)
  have ends: "pr_final (projectNative env i) \<longleftrightarrow> native_category (pin_record i) \<in> {EventFinalResult, EventFatalError}"
    "pr_fatal (projectNative env i) = None \<longleftrightarrow> native_category (pin_record i) \<noteq> EventFatalError"
    by (auto simp: projectNative_def Let_def)
  have raw: "ev_Raw (pr_event (projectNative env i)) =
      Some \<lparr>raw_Source = ''opencode.stdout'', raw_Encoding = ''json'', raw_Data = nr_Raw (pin_record i), raw_Safe = False\<rparr>"
    by (simp add: projectNative_def Let_def split: option.splits)
  show ?thesis
    unfolding Let_def using kind limit payload raw ends native_category_fatal native_category_final by auto
qed

end
