(* ===== verification/OpencodeDB.thy ===== *)
theory OpencodeDB
  imports Projector Pricing
begin

text \<open>
  What the OpenCode adapter learns from the durable database after a run (\<^verbatim>\<open>opencode/runtime.go\<close>): the
  queries, the reading of their answer, the merge of the usage it reports, and the text of the run's
  answer, which is kept to its last 96 KiB. The command \<open>opencode db\<close> is the parameter \<open>exec\<close>.
\<close>

section \<open>Terminal output\<close>

definition maxTerminalOutputBytes :: nat where
  "maxTerminalOutputBytes = 96 * 1024"

definition boundTerminalOutput :: "string \<Rightarrow> string" where
  "boundTerminalOutput v =
     (if length v \<le> maxTerminalOutputBytes then v else drop (length v - maxTerminalOutputBytes) v)"

definition appendTerminalOutput :: "string \<Rightarrow> string \<Rightarrow> string" where
  "appendTerminalOutput current nxt =
     (if current = [] \<or> HasPrefix nxt current then boundTerminalOutput nxt
      else if nxt = current \<or> HasSuffix current nxt then current
      else boundTerminalOutput (current @ nxt))"

definition first_nonempty :: "string list \<Rightarrow> string" where
  "first_nonempty ss = (case find (\<lambda>s. s \<noteq> []) ss of Some s \<Rightarrow> s | None \<Rightarrow> [])"

definition output_keys :: "string list" where
  "output_keys = [''structured_output'', ''output'', ''content'', ''text'', ''message'', ''part'']"

function terminalOutputValue :: "gval \<Rightarrow> nat \<Rightarrow> string" where
  "terminalOutputValue v depth =
     (if depth > 5 then []
      else case v of
             GMap m \<Rightarrow>
               first_nonempty
                 (map (\<lambda>key. case aget m key of Some nested \<Rightarrow> terminalOutputValue nested (depth + 1) | None \<Rightarrow> [])
                   output_keys)
           | GList vs \<Rightarrow> first_nonempty (map (\<lambda>nested. terminalOutputValue nested (depth + 1)) (rev vs))
           | GString s \<Rightarrow> s
           | _ \<Rightarrow> [])"
  by pat_completeness auto

termination by (relation "measure (\<lambda>(v, depth). 6 - depth)") auto

declare terminalOutputValue.simps [simp del]

section \<open>Queries\<close>

text \<open>\<open>strings.ReplaceAll(value, "'", "''")\<close> between quotes.\<close>

abbreviation quote :: char where "quote \<equiv> CHR 0x27"

definition double_quotes :: "string \<Rightarrow> string" where
  "double_quotes v = concat (map (\<lambda>c. if c = quote then [quote, quote] else [c]) v)"

definition sqlString :: "string \<Rightarrow> string" where
  "sqlString v = [quote] @ double_quotes v @ [quote]"

definition UnixMilli :: "gtime \<Rightarrow> int" where
  "UnixMilli t = (t - unix_epoch) div millisecond"

definition db_queries :: "SessionID \<Rightarrow> gtime \<Rightarrow> (string \<times> string) list" where
  "db_queries sessionID since =
     (let lit = sqlString sessionID; ms = itoa (UnixMilli since)
      in [(''session'', ''select * from session where id='' @ lit),
          (''messages'', ''select * from message where session_id='' @ lit @ '' and time_created >= '' @ ms
             @ '' order by time_created''),
          (''parts'', ''select * from part where session_id='' @ lit @ '' and time_created >= '' @ ms
             @ '' order by time_created''),
          (''assistant_text'',
           ''select json_extract(p.data,'' @ [quote] @ ''$.text'' @ [quote]
             @ '') as text from part p join message m on m.id=p.message_id where p.session_id='' @ lit
             @ '' and p.time_created >= '' @ ms
             @ '' and json_extract(m.data,'' @ [quote] @ ''$.role'' @ [quote] @ '')='' @ [quote] @ ''assistant'' @ [quote]
             @ '' and json_extract(p.data,'' @ [quote] @ ''$.type'' @ [quote] @ '')='' @ [quote] @ ''text'' @ [quote]
             @ '' order by p.time_created'')])"

text \<open>
  \<open>exec\<close> runs the command with its arguments: an error of its own or none, and the combined output.
  \<open>done\<close> is the state of the context when a command has failed. Without an error the four answers are
  one document.
\<close>

fun run_queries ::
  "(string list \<Rightarrow> go_error option \<times> string) \<Rightarrow> ctx_error option \<Rightarrow> (string \<times> string) list
   \<Rightarrow> (string \<times> json) list \<Rightarrow> go_error + (string \<times> json) list" where
  "run_queries exec done [] combined = Inr combined"
| "run_queries exec done ((key, query) # qs) combined =
     (case exec [''db'', ''--format'', ''json'', query] of
        (Some err, out) \<Rightarrow>
          Inl (case done of
                 Some e \<Rightarrow> ctx_go_error e
               | None \<Rightarrow> EWrap (''opencode db '' @ key @ '' query failed: '' @ error_text err @ '': '' @ TrimSpace out) err)
      | (None, out) \<Rightarrow>
          run_queries exec done qs
            (aput key (case json_parse out of None \<Rightarrow> JStr out | Some data \<Rightarrow> data) combined))"

definition queryOpenCodeDB ::
  "(string list \<Rightarrow> go_error option \<times> string) \<Rightarrow> ctx_error option \<Rightarrow> SessionID \<Rightarrow> gtime \<Rightarrow> string \<times> go_error option" where
  "queryOpenCodeDB exec done sessionID since =
     (if sessionID = [] then ([], None)
      else case run_queries exec done (db_queries sessionID since) [] of
             Inl err \<Rightarrow> ([], Some err)
           | Inr combined \<Rightarrow> (json_marshal (JObj combined), None))"

section \<open>The metrics of the answer\<close>

record dbMetrics =
  dbm_turns :: int
  dbm_input :: int
  dbm_output :: int
  dbm_total :: int
  dbm_reasoning :: int
  dbm_cacheRead :: int
  dbm_cacheWrite :: int
  dbm_cost :: rat
  dbm_costKnown :: bool

definition zero_dbMetrics :: dbMetrics where
  "zero_dbMetrics =
     \<lparr>dbm_turns = 0, dbm_input = 0, dbm_output = 0, dbm_total = 0, dbm_reasoning = 0, dbm_cacheRead = 0,
      dbm_cacheWrite = 0, dbm_cost = 0, dbm_costKnown = False\<rparr>"

definition number :: "gval \<Rightarrow> int" where
  "number v = (case int64From v of Some n \<Rightarrow> n | None \<Rightarrow> 0)"

definition firstNumber :: "anymap \<Rightarrow> string list \<Rightarrow> int" where
  "firstNumber vs keys = (case find (\<lambda>k. int64From (gget vs k) \<noteq> None) keys of
                            Some k \<Rightarrow> number (gget vs k) | None \<Rightarrow> 0)"

text \<open>Integers of other types do not occur in a decoded document.\<close>

fun float64From :: "gval \<Rightarrow> rat option" where
  "float64From (GFloat64 x) = Some x"
| "float64From (GInt n) = round_float64 (of_int n)"
| "float64From (GInt64 n) = round_float64 (of_int n)"
| "float64From _ = None"

definition terminal_assistant :: "anymap \<Rightarrow> bool" where
  "terminal_assistant v \<longleftrightarrow> EqualFold (stringValue (gget v ''role'')) ''assistant'' \<and> finishReasonFrom v \<noteq> []"

definition message_cost :: "anymap \<Rightarrow> dbMetrics \<Rightarrow> dbMetrics" where
  "message_cost v m =
     (case float64From (gget v ''cost'') of
        Some c \<Rightarrow> m\<lparr>dbm_costKnown := True, dbm_cost := float_add (dbm_cost m) c\<rparr>
      | None \<Rightarrow> m)"

definition add_message :: "dbMetrics \<Rightarrow> anymap \<Rightarrow> dbMetrics" where
  "add_message m0 v =
     (let m = m0\<lparr>dbm_turns := wrap64 (dbm_turns m0 + 1)\<rparr>
      in message_cost v
           (case as_map (gget v ''tokens'') of
              Some tokens \<Rightarrow>
                (let n = (\<lambda>k. number (gget tokens k));
                     c = (\<lambda>k. case as_map (gget tokens ''cache'') of Some cache \<Rightarrow> number (gget cache k) | None \<Rightarrow> 0)
                 in m\<lparr>dbm_input := wrap64 (dbm_input m + n ''input''), dbm_output := wrap64 (dbm_output m + n ''output''),
                      dbm_reasoning := wrap64 (dbm_reasoning m + n ''reasoning''),
                      dbm_total := wrap64 (dbm_total m + n ''total''),
                      dbm_cacheRead := wrap64 (dbm_cacheRead m + c ''read''),
                      dbm_cacheWrite := wrap64 (dbm_cacheWrite m + c ''write'')\<rparr>)
            | None \<Rightarrow>
                m\<lparr>dbm_input := wrap64 (dbm_input m + firstNumber v [''input_tokens'', ''inputTokens'']),
                  dbm_output := wrap64 (dbm_output m + firstNumber v [''output_tokens'', ''outputTokens'']),
                  dbm_total := wrap64 (dbm_total m + firstNumber v [''total_tokens'', ''totalTokens''])\<rparr>))"

text \<open>
  Documents are searched to any depth, and so are the documents that strings hold; the weight of a
  document, which counts the quoting in its strings, decreases with every nesting.
\<close>

function dbCollectMetrics :: "json \<Rightarrow> dbMetrics \<Rightarrow> dbMetrics"
  and collect_metrics_elems :: "json list \<Rightarrow> dbMetrics \<Rightarrow> dbMetrics"
  and collect_metrics_members :: "(string \<times> json) list \<Rightarrow> dbMetrics \<Rightarrow> dbMetrics" where
  "dbCollectMetrics (JArr vs) m = collect_metrics_elems vs m"
| "dbCollectMetrics (JStr s) m =
     (if HasPrefix (TrimSpace s) [CHR 0x7B]
      then case json_parse s of None \<Rightarrow> m | Some nested \<Rightarrow> dbCollectMetrics nested m
      else m)"
| "dbCollectMetrics (JObj v) m =
     (if terminal_assistant (members_of_json v) then add_message m (members_of_json v)
      else collect_metrics_members v m)"
| "dbCollectMetrics JNull m = m"
| "dbCollectMetrics (JBool b) m = m"
| "dbCollectMetrics (JNum x) m = m"
| "collect_metrics_elems [] m = m"
| "collect_metrics_elems (v # vs) m = collect_metrics_elems vs (dbCollectMetrics v m)"
| "collect_metrics_members [] m = m"
| "collect_metrics_members ((k, v) # vs) m = collect_metrics_members vs (dbCollectMetrics v m)"
  by pat_completeness auto

termination
proof (relation "measures
    [case_sum (\<lambda>(v, m). weight v) (case_sum (\<lambda>(vs, m). weight (JArr vs)) (\<lambda>(vs, m). weight (JObj vs))),
     case_sum (\<lambda>(v, m). size v) (case_sum (\<lambda>(vs, m). size_list size vs) (\<lambda>(vs, m). size_list (\<lambda>p. size (snd p)) vs))]")
  fix s m nested
  assume "json_parse s = Some nested"
  then have "weight nested < weight (JStr s)"
    using weight_json_parse [of s nested] by simp
  then show "(Inl (nested, m), Inl (JStr s, m)) \<in> measures
    [case_sum (\<lambda>(v, m). weight v) (case_sum (\<lambda>(vs, m). weight (JArr vs)) (\<lambda>(vs, m). weight (JObj vs))),
     case_sum (\<lambda>(v, m). size v) (case_sum (\<lambda>(vs, m). size_list size vs) (\<lambda>(vs, m). size_list (\<lambda>p. size (snd p)) vs))]"
    by simp
qed (force simp: less_Suc_eq_le intro: size_list_pointwise)+

section \<open>Reconciliation\<close>

record dbReconcileProof =
  dbp_completed :: bool
  dbp_usage :: Usage
  dbp_terminalOutput :: string
  dbp_warning :: string
  dbp_err :: "SDKError option"
  dbp_cost :: "CostEstimate option"

definition zero_dbReconcileProof :: dbReconcileProof where
  "zero_dbReconcileProof =
     \<lparr>dbp_completed = False, dbp_usage = zero_Usage, dbp_terminalOutput = [], dbp_warning = [], dbp_err = None,
      dbp_cost = None\<rparr>"

definition dbAssistantText :: "gval \<Rightarrow> string" where
  "dbAssistantText v =
     (case v of
        GMap doc \<Rightarrow>
          (case gget doc ''assistant_text'' of
             GList rows \<Rightarrow>
               foldl (\<lambda>output row.
                        case as_map row of
                          None \<Rightarrow> output
                        | Some row_fields \<Rightarrow>
                            let t = stringValue (gget row_fields ''text'')
                            in if t \<noteq> [] then appendTerminalOutput output t else output) [] rows
           | _ \<Rightarrow> [])
      | _ \<Rightarrow> [])"

definition metrics_usage :: "dbMetrics \<Rightarrow> Usage" where
  "metrics_usage m =
     (let native = Some [(''source'', GString ''opencode_db'')]
      in if dbm_turns m > 0
         then Usage (Some (dbm_input m)) (Some (dbm_output m)) (Some (dbm_total m)) (Some (dbm_reasoning m))
                (Some (dbm_cacheRead m)) (Some (dbm_cacheWrite m)) (Some (dbm_turns m)) native
         else Usage None None None None None None None native)"

definition reconcileDBResponse :: "string \<Rightarrow> go_error option \<Rightarrow> dbReconcileProof" where
  "reconcileDBResponse body0 err =
     (case err of
        Some e \<Rightarrow>
          (let msg = ToLower (error_text e)
           in if Contains msg ''locked'' \<or> Contains msg ''wal_checkpoint'' \<or> Contains msg ''database''
              then zero_dbReconcileProof
                     \<lparr>dbp_err := Some (NewError ErrorRuntimeUnavailable ''opencode db'' ''OpenCode local DB is unavailable''
                                         (Some e) [WithDebugDetail (error_text e)])\<rparr>
              else zero_dbReconcileProof\<lparr>dbp_warning := error_text e\<rparr>)
      | None \<Rightarrow>
          (let body = TrimSpace body0
           in if body = [] then zero_dbReconcileProof
              else case json_parse body of
                     None \<Rightarrow> zero_dbReconcileProof\<lparr>dbp_warning := ''OpenCode DB response was not JSON''\<rparr>
                   | Some data \<Rightarrow>
                       (let m = dbCollectMetrics data zero_dbMetrics
                        in \<lparr>dbp_completed = dbm_turns m > 0, dbp_usage = metrics_usage m,
                            dbp_terminalOutput = dbAssistantText (gval_of_json data), dbp_warning = [], dbp_err = None,
                            dbp_cost = (if dbm_costKnown m
                                        then Some \<lparr>cost_Amount = dbm_cost m, cost_Currency = ''USD'', cost_Estimate = False\<rparr>
                                        else None)\<rparr>)))"

definition mergeUsage :: "Usage \<Rightarrow> Usage \<Rightarrow> Usage" where
  "mergeUsage primary fallback =
     Usage (or_else (us_InputTokens fallback) (us_InputTokens primary))
       (or_else (us_OutputTokens fallback) (us_OutputTokens primary))
       (or_else (us_TotalTokens fallback) (us_TotalTokens primary))
       (or_else (us_ReasoningTokens fallback) (us_ReasoningTokens primary))
       (or_else (us_CacheReadTokens fallback) (us_CacheReadTokens primary))
       (or_else (us_CacheWriteTokens fallback) (us_CacheWriteTokens primary))
       (or_else (us_Turns fallback) (us_Turns primary))
       (or_else (us_Native fallback) (us_Native primary))"

text \<open>An older reading of the answer, which nothing calls: the first terminal assistant message.\<close>

definition firstNonEmptyString :: "gval list \<Rightarrow> string" where
  "firstNonEmptyString vs = first_nonempty (map (\<lambda>v. TrimSpace (stringValue v)) vs)"

definition first_int64 :: "anymap \<Rightarrow> string list \<Rightarrow> int option" where
  "first_int64 v keys = foldl (\<lambda>acc k. or_else acc (int64From (gget v k))) None keys"

definition usage_of_row :: "Usage \<Rightarrow> anymap \<Rightarrow> Usage" where
  "usage_of_row u v =
     (case (case as_map (gget v ''tokens'') of Some tokens \<Rightarrow> usage_tokens u tokens | None \<Rightarrow> u) of
        Usage i out tot rs cr cw turns native \<Rightarrow>
          Usage (or_else i (first_int64 v [''input_tokens'', ''inputTokens'']))
            (or_else out (first_int64 v [''output_tokens'', ''outputTokens'']))
            (or_else tot (first_int64 v [''total_tokens'', ''totalTokens''])) rs cr cw turns native)"

fun dbHasTerminalAssistant :: "gval \<Rightarrow> Usage \<Rightarrow> bool \<times> Usage"
  and terminal_elems :: "gval list \<Rightarrow> Usage \<Rightarrow> bool \<times> Usage"
  and terminal_members :: "anymap \<Rightarrow> Usage \<Rightarrow> bool \<times> Usage" where
  "dbHasTerminalAssistant v u =
     (case v of
        GList vs \<Rightarrow> terminal_elems vs u
      | GMap m \<Rightarrow>
          (let u1 = usage_of_row u m
           in if ToLower (stringValue (gget m ''role'')) = ''assistant''
                 \<and> firstNonEmptyString (map (gget m) [''finish'', ''finishReason'', ''finish_reason'', ''stopReason'', ''stop_reason'']) \<noteq> []
              then (True, u1)
              else terminal_members m u1)
      | _ \<Rightarrow> (False, u))"
| "terminal_elems [] u = (False, u)"
| "terminal_elems (v # vs) u =
     (case dbHasTerminalAssistant v u of (True, u') \<Rightarrow> (True, u') | (False, u') \<Rightarrow> terminal_elems vs u')"
| "terminal_members [] u = (False, u)"
| "terminal_members ((k, v) # m) u =
     (case dbHasTerminalAssistant v u of (True, u') \<Rightarrow> (True, u') | (False, u') \<Rightarrow> terminal_members m u')"

declare dbHasTerminalAssistant.simps [simp del]

section \<open>Bounded output\<close>

lemma length_boundTerminalOutput: "length (boundTerminalOutput v) \<le> maxTerminalOutputBytes"
  by (simp add: boundTerminalOutput_def)

lemma length_appendTerminalOutput:
  "length current \<le> maxTerminalOutputBytes \<Longrightarrow> length (appendTerminalOutput current nxt) \<le> maxTerminalOutputBytes"
  by (simp add: appendTerminalOutput_def length_boundTerminalOutput)

lemma length_dbAssistantText: "length (dbAssistantText v) \<le> maxTerminalOutputBytes"
proof -
  have "length acc \<le> maxTerminalOutputBytes \<Longrightarrow>
      length (foldl (\<lambda>output row. case as_map row of None \<Rightarrow> output
        | Some row_fields \<Rightarrow> let t = stringValue (gget row_fields ''text'')
            in if t \<noteq> [] then appendTerminalOutput output t else output) acc rows) \<le> maxTerminalOutputBytes" for acc rows
    by (induction rows arbitrary: acc) (auto simp: Let_def length_appendTerminalOutput split: option.splits)
  then show ?thesis by (auto simp: dbAssistantText_def split: gval.splits)
qed

section \<open>Quoting\<close>

text \<open>How SQL reads a quoted literal: a doubled quote is a quote, a single one ends it.\<close>

fun sql_body :: "string \<Rightarrow> (string \<times> string) option" where
  "sql_body [] = None"
| "sql_body (c # cs) =
     (if c \<noteq> quote then map_option (map_prod ((#) c) id) (sql_body cs)
      else case cs of
             d # ds \<Rightarrow> if d = quote then map_option (map_prod ((#) quote) id) (sql_body ds) else Some ([], cs)
           | [] \<Rightarrow> Some ([], []))"

definition sql_literal :: "string \<Rightarrow> (string \<times> string) option" where
  "sql_literal s = (case s of c # cs \<Rightarrow> if c = quote then sql_body cs else None | [] \<Rightarrow> None)"

lemma sql_body_doubled:
  "rest = [] \<or> hd rest \<noteq> quote \<Longrightarrow> sql_body (double_quotes v @ quote # rest) = Some (v, rest)"
proof (induction v)
  case Nil
  then show ?case by (cases rest) (simp_all add: double_quotes_def)
next
  case (Cons c v)
  then show ?case by (simp add: double_quotes_def)
qed

lemma sql_literal_sqlString:
  "rest = [] \<or> hd rest \<noteq> quote \<Longrightarrow> sql_literal (sqlString v @ rest) = Some (v, rest)"
  using sql_body_doubled by (simp add: sql_literal_def sqlString_def)

section \<open>The sums of the answer\<close>

text \<open>The terminal assistant messages of a document, in order, wherever they are nested.\<close>

function assistant_messages :: "json \<Rightarrow> anymap list"
  and assistant_elems :: "json list \<Rightarrow> anymap list"
  and assistant_members :: "(string \<times> json) list \<Rightarrow> anymap list" where
  "assistant_messages (JArr vs) = assistant_elems vs"
| "assistant_messages (JStr s) =
     (if HasPrefix (TrimSpace s) [CHR 0x7B]
      then case json_parse s of None \<Rightarrow> [] | Some nested \<Rightarrow> assistant_messages nested
      else [])"
| "assistant_messages (JObj v) =
     (if terminal_assistant (members_of_json v) then [members_of_json v] else assistant_members v)"
| "assistant_messages JNull = []"
| "assistant_messages (JBool b) = []"
| "assistant_messages (JNum x) = []"
| "assistant_elems [] = []"
| "assistant_elems (v # vs) = assistant_messages v @ assistant_elems vs"
| "assistant_members [] = []"
| "assistant_members ((k, v) # vs) = assistant_messages v @ assistant_members vs"
  by pat_completeness auto

termination
proof (relation "measures
    [case_sum weight (case_sum (\<lambda>vs. weight (JArr vs)) (\<lambda>vs. weight (JObj vs))),
     case_sum size (case_sum (size_list size) (size_list (\<lambda>p. size (snd p))))]")
  fix s nested
  assume "json_parse s = Some nested"
  then have "weight nested < weight (JStr s)"
    using weight_json_parse [of s nested] by simp
  then show "(Inl nested, Inl (JStr s)) \<in> measures
    [case_sum weight (case_sum (\<lambda>vs. weight (JArr vs)) (\<lambda>vs. weight (JObj vs))),
     case_sum size (case_sum (size_list size) (size_list (\<lambda>p. size (snd p))))]"
    by simp
qed (force simp: less_Suc_eq_le intro: size_list_pointwise)+

lemma collect_messages:
  "dbCollectMetrics v m = foldl add_message m (assistant_messages v)"
  "collect_metrics_elems vs m = foldl add_message m (assistant_elems vs)"
  "collect_metrics_members ms m = foldl add_message m (assistant_members ms)"
  by (induction v m and vs m and ms m rule: dbCollectMetrics_collect_metrics_elems_collect_metrics_members.induct)
    (auto split: option.splits)

lemma wrap64_add [simp]: "wrap64 (wrap64 a + b) = wrap64 (a + b)"
proof -
  have shift: "wrap64 a + b + 2 ^ 63 = (a + 2 ^ 63) mod 2 ^ 64 + b" by (simp add: wrap64_def)
  have "wrap64 (wrap64 a + b) = ((a + 2 ^ 63) mod 2 ^ 64 + b) mod 2 ^ 64 - 2 ^ 63"
    by (subst wrap64_def, subst shift) (rule refl)
  also have "\<dots> = (a + 2 ^ 63 + b) mod 2 ^ 64 - 2 ^ 63" by (simp only: mod_add_left_eq)
  also have "\<dots> = wrap64 (a + b)" by (simp add: wrap64_def ac_simps)
  finally show ?thesis .
qed

lemma wrap64_id: "minInt64 \<le> a \<Longrightarrow> a \<le> maxInt64 \<Longrightarrow> wrap64 a = a"
  by (simp add: wrap64_def minInt64_def maxInt64_def)

text \<open>What one message counts.\<close>

definition message_tokens :: "string \<Rightarrow> string list \<Rightarrow> anymap \<Rightarrow> int" where
  "message_tokens key flat v =
     (case as_map (gget v ''tokens'') of Some tokens \<Rightarrow> number (gget tokens key) | None \<Rightarrow> firstNumber v flat)"

definition message_cache :: "string \<Rightarrow> anymap \<Rightarrow> int" where
  "message_cache key v =
     (case as_map (gget v ''tokens'') of
        Some tokens \<Rightarrow> (case as_map (gget tokens ''cache'') of Some cache \<Rightarrow> number (gget cache key) | None \<Rightarrow> 0)
      | None \<Rightarrow> 0)"


lemma add_message_field:
  "dbm_turns (add_message m v) = wrap64 (dbm_turns m + 1)"
  "dbm_input (add_message m v) = wrap64 (dbm_input m + message_tokens ''input'' [''input_tokens'', ''inputTokens''] v)"
  "dbm_output (add_message m v) = wrap64 (dbm_output m + message_tokens ''output'' [''output_tokens'', ''outputTokens''] v)"
  "dbm_total (add_message m v) = wrap64 (dbm_total m + message_tokens ''total'' [''total_tokens'', ''totalTokens''] v)"
  "dbm_costKnown (add_message m v) \<longleftrightarrow> dbm_costKnown m \<or> float64From (gget v ''cost'') \<noteq> None"
  by (simp_all add: add_message_def message_cost_def message_tokens_def Let_def split: option.splits)

text \<open>A counter that every message adds to is the wrapped sum.\<close>

lemma counter_sum:
  assumes "\<And>m v. get (add_message m v) = wrap64 (get m + f v)"
  shows "wrap64 (get (foldl add_message m vs)) = wrap64 (get m + sum_list (map f vs))"
proof (induction vs arbitrary: m)
  case (Cons v vs)
  have "wrap64 (get m + f v + sum_list (map f vs)) = wrap64 (wrap64 (get m + f v) + sum_list (map f vs))" by simp
  with Cons show ?case by (simp add: assms add.assoc)
qed simp

lemma wrap64_idem [simp]: "wrap64 (wrap64 a) = wrap64 a"
  using wrap64_add [of a 0] by simp

lemma counter_sum_zero:
  assumes "\<And>m v. get (add_message m v) = wrap64 (get m + f v)" and "get zero_dbMetrics = 0"
  shows "get (foldl add_message zero_dbMetrics vs) = wrap64 (sum_list (map f vs))"
proof (cases vs rule: rev_cases)
  case Nil
  then show ?thesis using assms(2) by (simp add: wrap64_def)
next
  case (snoc us u)
  then have "get (foldl add_message zero_dbMetrics vs) = wrap64 (get (foldl add_message zero_dbMetrics vs))"
    using assms(1) by simp
  also have "\<dots> = wrap64 (sum_list (map f vs))"
    using counter_sum [of get f zero_dbMetrics vs, OF assms(1)] assms(2) by simp
  finally show ?thesis .
qed

lemma cost_known: "dbm_costKnown (foldl add_message m vs) \<longleftrightarrow>
    dbm_costKnown m \<or> (\<exists>v \<in> set vs. float64From (gget v ''cost'') \<noteq> None)"
  by (induction vs arbitrary: m) (auto simp: add_message_field)

section \<open>Properties\<close>

text \<open>
  C34. Whatever the session identifier contains, every query holds it as one SQL literal that reads
  back as that identifier, followed by the fixed text of the query.
\<close>

theorem db_query_literals:
  "map (\<lambda>(key, query). (key, sql_literal (drop (the (aget
        [(''session'', length ''select * from session where id=''),
         (''messages'', length ''select * from message where session_id=''),
         (''parts'', length ''select * from part where session_id=''),
         (''assistant_text'', length (''select json_extract(p.data,'' @ [quote] @ ''$.text'' @ [quote]
           @ '') as text from part p join message m on m.id=p.message_id where p.session_id=''))] key)) query))) (db_queries sessionID since) =
   (let ms = itoa (UnixMilli since); rest = '' and time_created >= '' @ ms @ '' order by time_created''
    in [(''session'', Some (sessionID, [])), (''messages'', Some (sessionID, rest)), (''parts'', Some (sessionID, rest)),
        (''assistant_text'', Some (sessionID, '' and p.time_created >= '' @ ms
           @ '' and json_extract(m.data,'' @ [quote] @ ''$.role'' @ [quote] @ '')='' @ [quote] @ ''assistant'' @ [quote]
           @ '' and json_extract(p.data,'' @ [quote] @ ''$.type'' @ [quote] @ '')='' @ [quote] @ ''text'' @ [quote]
           @ '' order by p.time_created''))])"
  unfolding db_queries_def Let_def
  by (simp add: sql_literal_sqlString sql_literal_sqlString [of "[]", simplified])


end
