(* ===== verification/OpencodeHealth.thy ===== *)
theory OpencodeHealth
  imports OpencodePermissions Process Health Pricing Validation OpencodeDB
begin

text \<open>
  The OpenCode runtime and its preflight probes (\<^verbatim>\<open>opencode/options.go\<close>,
  \<^verbatim>\<open>opencode/health.go\<close>): the options of a runtime, the bounded scan of the output of a
  probe, the checks, and the report. A process of a probe is its start error, or the chunks its two
  streams deliver and its exit; the clock and the processes are indexed by how often they were used.
\<close>

section \<open>The runtime\<close>

type_synonym db_query = "nat \<Rightarrow> SessionID \<Rightarrow> gtime \<Rightarrow> string \<times> go_error option"

record Runtime =
  rt_executable :: string
  rt_extraArgs :: "string list"
  rt_env :: "string list"
  rt_stderrLimit :: int
  rt_dbQuery :: "db_query option"
  rt_dbQuerySet :: bool
  rt_rates :: "RateTableStore option"
  rt_snapshots :: "bool option"

definition defaultExecutable :: string where "defaultExecutable = ''opencode''"
definition defaultStderrLimit :: int where "defaultStderrLimit = 16 * 1024"

text \<open>The options that set data; the process runner and the clock are the environment of the operations.\<close>

definition WithExecutable :: "string \<Rightarrow> Runtime \<Rightarrow> Runtime" where
  "WithExecutable path r = (if path \<noteq> [] then r\<lparr>rt_executable := path\<rparr> else r)"

definition WithExtraArgs :: "string list \<Rightarrow> Runtime \<Rightarrow> Runtime" where
  "WithExtraArgs args r = r\<lparr>rt_extraArgs := args\<rparr>"

definition WithEnv :: "string list \<Rightarrow> Runtime \<Rightarrow> Runtime" where
  "WithEnv env r = r\<lparr>rt_env := env\<rparr>"

definition WithSnapshots :: "bool \<Rightarrow> Runtime \<Rightarrow> Runtime" where
  "WithSnapshots enabled r = r\<lparr>rt_snapshots := Some enabled\<rparr>"

definition WithStderrLimit :: "int \<Rightarrow> Runtime \<Rightarrow> Runtime" where
  "WithStderrLimit limit r = (if limit > 0 then r\<lparr>rt_stderrLimit := limit\<rparr> else r)"

definition WithRateTableStore :: "RateTableStore option \<Rightarrow> Runtime \<Rightarrow> Runtime" where
  "WithRateTableStore store r = (if store \<noteq> None then r\<lparr>rt_rates := store\<rparr> else r)"

definition withDBQuery :: "db_query option \<Rightarrow> Runtime \<Rightarrow> Runtime" where
  "withDBQuery query r = r\<lparr>rt_dbQuery := query, rt_dbQuerySet := True\<rparr>"

text \<open>
  \<open>exec n executable env args\<close> is the \<open>n\<close>-th command of the database and \<open>done n\<close> the state of its
  context. The bound method reads the runtime when it is called, after all options.
\<close>

definition NewRuntime ::
  "(nat \<Rightarrow> string \<Rightarrow> string list \<Rightarrow> string list \<Rightarrow> go_error option \<times> string) \<Rightarrow> (nat \<Rightarrow> ctx_error option)
   \<Rightarrow> (Runtime \<Rightarrow> Runtime) list \<Rightarrow> Runtime" where
  "NewRuntime exec done options =
     (let r = foldl (\<lambda>r opt. opt r)
                \<lparr>rt_executable = defaultExecutable, rt_extraArgs = [], rt_env = [], rt_stderrLimit = defaultStderrLimit,
                 rt_dbQuery = None, rt_dbQuerySet = False, rt_rates = None, rt_snapshots = None\<rparr> options
      in if \<not> rt_dbQuerySet r \<and> rt_dbQuery r = None
         then r\<lparr>rt_dbQuery := Some (\<lambda>n. queryOpenCodeDB (exec n (rt_executable r) (rt_env r)) (done n))\<rparr>
         else r)"

section \<open>Temporary directories\<close>

text \<open>\<open>os.MkdirAll\<close>, \<open>os.MkdirTemp\<close> and \<open>os.Chmod\<close>: an error, or the name of the directory made.\<close>

record temp_env =
  te_mkdirAll :: "string \<Rightarrow> go_error option"
  te_mkdirTemp :: "string \<Rightarrow> go_error + string"
  te_chmod :: "string \<Rightarrow> go_error option"

definition MetadataTempRoot :: string where "MetadataTempRoot = ''opencode.temp_root''"
definition MetadataDatabasePath :: string where "MetadataDatabasePath = ''opencode.database_path''"

definition createProcessTempDir :: "temp_env \<Rightarrow> string \<Rightarrow> SDKError + string" where
  "createProcessTempDir env root0 =
     (let trimmed = TrimSpace root0; dir = Clean trimmed
      in if trimmed = [] then Inr []
         else if \<not> IsAbs dir
         then Inl (NewError ErrorConfiguration ''opencode temp root'' ''OpenCode temp root must be an absolute path'' None [])
         else case te_mkdirAll env dir of
                Some e \<Rightarrow> Inl (NewError ErrorRuntimeUnavailable ''opencode temp root''
                                 ''OpenCode temp root could not be created'' (Some e) [])
              | None \<Rightarrow>
                  (case te_mkdirTemp env dir of
                     Inl e \<Rightarrow> Inl (NewError ErrorRuntimeUnavailable ''opencode temp directory''
                                     ''OpenCode process temp directory could not be created'' (Some e) [])
                   | Inr tmp \<Rightarrow>
                       (case te_chmod env tmp of
                          Some e \<Rightarrow> Inl (NewError ErrorRuntimeUnavailable ''opencode temp directory''
                                          ''OpenCode process temp directory could not be secured'' (Some e) [])
                        | None \<Rightarrow> Inr tmp)))"

definition temp_vars :: "string \<Rightarrow> string list \<Rightarrow> string list" where
  "temp_vars dir env =
     (if dir \<noteq> [] then setEnvValue (setEnvValue (setEnvValue env ''TMPDIR'' dir) ''TMP'' dir) ''TEMP'' dir else env)"

section \<open>The scan of a probe\<close>

definition lower_needles :: "string list \<Rightarrow> string list" where
  "lower_needles needles = filter (\<lambda>n. n \<noteq> []) (map ToLower needles)"

definition max_needle :: "string list \<Rightarrow> nat" where
  "max_needle needles = foldl (\<lambda>m n. if length n > m then length n else m) 0 needles"

type_synonym matches = "(string \<times> bool) list"

definition mark_matches :: "string \<Rightarrow> string list \<Rightarrow> matches \<Rightarrow> matches" where
  "mark_matches window needles ms = foldl (\<lambda>ms n. if Contains window n then aput n True ms else ms) ms needles"

text \<open>The part of a window the next chunk may complete.\<close>

definition next_tail :: "nat \<Rightarrow> string \<Rightarrow> string" where
  "next_tail m window =
     (if m > 1 \<and> length window \<ge> m - 1 then drop (length window - (m - 1)) window else window)"

text \<open>The loop over the chunks a reader delivers; a read without bytes changes nothing.\<close>

fun scan_chunks ::
  "string list \<Rightarrow> nat \<Rightarrow> limitBuffer \<Rightarrow> matches \<Rightarrow> string \<Rightarrow> string list \<Rightarrow> limitBuffer \<times> matches" where
  "scan_chunks needles m sample ms tail [] = (sample, ms)"
| "scan_chunks needles m sample ms tail (chunk # chunks) =
     (if chunk = [] then scan_chunks needles m sample ms tail chunks
      else let window = tail @ ToLower chunk
           in scan_chunks needles m (snd (limitBuffer_Write sample chunk)) (mark_matches window needles ms)
                (next_tail m window) chunks)"

definition scanProbeOutput :: "limitBuffer \<Rightarrow> string list \<Rightarrow> string list \<Rightarrow> matches \<Rightarrow> limitBuffer \<times> matches" where
  "scanProbeOutput sample chunks needles ms =
     (let ns = lower_needles needles in scan_chunks ns (max_needle ns) sample ms [] chunks)"

record probeOutput =
  po_Sample :: string
  po_Matches :: matches

text \<open>\<open>io.Discard\<close> for a limit that keeps nothing is a buffer of limit 0.\<close>

definition readProbeOutput :: "int \<Rightarrow> string list \<Rightarrow> string list \<Rightarrow> probeOutput" where
  "readProbeOutput limit chunks needles =
     (if limit \<le> 0
      then \<lparr>po_Sample = [], po_Matches = snd (scanProbeOutput (newLimitBuffer 0) chunks needles [])\<rparr>
      else case scanProbeOutput (newLimitBuffer limit) chunks needles [] of
             (sample, ms) \<Rightarrow> \<lparr>po_Sample = limitBuffer_String sample, po_Matches = ms\<rparr>)"

definition merge_part :: "matches \<Rightarrow> matches \<Rightarrow> matches" where
  "merge_part ms part = foldl (\<lambda>ms (k, v). aput k (aget_or False ms k \<or> v) ms) ms part"

definition mergeProbeMatches :: "matches list \<Rightarrow> matches" where
  "mergeProbeMatches parts = foldl merge_part [] parts"

section \<open>Windows see every occurrence\<close>

lemma max_needle_ge: "n \<in> set ns \<Longrightarrow> length n \<le> max_needle ns"
proof -
  have mono: "m \<le> foldl (\<lambda>m n. if length n > m then length n else m) m ns" for m and ns :: "string list"
  proof (induction ns arbitrary: m)
    case (Cons a ns)
    have "m \<le> (if length a > m then length a else m)" by simp
    also note Cons.IH
    finally show ?case by simp
  qed simp
  have "n \<in> set ns \<Longrightarrow> length n \<le> foldl (\<lambda>m n. if length n > m then length n else m) m ns" for m
  proof (induction ns arbitrary: m)
    case (Cons a ns)
    show ?case
    proof (cases "n = a")
      case True
      have "length a \<le> (if length a > m then length a else m)" by simp
      also note mono
      finally show ?thesis using True by simp
    next
      case False
      with Cons show ?thesis by simp
    qed
  qed simp
  then show "n \<in> set ns \<Longrightarrow> length n \<le> max_needle ns" by (simp add: max_needle_def)
qed

lemma aget_mark_matches:
  "aget_or False (mark_matches w ns ms) k \<longleftrightarrow> aget_or False ms k \<or> k \<in> set ns \<and> Contains w k"
  by (induction ns arbitrary: ms) (auto simp: mark_matches_def aget_or_def)

text \<open>An occurrence in a text and what follows is in the text or in the rest with the end of the text before it.\<close>

lemma sublist_append_tail:
  assumes parts: "seen = front @ tail" and long: "front = [] \<or> length n \<le> Suc (length tail)"
  shows "sublist n (seen @ rest) \<longleftrightarrow> sublist n seen \<or> sublist n (tail @ rest)"
proof
  assume "sublist n (seen @ rest)"
  then obtain xs ys where occ: "seen @ rest = xs @ n @ ys" by (auto simp: sublist_def)
  show "sublist n seen \<or> sublist n (tail @ rest)"
  proof (cases "length front \<le> length xs")
    case True
    then have "tail @ rest = drop (length front) (xs @ n @ ys)"
      using occ parts by (metis append.assoc append_eq_conv_conj)
    also have "\<dots> = drop (length front) xs @ n @ ys" using True by simp
    finally show ?thesis by (auto simp: sublist_def)
  next
    case False
    then have "length (xs @ n) \<le> length seen" using long by (auto simp: parts)
    then have "seen = take (length seen) (xs @ n @ ys)" using occ by (metis append_eq_conv_conj)
    also have "\<dots> = xs @ n @ take (length seen - length (xs @ n)) ys" using \<open>length (xs @ n) \<le> length seen\<close> by simp
    finally show ?thesis by (auto simp: sublist_def)
  qed
next
  assume "sublist n seen \<or> sublist n (tail @ rest)"
  then show "sublist n (seen @ rest)"
    by (auto simp: parts sublist_append_rightI sublist_order.order_trans)
qed

definition tail_of :: "nat \<Rightarrow> string \<Rightarrow> string \<Rightarrow> bool" where
  "tail_of m seen tail \<longleftrightarrow> (\<exists>front. seen = front @ tail \<and> (front = [] \<or> m \<le> Suc (length tail)))"

lemma tail_of_next:
  assumes "tail_of m seen tail"
  shows "tail_of m (seen @ rest) (next_tail m (tail @ rest))"
proof -
  obtain front where f: "seen = front @ tail" "front = [] \<or> m \<le> Suc (length tail)"
    using assms by (auto simp: tail_of_def)
  show ?thesis
  proof (cases "m > 1 \<and> length (tail @ rest) \<ge> m - 1")
    case True
    let ?w = "tail @ rest" and ?k = "length (tail @ rest) - (m - 1)"
    have "seen @ rest = (front @ take ?k ?w) @ drop ?k ?w" by (simp only: f append.assoc append_take_drop_id)
    moreover have "next_tail m ?w = drop ?k ?w" using True by (simp add: next_tail_def)
    moreover have "m \<le> Suc (length (drop ?k ?w))" using True by (simp only: length_drop) arith
    ultimately show ?thesis unfolding tail_of_def by metis
  next
    case False
    then have "next_tail m (tail @ rest) = tail @ rest" unfolding next_tail_def by (rule if_not_P)
    moreover have "front = [] \<or> m \<le> Suc (length (tail @ rest))" using f(2) by auto
    ultimately show ?thesis using f(1) by (auto simp: tail_of_def)
  qed
qed

lemma scan_chunks_matches:
  assumes "tail_of m seen tail" and "\<forall>n \<in> set ns. length n \<le> m"
    and "k \<in> set ns \<and> Contains seen k \<Longrightarrow> aget_or False ms k"
  shows "aget_or False (snd (scan_chunks ns m sample ms tail chunks)) k \<longleftrightarrow>
     aget_or False ms k \<or> k \<in> set ns \<and> Contains (seen @ ToLower (concat chunks)) k"
  using assms
proof (induction chunks arbitrary: sample ms tail seen)
  case Nil
  then show ?case by (auto simp: ToLower_def)
next
  case (Cons c cs)
  show ?case
  proof (cases "c = []")
    case True
    then show ?thesis using Cons by simp
  next
    case False
    let ?w = "tail @ ToLower c" and ?seen = "seen @ ToLower c"
    obtain front where f: "seen = front @ tail" "front = [] \<or> m \<le> Suc (length tail)"
      using Cons.prems(1) by (auto simp: tail_of_def)
    have occ: "k \<in> set ns \<Longrightarrow> Contains ?seen k \<longleftrightarrow> Contains seen k \<or> Contains ?w k"
      unfolding Contains_sublist using f Cons.prems(2) by (intro sublist_append_tail) fastforce+
    have marks: "k \<in> set ns \<and> Contains ?seen k \<Longrightarrow> aget_or False (mark_matches ?w ns ms) k"
      using occ Cons.prems(3) by (auto simp: aget_mark_matches)
    have lower: "ToLower (concat (c # cs)) = ToLower c @ ToLower (concat cs)" by (simp add: ToLower_def)
    have mono: "Contains ?seen k \<Longrightarrow> Contains (?seen @ ToLower (concat cs)) k"
      unfolding Contains_sublist by (metis sublist_append_rightI sublist_order.order_trans)
    have "aget_or False (snd (scan_chunks ns m (snd (limitBuffer_Write sample c)) (mark_matches ?w ns ms) (next_tail m ?w) cs)) k
        \<longleftrightarrow> aget_or False (mark_matches ?w ns ms) k \<or> k \<in> set ns \<and> Contains (?seen @ ToLower (concat cs)) k"
      using Cons.IH [OF tail_of_next [OF Cons.prems(1), of "ToLower c"] Cons.prems(2) marks] .
    moreover have "aget_or False (mark_matches ?w ns ms) k \<or> k \<in> set ns \<and> Contains (?seen @ ToLower (concat cs)) k
        \<longleftrightarrow> aget_or False ms k \<or> k \<in> set ns \<and> Contains (?seen @ ToLower (concat cs)) k"
      using occ mono by (auto simp: aget_mark_matches)
    ultimately show ?thesis using False by (simp only: scan_chunks.simps Let_def if_False lower append.assoc)
  qed
qed

lemma scan_chunks_sample:
  "fst (scan_chunks ns m sample ms tail chunks) = captureStderr sample chunks"
proof (induction chunks arbitrary: sample ms tail)
  case (Cons c cs)
  have "snd (limitBuffer_Write sample []) = sample" by (simp add: limitBuffer_Write_def)
  with Cons show ?case by (simp add: captureStderr_def Let_def)
qed (simp add: captureStderr_def)

section \<open>Probes\<close>

datatype probe_start = ProbeFailed go_error | ProbeStarted "string list" "string list" processResult

record health_env =
  he_now :: "nat \<Rightarrow> gtime"
  he_start :: "nat \<Rightarrow> processSpec \<Rightarrow> probe_start"
  he_ctx :: "nat \<Rightarrow> ctx_error option"
  he_stat :: "string \<Rightarrow> go_error + bool"
  he_temp :: temp_env

text \<open>How often the clock was read, and the processes that were asked for.\<close>

record probe_state =
  pb_ticks :: nat
  pb_starts :: "processSpec list"

definition probe_now :: "health_env \<Rightarrow> probe_state \<Rightarrow> gtime \<times> probe_state" where
  "probe_now env s = (he_now env (pb_ticks s), s\<lparr>pb_ticks := Suc (pb_ticks s)\<rparr>)"

definition healthResult ::
  "health_env \<Rightarrow> HealthCheckID \<Rightarrow> HealthStatus \<Rightarrow> HealthSeverity \<Rightarrow> string \<Rightarrow> string \<Rightarrow> anymap option
   \<Rightarrow> SDKError option \<Rightarrow> probe_state \<Rightarrow> HealthResult \<times> probe_state" where
  "healthResult env check status severity userDetail debugDetail native err s =
     (case probe_now env s of
        (t, s1) \<Rightarrow>
          (\<lparr>hr_Check = check, hr_Status = status, hr_Severity = severity, hr_UserDetail = userDetail,
            hr_DebugDetail = RedactString debugDetail, hr_NativeMetadata = RedactMetadata native, hr_Err = err,
            hr_StartedAt = t, hr_FinishedAt = t\<rparr>, s1))"

definition failed_result ::
  "health_env \<Rightarrow> HealthCheckID \<Rightarrow> HealthStatus \<Rightarrow> HealthSeverity \<Rightarrow> anymap option \<Rightarrow> SDKError \<Rightarrow> probe_state
   \<Rightarrow> HealthResult \<times> probe_state" where
  "failed_result env check status severity native e s =
     healthResult env check status severity (err_UserDetail e) (err_DebugDetail e) native (Some e) s"

definition probe_native :: "string list \<Rightarrow> string \<Rightarrow> probeOutput \<Rightarrow> probeOutput \<Rightarrow> processResult \<Rightarrow> anymap" where
  "probe_native args workDir out err result =
     [(''args'', GStrings args), (''workdir'', GString workDir), (''stdout'', GString (RedactString (po_Sample out))),
      (''stderr'', GString (RedactString (po_Sample err))),
      (''matches'', GBoolMap (mergeProbeMatches [po_Matches out, po_Matches err])), (''exit_code'', GInt (pres_ExitCode result))]"

definition probeCommand ::
  "Runtime \<Rightarrow> health_env \<Rightarrow> HealthCheckID \<Rightarrow> string \<Rightarrow> string list \<Rightarrow> string list \<Rightarrow> ErrorCategory \<Rightarrow> string
   \<Rightarrow> probe_state \<Rightarrow> HealthResult \<times> probe_state" where
  "probeCommand r env check workDir args needles category readyDetail s =
     (let (started, s1) = probe_now env s;
          spec = \<lparr>ps_Executable = rt_executable r, ps_Args = args, ps_Env = rt_env r, ps_WorkDir = workDir, ps_Stdin = []\<rparr>;
          s2 = s1\<lparr>pb_starts := pb_starts s1 @ [spec]\<rparr>
      in case he_start env (length (pb_starts s1)) spec of
           ProbeFailed e \<Rightarrow>
             (let sdkErr = ErrorForHealthStatus check HealthUnrecoverable category ''OpenCode probe could not start''
                             (error_text e) (Some e);
                  (finished, s3) = probe_now env s2
              in (\<lparr>hr_Check = check, hr_Status = HealthUnrecoverable, hr_Severity = HealthSeverityError,
                   hr_UserDetail = err_UserDetail sdkErr, hr_DebugDetail = err_DebugDetail sdkErr,
                   hr_NativeMetadata = None, hr_Err = Some sdkErr, hr_StartedAt = started, hr_FinishedAt = finished\<rparr>, s3))
         | ProbeStarted outChunks errChunks result \<Rightarrow>
             (let out = readProbeOutput (rt_stderrLimit r) outChunks needles;
                  err = readProbeOutput (rt_stderrLimit r) errChunks needles;
                  native = probe_native args workDir out err result
              in if pres_Err result \<noteq> None \<or> pres_ExitCode result \<noteq> 0
                 then failed_result env check HealthTransientFail HealthSeverityError (Some native)
                        (ErrorForHealthStatus check HealthTransientFail category ''OpenCode probe failed''
                           (''exit_code='' @ itoa (pres_ExitCode result) @ '' stderr='' @ RedactString (po_Sample err))
                           (pres_Err result)) s2
                 else case probe_now env s2 of
                        (finished, s3) \<Rightarrow>
                          (\<lparr>hr_Check = check, hr_Status = HealthReady, hr_Severity = HealthSeverityInfo,
                            hr_UserDetail = readyDetail, hr_DebugDetail = [], hr_NativeMetadata = Some native, hr_Err = None,
                            hr_StartedAt = started, hr_FinishedAt = finished\<rparr>, s3)))"

definition probeMatched :: "HealthResult \<Rightarrow> string \<Rightarrow> bool" where
  "probeMatched result needle =
     (case gget (entries (hr_NativeMetadata result)) ''matches'' of
        GBoolMap ms \<Rightarrow> aget_or False ms (ToLower needle)
      | _ \<Rightarrow> False)"

text \<open>\<open>fmt.Sprint\<close> of a text is the text; a missing member is nil.\<close>

definition native_text :: "HealthResult \<Rightarrow> string \<Rightarrow> string" where
  "native_text result key =
     (case gget (entries (hr_NativeMetadata result)) key of GString s \<Rightarrow> s | _ \<Rightarrow> ''<nil>'')"

section \<open>Checks\<close>

definition check_structured :: "Runtime \<Rightarrow> health_env \<Rightarrow> HealthCheckRequest \<Rightarrow> HealthCheckID \<Rightarrow> probe_state \<Rightarrow> HealthResult \<times> probe_state" where
  "check_structured r env req check s =
     (case probeCommand r env check (hq_WorkDir req) [''run'', ''--help''] [''--format'', ''json''] ErrorHealth
             ''OpenCode run help is available'' s of
        (result, s1) \<Rightarrow>
          if hr_Status result \<noteq> HealthReady then (result, s1)
          else if \<not> probeMatched result ''--format'' \<or> \<not> probeMatched result ''json''
          then failed_result env check HealthUnrecoverable HealthSeverityError (hr_NativeMetadata result)
                 (ErrorForHealthStatus check HealthUnrecoverable ErrorHealth
                    ''OpenCode structured JSON output support was not detected''
                    (native_text result ''stdout'' @ [CHR 0x0A] @ native_text result ''stderr'') None) s1
          else (result, s1))"

definition check_workdir :: "health_env \<Rightarrow> HealthCheckRequest \<Rightarrow> HealthCheckID \<Rightarrow> probe_state \<Rightarrow> HealthResult \<times> probe_state" where
  "check_workdir env req check s =
     (let dir = hq_WorkDir req;
          invalid = (\<lambda>e. failed_result env check HealthUnrecoverable HealthSeverityError None
                           (NewError ErrorConfiguration ''opencode workdir'' ''working directory is invalid'' (Some e)
                              [WithDebugDetail dir]) s)
      in if dir = [] then healthResult env check HealthSkipped HealthSeverityInfo ''no working directory was provided'' [] None None s
         else case he_stat env dir of
                Inl e \<Rightarrow> invalid e
              | Inr isDir \<Rightarrow>
                  if \<not> isDir then invalid (EPlain ''workdir is not a directory'')
                  else healthResult env check HealthReady HealthSeverityInfo ''working directory is valid'' [] None None s)"

definition provider_line :: "string \<Rightarrow> string \<Rightarrow> string" where
  "provider_line output provider =
     (case find (\<lambda>l. Contains l provider) (Split (CHR 0x0A) output) of None \<Rightarrow> [] | Some l \<Rightarrow> l)"

definition check_provider :: "Runtime \<Rightarrow> health_env \<Rightarrow> HealthCheckRequest \<Rightarrow> HealthCheckID \<Rightarrow> probe_state \<Rightarrow> HealthResult \<times> probe_state" where
  "check_provider r env req check s =
     (if hq_Provider req = []
      then healthResult env check HealthSkipped HealthSeverityInfo ''no provider was requested'' [] None None s
      else let provider = ToLower (hq_Provider req)
           in case probeCommand r env check (hq_WorkDir req) [''providers'', ''list''] [provider] ErrorProviderUnavailable
                     ''OpenCode provider probe completed'' s of
                (result, s1) \<Rightarrow>
                  if hr_Status result \<noteq> HealthReady then (result, s1)
                  else let line = provider_line (ToLower (native_text result ''stdout'')) provider
                       in if line = [] \<and> \<not> probeMatched result provider
                          then failed_result env check HealthUnrecoverable HealthSeverityError (hr_NativeMetadata result)
                                 (ErrorForHealthStatus check HealthUnrecoverable ErrorProviderUnavailable
                                    ''requested provider was not found'' provider None) s1
                          else if check = HealthCheckAuthentication
                                  \<and> (line = [] \<or> \<not> Contains line ''auth'' \<and> \<not> Contains line ''login'' \<and> \<not> Contains line ''key'')
                          then healthResult env check HealthUnknown HealthSeverityWarn
                                 ''provider authentication readiness could not be proven without starting work'' []
                                 (hr_NativeMetadata result) None s1
                          else (result, s1))"

definition model_args :: "HealthCheckRequest \<Rightarrow> string list" where
  "model_args req = [''models'', hq_Provider req, ''--verbose''] @ (if hq_IncludeRefresh req then [''--refresh''] else [])"

definition check_model :: "Runtime \<Rightarrow> health_env \<Rightarrow> HealthCheckRequest \<Rightarrow> HealthCheckID \<Rightarrow> probe_state \<Rightarrow> HealthResult \<times> probe_state" where
  "check_model r env req check s =
     (if hq_Provider req = [] \<or> hq_Model req = []
      then healthResult env check HealthSkipped HealthSeverityInfo ''provider or model was not requested'' [] None None s
      else let model = ToLower (hq_Model req)
           in case probeCommand r env check (hq_WorkDir req) (model_args req) [model] ErrorModelUnavailable
                     ''OpenCode model probe completed'' s of
                (result, s1) \<Rightarrow>
                  if hr_Status result \<noteq> HealthReady then (result, s1)
                  else if \<not> Contains (ToLower (native_text result ''stdout'')) model \<and> \<not> probeMatched result model
                  then failed_result env check HealthUnrecoverable HealthSeverityError (hr_NativeMetadata result)
                         (ErrorForHealthStatus check HealthUnrecoverable ErrorModelUnavailable ''requested model was not found''
                            model None) s1
                  else (result, s1))"

definition runHealthCheck ::
  "Runtime \<Rightarrow> health_env \<Rightarrow> HealthCheckRequest \<Rightarrow> HealthCheckID \<Rightarrow> probe_state \<Rightarrow> HealthResult \<times> probe_state" where
  "runHealthCheck r env req check s =
     (let probe = (\<lambda>args category detail. probeCommand r env check (hq_WorkDir req) args [] category detail s)
      in if check = HealthCheckRuntimeAvailable
         then probe [''--version''] ErrorRuntimeUnavailable ''OpenCode executable is available''
         else if check = HealthCheckStructuredOutput then check_structured r env req check s
         else if check = HealthCheckWorkDir then check_workdir env req check s
         else if check = HealthCheckConfig
         then probe [''debug'', ''config''] ErrorHealth ''OpenCode configuration probe completed''
         else if check = HealthCheckRuntimePaths
         then probe [''debug'', ''paths''] ErrorHealth ''OpenCode paths probe completed''
         else if check = HealthCheckProvider \<or> check = HealthCheckAuthentication then check_provider r env req check s
         else if check = HealthCheckModel then check_model r env req check s
         else failed_result env check HealthUnsupported HealthSeverityWarn None
                (ErrorForHealthStatus check HealthUnsupported ErrorHealth ''health check is unsupported'' check None) s)"

section \<open>The report\<close>

definition SecretFromEnv :: "string \<Rightarrow> ConfigSource \<Rightarrow> SecretValue option" where
  "SecretFromEnv item source =
     (case Cut (CHR ''='') item of
        None \<Rightarrow> None
      | Some (name, v) \<Rightarrow>
          if secretName name then Some \<lparr>sec_Name = name, sec_Source = source, sec_Present = True\<rparr> else None)"

definition effectiveConfig :: "Runtime \<Rightarrow> HealthCheckRequest \<Rightarrow> EffectiveConfig" where
  "effectiveConfig r req =
     MergeEffectiveConfig ''opencode''
       [zero_ConfigLayer\<lparr>lay_Source := ConfigSourceDefault, lay_RuntimeName := Some ''opencode''\<rparr>,
        zero_ConfigLayer\<lparr>lay_Source := ConfigSourceAdapterOption, lay_Executable := Some (rt_executable r),
          lay_Secrets := List.map_filter (\<lambda>e. SecretFromEnv e ConfigSourceAdapterOption) (rt_env r)\<rparr>,
        zero_ConfigLayer\<lparr>lay_Source := ConfigSourceCallerRequest, lay_Metadata := RedactStringMap (hq_Metadata req),
          lay_Provider := nonzero [] (hq_Provider req), lay_Model := nonzero [] (hq_Model req),
          lay_WorkDir := nonzero [] (hq_WorkDir req), lay_Permissions := nonzero [] (hq_Permissions req),
          lay_Sandbox := nonzero [] (hq_Sandbox req), lay_Timeout := nonzero 0 (hq_Timeout req)\<rparr>]"

definition default_checks :: "HealthCheckID list" where
  "default_checks =
     [HealthCheckRuntimeAvailable, HealthCheckStructuredOutput, HealthCheckWorkDir, HealthCheckConfig,
      HealthCheckRuntimePaths, HealthCheckProvider, HealthCheckAuthentication, HealthCheckModel]"

definition requested_checks :: "HealthCheckRequest \<Rightarrow> HealthCheckID list" where
  "requested_checks req = (if hq_Checks req = [] then default_checks else hq_Checks req)"

text \<open>\<open>he_ctx env i\<close> is the state of the context before the \<open>i\<close>-th check.\<close>

fun check_loop ::
  "Runtime \<Rightarrow> health_env \<Rightarrow> HealthCheckRequest \<Rightarrow> nat \<Rightarrow> HealthCheckID list \<Rightarrow> probe_state \<Rightarrow> HealthResult list \<times> probe_state" where
  "check_loop r env req i [] s = ([], s)"
| "check_loop r env req i (check # checks) s =
     (case he_ctx env i of
        Some e \<Rightarrow>
          apfst (\<lambda>result. [result])
            (failed_result env check HealthTransientFail HealthSeverityError None
               (NewError ErrorTimeout ''opencode health'' ''OpenCode health check timed out'' (Some (ctx_go_error e)) []) s)
      | None \<Rightarrow>
          (case runHealthCheck r env req check s of
             (result, s1) \<Rightarrow> apfst ((#) result) (check_loop r env req (Suc i) checks s1)))"

definition health_context :: "HealthCheckRequest \<Rightarrow> HealthCheckRequest" where
  "health_context req =
     (let c = hq_Context req
      in req\<lparr>hq_Context := c
           \<lparr>ctx_RuntimeKind := (if ctx_RuntimeKind c = [] then ''opencode'' else ctx_RuntimeKind c),
            ctx_RuntimeName := (if ctx_RuntimeName c = [] then ''opencode'' else ctx_RuntimeName c),
            ctx_Provider := (if hq_Provider req \<noteq> [] then hq_Provider req else ctx_Provider c),
            ctx_Model := (if hq_Model req \<noteq> [] then hq_Model req else ctx_Model c)\<rparr>\<rparr>)"

definition CheckHealth ::
  "Runtime \<Rightarrow> health_env \<Rightarrow> HealthCheckRequest \<Rightarrow> probe_state \<Rightarrow> (HealthReport \<times> SDKError option) \<times> probe_state" where
  "CheckHealth r env req0 s =
     (let req = health_context req0;
          (now, s1) = probe_now env s;
          report = \<lparr>rep_Context = hq_Context req, rep_EffectiveConfig = effectiveConfig r req, rep_Results = [],
                    rep_OverallStatus = HealthStatusOther [], rep_GeneratedAt = now,
                    rep_NativeMetadata = Some [(''env'',
                      gget (entries (RedactMetadata (Some [(''values'', GString (Join (RedactEnv (rt_env r)) [CHR 0x0A]))]))) ''values'')]\<rparr>
      in case createProcessTempDir (he_temp env) (aget_or [] (entries (hq_Metadata req)) MetadataTempRoot) of
           Inl e \<Rightarrow> ((report, Some e), s1)
         | Inr tempDir \<Rightarrow>
             (case ValidateEffectiveConfig (rep_EffectiveConfig report) of
                Some e \<Rightarrow>
                  (case failed_result env HealthCheckConfig HealthUnrecoverable HealthSeverityError None e s1 of
                     (result, s2) \<Rightarrow> ((AggregateHealth (report\<lparr>rep_Results := [result]\<rparr>), None), s2))
              | None \<Rightarrow>
                  (case check_loop (r\<lparr>rt_env := temp_vars tempDir (rt_env r)\<rparr>) env req 0
                          (requested_checks req) s1 of
                     (results, s2) \<Rightarrow> ((AggregateHealth (report\<lparr>rep_Results := results\<rparr>), None), s2))))"

section \<open>What a probe finds\<close>

lemma tail_of_start: "tail_of m [] []"
  by (simp add: tail_of_def)

lemma scan_matches:
  "aget_or False (snd (scanProbeOutput sample chunks needles [])) k \<longleftrightarrow>
     k \<in> set (lower_needles needles) \<and> Contains (ToLower (concat chunks)) k"
proof -
  have nonempty: "k \<in> set (lower_needles needles) \<Longrightarrow> k \<noteq> []" by (simp add: lower_needles_def)
  show ?thesis
    using scan_chunks_matches [OF tail_of_start, of "lower_needles needles" "max_needle (lower_needles needles)" k "[]" sample chunks]
      max_needle_ge nonempty
    by (auto simp: scanProbeOutput_def Let_def aget_or_def)
qed

lemma readProbeOutput_Sample: "po_Sample (readProbeOutput limit chunks needles) = take (nat limit) (concat chunks)"
proof (cases "limit \<le> 0")
  case False
  obtain b ms where b: "scanProbeOutput (newLimitBuffer limit) chunks needles [] = (b, ms)" by fastforce
  then have "b = captureStderr (newLimitBuffer limit) chunks"
    using scan_chunks_sample by (metis fst_conv scanProbeOutput_def)
  with False b captured_prefix show ?thesis by (simp add: readProbeOutput_def)
qed (simp add: readProbeOutput_def)

lemma readProbeOutput_Matches:
  "aget_or False (po_Matches (readProbeOutput limit chunks needles)) k \<longleftrightarrow>
     k \<in> set (lower_needles needles) \<and> Contains (ToLower (concat chunks)) k"
  using scan_matches by (auto simp: readProbeOutput_def split: prod.splits) (metis snd_conv)+

lemma merge_part_get: "aget_or False (merge_part ms part) k \<longleftrightarrow> aget_or False ms k \<or> (k, True) \<in> set part"
proof (induction part arbitrary: ms)
  case (Cons kv part)
  obtain a b where kv: "kv = (a, b)" by fastforce
  have "merge_part ms (kv # part) = merge_part (aput a (aget_or False ms a \<or> b) ms) part"
    by (simp add: merge_part_def kv)
  then show ?case by (simp only: Cons.IH aget_or_aput) (auto simp: kv)
qed (simp add: merge_part_def)

text \<open>A scan only ever stores matches that were found.\<close>

lemma set_aput: "set (aput k v m) \<subseteq> insert (k, v) (set m)"
  by (induction m) auto

lemma mark_matches_true: "list_all snd ms \<Longrightarrow> list_all snd (mark_matches w ns ms)"
proof (induction ns arbitrary: ms)
  case (Cons n ns)
  then have "list_all snd (aput n True ms)" using set_aput [of n True ms] by (auto simp: list_all_iff)
  with Cons show ?case by (simp add: mark_matches_def)
qed (simp add: mark_matches_def)

lemma scan_chunks_true: "list_all snd ms \<Longrightarrow> list_all snd (snd (scan_chunks ns m sample ms tail chunks))"
  by (induction chunks arbitrary: sample ms tail) (simp_all add: Let_def mark_matches_true)

lemma true_matches: "list_all snd ms \<Longrightarrow> (k, True) \<in> set ms \<longleftrightarrow> aget_or False ms k"
  by (induction ms) (auto simp: aget_or_def split: option.splits)

lemma readProbeOutput_true: "list_all snd (po_Matches (readProbeOutput limit chunks needles))"
  using scan_chunks_true [of "[]"] by (auto simp: readProbeOutput_def scanProbeOutput_def Let_def split: prod.splits) (metis snd_conv)+

lemma merged_matches:
  "aget_or False (mergeProbeMatches [po_Matches (readProbeOutput limit outs needles), po_Matches (readProbeOutput limit errs needles)]) k \<longleftrightarrow>
     k \<in> set (lower_needles needles) \<and> (Contains (ToLower (concat outs)) k \<or> Contains (ToLower (concat errs)) k)"
  using readProbeOutput_Matches true_matches [OF readProbeOutput_true]
  by (auto simp: mergeProbeMatches_def merge_part_get)

section \<open>Outcomes of a check\<close>

lemma healthResult_simps [simp]:
  "hr_Status (fst (healthResult env c st sv ud dd nm e s)) = st" "hr_Check (fst (healthResult env c st sv ud dd nm e s)) = c"
  "pb_starts (snd (healthResult env c st sv ud dd nm e s)) = pb_starts s"
  by (simp_all add: healthResult_def probe_now_def)

lemma failed_result_simps [simp]:
  "hr_Status (fst (failed_result env c st sv nm e s)) = st" "hr_Check (fst (failed_result env c st sv nm e s)) = c"
  "pb_starts (snd (failed_result env c st sv nm e s)) = pb_starts s"
  by (simp_all add: failed_result_def)

text \<open>The process a probe asks for.\<close>

definition probe_spec :: "Runtime \<Rightarrow> string \<Rightarrow> string list \<Rightarrow> processSpec" where
  "probe_spec r workDir args =
     \<lparr>ps_Executable = rt_executable r, ps_Args = args, ps_Env = rt_env r, ps_WorkDir = workDir, ps_Stdin = []\<rparr>"

lemma probeCommand_keeps:
  "hr_Check (fst (probeCommand r env c wd args ns cat d s)) = c"
  "pb_starts (snd (probeCommand r env c wd args ns cat d s)) = pb_starts s @ [probe_spec r wd args]"
  by (simp_all add: probeCommand_def probe_now_def probe_spec_def Let_def split: probe_start.split)

lemma probeCommand_failed:
  "he_start env (length (pb_starts s)) (probe_spec r wd args) = ProbeFailed e \<Longrightarrow>
     hr_Status (fst (probeCommand r env c wd args ns cat d s)) = HealthUnrecoverable"
  by (simp add: probeCommand_def probe_now_def probe_spec_def Let_def)

lemma probeCommand_exit:
  "he_start env (length (pb_starts s)) (probe_spec r wd args) = ProbeStarted outs errs result \<Longrightarrow>
     hr_Status (fst (probeCommand r env c wd args ns cat d s)) =
       (if pres_Err result \<noteq> None \<or> pres_ExitCode result \<noteq> 0 then HealthTransientFail else HealthReady)"
  by (simp add: probeCommand_def probe_now_def probe_spec_def Let_def)

lemma probeCommand_ready:
  assumes "he_start env (length (pb_starts s)) (probe_spec r wd args) = ProbeStarted outs errs result"
    and "pres_Err result = None" "pres_ExitCode result = 0"
  shows "native_text (fst (probeCommand r env c wd args ns cat d s)) ''stdout'' =
      RedactString (take (nat (rt_stderrLimit r)) (concat outs))"
    and "probeMatched (fst (probeCommand r env c wd args ns cat d s)) n \<longleftrightarrow>
      ToLower n \<in> set (lower_needles ns) \<and> (Contains (ToLower (concat outs)) (ToLower n) \<or> Contains (ToLower (concat errs)) (ToLower n))"
  using assms
  by (simp_all add: probeCommand_def probe_now_def probe_spec_def native_text_def probeMatched_def probe_native_def
      aget_or_def [of GNil] readProbeOutput_Sample merged_matches Let_def)

section \<open>Probes start no work\<close>

definition read_only :: "Runtime \<Rightarrow> HealthCheckRequest \<Rightarrow> processSpec \<Rightarrow> bool" where
  "read_only r req spec \<longleftrightarrow>
     ps_Executable spec = rt_executable r \<and> ps_WorkDir spec = hq_WorkDir req \<and> ps_Stdin spec = []
     \<and> ps_Args spec \<in> {[''--version''], [''run'', ''--help''], [''debug'', ''config''], [''debug'', ''paths''],
                        [''providers'', ''list''], model_args req}"

text \<open>The processes a check adds to the ones that were asked for.\<close>

definition adds_probes :: "Runtime \<Rightarrow> HealthCheckRequest \<Rightarrow> probe_state \<Rightarrow> probe_state \<Rightarrow> bool" where
  "adds_probes r req s s' \<longleftrightarrow> (\<exists>specs. pb_starts s' = pb_starts s @ specs \<and> list_all (read_only r req) specs)"

lemma adds_probes_same [simp]: "pb_starts s' = pb_starts s \<Longrightarrow> adds_probes r req s s'"
  by (simp add: adds_probes_def)

lemma adds_probes_trans: "adds_probes r req s t \<Longrightarrow> adds_probes r req t u \<Longrightarrow> adds_probes r req s u"
  unfolding adds_probes_def by (metis append.assoc list_all_append)

lemma adds_probe:
  "args \<in> {[''--version''], [''run'', ''--help''], [''debug'', ''config''], [''debug'', ''paths''], [''providers'', ''list''], model_args req}
    \<Longrightarrow> pb_starts s' = pb_starts s @ [probe_spec r (hq_WorkDir req) args] \<Longrightarrow> adds_probes r req s s'"
  by (auto simp: adds_probes_def read_only_def probe_spec_def)

lemma check_structured_keeps:
  "hr_Check (fst (check_structured r env req c s)) = c" "adds_probes r req s (snd (check_structured r env req c s))"
proof -
  show "hr_Check (fst (check_structured r env req c s)) = c"
    by (simp add: check_structured_def case_prod_beta probeCommand_keeps)
  show "adds_probes r req s (snd (check_structured r env req c s))"
    by (rule adds_probe [of "[''run'', ''--help'']"]) (simp_all add: check_structured_def case_prod_beta probeCommand_keeps)
qed

lemma check_workdir_keeps:
  "hr_Check (fst (check_workdir env req c s)) = c" "adds_probes r req s (snd (check_workdir env req c s))"
  by (simp_all add: check_workdir_def Let_def split: sum.split)

lemma check_provider_keeps:
  "hr_Check (fst (check_provider r env req c s)) = c" "adds_probes r req s (snd (check_provider r env req c s))"
proof -
  show "hr_Check (fst (check_provider r env req c s)) = c"
    by (simp add: check_provider_def case_prod_beta probeCommand_keeps Let_def)
  show "adds_probes r req s (snd (check_provider r env req c s))"
  proof (cases "hq_Provider req = []")
    case False
    then show ?thesis
      by (intro adds_probe [of "[''providers'', ''list'']"]) (simp_all add: check_provider_def case_prod_beta probeCommand_keeps Let_def)
  qed (simp add: check_provider_def)
qed

lemma check_model_keeps:
  "hr_Check (fst (check_model r env req c s)) = c" "adds_probes r req s (snd (check_model r env req c s))"
proof -
  show "hr_Check (fst (check_model r env req c s)) = c"
    by (simp add: check_model_def case_prod_beta probeCommand_keeps Let_def)
  show "adds_probes r req s (snd (check_model r env req c s))"
  proof (cases "hq_Provider req = [] \<or> hq_Model req = []")
    case False
    then show ?thesis
      by (intro adds_probe [of "model_args req"]) (simp_all add: check_model_def case_prod_beta probeCommand_keeps Let_def)
  qed (simp add: check_model_def)
qed

lemmas check_keeps = check_structured_keeps check_workdir_keeps check_provider_keeps check_model_keeps

lemma runHealthCheck_probes: "adds_probes r req s (snd (runHealthCheck r env req check s))"
proof -
  have probe: "adds_probes r req s (snd (probeCommand r env c (hq_WorkDir req) args [] cat d s))"
    if "args \<in> {[''--version''], [''debug'', ''config''], [''debug'', ''paths'']}" for c args cat d
    by (rule adds_probe [of args]) (use that in \<open>auto simp: probeCommand_keeps\<close>)
  show ?thesis unfolding runHealthCheck_def Let_def by (simp add: check_keeps probe)
qed

lemma runHealthCheck_Check: "hr_Check (fst (runHealthCheck r env req check s)) = check"
  unfolding runHealthCheck_def Let_def by (simp add: check_keeps probeCommand_keeps)

lemma check_loop_results:
  assumes "check_loop r env req i checks s = (results, s')"
  shows "map hr_Check results = take (length results) checks \<and> adds_probes r req s s'
    \<and> length results \<le> length checks
    \<and> (length results = length checks \<or> he_ctx env (i + length results - 1) \<noteq> None)"
  using assms
proof (induction checks arbitrary: i s results s')
  case (Cons c cs)
  show ?case
  proof (cases "he_ctx env i")
    case None
    obtain res s1 where run: "runHealthCheck r env req c s = (res, s1)" by fastforce
    obtain rs where rest: "check_loop r env req (Suc i) cs s1 = (rs, s')" and rs: "results = res # rs"
      using Cons.prems None run by (auto simp: apfst_def map_prod_def split: prod.splits)
    have one: "hr_Check res = c" "adds_probes r req s s1"
      using runHealthCheck_Check [of r env req c s] runHealthCheck_probes [of r req s env c] run by simp_all
    show ?thesis using Cons.IH [OF rest] one adds_probes_trans by (auto simp: rs)
  next
    case (Some e)
    with Cons.prems show ?thesis
      by (auto simp: apfst_def map_prod_def split: prod.splits) (metis failed_result_simps fst_conv snd_conv adds_probes_same)+
  qed
qed simp

section \<open>Properties\<close>


text \<open>
  A model is reported as ready exactly when the listing exits cleanly and names it, in either
  stream at any position; a listing that cannot start or does not name it is unrecoverable and one
  that fails is transient.
\<close>

theorem model_check_exact:
  "hr_Status (fst (runHealthCheck r env req HealthCheckModel s)) =
     (if hq_Provider req = [] \<or> hq_Model req = [] then HealthSkipped
      else case he_start env (length (pb_starts s)) (probe_spec r (hq_WorkDir req) (model_args req)) of
             ProbeFailed e \<Rightarrow> HealthUnrecoverable
           | ProbeStarted outs errs result \<Rightarrow>
               (let model = ToLower (hq_Model req)
                in if pres_Err result = None \<and> pres_ExitCode result = 0
                   then (if Contains (ToLower (concat outs)) model \<or> Contains (ToLower (concat errs)) model
                            \<or> Contains (ToLower (RedactString (take (nat (rt_stderrLimit r)) (concat outs)))) model
                         then HealthReady else HealthUnrecoverable)
                   else HealthTransientFail))"
proof (cases "hq_Provider req = [] \<or> hq_Model req = []")
  case True
  then show ?thesis by (simp add: runHealthCheck_def check_model_def)
next
  case False
  let ?m = "ToLower (hq_Model req)"
  let ?probe = "probeCommand r env HealthCheckModel (hq_WorkDir req) (model_args req) [?m] ErrorModelUnavailable
                  ''OpenCode model probe completed'' s"
  obtain res s1 where p: "?probe = (res, s1)" by fastforce
  have run: "hr_Status (fst (runHealthCheck r env req HealthCheckModel s)) =
      (if hr_Status res \<noteq> HealthReady then hr_Status res
       else if \<not> Contains (ToLower (native_text res ''stdout'')) ?m \<and> \<not> probeMatched res ?m then HealthUnrecoverable
       else HealthReady)"
    using False by (simp add: runHealthCheck_def check_model_def p Let_def)
  have needle: "?m \<in> set (lower_needles [?m])" using False by (simp add: lower_needles_def) (simp add: ToLower_def)
  show ?thesis
  proof (cases "he_start env (length (pb_starts s)) (probe_spec r (hq_WorkDir req) (model_args req))")
    case (ProbeFailed e)
    with probeCommand_failed [OF ProbeFailed] p have "hr_Status res = HealthUnrecoverable" by (metis fst_conv)
    with run False ProbeFailed show ?thesis by simp
  next
    case (ProbeStarted outs errs result)
    have st: "hr_Status res = (if pres_Err result \<noteq> None \<or> pres_ExitCode result \<noteq> 0 then HealthTransientFail else HealthReady)"
      using probeCommand_exit [OF ProbeStarted] p by (metis fst_conv)
    show ?thesis
    proof (cases "pres_Err result = None \<and> pres_ExitCode result = 0")
      case True
      have out: "native_text res ''stdout'' = RedactString (take (nat (rt_stderrLimit r)) (concat outs))"
        using probeCommand_ready(1) [OF ProbeStarted] True p by (metis fst_conv)
      have "probeMatched res ?m \<longleftrightarrow> ToLower ?m \<in> set (lower_needles [?m])
          \<and> (Contains (ToLower (concat outs)) (ToLower ?m) \<or> Contains (ToLower (concat errs)) (ToLower ?m))"
        using probeCommand_ready(2) [OF ProbeStarted] True p by (metis fst_conv)
      then have "probeMatched res ?m \<longleftrightarrow> Contains (ToLower (concat outs)) ?m \<or> Contains (ToLower (concat errs)) ?m"
        using needle by simp
      with run st out True False ProbeStarted show ?thesis by (auto simp: Let_def)
    next
      case bad: False
      with run st False ProbeStarted show ?thesis by (auto simp: Let_def)
    qed
  qed
qed

text \<open>
  C38. A health check starts no work: every process it asks for is one of the fixed read-only commands
  of the configured executable, with no input. Its report holds a result for every check that was
  asked for, in order, up to the one at which the context ended, and its overall status is theirs;
  an invalid configuration is the only result, and an error leaves the report without results.
\<close>

theorem health_report_exact:
  "case CheckHealth r env req s of
     ((report, err), s') \<Rightarrow>
       prefix (pb_starts s) (pb_starts s')
       \<and> list_all (read_only r req) (drop (length (pb_starts s)) (pb_starts s'))
       \<and> (case err of
            Some e \<Rightarrow> rep_Results report = []
          | None \<Rightarrow>
              (let checks = requested_checks req; n = length (rep_Results report)
               in rep_OverallStatus report = OverallHealthStatus (rep_Results report)
                  \<and> (if ValidateEffectiveConfig (rep_EffectiveConfig report) = None
                     then map hr_Check (rep_Results report) = take n checks
                          \<and> (if n = length checks then True else he_ctx env (n - 1) \<noteq> None)
                     else map hr_Check (rep_Results report) = [HealthCheckConfig])))"
proof -
  have ctx: "requested_checks (health_context req) = requested_checks req" "read_only r' (health_context req) = read_only r' req" for r'
    by (simp_all add: health_context_def read_only_def model_args_def requested_checks_def Let_def fun_eq_iff)
  have env: "read_only (r\<lparr>rt_env := e\<rparr>) req = read_only r req" for e
    by (simp add: read_only_def fun_eq_iff)
  have loop: "case check_loop (r\<lparr>rt_env := e\<rparr>) env (health_context req) 0 checks t of
      (results, s2) \<Rightarrow> prefix (pb_starts t) (pb_starts s2)
        \<and> list_all (read_only r req) (drop (length (pb_starts t)) (pb_starts s2))
        \<and> map hr_Check results = take (length results) checks
        \<and> (if length results = length checks then True else he_ctx env (length results - 1) \<noteq> None)" for e checks t
    using check_loop_results [of "r\<lparr>rt_env := e\<rparr>" env "health_context req" 0 checks t]
    by (auto simp: adds_probes_def ctx env split: prod.split)
  let ?s1 = "s\<lparr>pb_ticks := Suc (pb_ticks s)\<rparr>" and ?checks = "requested_checks req"
  let ?temp = "createProcessTempDir (he_temp env) (aget_or [] (entries (hq_Metadata (health_context req))) MetadataTempRoot)"
  let ?valid = "ValidateEffectiveConfig (effectiveConfig r (health_context req))"
  show ?thesis
  proof (cases "\<exists>dir. ?temp = Inr dir \<and> ?valid = None")
    case True
    then obtain dir where dir: "?temp = Inr dir" "?valid = None" by blast
    obtain results s2 where l: "check_loop (r\<lparr>rt_env := temp_vars dir (rt_env r)\<rparr>) env (health_context req) 0 ?checks ?s1 = (results, s2)"
      by fastforce
    have "CheckHealth r env req s = ((AggregateHealth
        \<lparr>rep_Context = hq_Context (health_context req), rep_EffectiveConfig = effectiveConfig r (health_context req),
         rep_Results = results, rep_OverallStatus = HealthStatusOther [], rep_GeneratedAt = he_now env (pb_ticks s),
         rep_NativeMetadata = Some [(''env'', gget (entries (RedactMetadata (Some [(''values'', GString (Join (RedactEnv (rt_env r)) [CHR 0x0A]))]))) ''values'')]\<rparr>,
        None), s2)"
      using dir l by (simp add: CheckHealth_def probe_now_def ctx Let_def)
    with loop [where e = "temp_vars dir (rt_env r)" and checks = ?checks and t = ?s1] l dir(2) show ?thesis
      by (auto simp: AggregateHealth_def Let_def)
  next
    case False
    then show ?thesis
      by (auto simp: CheckHealth_def probe_now_def AggregateHealth_def case_prod_beta Let_def split: sum.split option.split)
  qed
qed

end
