(* ===== verification/Cache.thy ===== *)
theory Cache
  imports Encoding Model Strconv
begin

text \<open>
  Prompt cache directives (\<^verbatim>\<open>cache.go\<close>): the validation of a directive against the exact bytes of
  the prompt, and the promotion of the legacy metadata keys to the typed directive. The directive
  itself and its test \<open>Enabled\<close> are in \<^verbatim>\<open>Model.thy\<close>, with the request that carries it.
\<close>

section \<open>The operations\<close>

abbreviation MetadataPromptCacheKey :: string where
  "MetadataPromptCacheKey \<equiv> ''prompt_cache_key''"
abbreviation MetadataPromptCacheBreakpointBytes :: string where
  "MetadataPromptCacheBreakpointBytes \<equiv> ''prompt_cache_breakpoint_bytes''"
abbreviation MetadataPromptCachePrefixSHA256 :: string where
  "MetadataPromptCachePrefixSHA256 \<equiv> ''prompt_cache_prefix_sha256''"
abbreviation MetadataPromptCacheMode :: string where
  "MetadataPromptCacheMode \<equiv> ''prompt_cache_mode''"

definition promptCacheValidationError :: "string \<Rightarrow> SDKError" where
  "promptCacheValidationError detail =
     NewError ErrorConfiguration ''prompt cache directive'' detail (Some (EPlain detail)) []"

definition ValidatePromptCacheDirective :: "string \<Rightarrow> PromptCacheDirective \<Rightarrow> SDKError option" where
  "ValidatePromptCacheDirective prompt directive =
     (if \<not> Enabled directive then None
      else if TrimSpace (pc_Key directive) = [] then Some (promptCacheValidationError ''cache key is required'')
      else if TrimSpace (pc_Mode directive) = [] then Some (promptCacheValidationError ''cache mode is required'')
      else if pc_BreakpointBytes directive \<le> 0
        then Some (promptCacheValidationError ''cache breakpoint must be greater than zero'')
      else if pc_BreakpointBytes directive > int (length prompt)
        then Some (promptCacheValidationError ''cache breakpoint exceeds prompt length'')
      else
        (let digest = ToLower (TrimSpace (pc_PrefixSHA256 directive));
             want = sha256 (take (nat (pc_BreakpointBytes directive)) prompt)
         in case hex_decode digest of
              None \<Rightarrow> Some (promptCacheValidationError
                ''cache prefix SHA-256 must contain 64 hexadecimal characters'')
            | Some decoded \<Rightarrow>
                if length decoded \<noteq> 32 then Some (promptCacheValidationError
                  ''cache prefix SHA-256 must contain 64 hexadecimal characters'')
                else if digest \<noteq> hex_encode want
                  then Some (promptCacheValidationError ''cache prefix SHA-256 does not match prompt bytes'')
                else None))"

definition PromptCacheKeySHA256 :: "string \<Rightarrow> string" where
  "PromptCacheKeySHA256 key = hex_encode (sha256 key)"

text \<open>The three results: the directive, whether one was found, and the error.\<close>

definition PromptCacheDirectiveFromMetadata ::
  "string smap option \<Rightarrow> PromptCacheDirective \<times> bool \<times> SDKError option" where
  "PromptCacheDirectiveFromMetadata metadata =
     (let look = (\<lambda>k. TrimSpace (aget_or [] (entries metadata) k));
          key = look MetadataPromptCacheKey;
          breakpoint = look MetadataPromptCacheBreakpointBytes;
          digest = look MetadataPromptCachePrefixSHA256;
          mode = look MetadataPromptCacheMode
      in if key = [] \<and> breakpoint = [] \<and> digest = [] \<and> mode = [] then (zero_PromptCacheDirective, False, None)
         else case Atoi breakpoint of
                None \<Rightarrow> (zero_PromptCacheDirective, True,
                  Some (promptCacheValidationError ''cache breakpoint metadata must be an integer''))
              | Some v \<Rightarrow>
                  (\<lparr>pc_Key = key, pc_BreakpointBytes = v, pc_PrefixSHA256 = digest, pc_Mode = mode,
                    pc_RequireNative = False\<rparr>, True, None))"

section \<open>The contract of a directive\<close>

text \<open>What a caller promises: a key, a mode, and the digest of a non-empty prefix of the prompt.\<close>

definition directive_ok :: "string \<Rightarrow> PromptCacheDirective \<Rightarrow> bool" where
  "directive_ok prompt d \<longleftrightarrow>
     TrimSpace (pc_Key d) \<noteq> [] \<and> TrimSpace (pc_Mode d) \<noteq> []
     \<and> 0 < pc_BreakpointBytes d \<and> pc_BreakpointBytes d \<le> int (length prompt)
     \<and> ToLower (TrimSpace (pc_PrefixSHA256 d)) = hex_encode (sha256 (take (nat (pc_BreakpointBytes d)) prompt))"

lemma ValidatePromptCacheDirective_None_iff:
  "ValidatePromptCacheDirective prompt d = None \<longleftrightarrow> \<not> Enabled d \<or> directive_ok prompt d"
  by (auto simp: ValidatePromptCacheDirective_def directive_ok_def Let_def split: option.splits)

lemma promptCacheValidationError_category [simp]:
  "err_Category (promptCacheValidationError detail) = ErrorConfiguration"
  by (simp add: promptCacheValidationError_def)

lemma ValidatePromptCacheDirective_Some:
  "ValidatePromptCacheDirective prompt d = Some e \<Longrightarrow> err_Category e = ErrorConfiguration"
  by (auto simp: ValidatePromptCacheDirective_def Let_def split: if_splits option.splits)

text \<open>The metadata a caller of the legacy transport writes for a directive.\<close>

definition directive_metadata :: "PromptCacheDirective \<Rightarrow> string smap" where
  "directive_metadata d =
     [(MetadataPromptCacheKey, pc_Key d), (MetadataPromptCacheBreakpointBytes, itoa (pc_BreakpointBytes d)),
      (MetadataPromptCachePrefixSHA256, pc_PrefixSHA256 d), (MetadataPromptCacheMode, pc_Mode d)]"

lemma itoa_not_Nil [simp]: "itoa i \<noteq> []"
  by (simp add: itoa_def)

section \<open>Properties\<close>

text \<open>
  C25. A directive is accepted exactly when none was requested or it is well-formed and its digest is
  the SHA-256 of the first \<open>BreakpointBytes\<close> bytes of the prompt as they are; every refusal is a
  configuration error.
\<close>

theorem prompt_cache_directive_exact:
  "case ValidatePromptCacheDirective prompt d of
     None \<Rightarrow> (if Enabled d then directive_ok prompt d else True)
   | Some e \<Rightarrow> Enabled d \<and> \<not> directive_ok prompt d \<and> err_Category e = ErrorConfiguration"
  using ValidatePromptCacheDirective_None_iff [of prompt d] ValidatePromptCacheDirective_Some [of prompt d]
  by (cases "ValidatePromptCacheDirective prompt d") auto

text \<open>
  The legacy transport loses nothing: the metadata written for a directive with trimmed fields
  and a breakpoint of 64 bits reads back as that directive, without the native requirement.
\<close>

theorem prompt_cache_metadata_roundtrip:
  assumes "TrimSpace (pc_Key d) = pc_Key d" and "TrimSpace (pc_PrefixSHA256 d) = pc_PrefixSHA256 d"
    and "TrimSpace (pc_Mode d) = pc_Mode d"
    and "minInt64 \<le> pc_BreakpointBytes d" and "pc_BreakpointBytes d \<le> maxInt64"
  shows "PromptCacheDirectiveFromMetadata (Some (directive_metadata d))
      = (d\<lparr>pc_RequireNative := False\<rparr>, True, None)"
  using assms
  by (simp add: PromptCacheDirectiveFromMetadata_def directive_metadata_def aget_or_def entries_def Let_def)

definition sample_directive :: PromptCacheDirective where
  "sample_directive =
     \<lparr>pc_Key = ''k'', pc_BreakpointBytes = 12, pc_PrefixSHA256 = ''ab'', pc_Mode = ''ephemeral'',
      pc_RequireNative = False\<rparr>"

theorem prompt_cache_metadata_roundtrip_witness:
  "PromptCacheDirectiveFromMetadata (Some (directive_metadata sample_directive)) = (sample_directive, True, None)"
proof -
  have "TrimSpace ''k'' = ''k''" "TrimSpace ''ab'' = ''ab''" "TrimSpace ''ephemeral'' = ''ephemeral''"
    by (rule TrimSpace_solid; simp add: solid_def)+
  then show ?thesis
    using prompt_cache_metadata_roundtrip [of sample_directive]
    by (simp add: sample_directive_def minInt64_def maxInt64_def)
qed

end
