(* ===== verification/OpencodeRun.thy ===== *)
theory OpencodeRun
  imports OpencodeDB Process Validation Cache
begin

text \<open>
  One run of the OpenCode adapter (\<^verbatim>\<open>opencode/runtime.go\<close>): the state of the run handle, the events it
  emits, the handling of one native record, cleanup and the logs. The goroutines of a run share this
  state; every function here is what one of them does. \<open>oc_env\<close> holds what the run meets from outside:
  the clock, room in the event channel, the context, the process, the database and the log files, each
  indexed by how often it was used.
\<close>

section \<open>State\<close>

text \<open>What a look at the log directories finds: the two environment values, the entries of a
  directory (name, whether a directory, modification time), and file contents.\<close>

record log_view =
  lv_xdg :: string
  lv_home :: string
  lv_dir :: "string \<Rightarrow> (string \<times> bool \<times> gtime option) list option"
  lv_file :: "string \<Rightarrow> string option"

record oc_env =
  oe_now :: "nat \<Rightarrow> gtime"
  oe_room :: "nat \<Rightarrow> bool"
  oe_deliver :: "nat \<Rightarrow> ctx_error option"
  oe_line_ctx :: "nat \<Rightarrow> ctx_error option"
  oe_end_ctx :: "ctx_error option"
  oe_stdout :: string
  oe_readErr :: "go_error option"
  oe_stderr :: "string list"
  oe_exit :: processResult
  oe_cancelErr :: "go_error option"
  oe_tempErr :: "string option"
  oe_db :: "(nat \<Rightarrow> SessionID \<Rightarrow> gtime \<Rightarrow> string \<times> go_error option) option"
  oe_rates :: "(RateTable \<times> RatesInfo \<times> go_error option) option"
  oe_logs :: "nat \<Rightarrow> log_view"
  oe_rate :: rate_env
  oe_jerr :: "string \<Rightarrow> go_error"
  oe_durString :: "duration \<Rightarrow> string"

record oc_run =
  oc_id :: RunID
  oc_req :: RunRequest
  oc_context :: RuntimeContext
  oc_started :: gtime
  oc_finished :: gtime
  oc_lifecycle :: RunStatus
  oc_seq :: int
  oc_sawFinal :: bool
  oc_sawIdle :: bool
  oc_sawOutput :: bool
  oc_sessionID :: SessionID
  oc_artifacts :: "ArtifactRef list"
  oc_warnings :: "string list"
  oc_usage :: Usage
  oc_rateLimit :: "RateLimitInfo option"
  oc_liveRateLimitKey :: string
  oc_permissions :: PermissionMetadata
  oc_nativeTypes :: "(string \<times> int) list"
  oc_categories :: "(string \<times> int) list"
  oc_postFinalDecodeErr :: string
  oc_finishReason :: string
  oc_terminalEvidence :: string
  oc_terminalOutput :: string
  oc_stderrBuffer :: limitBuffer
  oc_tempDir :: string
  oc_logOffsets :: "(string \<times> int) list"
  oc_cleanup :: "CleanupMetadata option"
  oc_events :: "Event list"
  oc_cancels :: nat
  oc_ticks :: nat
  oc_locals :: nat
  oc_sends :: nat
  oc_queries :: nat
  oc_looks :: nat

definition oc_now :: "oc_env \<Rightarrow> oc_run \<Rightarrow> gtime \<times> oc_run" where
  "oc_now env s = (oe_now env (oc_ticks s), s\<lparr>oc_ticks := Suc (oc_ticks s)\<rparr>)"

section \<open>Sequence numbers, lifecycle, session\<close>

definition nextSequence :: "oc_run \<Rightarrow> int \<times> oc_run" where
  "nextSequence s = (oc_seq s + 1, s\<lparr>oc_seq := oc_seq s + 1\<rparr>)"

definition transitionLifecycle :: "RunStatus \<Rightarrow> oc_run \<Rightarrow> (int \<times> RunStatus) option \<times> oc_run" where
  "transitionLifecycle to s =
     (let from = oc_lifecycle s
      in if from = to \<or> Terminal from then (None, s)
         else (Some (oc_seq s + 1, from), s\<lparr>oc_seq := oc_seq s + 1, oc_lifecycle := to\<rparr>))"

definition updateSessionID :: "SessionID \<Rightarrow> oc_run \<Rightarrow> bool \<times> oc_run" where
  "updateSessionID sessionID s =
     (if sessionID = [] \<or> oc_sessionID s = sessionID then (False, s) else (True, s\<lparr>oc_sessionID := sessionID\<rparr>))"

definition observedSessionID :: "nativeRecord \<Rightarrow> SessionID" where
  "observedSessionID r =
     firstSessionID [nr_SessionID r, stringValue (gget (nr_Data r) ''sessionID''),
                     propertiesStringValue (nr_Data r) ''sessionID'', stringValue (gget (nr_Data r) ''session_id'')]"

definition sessionMetadata :: "RunRequest \<Rightarrow> SessionID \<Rightarrow> SessionMetadata" where
  "sessionMetadata req observedID =
     (let action = (if req_SessionAction req = SessionActionDefault
                    then (if req_SessionID req \<noteq> [] then SessionActionContinue
                          else if req_WantSession req then SessionActionFresh else SessionActionDefault)
                    else req_SessionAction req);
          md = zero_SessionMetadata
                 \<lparr>ses_ID := firstSessionID [observedID, req_SessionID req], ses_RequestedID := req_SessionID req,
                  ses_RequestedAction := action, ses_Retained := req_WantSession req \<or> req_SessionID req \<noteq> []\<rparr>
      in case action of
           SessionActionFresh \<Rightarrow> md\<lparr>ses_Relationship := SessionRelationshipFresh\<rparr>
         | SessionActionContinue \<Rightarrow>
             md\<lparr>ses_Relationship := SessionRelationshipBestEffort, ses_Continued := req_SessionID req \<noteq> [],
                ses_BestEffort := True,
                ses_UnsupportedReason := ''OpenCode --session continuation is passed through but not verified as durable retention''\<rparr>
         | SessionActionDefault \<Rightarrow>
             (if req_WantSession req \<or> req_SessionID req \<noteq> []
              then md\<lparr>ses_Relationship := SessionRelationshipBestEffort, ses_BestEffort := True,
                      ses_UnsupportedReason := ''full retained-session lifecycle is unsupported by OpenCode adapter''\<rparr>
              else md)
         | SessionActionOther _ \<Rightarrow>
             (if req_WantSession req \<or> req_SessionID req \<noteq> []
              then md\<lparr>ses_Relationship := SessionRelationshipBestEffort, ses_BestEffort := True,
                      ses_UnsupportedReason := ''full retained-session lifecycle is unsupported by OpenCode adapter''\<rparr>
              else md)
         | _ \<Rightarrow>
             (let reason = ''retained-session action is unsupported by OpenCode adapter''
              in md\<lparr>ses_Relationship := SessionRelationshipUnsupported, ses_UnsupportedReason := reason,
                    ses_Unsupported := [\<lparr>uc_Capability = CapabilitySessions, uc_Reason = reason\<rparr>]\<rparr>))"

section \<open>Sending events\<close>

definition bump :: "string \<Rightarrow> (string \<times> int) list \<Rightarrow> (string \<times> int) list" where
  "bump k m = aput k (aget_or 0 m k + 1) m"

definition recordEventStats :: "Event \<Rightarrow> oc_run \<Rightarrow> oc_run" where
  "recordEventStats e s =
     s\<lparr>oc_categories := bump (kind_string (Kind e)) (oc_categories s),
       oc_nativeTypes := (if ev_Type e \<noteq> [] then bump (ev_Type e) (oc_nativeTypes s) else oc_nativeTypes s)\<rparr>"

text \<open>A local event is dropped when the channel has no room; the events of the process wait for room
  until the context ends.\<close>

definition sendLocalEvent :: "oc_env \<Rightarrow> Event \<Rightarrow> oc_run \<Rightarrow> bool \<times> oc_run" where
  "sendLocalEvent env e s =
     (let ok = oe_room env (oc_locals s); s1 = s\<lparr>oc_locals := Suc (oc_locals s)\<rparr>
      in (ok, if ok then s1\<lparr>oc_events := oc_events s1 @ [e]\<rparr> else s1))"

definition sendEvent :: "oc_env \<Rightarrow> Event \<Rightarrow> oc_run \<Rightarrow> ctx_error option \<times> oc_run" where
  "sendEvent env e s =
     (let r = oe_deliver env (oc_sends s); s1 = s\<lparr>oc_sends := Suc (oc_sends s)\<rparr>
      in (r, if r = None then s1\<lparr>oc_events := oc_events s1 @ [e]\<rparr> else s1))"

definition emit_local :: "oc_env \<Rightarrow> Event \<Rightarrow> oc_run \<Rightarrow> oc_run" where
  "emit_local env e s =
     (case sendLocalEvent env e s of (ok, s1) \<Rightarrow> if ok then recordEventStats e s1 else s1)"

definition lifecycle_event :: "oc_env \<Rightarrow> RunStatus \<Rightarrow> string \<Rightarrow> oc_run \<Rightarrow> Event option \<times> oc_run" where
  "lifecycle_event env to reason s =
     (case transitionLifecycle to s of
        (None, s1) \<Rightarrow> (None, s1)
      | (Some (sq, from), s1) \<Rightarrow>
          (let (now, s2) = oc_now env s1
           in (Some (LifecycleEvent (oc_id s2) (req_SessionID (oc_req s2)) (req_TurnID (oc_req s2)) (oc_context s2) sq now
                       from to reason), s2)))"

definition emitLifecycle :: "oc_env \<Rightarrow> RunStatus \<Rightarrow> string \<Rightarrow> oc_run \<Rightarrow> oc_run" where
  "emitLifecycle env to reason s =
     (case lifecycle_event env to reason s of (None, s1) \<Rightarrow> s1 | (Some e, s1) \<Rightarrow> emit_local env e s1)"

definition session_event :: "oc_env \<Rightarrow> oc_run \<Rightarrow> Event \<times> oc_run" where
  "session_event env s =
     (let (sq, s1) = nextSequence s; (now, s2) = oc_now env s1
      in (SessionEvent (oc_id s2) (firstSessionID [oc_sessionID s2, req_SessionID (oc_req s2)]) (req_TurnID (oc_req s2))
            (oc_context s2) sq now (sessionMetadata (oc_req s2) (oc_sessionID s2)), s2))"

definition emitSession :: "oc_env \<Rightarrow> oc_run \<Rightarrow> oc_run" where
  "emitSession env s = (case session_event env s of (e, s1) \<Rightarrow> emit_local env e s1)"

text \<open>An event of the adapter itself: its identity is the run's and the sequence number.\<close>

definition own_event ::
  "oc_env \<Rightarrow> SessionID \<Rightarrow> string \<Rightarrow> EventKind \<Rightarrow> anymap \<Rightarrow> oc_run \<Rightarrow> Event \<times> oc_run" where
  "own_event env sid typ kind payload s =
     (let (sq, s1) = nextSequence s; (now, s2) = oc_now env s1
      in (\<lparr>ev_ID = oc_id s2 @ '':'' @ itoa sq, ev_RunID = oc_id s2, ev_SessionID = sid, ev_Time = now, ev_Type = typ,
           ev_Payload = Some (EventPayloadWithKind kind (Some payload)), ev_Raw = None\<rparr>, s2))"

definition permission_event :: "oc_env \<Rightarrow> string \<Rightarrow> oc_run \<Rightarrow> Event option \<times> oc_run" where
  "permission_event env reason s =
     (let p = oc_permissions s
      in if pm_Audit p = [] \<and> pm_Support p = [] \<and> req_Permissions (oc_req s) = [] then (None, s)
         else apfst Some (own_event env (req_SessionID (oc_req s)) ''permission.policy'' EventPermission
           [(''turn_id'', GString (req_TurnID (oc_req s))), (''context'', GContext (oc_context s)),
            (''reason'', GString reason), (''mode'', GString (pm_Mode p)), (''policy_id'', GString (pm_PolicyID p)),
            (''policy'', GPermissionSummary (pm_Policy p)), (''support'', GPermissionSupport (pm_Support p)),
            (''unsupported'', GPermissionSupport (pm_Unsupported p)), (''audit'', GPermissionAudit (pm_Audit p))] s))"

definition emitPermissionAudit :: "oc_env \<Rightarrow> string \<Rightarrow> oc_run \<Rightarrow> oc_run" where
  "emitPermissionAudit env reason s =
     (case permission_event env reason s of (None, s1) \<Rightarrow> s1 | (Some e, s1) \<Rightarrow> emit_local env e s1)"

definition rate_limit_key :: "oc_env \<Rightarrow> RateLimitInfo \<Rightarrow> string" where
  "rate_limit_key env info =
     Join [rl_Provider info, rl_Model info, rl_UserDetail info, oe_durString env (rl_RetryAfter info)] [CHR 0x00]"

definition rate_limit_event :: "oc_env \<Rightarrow> RateLimitInfo \<Rightarrow> oc_run \<Rightarrow> Event option \<times> oc_run" where
  "rate_limit_event env info s =
     (let key = rate_limit_key env info
      in if key = oc_liveRateLimitKey s then (None, s)
         else apfst Some (own_event env (firstSessionID [oc_sessionID s, req_SessionID (oc_req s)])
           ''opencode.log.rate_limit'' EventRateLimit
           [(''turn_id'', GString (req_TurnID (oc_req s))), (''context'', GContext (oc_context s)),
            (''provider'', GProviderID (rl_Provider info)), (''model'', GModelID (rl_Model info)),
            (''retry_after'', GString (oe_durString env (rl_RetryAfter info))), (''reset_at'', GTime (rl_ResetAt info)),
            (''detail'', GString (rl_UserDetail info)), (''source'', GString ''opencode.log'')]
           (s\<lparr>oc_liveRateLimitKey := key\<rparr>)))"

definition emitObservedRateLimit :: "oc_env \<Rightarrow> rateLimitClassification option \<Rightarrow> oc_run \<Rightarrow> oc_run" where
  "emitObservedRateLimit env classified s =
     (case classified of
        None \<Rightarrow> s
      | Some c \<Rightarrow> (case rate_limit_event env (rlc_info c) s of (None, s1) \<Rightarrow> s1 | (Some e, s1) \<Rightarrow> emit_local env e s1))"

section \<open>Log files\<close>

definition maxOpenCodeLogScanBytes :: int where "maxOpenCodeLogScanBytes = 256 * 1024"

definition readOpenCodeLogDelta :: "string \<Rightarrow> int \<Rightarrow> string" where
  "readOpenCodeLogDelta content offset0 =
     (let size = int (length content);
          offset = (if offset0 < 0 \<or> size < offset0 then 0 else offset0);
          start = (if size - offset > maxOpenCodeLogScanBytes then size - maxOpenCodeLogScanBytes else offset)
      in take (nat maxOpenCodeLogScanBytes) (drop (nat start) content))"

definition log_dirs :: "log_view \<Rightarrow> string list" where
  "log_dirs v =
     (if lv_xdg v \<noteq> [] then [Clean (lv_xdg v @ ''/opencode/log'')] else [])
     @ (if lv_home v \<noteq> [] then [Clean (lv_home v @ ''/.local/share/opencode/log'')] else [])"

definition log_candidate ::
  "string \<Rightarrow> gtime \<Rightarrow> (string \<times> gtime) list \<Rightarrow> string \<times> bool \<times> gtime option \<Rightarrow> (string \<times> gtime) list" where
  "log_candidate dir cutoff found entry =
     (case entry of
        (name, is_dir, modified) \<Rightarrow>
          (let path = Clean (dir @ ''/'' @ name)
           in if is_dir \<or> \<not> HasSuffix name ''.log'' then found
              else if path \<in> fst ` set found then found
              else case modified of
                     None \<Rightarrow> found
                   | Some m \<Rightarrow> if m < cutoff then found else found @ [(path, m)]))"

text \<open>Newest first; \<open>sort.Slice\<close> leaves the order of equal times open, which is that of the directory here.\<close>

definition recentOpenCodeLogs :: "log_view \<Rightarrow> gtime \<Rightarrow> string list" where
  "recentOpenCodeLogs v cutoff =
     map fst (sort_key (\<lambda>c. - snd c)
       (foldl (\<lambda>found dir. case lv_dir v dir of
                             None \<Rightarrow> found
                           | Some es \<Rightarrow> foldl (log_candidate dir cutoff) found es) [] (log_dirs v)))"

definition openCodeLogOffsets :: "log_view \<Rightarrow> (string \<times> int) list" where
  "openCodeLogOffsets v =
     foldl (\<lambda>m path. case lv_file v path of Some content \<Rightarrow> aput path (int (length content)) m | None \<Rightarrow> m) []
       (recentOpenCodeLogs v 0)"

definition logMayBelongToRun :: "string \<Rightarrow> RuntimeContext \<Rightarrow> bool" where
  "logMayBelongToRun t ctx \<longleftrightarrow>
     ctx_Model ctx = [] \<and> ctx_Provider ctx = []
     \<or> ctx_Model ctx \<noteq> [] \<and> Contains t (ctx_Model ctx)
     \<or> ctx_Provider ctx \<noteq> [] \<and> Contains t (ctx_Provider ctx)"

fun classify_logs ::
  "oc_env \<Rightarrow> log_view \<Rightarrow> oc_run \<Rightarrow> string list \<Rightarrow> rateLimitClassification option" where
  "classify_logs env v s [] = None"
| "classify_logs env v s (path # paths) =
     (case lv_file v path of
        None \<Rightarrow> classify_logs env v s paths
      | Some content \<Rightarrow>
          (let t = readOpenCodeLogDelta content (aget_or 0 (oc_logOffsets s) path)
           in if t = [] \<or> \<not> logMayBelongToRun t (oc_context s) then classify_logs env v s paths
              else case classifyRateLimitText (oe_rate env) ''opencode run'' t (oc_context s) of
                     Some c \<Rightarrow> Some c
                   | None \<Rightarrow> classify_logs env v s paths))"

definition classifyRecentLogFailure :: "oc_env \<Rightarrow> oc_run \<Rightarrow> rateLimitClassification option \<times> oc_run" where
  "classifyRecentLogFailure env s =
     (let v = oe_logs env (oc_looks s)
      in (classify_logs env v s (recentOpenCodeLogs v (oc_started s)), s\<lparr>oc_looks := Suc (oc_looks s)\<rparr>))"

text \<open>One tick of the watcher.\<close>

definition watchLogRateLimits :: "oc_env \<Rightarrow> oc_run \<Rightarrow> oc_run" where
  "watchLogRateLimits env s =
     (case classifyRecentLogFailure env s of (classified, s1) \<Rightarrow> emitObservedRateLimit env classified s1)"

section \<open>One record\<close>

definition permissionAuditFromEvent :: "Event \<Rightarrow> PermissionAudit" where
  "permissionAuditFromEvent e =
     \<lparr>pa_Source = ''opencode.event'', pa_Tool = [], pa_Action = PermissionActionDefault,
      pa_Enforcement = PermissionEnforcementNative, pa_Reason = ''native permission event observed'',
      pa_Metadata = (case gget (entries (ev_Payload e)) ''native_type'' of
                       GString t \<Rightarrow> Some [(''native_type'', t)] | _ \<Rightarrow> None)\<rparr>"

text \<open>A usage that replaces the one of the run.\<close>

definition usage_known :: "Usage \<Rightarrow> bool" where
  "usage_known u \<longleftrightarrow>
     us_Native u \<noteq> None \<or> us_InputTokens u \<noteq> None \<or> us_OutputTokens u \<noteq> None \<or> us_TotalTokens u \<noteq> None"

definition project_record :: "oc_env \<Rightarrow> nativeRecord \<Rightarrow> oc_run \<Rightarrow> projectionResult \<times> oc_run" where
  "project_record env r s =
     (let (sq, s1) = nextSequence s; (now, s2) = oc_now env s1;
          p = projectNative (oe_rate env)
                \<lparr>pin_runID = oc_id s2, pin_turnID = req_TurnID (oc_req s2), pin_ctx = oc_context s2, pin_seq = sq,
                 pin_now = now, pin_record = r\<rparr>
      in (if ev_SessionID (pr_event p) = []
          then p\<lparr>pr_event := (pr_event p)\<lparr>ev_SessionID := req_SessionID (oc_req s2)\<rparr>\<rparr> else p, s2))"

text \<open>What a delivered record changes.\<close>

definition learn :: "projectionResult \<Rightarrow> oc_run \<Rightarrow> oc_run" where
  "learn p s =
     (let kind = Kind (pr_event p);
          output = terminalOutputValue (GMap (entries (ev_Payload (pr_event p)))) 0
      in s\<lparr>oc_sawFinal := oc_sawFinal s \<or> pr_final p, oc_sawIdle := oc_sawIdle s \<or> pr_idle p,
           oc_finishReason := (if pr_finishReason p \<noteq> [] then pr_finishReason p else oc_finishReason s),
           oc_terminalEvidence := (if pr_terminalEvidence p \<noteq> [] then pr_terminalEvidence p else oc_terminalEvidence s),
           oc_sawOutput := oc_sawOutput s \<or> kind = EventMessage,
           oc_terminalOutput := (if kind \<in> {EventMessage, EventFinalResult} \<and> output \<noteq> []
                                 then appendTerminalOutput (oc_terminalOutput s) output else oc_terminalOutput s),
           oc_usage := (if usage_known (pr_usage p) then pr_usage p else oc_usage s),
           oc_artifacts := oc_artifacts s @ pr_artifacts p, oc_warnings := oc_warnings s @ pr_warnings p,
           oc_rateLimit := (if pr_rateLimit p \<noteq> None then pr_rateLimit p else oc_rateLimit s)\<rparr>)"

definition handle_session :: "oc_env \<Rightarrow> nativeRecord \<Rightarrow> oc_run \<Rightarrow> oc_run" where
  "handle_session env r s =
     (case updateSessionID (observedSessionID r) s of (changed, s1) \<Rightarrow> if changed then emitSession env s1 else s1)"

definition audit_permission :: "Event \<Rightarrow> oc_run \<Rightarrow> oc_run" where
  "audit_permission e s =
     (if Kind e = EventPermission
      then s\<lparr>oc_permissions := (oc_permissions s)\<lparr>pm_Audit := pm_Audit (oc_permissions s) @ [permissionAuditFromEvent e]\<rparr>\<rparr>
      else s)"

definition handle_record :: "oc_env \<Rightarrow> nativeRecord \<Rightarrow> oc_run \<Rightarrow> go_error option \<times> oc_run" where
  "handle_record env r s =
     (let (p, s1) = project_record env r (handle_session env r s);
          s2 = recordEventStats (pr_event p) (audit_permission (pr_event p) s1)
      in case sendEvent env (pr_event p) s2 of
           (Some e, s3) \<Rightarrow> (Some (ctx_go_error e), s3)
         | (None, s3) \<Rightarrow> (map_option ESDK (pr_fatal p), learn p s3))"

section \<open>Cleanup and errors\<close>

text \<open>The once-only cleanup: only its first call reaches the process.\<close>

definition oc_cleanup_once :: "oc_env \<Rightarrow> oc_run \<Rightarrow> CleanupMetadata \<times> oc_run" where
  "oc_cleanup_once env s =
     (case oc_cleanup s of
        Some c \<Rightarrow> (c, s)
      | None \<Rightarrow>
          (let err = oe_cancelErr env;
               c = \<lparr>cl_Attempted = True, cl_Completed = (err = None), cl_Failed = (err \<noteq> None),
                    cl_Error = map_option (\<lambda>e. NewError ErrorCleanup ''opencode cleanup'' ''OpenCode cleanup failed'' (Some e)
                                                 [WithDebugDetail (error_text e)]) err\<rparr>
           in (c, s\<lparr>oc_cleanup := Some c, oc_cancels := Suc (oc_cancels s)\<rparr>)))"

definition oc_Cancel :: "oc_env \<Rightarrow> oc_run \<Rightarrow> oc_run" where
  "oc_Cancel env s = snd (oc_cleanup_once env (emitLifecycle env StatusCancelled ''caller_cancel'' s))"

definition cancelOnContextDone :: "oc_env \<Rightarrow> oc_run \<Rightarrow> oc_run" where
  "cancelOnContextDone env s = (if Terminal (oc_lifecycle s) then s else snd (oc_cleanup_once env s))"

fun as_decode :: "go_error \<Rightarrow> (int \<times> string \<times> go_error) option" where
  "as_decode (EDecode line raw e) = Some (line, raw, e)"
| "as_decode (EWrap s e) = as_decode e"
| "as_decode (ESDK (SDKError c op u d sc rh rb p m rk ec sg nt ra md ca)) =
     (case ca of None \<Rightarrow> None | Some e \<Rightarrow> as_decode e)"
| "as_decode _ = None"

definition postFinalDecodeWarning :: "go_error option \<Rightarrow> oc_run \<Rightarrow> string" where
  "postFinalDecodeWarning err s =
     (case err of
        None \<Rightarrow> []
      | Some e \<Rightarrow>
          if \<not> oc_sawFinal s then []
          else case as_decode e of
                 Some (line, raw, cause) \<Rightarrow>
                   ''OpenCode emitted malformed structured output after a final result; ignoring post-final decode error at line ''
                   @ itoa line @ '': '' @ error_text cause
               | None \<Rightarrow>
                   if ErrorAs e \<noteq> None then []
                   else ''OpenCode returned an error after a final result; ignoring post-final error: '' @ error_text e)"

definition debugDetail :: "string \<Rightarrow> string" where
  "debugDetail stderr = (if TrimSpace stderr = [] then [] else stderr)"

definition classifyStartError :: "go_error \<Rightarrow> SDKError" where
  "classifyStartError err =
     NewError ErrorRuntimeUnavailable ''opencode start'' ''OpenCode could not be started'' (Some err)
       [WithDebugDetail (error_text err)]"

definition classifyDecodeError :: "go_error \<Rightarrow> SDKError" where
  "classifyDecodeError err =
     NewError ErrorMalformedEvent ''opencode decode'' ''OpenCode emitted malformed structured output'' (Some err)
       [WithDebugDetail
          (case as_decode err of
             Some (line, raw, cause) \<Rightarrow> ''line='' @ itoa line @ '' raw='' @ go_quote raw @ '' error='' @ error_text cause
           | None \<Rightarrow> error_text err)]"

definition classifyExitError :: "oc_env \<Rightarrow> processResult \<Rightarrow> string \<Rightarrow> SDKError" where
  "classifyExitError env result stderr =
     (case classifyRateLimitText (oe_rate env) ''opencode run'' stderr zero_RuntimeContext of
        Some c \<Rightarrow> rlc_err c
      | None \<Rightarrow>
          NewError ErrorRuntimeExit ''opencode run'' ''OpenCode exited before a successful final result'' (pres_Err result)
            [WithDebugDetail (''exit_code='' @ itoa (pres_ExitCode result) @ '' stderr='' @ debugDetail stderr)])"

definition classifyContextError :: "go_error \<Rightarrow> string \<Rightarrow> SDKError" where
  "classifyContextError err op =
     (if errors_Is err EDeadlineExceeded then NewError ErrorTimeout op ''OpenCode run timed out'' (Some err) []
      else NewError ErrorCancellation op ''OpenCode run was cancelled'' (Some err) [])"

definition lifecycleReason :: "RunStatus \<Rightarrow> string" where
  "lifecycleReason status =
     (case status of
        StatusCompleted \<Rightarrow> ''run_finished'' | StatusCancelled \<Rightarrow> ''run_cancelled'' | StatusFailed \<Rightarrow> ''run_failed''
      | _ \<Rightarrow> status_string status)"

section \<open>The outcome\<close>

definition usageHasTokens :: "Usage \<Rightarrow> bool" where
  "usageHasTokens u \<longleftrightarrow>
     us_InputTokens u \<noteq> None \<or> us_OutputTokens u \<noteq> None \<or> us_TotalTokens u \<noteq> None
     \<or> us_CacheReadTokens u \<noteq> None \<or> us_CacheWriteTokens u \<noteq> None"

definition priceFinalUsage :: "oc_env \<Rightarrow> oc_run \<Rightarrow> CostEstimate option \<times> CostSource" where
  "priceFinalUsage env s =
     (case oe_rates env of
        None \<Rightarrow> (None, CostSourceOther [])
      | Some (table, info, err) \<Rightarrow>
          if \<not> usageHasTokens (oc_usage s) then (None, CostSourceOther [])
          else if err \<noteq> None then (None, CostSourceUnpriced)
          else (let priced = PriceUsage table (ctx_Model (oc_context s)) (oc_usage s)
                in if pu_Source priced = CostSourceModelPriced
                   then (Some \<lparr>cost_Amount = pu_Amount priced, cost_Currency = pu_Currency priced, cost_Estimate = True\<rparr>,
                         CostSourceModelPriced)
                   else (None, CostSourceUnpriced)))"

definition reconcileFinalState :: "oc_env \<Rightarrow> oc_run \<Rightarrow> dbReconcileProof \<times> oc_run" where
  "reconcileFinalState env s =
     (case oe_db env of
        None \<Rightarrow> (zero_dbReconcileProof, s)
      | Some query \<Rightarrow>
          if req_SessionID (oc_req s) = [] \<and> oc_sessionID s = [] then (zero_dbReconcileProof, s)
          else (case query (oc_queries s) (firstSessionID [oc_sessionID s, req_SessionID (oc_req s)]) (oc_started s) of
                  (body, err) \<Rightarrow> (reconcileDBResponse body err, s\<lparr>oc_queries := Suc (oc_queries s)\<rparr>)))"

definition openCodePromptCacheMetadata :: "RunRequest \<Rightarrow> PromptCacheMetadata" where
  "openCodePromptCacheMetadata req =
     (let d = req_PromptCache req
      in if \<not> Enabled d then zero_PromptCacheMetadata
         else \<lparr>pcm_Requested = True, pcm_KeySHA256 = PromptCacheKeySHA256 (pc_Key d),
               pcm_PrefixSHA256 = ToLower (TrimSpace (pc_PrefixSHA256 d)), pcm_BreakpointBytes = pc_BreakpointBytes d,
               pcm_Mode = pc_Mode d, pcm_Transport = ''opencode-provider-managed-message-cache'',
               pcm_ProviderManaged = True, pcm_NativeRoutingKeyApplied = False, pcm_NativeBreakpointApplied = False,
               pcm_PromptBytesPreserved = True,
               pcm_Detail = ''OpenCode applies provider cache controls at message boundaries; its CLI does not expose the caller routing key or byte breakpoint''\<rparr>)"

text \<open>The context ended: a deadline may hide a rate limit that only the log shows.\<close>

definition context_outcome :: "oc_env \<Rightarrow> go_error \<Rightarrow> oc_run \<Rightarrow> (RunStatus \<times> SDKError option) \<times> oc_run" where
  "context_outcome env err s =
     (let status = (\<lambda>e. if err_Category e = ErrorCancellation then StatusCancelled else StatusFailed);
          plain = classifyContextError err ''opencode run''
      in if errors_Is err EDeadlineExceeded
         then (case classifyRecentLogFailure env s of
                 (Some c, s1) \<Rightarrow> ((status (rlc_err c), Some (rlc_err c)), s1\<lparr>oc_rateLimit := Some (rlc_info c)\<rparr>)
               | (None, s1) \<Rightarrow> ((status plain, Some plain), s1))
         else ((status plain, Some plain), s))"

definition stderr_text :: "oc_run \<Rightarrow> string" where
  "stderr_text s = limitBuffer_String (oc_stderrBuffer s)"

definition outcome :: "oc_env \<Rightarrow> go_error option \<Rightarrow> processResult \<Rightarrow> oc_run \<Rightarrow> (RunStatus \<times> SDKError option) \<times> oc_run" where
  "outcome env decodeErr proc s =
     (let failed_exit = pres_Err proc \<noteq> None \<or> pres_ExitCode proc \<noteq> 0;
          exitErr = classifyExitError env proc (stderr_text s);
          warn = (\<lambda>w s'. s'\<lparr>oc_warnings := oc_warnings s' @ [w]\<rparr>)
      in case decodeErr of
           Some e \<Rightarrow>
             if errors_Is e ECanceled \<or> errors_Is e EDeadlineExceeded then context_outcome env e s
             else ((StatusFailed, Some (case ErrorAs e of Some already \<Rightarrow> already | None \<Rightarrow> classifyDecodeError e)), s)
         | None \<Rightarrow>
             (case oe_end_ctx env of
                Some e \<Rightarrow> context_outcome env (ctx_go_error e) s
              | None \<Rightarrow>
                  if oc_sawFinal s then
                    (if failed_exit \<and> err_Category exitErr \<noteq> ErrorRuntimeExit then ((StatusFailed, Some exitErr), s)
                     else ((StatusCompleted, None), s))
                  else if failed_exit then ((StatusFailed, Some exitErr), s)
                  else if oc_sawIdle s then ((StatusCompleted, None), s)
                  else if oc_sawOutput s then
                    ((StatusCompleted, None),
                     warn ''OpenCode finished without a final structured result; treating assistant output on clean exit as completed'' s)
                  else (case reconcileFinalState env s of
                          (proof, s1) \<Rightarrow>
                            (case dbp_err proof of
                               Some e \<Rightarrow> ((StatusFailed, Some e), s1)
                             | None \<Rightarrow>
                                 if dbp_completed proof then
                                   (let s2 = warn ''OpenCode finished without a final structured result; recovered terminal finish from durable DB state'' s1
                                    in ((StatusCompleted, None),
                                        if usage_known (dbp_usage proof) then s2\<lparr>oc_usage := dbp_usage proof\<rparr> else s2))
                                 else ((StatusFailed,
                                        Some (NewError ErrorRuntimeExit ''opencode run''
                                                ''OpenCode finished without a final structured result'' None
                                                [WithDebugDetail (debugDetail (stderr_text s1))])), s1)))))"

text \<open>The counters of the run, as \<open>refreshResultEventStats\<close> writes them; copies of a map hold the same entries.\<close>

definition event_stats :: "oc_run \<Rightarrow> anymap" where
  "event_stats s =
     [(''event_count'', GInt64 (oc_seq s)), (''event_categories'', GIntMap (oc_categories s)),
      (''native_event_types'', GIntMap (oc_nativeTypes s)),
      (''native_extension_count'', GInt (aget_or 0 (oc_categories s) (kind_string EventNativeExtension)))]"

definition put_all :: "anymap \<Rightarrow> anymap \<Rightarrow> anymap" where
  "put_all kvs m = foldl (\<lambda>m (k, v). aput k v m) m kvs"

definition native_metadata :: "oc_env \<Rightarrow> processResult \<Rightarrow> SDKError option \<Rightarrow> CleanupMetadata \<Rightarrow> oc_run \<Rightarrow> anymap" where
  "native_metadata env proc sdkErr cleanup s =
     (let limit = (case oc_rateLimit s of
                     Some info \<Rightarrow> Some info
                   | None \<Rightarrow>
                       (if map_option err_Category sdkErr = Some ErrorRateLimit
                        then map_option rlc_info (classifyRateLimitText (oe_rate env) ''opencode run'' (stderr_text s) (oc_context s))
                        else None))
      in put_if (cl_Error cleanup \<noteq> None) ''cleanup_warning''
           (GString ''OpenCode cleanup failed after run outcome was determined; preserving primary run outcome'')
         (put_if (limit \<noteq> None) ''rate_limit_info'' (GRateLimitPtr limit)
         (put_if (oc_terminalEvidence s \<noteq> []) ''native_terminal_evidence'' (GString (oc_terminalEvidence s))
         (put_if (oc_finishReason s \<noteq> []) ''finish_reason'' (GString (oc_finishReason s))
         (put_if (oc_postFinalDecodeErr s \<noteq> []) ''post_final_decode_warning'' (GString (oc_postFinalDecodeErr s))
         (put_all (event_stats s)
           [(''stderr'', GString (stderr_text s)), (''exit_code'', GInt (pres_ExitCode proc))]))))))"

text \<open>Every outcome is enriched with what the database knows; its text replaces the streamed one.\<close>

definition enrich :: "dbReconcileProof \<Rightarrow> oc_run \<Rightarrow> oc_run" where
  "enrich p s =
     s\<lparr>oc_usage := mergeUsage (oc_usage s) (dbp_usage p),
       oc_terminalOutput := (if dbp_terminalOutput p \<noteq> [] then dbp_terminalOutput p else oc_terminalOutput s)\<rparr>"

definition final_cost :: "oc_env \<Rightarrow> dbReconcileProof \<Rightarrow> oc_run \<Rightarrow> CostEstimate option \<times> CostSource" where
  "final_cost env p s =
     (if dbp_cost p \<noteq> None then (dbp_cost p, CostSourceProviderReported) else priceFinalUsage env s)"

definition finalResult ::
  "oc_env \<Rightarrow> go_error option \<Rightarrow> processResult \<Rightarrow> CleanupMetadata \<Rightarrow> oc_run \<Rightarrow> (RunResult \<times> go_error option) \<times> oc_run" where
  "finalResult env decodeErr proc cleanup s =
     (let ((status, sdkErr), s1) = outcome env decodeErr proc s;
          (p, s2) = reconcileFinalState env s1;
          s3 = enrich p s2;
          (cost, source) = final_cost env p s3;
          cleanup_warning = ''OpenCode cleanup failed after run outcome was determined; preserving primary run outcome'';
          s4 = (if cl_Error cleanup \<noteq> None then s3\<lparr>oc_warnings := oc_warnings s3 @ [cleanup_warning]\<rparr> else s3);
          md = zero_RunMetadata
                 \<lparr>md_Context := oc_context s4, md_Status := status, md_StartedAt := oc_started s4, md_FinishedAt := oc_finished s4,
                  md_Duration := time_sub (oc_finished s4) (oc_started s4),
                  md_Session := sessionMetadata (oc_req s4) (oc_sessionID s4), md_Permissions := oc_permissions s4,
                  md_Cleanup := cleanup, md_Artifacts := oc_artifacts s4, md_Warnings := oc_warnings s4,
                  md_Usage := oc_usage s4, md_PromptCache := openCodePromptCacheMetadata (oc_req s4),
                  md_EstimatedCost := (if source \<noteq> CostSourceOther [] then cost else None),
                  md_CostSource := source,
                  md_Errors := (case sdkErr of Some e \<Rightarrow> [e] | None \<Rightarrow> [])
                               @ (case cl_Error cleanup of Some e \<Rightarrow> [e] | None \<Rightarrow> []),
                  md_NativeMetadata := Some (native_metadata env proc sdkErr cleanup s4)\<rparr>
      in ((\<lparr>res_RunID = oc_id s4, res_SessionID = firstSessionID [oc_sessionID s4, req_SessionID (oc_req s4)],
            res_TurnID = req_TurnID (oc_req s4), res_Status = status, res_TerminalOutput = oc_terminalOutput s4,
            res_Metadata = md, res_Artifacts = oc_artifacts s4, res_Warnings = oc_warnings s4, res_Usage = oc_usage s4,
            res_StartedAt = oc_started s4, res_FinishedAt = oc_finished s4, res_Err = sdkErr\<rparr>,
           map_option ESDK sdkErr), s4))"

definition refreshResultEventStats :: "oc_run \<Rightarrow> RunResult \<Rightarrow> RunResult" where
  "refreshResultEventStats s r =
     r\<lparr>res_Metadata := (res_Metadata r)\<lparr>md_NativeMetadata :=
        Some (put_all (event_stats s) (entries (md_NativeMetadata (res_Metadata r))))\<rparr>\<rparr>"

section \<open>The run\<close>

text \<open>
  The goroutine of a run after the scan. The process has ended and its standard error has been
  collected when the outcome is decided.
\<close>

definition decode_warning :: "go_error option \<Rightarrow> oc_run \<Rightarrow> go_error option \<times> oc_run" where
  "decode_warning err s =
     (let warning = postFinalDecodeWarning err s
      in if warning \<noteq> [] then (None, s\<lparr>oc_warnings := oc_warnings s @ [warning], oc_postFinalDecodeErr := warning\<rparr>)
         else (err, s))"

definition removeProcessTempDir :: "oc_env \<Rightarrow> string \<Rightarrow> string option" where
  "removeProcessTempDir env dir = (if TrimSpace dir = [] then None else oe_tempErr env)"

definition collect_process :: "oc_env \<Rightarrow> oc_run \<Rightarrow> oc_run" where
  "collect_process env s =
     (let s1 = s\<lparr>oc_stderrBuffer := captureStderr (oc_stderrBuffer s) (oe_stderr env)\<rparr>
      in case removeProcessTempDir env (oc_tempDir s1) of
           None \<Rightarrow> s1
         | Some e \<Rightarrow> s1\<lparr>oc_warnings := oc_warnings s1 @ [''remove OpenCode process temp directory: '' @ e]\<rparr>)"

definition finish_run :: "oc_env \<Rightarrow> go_error option \<Rightarrow> oc_run \<Rightarrow> (RunResult \<times> go_error option) \<times> oc_run" where
  "finish_run env decodeErr0 s =
     (let (decodeErr, s1) = decode_warning decodeErr0 s;
          (cleanup, s2) = oc_cleanup_once env (collect_process env s1);
          (now, s3) = oc_now env s2;
          ((result, err), s4) = finalResult env decodeErr (oe_exit env) cleanup (s3\<lparr>oc_finished := now\<rparr>);
          s5 = emitLifecycle env (res_Status result) (lifecycleReason (res_Status result)) s4
      in ((refreshResultEventStats s5 result, err), s5))"

definition oc_main :: "oc_env \<Rightarrow> oc_run \<Rightarrow> (RunResult \<times> go_error option) \<times> oc_run" where
  "oc_main env s =
     (case scanNativeRecords (oe_line_ctx env) (oe_jerr env) (oe_readErr env) (oe_stdout env) (handle_record env) s of
        (decodeErr, s1) \<Rightarrow> finish_run env decodeErr s1)"

text \<open>
  \<open>Wait\<close>: the stored result, or the error of the waiter's own context; it blocks (\<open>None\<close>) until there is
  one of them. When there are both, Go takes either: \<open>take_result\<close> says which.
\<close>

definition oc_Wait ::
  "bool \<Rightarrow> ctx_error option \<Rightarrow> (RunResult \<times> go_error option) option \<Rightarrow> (RunResult \<times> go_error option) option" where
  "oc_Wait take_result waiter finished =
     (let cancelled = map_option
            (\<lambda>e. (zero_RunResult, Some (ESDK (classifyContextError (ctx_go_error e) ''opencode wait'')))) waiter
      in case finished of
           None \<Rightarrow> cancelled
         | Some r \<Rightarrow> if waiter = None \<or> take_result then Some r else cancelled)"

end
