(* ===== verification/OpencodeRunLaws.thy ===== *)
theory OpencodeRunLaws
  imports OpencodeRun
begin

text \<open>
  What the runs of the OpenCode adapter guarantee. The goroutines of a run (the scan, the log watcher,
  the context watcher, callers of \<open>Cancel\<close>) are the step relation \<open>oc_step\<close>: a step takes a sequence
  number for an event, delivers or drops an event that was numbered before, runs the cleanup, or changes
  anything else. Sequential code of the run is shown to consist of such steps, so the invariants of the
  relation hold for it in any interleaving.
\<close>

section \<open>Numbered events\<close>

definition event_number :: "RunID \<Rightarrow> Event \<Rightarrow> int \<Rightarrow> bool" where
  "event_number rid e k \<longleftrightarrow>
     ev_ID e \<in> {rid @ '':'' @ itoa k, rid @ ''-lifecycle-'' @ itoa k, rid @ ''-session-'' @ itoa k}"

lemma event_number_unique: "event_number rid e j \<Longrightarrow> event_number rid e' k \<Longrightarrow> ev_ID e = ev_ID e' \<Longrightarrow> j = k"
  by (auto simp: event_number_def)

lemma itoa64_itoa: "0 \<le> k \<Longrightarrow> itoa64 k = itoa k"
proof (cases "k = 0")
  case True
  have "nat_digits 0 = ''0''" by code_simp
  with True show ?thesis by (simp add: itoa64_def itoa_def)
qed (auto simp: itoa64_def itoa_def itoa64_loop_digits)

lemma ID_LifecycleEvent [simp]: "ev_ID (LifecycleEvent rid sid tid ctx sq tm from to reason) = rid @ ''-lifecycle-'' @ itoa64 sq"
  by (simp add: LifecycleEvent_def)

definition terminal_event :: "Event \<Rightarrow> bool" where
  "terminal_event e \<longleftrightarrow>
     Kind e = EventLifecycle \<and> Terminal (status_of (stringPayloadValue (gget (entries (ev_Payload e)) ''to'')))"

definition run_targets :: "RunStatus set" where
  "run_targets = {StatusRunning, StatusCompleted, StatusFailed, StatusCancelled}"

lemma terminal_LifecycleEvent:
  "to \<in> run_targets \<Longrightarrow> terminal_event (LifecycleEvent rid sid tid ctx sq tm from to reason) = Terminal to"
  by (auto simp: terminal_event_def LifecycleEvent_def run_targets_def EventPayloadWithKind_def aget_or_def Kind_def
      stringPayloadValue_def status_of_def)

lemma lifecycle_event_Some:
  assumes "lifecycle_event env to reason s = (Some e, s')"
  shows "oc_seq s' = oc_seq s + 1" "oc_lifecycle s' = to" "\<not> Terminal (oc_lifecycle s)" "oc_id s' = oc_id s"
    "oc_events s' = oc_events s" "oc_cleanup s' = oc_cleanup s" "oc_cancels s' = oc_cancels s"
    "to \<in> run_targets \<Longrightarrow> terminal_event e = Terminal to" "0 \<le> oc_seq s \<Longrightarrow> event_number (oc_id s) e (oc_seq s + 1)"
  using assms
  by (auto simp: lifecycle_event_def transitionLifecycle_def oc_now_def Let_def terminal_LifecycleEvent
      event_number_def itoa64_itoa split: if_splits)

lemma lifecycle_event_None: "lifecycle_event env to reason s = (None, s') \<Longrightarrow> s' = s"
  by (auto simp: lifecycle_event_def transitionLifecycle_def oc_now_def Let_def split: if_splits)

text \<open>An event that takes the next number and is not about the lifecycle.\<close>

definition numbers :: "oc_run \<Rightarrow> Event \<Rightarrow> oc_run \<Rightarrow> bool" where
  "numbers s e s' \<longleftrightarrow>
     oc_seq s' = oc_seq s + 1 \<and> oc_lifecycle s' = oc_lifecycle s \<and> oc_id s' = oc_id s \<and> oc_events s' = oc_events s
     \<and> oc_cleanup s' = oc_cleanup s \<and> oc_cancels s' = oc_cancels s
     \<and> (0 \<le> oc_seq s \<longrightarrow> event_number (oc_id s) e (oc_seq s + 1)) \<and> Kind e \<noteq> EventLifecycle"

lemma session_event_numbers: "session_event env s = (e, s') \<Longrightarrow> numbers s e s'"
  by (auto simp: session_event_def nextSequence_def oc_now_def numbers_def event_number_def SessionEvent_def itoa64_itoa
      Let_def)

lemma own_event_numbers: "own_event env sid typ kind payload s = (e, s') \<Longrightarrow> kind \<noteq> EventLifecycle \<Longrightarrow> numbers s e s'"
  by (auto simp: own_event_def nextSequence_def oc_now_def numbers_def event_number_def Let_def)

lemma permission_event_numbers: "permission_event env reason s = (Some e, s') \<Longrightarrow> numbers s e s'"
  by (auto simp: permission_event_def Let_def apfst_def map_prod_def dest!: own_event_numbers split: if_splits prod.splits)

lemma rate_limit_event_numbers: "rate_limit_event env info s = (Some e, s') \<Longrightarrow> numbers s e s'"
  by (auto simp: rate_limit_event_def Let_def apfst_def map_prod_def numbers_def
      dest!: own_event_numbers split: if_splits prod.splits)

lemma native_category_not_lifecycle: "native_category r \<noteq> EventLifecycle"
  by (simp add: native_category_def classify_def classify_native_def)

lemma projectNative_event:
  "Kind (pr_event (projectNative renv i)) = native_category (pin_record i)"
  "ev_ID (pr_event (projectNative renv i)) = pin_runID i @ '':'' @ itoa (pin_seq i)"
  by (simp_all add: projectNative_def Let_def Kind_def EventPayloadWithKind_def aget_or_def split: option.splits)

lemma Kind_session [simp]: "Kind (e\<lparr>ev_SessionID := sid\<rparr>) = Kind e"
  by (simp add: Kind_def)

lemma project_record_numbers:
  assumes "project_record env r s = (p, s')"
  shows "numbers s (pr_event p) s'"
  using assms
  by (auto simp: project_record_def nextSequence_def oc_now_def numbers_def event_number_def projectNative_event
      native_category_not_lifecycle Let_def split: if_splits)

section \<open>Steps\<close>

definition same_core :: "oc_run \<Rightarrow> oc_run \<Rightarrow> bool" where
  "same_core s s' \<longleftrightarrow>
     oc_id s' = oc_id s \<and> oc_seq s' = oc_seq s \<and> oc_lifecycle s' = oc_lifecycle s \<and> oc_events s' = oc_events s
     \<and> oc_cleanup s' = oc_cleanup s \<and> oc_cancels s' = oc_cancels s"

inductive oc_step :: "oc_env \<Rightarrow> Event list \<times> oc_run \<Rightarrow> Event list \<times> oc_run \<Rightarrow> bool" for env where
  step_lifecycle: "lifecycle_event env to reason s = (Some e, s') \<Longrightarrow> to \<in> run_targets \<Longrightarrow> oc_step env (ps, s) (ps @ [e], s')"
| step_number: "numbers s e s' \<Longrightarrow> oc_step env (ps, s) (ps @ [e], s')"
| step_deliver: "oc_step env (ps @ e # qs, s) (ps @ qs, s\<lparr>oc_events := oc_events s @ [e]\<rparr>)"
| step_drop: "oc_step env (ps @ e # qs, s) (ps @ qs, s)"
| step_cleanup: "oc_cleanup_once env s = (c, s') \<Longrightarrow> oc_step env (ps, s) (ps, s')"
| step_other: "same_core s s' \<Longrightarrow> oc_step env (ps, s) (ps, s')"

abbreviation oc_steps :: "oc_env \<Rightarrow> Event list \<times> oc_run \<Rightarrow> Event list \<times> oc_run \<Rightarrow> bool" where
  "oc_steps env \<equiv> (oc_step env)\<^sup>*\<^sup>*"

definition fresh_run :: "oc_run \<Rightarrow> bool" where
  "fresh_run s \<longleftrightarrow>
     oc_seq s = 0 \<and> oc_lifecycle s = StatusStarting \<and> oc_events s = [] \<and> oc_cleanup s = None \<and> oc_cancels s = 0"

definition terminal_count :: "Event list \<Rightarrow> nat" where
  "terminal_count es = length (filter terminal_event es)"

definition oc_inv :: "Event list \<times> oc_run \<Rightarrow> bool" where
  "oc_inv c \<longleftrightarrow>
     (case c of
        (ps, s) \<Rightarrow>
          0 \<le> oc_seq s \<and> distinct (map ev_ID (oc_events s @ ps))
          \<and> (\<forall>e \<in> set (oc_events s @ ps). \<exists>k. k \<le> oc_seq s \<and> event_number (oc_id s) e k)
          \<and> terminal_count (oc_events s @ ps) \<le> (if Terminal (oc_lifecycle s) then 1 else 0)
          \<and> oc_cancels s = (if oc_cleanup s = None then 0 else 1))"

lemma oc_inv_core:
  assumes "oc_inv (ps, s)" "oc_id s' = oc_id s" "oc_seq s' = oc_seq s" "oc_lifecycle s' = oc_lifecycle s"
    "oc_events s' = oc_events s" "oc_cancels s' = (if oc_cleanup s' = None then 0 else 1)"
  shows "oc_inv (ps, s')"
  using assms by (simp add: oc_inv_def)

lemma inv_number:
  assumes inv: "oc_inv (ps, s)" and n: "event_number (oc_id s) e (oc_seq s + 1)"
    and s': "oc_seq s' = oc_seq s + 1" "oc_id s' = oc_id s" "oc_events s' = oc_events s"
      "oc_cleanup s' = oc_cleanup s" "oc_cancels s' = oc_cancels s"
    and t: "(if terminal_event e then 1 else 0) + (if Terminal (oc_lifecycle s) then 1 else 0)
              \<le> (if Terminal (oc_lifecycle s') then 1 else (0::nat))"
  shows "oc_inv (ps @ [e], s')"
proof -
  have num: "\<exists>k. k \<le> oc_seq s \<and> event_number (oc_id s) e' k" if "e' \<in> set (oc_events s @ ps)" for e'
    using inv that by (simp add: oc_inv_def)
  have new: "ev_ID e \<noteq> ev_ID e'" if mem: "e' \<in> set (oc_events s @ ps)" for e'
  proof
    assume "ev_ID e = ev_ID e'"
    moreover obtain k where "k \<le> oc_seq s" "event_number (oc_id s) e' k"
      using num [OF mem] by blast
    ultimately have "oc_seq s + 1 = k" using event_number_unique [OF n] by blast
    with \<open>k \<le> oc_seq s\<close> show False by simp
  qed
  have old: "\<exists>k \<le> oc_seq s'. event_number (oc_id s') e' k" if mem: "e' \<in> set (oc_events s @ ps)" for e'
  proof -
    obtain k where "k \<le> oc_seq s" "event_number (oc_id s) e' k"
      using num [OF mem] by blast
    with s'(1,2) show ?thesis by (intro exI [of _ k]) simp
  qed
  have "terminal_count (oc_events s @ ps @ [e]) \<le> (if Terminal (oc_lifecycle s') then 1 else 0)"
    using inv t by (auto simp: oc_inv_def terminal_count_def split: if_splits)
  then have count: "terminal_count (oc_events s' @ ps @ [e]) \<le> (if Terminal (oc_lifecycle s') then 1 else 0)"
    by (simp add: s')
  have dist: "distinct (map ev_ID (oc_events s' @ ps @ [e]))"
    using inv new by (force simp: oc_inv_def s')
  have nums: "\<forall>e' \<in> set (oc_events s' @ ps @ [e]). \<exists>k \<le> oc_seq s'. event_number (oc_id s') e' k"
    using old n by (auto simp: s')
  have rest: "0 \<le> oc_seq s'" "oc_cancels s' = (if oc_cleanup s' = None then 0 else 1)"
    using inv by (simp_all add: oc_inv_def s')
  from count dist nums rest show ?thesis unfolding oc_inv_def by simp
qed

lemma oc_step_inv: "oc_step env c c' \<Longrightarrow> oc_inv c \<Longrightarrow> oc_inv c'"
proof (induction rule: oc_step.induct)
  case (step_lifecycle to reason s e s' ps)
  have seq: "0 \<le> oc_seq s" using step_lifecycle.prems by (simp add: oc_inv_def)
  show ?case
    by (rule inv_number [OF step_lifecycle.prems])
      (use lifecycle_event_Some [OF step_lifecycle.hyps(1)] step_lifecycle.hyps(2) seq in simp_all)
next
  case (step_number s e s' ps)
  have seq: "0 \<le> oc_seq s" using step_number.prems by (simp add: oc_inv_def)
  show ?case
    by (rule inv_number [OF step_number.prems])
      (use step_number.hyps seq in \<open>simp_all add: numbers_def terminal_event_def\<close>)
next
  case (step_deliver ps e qs s)
  then show ?case by (auto simp: oc_inv_def terminal_count_def)
next
  case (step_drop ps e qs s)
  then show ?case by (auto simp: oc_inv_def terminal_count_def split: if_splits)
next
  case (step_cleanup s c s' ps)
  then have "oc_cancels s = (if oc_cleanup s = None then 0 else 1)" by (simp add: oc_inv_def)
  with step_cleanup show ?case
    by (cases "oc_cleanup s") (auto simp: oc_cleanup_once_def Let_def intro: oc_inv_core)
next
  case (step_other s s' ps)
  then show ?case by (auto simp: same_core_def oc_inv_def intro: oc_inv_core)
qed

lemma oc_steps_inv: "oc_steps env c c' \<Longrightarrow> oc_inv c \<Longrightarrow> oc_inv c'"
  by (induction rule: rtranclp_induct) (auto intro: oc_step_inv)

lemma fresh_inv: "fresh_run s \<Longrightarrow> oc_inv ([], s)"
  by (simp add: fresh_run_def oc_inv_def terminal_count_def)

section \<open>The code of a run consists of steps\<close>

lemma same_core_refl [simp, intro]: "same_core s s"
  by (simp add: same_core_def)

lemma same_core_trans [trans]: "same_core s t \<Longrightarrow> same_core t u \<Longrightarrow> same_core s u"
  by (simp add: same_core_def)

lemma same_core_intros [intro]:
  "same_core s (recordEventStats e s)" "same_core s (learn p s)" "same_core s (audit_permission e s)"
  "same_core s (collect_process env s)" "same_core s (enrich proof s)" "same_core s (snd (classifyRecentLogFailure env s))"
  "same_core s (snd (oc_now env s))" "same_core s (snd (updateSessionID sid s))" "same_core s (snd (decode_warning err s))"
  by (simp_all add: same_core_def recordEventStats_def learn_def audit_permission_def collect_process_def enrich_def
      classifyRecentLogFailure_def oc_now_def updateSessionID_def decode_warning_def Let_def split: option.splits)

lemma same_core_reconcile: "reconcileFinalState env s = (p, s') \<Longrightarrow> same_core s s'"
  by (auto simp: reconcileFinalState_def same_core_def split: option.splits if_splits prod.splits)

lemma same_core_context: "same_core s (snd (context_outcome env err s))"
  by (auto simp: context_outcome_def classifyRecentLogFailure_def same_core_def Let_def split: option.splits)

lemma same_core_outcome: "same_core s (snd (outcome env err proc s))"
proof (cases err)
  case (Some e)
  then show ?thesis by (simp add: outcome_def Let_def same_core_context)
next
  case err: None
  show ?thesis
  proof (cases "oe_end_ctx env")
    case (Some e)
    with err show ?thesis by (simp add: outcome_def Let_def same_core_context)
  next
    case None
    obtain p s' where rec: "reconcileFinalState env s = (p, s')" by fastforce
    have keep: "same_core t (t\<lparr>oc_warnings := w\<rparr>)" "same_core t (t\<lparr>oc_warnings := w, oc_usage := u\<rparr>)" for t w u
      by (simp_all add: same_core_def)
    note s' = same_core_reconcile [OF rec]
    show ?thesis
      using err None s' keep [THEN same_core_trans [OF s']]
      by (simp add: outcome_def Let_def rec keep split: option.split)
  qed
qed

lemma same_core_finalResult:
  assumes "finalResult env err proc cleanup s = (r, s')"
  shows "same_core s s'"
proof -
  obtain st e s1 where o: "outcome env err proc s = ((st, e), s1)" by (metis prod.exhaust)
  obtain p s2 where q: "reconcileFinalState env s1 = (p, s2)" by fastforce
  obtain cost src where c: "final_cost env p (enrich p s2) = (cost, src)" by fastforce
  have "same_core s s1" using same_core_outcome [of s env err proc] o by simp
  also have "same_core s1 s2" using same_core_reconcile [OF q] .
  also have "same_core s2 (enrich p s2)" by blast
  also have "same_core (enrich p s2) s'"
    using assms by (auto simp: finalResult_def o q c Let_def same_core_def)
  finally show ?thesis .
qed

lemma core_steps: "same_core s s' \<Longrightarrow> oc_steps env (ps, s) (ps, s')"
  by (blast intro: step_other)

lemma emit_local_steps: "oc_steps env (ps @ [e], s) (ps, emit_local env e s)"
proof (cases "oe_room env (oc_locals s)")
  case True
  have "oc_step env (ps @ e # [], s) (ps @ [], s\<lparr>oc_events := oc_events s @ [e]\<rparr>)" by (rule step_deliver)
  moreover have "same_core (s\<lparr>oc_events := oc_events s @ [e]\<rparr>) (emit_local env e s)"
    using True by (simp add: emit_local_def sendLocalEvent_def recordEventStats_def same_core_def Let_def)
  ultimately show ?thesis using core_steps by (simp add: converse_rtranclp_into_rtranclp)
next
  case False
  have "oc_step env (ps @ e # [], s) (ps @ [], s)" by (rule step_drop)
  moreover have "same_core s (emit_local env e s)"
    using False by (simp add: emit_local_def sendLocalEvent_def same_core_def Let_def)
  ultimately show ?thesis using core_steps by (simp add: converse_rtranclp_into_rtranclp)
qed

lemma numbered_steps: "numbers s e s' \<Longrightarrow> oc_steps env (ps, s) (ps, emit_local env e s')"
  using emit_local_steps by (blast intro: converse_rtranclp_into_rtranclp step_number)

lemma emitLifecycle_steps: "to \<in> run_targets \<Longrightarrow> oc_steps env (ps, s) (ps, emitLifecycle env to reason s)"
proof (cases "lifecycle_event env to reason s")
  case (Pair e' s')
  assume t: "to \<in> run_targets"
  show ?thesis
  proof (cases e')
    case None
    with Pair show ?thesis using lifecycle_event_None by (fastforce simp: emitLifecycle_def)
  next
    case (Some e)
    with Pair t have "oc_step env (ps, s) (ps @ [e], s')" by (blast intro: step_lifecycle)
    then show ?thesis
      using Pair Some emit_local_steps by (simp add: emitLifecycle_def converse_rtranclp_into_rtranclp)
  qed
qed

lemma emitSession_steps: "oc_steps env (ps, s) (ps, emitSession env s)"
  using numbered_steps session_event_numbers by (fastforce simp: emitSession_def split: prod.splits)

lemma emitPermissionAudit_steps: "oc_steps env (ps, s) (ps, emitPermissionAudit env reason s)"
proof (cases "permission_event env reason s")
  case (Pair e' s')
  then show ?thesis
  proof (cases e')
    case None
    with Pair have "s' = s" by (auto simp: permission_event_def Let_def apfst_def map_prod_def split: if_splits prod.splits)
    with Pair None show ?thesis by (simp add: emitPermissionAudit_def)
  next
    case (Some e)
    with Pair show ?thesis
      using numbered_steps [OF permission_event_numbers] by (simp add: emitPermissionAudit_def)
  qed
qed

lemma emitObservedRateLimit_steps: "oc_steps env (ps, s) (ps, emitObservedRateLimit env classified s)"
proof (cases classified)
  case (Some c)
  show ?thesis
  proof (cases "rate_limit_event env (rlc_info c) s")
    case (Pair e' s')
    show ?thesis
    proof (cases e')
      case None
      with Pair have "s' = s" by (auto simp: rate_limit_event_def Let_def apfst_def map_prod_def split: if_splits prod.splits)
      with Pair None Some show ?thesis by (simp add: emitObservedRateLimit_def)
    next
      case e: (Some e)
      with Pair Some show ?thesis
        using numbered_steps [OF rate_limit_event_numbers] by (simp add: emitObservedRateLimit_def)
    qed
  qed
qed (simp add: emitObservedRateLimit_def)

lemma watch_steps: "oc_steps env (ps, s) (ps, watchLogRateLimits env s)"
proof -
  have f1: "oc_steps env (ps, s) (ps, snd (classifyRecentLogFailure env s))" by (intro core_steps same_core_intros)
  have f2: "oc_steps env (ps, snd (classifyRecentLogFailure env s)) (ps, watchLogRateLimits env s)"
    using emitObservedRateLimit_steps by (simp add: watchLogRateLimits_def case_prod_beta)
  show ?thesis using f1 f2 by (rule rtranclp_trans)
qed

lemma cleanup_steps: "oc_steps env (ps, s) (ps, snd (oc_cleanup_once env s))"
  by (metis prod.collapse r_into_rtranclp step_cleanup)

lemma Cancel_steps: "oc_steps env (ps, s) (ps, oc_Cancel env s)"
proof -
  have f1: "oc_steps env (ps, s) (ps, emitLifecycle env StatusCancelled ''caller_cancel'' s)"
    by (rule emitLifecycle_steps) (simp add: run_targets_def)
  have f2: "oc_steps env (ps, emitLifecycle env StatusCancelled ''caller_cancel'' s) (ps, oc_Cancel env s)"
    unfolding oc_Cancel_def by (rule cleanup_steps)
  show ?thesis using f1 f2 by (rule rtranclp_trans)
qed

lemma context_done_steps: "oc_steps env (ps, s) (ps, cancelOnContextDone env s)"
  by (simp add: cancelOnContextDone_def cleanup_steps)

lemma handle_session_steps: "oc_steps env (ps, s) (ps, handle_session env r s)"
proof -
  have f1: "oc_steps env (ps, s) (ps, snd (updateSessionID (observedSessionID r) s))" by (intro core_steps same_core_intros)
  have f2: "oc_steps env (ps, snd (updateSessionID (observedSessionID r) s)) (ps, handle_session env r s)"
    using emitSession_steps by (simp add: handle_session_def case_prod_beta)
  show ?thesis using f1 f2 by (rule rtranclp_trans)
qed

lemma handle_record_steps: "oc_steps env (ps, s) (ps, snd (handle_record env r s))"
proof -
  obtain p s1 where p: "project_record env r (handle_session env r s) = (p, s1)" by fastforce
  define s2 where "s2 = recordEventStats (pr_event p) (audit_permission (pr_event p) s1)"
  have f1: "oc_steps env (ps, s) (ps, handle_session env r s)" by (rule handle_session_steps)
  have f2: "oc_step env (ps, handle_session env r s) (ps @ [pr_event p], s1)"
    using project_record_numbers [OF p] by (rule step_number)
  have f3: "oc_steps env (ps @ [pr_event p], s1) (ps @ [pr_event p], s2)"
    unfolding s2_def by (intro core_steps) (blast intro: same_core_trans)
  have f4: "oc_steps env (ps @ [pr_event p], s2) (ps, snd (handle_record env r s))"
  proof (cases "oe_deliver env (oc_sends s2)")
    case None
    have "oc_step env (ps @ pr_event p # [], s2) (ps @ [], s2\<lparr>oc_events := oc_events s2 @ [pr_event p]\<rparr>)"
      by (rule step_deliver)
    moreover have "same_core (s2\<lparr>oc_events := oc_events s2 @ [pr_event p]\<rparr>) (snd (handle_record env r s))"
      using None by (simp add: handle_record_def p s2_def [symmetric] sendEvent_def Let_def same_core_def learn_def)
    ultimately show ?thesis using core_steps by (simp add: converse_rtranclp_into_rtranclp)
  next
    case (Some e)
    have "oc_step env (ps @ pr_event p # [], s2) (ps @ [], s2)" by (rule step_drop)
    moreover have "same_core s2 (snd (handle_record env r s))"
      using Some by (simp add: handle_record_def p s2_def [symmetric] sendEvent_def Let_def same_core_def)
    ultimately show ?thesis using core_steps by (simp add: converse_rtranclp_into_rtranclp)
  qed
  show ?thesis
    using rtranclp_trans [OF rtranclp.rtrancl_into_rtrancl [OF f1 f2] rtranclp_trans [OF f3 f4]] .
qed

lemma scan_steps: "oc_steps env (ps, s) (ps, snd (scan_loop ctx jerr (handle_record env) scan_err pos ls s))"
proof (induction ls arbitrary: pos s)
  case (Cons l ls)
  show ?case
  proof (cases "scan_line jerr l (int pos + 1)")
    case (Inr r)
    obtain err s1 where h: "handle_record env r s = (err, s1)" by fastforce
    then have "oc_steps env (ps, s) (ps, s1)" using handle_record_steps [of env ps s r] by simp
    with h Inr Cons.IH show ?thesis by (auto split: option.splits intro: rtranclp_trans)
  qed (simp split: option.splits)
qed (simp split: option.splits)

end
