(* ===== verification/OpencodeOutcome.thy ===== *)
theory OpencodeOutcome
  imports OpencodeRunLaws
begin

text \<open>
  How a run of the OpenCode adapter ends: the categories of its errors, the agreement of status, error
  and metadata, the bound of the answer, and that a clean run completes. The properties of the run are
  stated here.
\<close>

section \<open>The outcome of a run\<close>

lemma classifyContextError_category:
  "err_Category (classifyContextError e op) = (if errors_Is e EDeadlineExceeded then ErrorTimeout else ErrorCancellation)"
  by (simp add: classifyContextError_def)

lemma classify_text_category: "classifyRateLimitText renv op t ctx = Some c \<Longrightarrow> err_Category (rlc_err c) = ErrorRateLimit"
  by (auto simp: classifyRateLimitText_def classifyRateLimitPayload_def Let_def dest: classify_details_category)

lemma classify_logs_category: "classify_logs env v s paths = Some c \<Longrightarrow> err_Category (rlc_err c) = ErrorRateLimit"
  by (induction paths) (auto simp: Let_def dest: classify_text_category split: option.splits if_splits)

lemma exit_error_category: "err_Category (classifyExitError env proc t) \<in> {ErrorRateLimit, ErrorRuntimeExit}"
  by (auto simp: classifyExitError_def dest: classify_text_category split: option.splits)

lemma reconcile_error_category:
  "reconcileFinalState env s = (p, s') \<Longrightarrow> dbp_err p = Some e \<Longrightarrow> err_Category e = ErrorRuntimeUnavailable"
  by (auto simp: reconcileFinalState_def reconcileDBResponse_def zero_dbReconcileProof_def Let_def
      split: option.splits if_splits prod.splits)

text \<open>A status agrees with an error: completed without one, cancelled exactly for a cancellation.\<close>

definition agrees :: "RunStatus \<Rightarrow> SDKError option \<Rightarrow> bool" where
  "agrees status err \<longleftrightarrow>
     status = (case err of None \<Rightarrow> StatusCompleted
               | Some e \<Rightarrow> if err_Category e = ErrorCancellation then StatusCancelled else StatusFailed)"

lemma context_outcome_agrees: "context_outcome env e s = ((status, err), s') \<Longrightarrow> agrees status err"
  by (auto simp: context_outcome_def agrees_def Let_def split: if_splits option.splits prod.splits)

lemma outcome_agrees:
  assumes o: "outcome env decodeErr proc s = ((status, err), s')"
    and cat: "\<And>e a. decodeErr = Some e \<Longrightarrow> ErrorAs e = Some a \<Longrightarrow> err_Category a \<noteq> ErrorCancellation"
  shows "agrees status err"
proof (cases decodeErr)
  case (Some e)
  show ?thesis
  proof (cases "errors_Is e ECanceled \<or> errors_Is e EDeadlineExceeded")
    case True
    with o Some context_outcome_agrees show ?thesis by (fastforce simp: outcome_def Let_def)
  next
    case False
    with o Some have "status = StatusFailed \<and> err = Some (case ErrorAs e of Some a \<Rightarrow> a | None \<Rightarrow> classifyDecodeError e)"
      by (simp add: outcome_def Let_def)
    with cat [OF Some] show ?thesis
      by (simp add: agrees_def classifyDecodeError_def split: option.split)
  qed
next
  case dec: None
  show ?thesis
  proof (cases "oe_end_ctx env")
    case (Some e)
    with o dec context_outcome_agrees show ?thesis by (fastforce simp: outcome_def Let_def)
  next
    case None
    obtain p s1 where rec: "reconcileFinalState env s = (p, s1)" by fastforce
    have exit_cat: "err_Category (classifyExitError env proc (stderr_text s)) \<noteq> ErrorCancellation"
      using exit_error_category [of env proc "stderr_text s"] by auto
    have "case fst (outcome env None proc s) of (st, er) \<Rightarrow> agrees st er"
      using exit_cat reconcile_error_category [OF rec]
      by (cases "dbp_err p") (simp_all add: outcome_def Let_def None rec agrees_def)
    with o dec show ?thesis by simp
  qed
qed

definition fatal_categories :: "ErrorCategory set" where
  "fatal_categories = {ErrorRateLimit, ErrorModelUnavailable, ErrorAuthentication, ErrorRuntimeExit}"

lemma project_fatal_category:
  assumes "project_record env r s = (p, s')" and "pr_fatal p = Some a"
  shows "err_Category a \<in> fatal_categories"
proof -
  have "pr_fatal (projectNative renv i) = Some a \<Longrightarrow> err_Category a \<in> fatal_categories" for renv i
    using classify_data_category fatal_event_category [of "nr_Data (pin_record i)" "pin_ctx i"]
    by (auto simp: projectNative_def fatal_categories_def Let_def split: option.splits if_splits)
  with assms show ?thesis by (auto simp: project_record_def Let_def nextSequence_def oc_now_def split: if_splits)
qed

text \<open>The errors a scan ends with.\<close>

definition scan_failure :: "go_error \<Rightarrow> bool" where
  "scan_failure e \<longleftrightarrow>
     (case e of
        ECanceled \<Rightarrow> True | EDeadlineExceeded \<Rightarrow> True | EDecode line raw c \<Rightarrow> True
      | ESDK a \<Rightarrow> err_Category a \<in> fatal_categories
      | _ \<Rightarrow> False)"

lemma scan_failure_simps [simp]: "scan_failure (ctx_go_error c)" "scan_failure (EDecode line raw e)"
  by (cases c) (simp_all add: scan_failure_def)

lemma handle_record_failure:
  assumes "handle_record env r s = (Some e, s')"
  shows "scan_failure e"
proof -
  obtain p s1 where p: "project_record env r (handle_session env r s) = (p, s1)" by fastforce
  show ?thesis
    using assms project_fatal_category [OF p]
    by (auto simp: handle_record_def p Let_def scan_failure_def [of "ESDK _"] sendEvent_def split: option.splits)
qed

lemma scan_loop_failure:
  "scan_loop ctx jerr (handle_record env) scan_err pos ls s = (Some e, s') \<Longrightarrow> scan_failure e"
proof (induction ls arbitrary: pos s)
  case Nil
  then show ?case by (auto split: option.splits)
next
  case (Cons l ls)
  show ?case
  proof (cases "ctx pos")
    case None
    show ?thesis
    proof (cases "scan_line jerr l (int pos + 1)")
      case (Inl err)
      with None Cons.prems scan_line_Inl [OF Inl] show ?thesis by auto
    next
      case (Inr r)
      obtain err s1 where h: "handle_record env r s = (err, s1)" by fastforce
      with None Inr Cons handle_record_failure show ?thesis by (cases err) auto
    qed
  qed (use Cons.prems in auto)
qed

lemma scan_failure_category: "scan_failure e \<Longrightarrow> ErrorAs e = Some a \<Longrightarrow> err_Category a \<noteq> ErrorCancellation"
  by (cases e) (auto simp: scan_failure_def fatal_categories_def)

lemma decode_warning_err: "decode_warning err s = (Some e, s') \<Longrightarrow> err = Some e"
  by (simp add: decode_warning_def Let_def split: if_splits)

lemma emitLifecycle_ends: "Terminal to \<Longrightarrow> Terminal (oc_lifecycle (emitLifecycle env to reason s))"
  by (auto simp: emitLifecycle_def lifecycle_event_def transitionLifecycle_def emit_local_def sendLocalEvent_def
      recordEventStats_def oc_now_def Let_def split: option.splits prod.splits if_splits)

text \<open>The parts of the end of a run.\<close>

lemma finish_run_parts:
  obtains dec s1 cleanup s2 now result err s4 where
    "decode_warning decodeErr s = (dec, s1)" "oc_cleanup_once env (collect_process env s1) = (cleanup, s2)"
    "finalResult env dec (oe_exit env) cleanup (s2\<lparr>oc_ticks := Suc (oc_ticks s2), oc_finished := now\<rparr>) = ((result, err), s4)"
    "finish_run env decodeErr s =
       (let s5 = emitLifecycle env (res_Status result) (lifecycleReason (res_Status result)) s4
        in ((refreshResultEventStats s5 result, err), s5))"
proof -
  obtain dec s1 where 1: "decode_warning decodeErr s = (dec, s1)" by fastforce
  obtain cleanup s2 where 2: "oc_cleanup_once env (collect_process env s1) = (cleanup, s2)" by fastforce
  let ?now = "oe_now env (oc_ticks s2)"
  obtain result err s4 where 3:
    "finalResult env dec (oe_exit env) cleanup (s2\<lparr>oc_ticks := Suc (oc_ticks s2), oc_finished := ?now\<rparr>) = ((result, err), s4)"
    by (metis prod.exhaust)
  show thesis by (rule that [OF 1 2 3]) (simp add: finish_run_def 1 2 3 oc_now_def Let_def)
qed

lemma finalResult_result:
  assumes "finalResult env dec proc cleanup s = ((result, err), s')"
  shows "\<exists>s1. outcome env dec proc s = ((res_Status result, res_Err result), s1)
    \<and> err = map_option ESDK (res_Err result) \<and> md_Status (res_Metadata result) = res_Status result
    \<and> md_Cleanup (res_Metadata result) = cleanup"
  using assms by (auto simp: finalResult_def Let_def split: prod.splits)

lemma finish_run_outcome:
  assumes "finish_run env decodeErr s = ((result, err), s')"
    and "\<And>e. decodeErr = Some e \<Longrightarrow> scan_failure e"
  shows "agrees (res_Status result) (res_Err result)" "err = map_option ESDK (res_Err result)"
    "md_Status (res_Metadata result) = res_Status result" "Terminal (oc_lifecycle s')"
    "Some (md_Cleanup (res_Metadata result)) = oc_cleanup s'"
    "oc_steps env (ps, s) (ps, s')"
proof -
  obtain dec s1 cleanup s2 now result0 err0 s4 where parts:
    "decode_warning decodeErr s = (dec, s1)" "oc_cleanup_once env (collect_process env s1) = (cleanup, s2)"
    "finalResult env dec (oe_exit env) cleanup (s2\<lparr>oc_ticks := Suc (oc_ticks s2), oc_finished := now\<rparr>) = ((result0, err0), s4)"
    "finish_run env decodeErr s =
       (let s5 = emitLifecycle env (res_Status result0) (lifecycleReason (res_Status result0)) s4
        in ((refreshResultEventStats s5 result0, err0), s5))"
    by (rule finish_run_parts)
  have s': "s' = emitLifecycle env (res_Status result0) (lifecycleReason (res_Status result0)) s4"
    and r: "result = refreshResultEventStats s' result0" "err = err0"
    using assms(1) parts(4) unfolding Let_def by auto
  have same: "res_Status result = res_Status result0" "res_Err result = res_Err result0"
    "md_Status (res_Metadata result) = md_Status (res_Metadata result0)"
    "md_Cleanup (res_Metadata result) = md_Cleanup (res_Metadata result0)"
    by (simp_all add: r refreshResultEventStats_def)
  obtain so where o: "outcome env dec (oe_exit env) (s2\<lparr>oc_ticks := Suc (oc_ticks s2), oc_finished := now\<rparr>)
      = ((res_Status result0, res_Err result0), so)"
    and e: "err0 = map_option ESDK (res_Err result0)" "md_Status (res_Metadata result0) = res_Status result0"
      "md_Cleanup (res_Metadata result0) = cleanup"
    using finalResult_result [OF parts(3)] by blast
  have ag: "agrees (res_Status result0) (res_Err result0)"
    using outcome_agrees [OF o] assms(2) decode_warning_err [of decodeErr s] parts(1) scan_failure_category by blast
  then show "agrees (res_Status result) (res_Err result)" by (simp add: same)
  show "err = map_option ESDK (res_Err result)" "md_Status (res_Metadata result) = res_Status result"
    using same r(2) e by simp_all
  have ended: "Terminal (res_Status result0)" "res_Status result0 \<in> run_targets"
    using ag by (auto simp: agrees_def run_targets_def split: option.splits if_splits)
  then show "Terminal (oc_lifecycle s')" unfolding s' by (intro emitLifecycle_ends)
  have core: "same_core (s2\<lparr>oc_ticks := Suc (oc_ticks s2), oc_finished := now\<rparr>) s4"
    using same_core_finalResult [OF parts(3)] .
  have "oc_cleanup s2 = Some cleanup"
    using parts(2) by (auto simp: oc_cleanup_once_def Let_def split: option.splits)
  moreover have "oc_cleanup s' = oc_cleanup s4"
    by (auto simp: s' emitLifecycle_def lifecycle_event_def transitionLifecycle_def emit_local_def sendLocalEvent_def
        recordEventStats_def oc_now_def Let_def split: option.splits prod.splits if_splits)
  ultimately show "Some (md_Cleanup (res_Metadata result)) = oc_cleanup s'"
    using core by (simp add: same e same_core_def)
  have "same_core s s1" using same_core_intros(9) [of s decodeErr] parts(1) by simp
  then have f1: "oc_steps env (ps, s) (ps, collect_process env s1)"
    by (intro core_steps) (blast intro: same_core_trans)
  have f2: "oc_steps env (ps, collect_process env s1) (ps, s2)"
    using cleanup_steps [of env ps "collect_process env s1"] parts(2) by simp
  have "same_core s2 (s2\<lparr>oc_ticks := Suc (oc_ticks s2), oc_finished := now\<rparr>)" by (simp add: same_core_def)
  from same_core_trans [OF this core] have f3: "oc_steps env (ps, s2) (ps, s4)" by (rule core_steps)
  have f4: "oc_steps env (ps, s4) (ps, s')" unfolding s' using ended(2) by (rule emitLifecycle_steps)
  show "oc_steps env (ps, s) (ps, s')"
    using rtranclp_trans [OF rtranclp_trans [OF f1 f2] rtranclp_trans [OF f3 f4]] .
qed

lemma oc_main_parts:
  assumes "oc_main env s = ((result, err), s')"
  obtains decodeErr s1 where
    "scan_loop (oe_line_ctx env) (oe_jerr env) (handle_record env) (scanner_error (oe_readErr env) (oe_stdout env)) 0
       (scanner_tokens (oe_stdout env)) s = (decodeErr, s1)"
    "finish_run env decodeErr s1 = ((result, err), s')"
  using assms that unfolding oc_main_def scanNativeRecords_def by (auto split: prod.splits)

lemma oc_main_steps: "oc_steps env (ps, s) (ps, snd (oc_main env s))"
proof -
  obtain result err s' where m: "oc_main env s = ((result, err), s')" by (metis prod.exhaust)
  then obtain decodeErr s1 where scan: "scan_loop (oe_line_ctx env) (oe_jerr env) (handle_record env)
        (scanner_error (oe_readErr env) (oe_stdout env)) 0 (scanner_tokens (oe_stdout env)) s = (decodeErr, s1)"
    and fin: "finish_run env decodeErr s1 = ((result, err), s')"
    by (rule oc_main_parts)
  have f1: "oc_steps env (ps, s) (ps, s1)" using scan_steps [of env ps s] scan by (metis snd_conv)
  have f2: "oc_steps env (ps, s1) (ps, s')"
  proof (rule finish_run_outcome(6) [OF fin])
    fix e assume "decodeErr = Some e"
    with scan show "scan_failure e" by (auto intro: scan_loop_failure)
  qed
  show ?thesis using rtranclp_trans [OF f1 f2] m by simp
qed

section \<open>The size of the answer\<close>

lemma length_append_output: "length (appendTerminalOutput c n) \<le> max maxTerminalOutputBytes (length c)"
  using length_boundTerminalOutput [of n] length_boundTerminalOutput [of "c @ n"]
  by (auto simp: appendTerminalOutput_def)

definition output_bound :: "oc_run \<Rightarrow> oc_run \<Rightarrow> bool" where
  "output_bound s s' \<longleftrightarrow> length (oc_terminalOutput s') \<le> max maxTerminalOutputBytes (length (oc_terminalOutput s))"

lemma output_bound_trans: "output_bound s t \<Longrightarrow> output_bound t u \<Longrightarrow> output_bound s u"
  by (auto simp: output_bound_def)

lemma output_bound_same: "oc_terminalOutput s' = oc_terminalOutput s \<Longrightarrow> output_bound s s'"
  by (simp add: output_bound_def)

lemma emit_local_output [simp]: "oc_terminalOutput (emit_local env e s) = oc_terminalOutput s"
  by (simp add: emit_local_def sendLocalEvent_def recordEventStats_def Let_def)

lemma handle_session_output [simp]: "oc_terminalOutput (handle_session env r s) = oc_terminalOutput s"
  by (auto simp: handle_session_def updateSessionID_def emitSession_def session_event_def nextSequence_def oc_now_def
      split: prod.splits)

lemma handle_record_output: "output_bound s (snd (handle_record env r s))"
proof -
  obtain p s1 where p: "project_record env r (handle_session env r s) = (p, s1)" by fastforce
  then have s1: "oc_terminalOutput s1 = oc_terminalOutput s"
    by (auto simp: project_record_def nextSequence_def oc_now_def Let_def)
  let ?s2 = "recordEventStats (pr_event p) (audit_permission (pr_event p) s1)"
  have s2: "oc_terminalOutput ?s2 = oc_terminalOutput s"
    by (simp add: recordEventStats_def audit_permission_def s1)
  show ?thesis
    using length_append_output [of "oc_terminalOutput s"]
    by (auto simp: handle_record_def p sendEvent_def learn_def output_bound_def s2 Let_def split: option.splits)
qed

lemma scan_output: "output_bound s (snd (scan_loop ctx jerr (handle_record env) scan_err pos ls s))"
proof (induction ls arbitrary: pos s)
  case (Cons l ls)
  show ?case
  proof (cases "scan_line jerr l (int pos + 1)")
    case (Inr r)
    obtain err s1 where h: "handle_record env r s = (err, s1)" by fastforce
    then have "output_bound s s1" using handle_record_output [of s env r] by simp
    with h Inr Cons.IH show ?thesis
      by (auto split: option.splits intro: output_bound_trans output_bound_same)
  qed (simp add: output_bound_same split: option.splits)
qed (simp add: output_bound_same split: option.splits)

lemma outcome_output: "oc_terminalOutput (snd (outcome env dec proc s)) = oc_terminalOutput s"
proof -
  obtain p s1 where rec: "reconcileFinalState env s = (p, s1)" by fastforce
  then have s1: "oc_terminalOutput s1 = oc_terminalOutput s"
    by (auto simp: reconcileFinalState_def split: option.splits if_splits prod.splits)
  have ctx: "oc_terminalOutput (snd (context_outcome env e s)) = oc_terminalOutput s" for e
    by (auto simp: context_outcome_def classifyRecentLogFailure_def Let_def split: option.splits)
  show ?thesis
    by (cases dec; cases "oe_end_ctx env") (simp_all add: outcome_def Let_def rec s1 ctx split: option.split)
qed

lemma finalResult_output:
  assumes "finalResult env dec proc cleanup s = ((result, err), s')"
  shows "length (res_TerminalOutput result) \<le> max maxTerminalOutputBytes (length (oc_terminalOutput s))"
proof -
  obtain st e s1 where o: "outcome env dec proc s = ((st, e), s1)" by (metis prod.exhaust)
  obtain p s2 where q: "reconcileFinalState env s1 = (p, s2)" by fastforce
  have s1: "oc_terminalOutput s1 = oc_terminalOutput s" using outcome_output [of env dec proc s] o by simp
  have s2: "oc_terminalOutput s2 = oc_terminalOutput s1"
    using q by (auto simp: reconcileFinalState_def split: option.splits if_splits prod.splits)
  have db: "length (dbp_terminalOutput p) \<le> maxTerminalOutputBytes"
    using q length_dbAssistantText
    by (auto simp: reconcileFinalState_def reconcileDBResponse_def zero_dbReconcileProof_def Let_def
        split: option.splits if_splits prod.splits)
  have "res_TerminalOutput result = oc_terminalOutput (enrich p s2)"
    using assms by (auto simp: finalResult_def o q Let_def split: prod.splits)
  then show ?thesis using db by (auto simp: enrich_def s1 s2)
qed

lemma finish_run_output:
  assumes "finish_run env decodeErr s = ((result, err), s')"
  shows "length (res_TerminalOutput result) \<le> max maxTerminalOutputBytes (length (oc_terminalOutput s))"
proof -
  obtain dec s1 cleanup s2 now result0 err0 s4 where parts:
    "decode_warning decodeErr s = (dec, s1)" "oc_cleanup_once env (collect_process env s1) = (cleanup, s2)"
    "finalResult env dec (oe_exit env) cleanup (s2\<lparr>oc_ticks := Suc (oc_ticks s2), oc_finished := now\<rparr>) = ((result0, err0), s4)"
    "finish_run env decodeErr s =
       (let s5 = emitLifecycle env (res_Status result0) (lifecycleReason (res_Status result0)) s4
        in ((refreshResultEventStats s5 result0, err0), s5))"
    by (rule finish_run_parts)
  have "oc_terminalOutput s1 = oc_terminalOutput s"
    using parts(1) by (auto simp: decode_warning_def Let_def split: if_splits)
  moreover have "oc_terminalOutput s2 = oc_terminalOutput s1"
    using parts(2) by (auto simp: oc_cleanup_once_def collect_process_def Let_def split: option.splits)
  moreover have "res_TerminalOutput result = res_TerminalOutput result0"
    using assms parts(4) by (auto simp: Let_def refreshResultEventStats_def)
  ultimately show ?thesis using finalResult_output [OF parts(3)] by simp
qed

section \<open>A clean run\<close>

text \<open>The category of the record on a line; a line that is not a record has none.\<close>

definition line_category :: "(string \<Rightarrow> go_error) \<Rightarrow> string \<Rightarrow> EventKind option" where
  "line_category jerr line = (case scan_line jerr line 0 of Inl e \<Rightarrow> None | Inr r \<Rightarrow> Some (native_category r))"

lemma scan_line_pos: "scan_line jerr line 0 = Inr r \<Longrightarrow> scan_line jerr line pos = Inr (r\<lparr>nr_Line := pos\<rparr>)"
  by (auto simp: scan_line_def decodeNativeLine_def Let_def split: if_splits option.splits)

lemma native_category_line [simp]: "native_category (r\<lparr>nr_Line := pos\<rparr>) = native_category r"
  by (simp add: native_category_def classify_def)

lemma line_category_Some:
  assumes "line_category jerr line = Some k"
  obtains r where "scan_line jerr line pos = Inr r" "native_category r = k"
proof (cases "scan_line jerr line 0")
  case (Inr r)
  show thesis by (rule that [OF scan_line_pos [OF Inr]]) (use assms Inr in \<open>simp add: line_category_def\<close>)
qed (use assms in \<open>simp add: line_category_def\<close>)

lemma emit_local_keeps [simp]:
  "oc_sawFinal (emit_local env e s) = oc_sawFinal s" "oc_lifecycle (emit_local env e s) = oc_lifecycle s"
  by (simp_all add: emit_local_def sendLocalEvent_def recordEventStats_def Let_def)

lemma handle_session_keeps [simp]:
  "oc_sawFinal (handle_session env r s) = oc_sawFinal s" "oc_lifecycle (handle_session env r s) = oc_lifecycle s"
  by (auto simp: handle_session_def updateSessionID_def emitSession_def session_event_def nextSequence_def oc_now_def Let_def)

lemma projectNative_clean:
  "native_category (pin_record i) \<noteq> EventFatalError \<Longrightarrow> pr_fatal (projectNative renv i) = None"
  "native_category (pin_record i) \<noteq> EventFatalError \<Longrightarrow>
     pr_final (projectNative renv i) = (native_category (pin_record i) = EventFinalResult)"
  by (simp_all add: projectNative_def Let_def)

lemma handle_record_clean:
  assumes "native_category r \<noteq> EventFatalError" and "\<And>n. oe_deliver env n = None"
  shows "\<exists>s'. handle_record env r s = (None, s') \<and> oc_lifecycle s' = oc_lifecycle s
    \<and> oc_sawFinal s' = (oc_sawFinal s \<or> native_category r = EventFinalResult)"
proof -
  obtain p s1 where p: "project_record env r (handle_session env r s) = (p, s1)" by fastforce
  then have s1: "oc_sawFinal s1 = oc_sawFinal s" "oc_lifecycle s1 = oc_lifecycle s"
    and f: "pr_fatal p = None" "pr_final p = (native_category r = EventFinalResult)"
    using assms(1) by (auto simp: project_record_def projectNative_clean nextSequence_def oc_now_def Let_def split: if_splits)
  show ?thesis
    using assms(2) s1 f
    by (simp add: handle_record_def p sendEvent_def learn_def audit_permission_def recordEventStats_def Let_def)
qed

lemma scan_clean:
  assumes live: "\<And>n. ctx n = None" "\<And>n. oe_deliver env n = None"
    and lines: "list_all (\<lambda>l. line_category jerr l \<notin> {None, Some EventFatalError}) ls"
  shows "\<exists>s'. scan_loop ctx jerr (handle_record env) None pos ls s = (None, s') \<and> oc_lifecycle s' = oc_lifecycle s
    \<and> oc_sawFinal s' = (oc_sawFinal s \<or> list_ex (\<lambda>l. line_category jerr l = Some EventFinalResult) ls)"
  using lines
proof (induction ls arbitrary: pos s)
  case Nil
  then show ?case using live by simp
next
  case (Cons l ls)
  then obtain k where k: "line_category jerr l = Some k" "k \<noteq> EventFatalError" by auto
  obtain r where r: "scan_line jerr l (int pos + 1) = Inr r" "native_category r = k"
    using line_category_Some [OF k(1)] by blast
  obtain s1 where s1: "handle_record env r s = (None, s1)" "oc_lifecycle s1 = oc_lifecycle s"
    "oc_sawFinal s1 = (oc_sawFinal s \<or> k = EventFinalResult)"
    using handle_record_clean [of r env s] live k(2) r(2) by blast
  show ?case using Cons.IH [of "Suc pos" s1] Cons.prems live r s1 k(1) by auto
qed

lemma decode_warning_None [simp]: "decode_warning None s = (None, s)"
  by (simp add: decode_warning_def postFinalDecodeWarning_def)

lemma finish_run_clean:
  assumes "oe_end_ctx env = None" "pres_Err (oe_exit env) = None" "pres_ExitCode (oe_exit env) = 0" "oc_sawFinal s"
    and fin: "finish_run env None s = ((result, err), s')"
  shows "res_Status result = StatusCompleted" "res_Err result = None"
    "oc_lifecycle s' = (if Terminal (oc_lifecycle s) then oc_lifecycle s else StatusCompleted)"
proof -
  obtain dec s1 cleanup s2 now result0 err0 s4 where parts:
    "decode_warning None s = (dec, s1)" "oc_cleanup_once env (collect_process env s1) = (cleanup, s2)"
    "finalResult env dec (oe_exit env) cleanup (s2\<lparr>oc_ticks := Suc (oc_ticks s2), oc_finished := now\<rparr>) = ((result0, err0), s4)"
    "finish_run env None s =
       (let s5 = emitLifecycle env (res_Status result0) (lifecycleReason (res_Status result0)) s4
        in ((refreshResultEventStats s5 result0, err0), s5))"
    by (rule finish_run_parts)
  have dec: "dec = None" "s1 = s" using parts(1) by simp_all
  have "oc_sawFinal s2" "oc_lifecycle s2 = oc_lifecycle s"
    using parts(2) assms(4)
    by (auto simp: dec oc_cleanup_once_def collect_process_def Let_def split: option.splits)
  then have out: "res_Status result0 = StatusCompleted" "res_Err result0 = None" and core: "oc_lifecycle s4 = oc_lifecycle s"
    using finalResult_result [OF parts(3)] assms(1-3) same_core_finalResult [OF parts(3)]
    by (auto simp: dec outcome_def Let_def same_core_def)
  have r: "result = refreshResultEventStats s' result0" and s': "s' = emitLifecycle env StatusCompleted (lifecycleReason StatusCompleted) s4"
    using fin parts(4) unfolding Let_def out by auto
  show "res_Status result = StatusCompleted" "res_Err result = None" by (simp_all add: r refreshResultEventStats_def out)
  show "oc_lifecycle s' = (if Terminal (oc_lifecycle s) then oc_lifecycle s else StatusCompleted)"
    by (auto simp: s' emitLifecycle_def lifecycle_event_def transitionLifecycle_def oc_now_def core Let_def)
qed

section \<open>Properties\<close>


text \<open>
  C12. The code of the goroutines of a run refines the step relation: the scan with everything after it,
  a caller's cancellation, the watcher of the context and the watcher of the logs are sequences of its
  steps, with whatever events other goroutines have numbered and not delivered yet.
\<close>

theorem run_refines_steps:
  "oc_steps env (ps, s) (ps, snd (oc_main env s)) \<and> oc_steps env (ps, s) (ps, oc_Cancel env s)
   \<and> oc_steps env (ps, s) (ps, cancelOnContextDone env s) \<and> oc_steps env (ps, s) (ps, watchLogRateLimits env s)
   \<and> oc_steps env (ps, s) (ps, emitPermissionAudit env reason s)
   \<and> oc_steps env (ps, s) (ps, emitLifecycle env StatusRunning reason s)"
  using oc_main_steps Cancel_steps context_done_steps watch_steps emitPermissionAudit_steps
    emitLifecycle_steps [of StatusRunning] by (simp add: run_targets_def)

text \<open>
  However the goroutines of a run interleave, the events it has delivered have different
  identifiers, at most one of them ends the lifecycle, and the process was cancelled at most once.
\<close>

theorem run_interleaving_safe:
  assumes "fresh_run s" and "oc_steps env ([], s) (ps, s')"
  shows "distinct (map ev_ID (oc_events s')) \<and> terminal_count (oc_events s') \<le> 1 \<and> oc_cancels s' \<le> 1"
proof -
  have "oc_inv (ps, s')" using oc_steps_inv [OF assms(2) fresh_inv [OF assms(1)]] .
  then show ?thesis by (auto simp: oc_inv_def terminal_count_def split: if_splits)
qed

text \<open>
  C11. A clean run completes: when the contexts live, every line is a record that is not an error, one of
  them is a terminal finish, the reader did not fail and the process exits with 0, the run returns without
  an error and completed, and its lifecycle is completed unless it had been ended before.
\<close>

theorem clean_run_completes:
  assumes "\<And>n. oe_line_ctx env n = None" "\<And>n. oe_deliver env n = None" "oe_end_ctx env = None"
    and "scanner_error (oe_readErr env) (oe_stdout env) = None"
    and "list_all (\<lambda>l. line_category (oe_jerr env) l \<notin> {None, Some EventFatalError}) (scanner_tokens (oe_stdout env))"
    and "list_ex (\<lambda>l. line_category (oe_jerr env) l = Some EventFinalResult) (scanner_tokens (oe_stdout env))"
    and "pres_Err (oe_exit env) = None" "pres_ExitCode (oe_exit env) = 0"
  shows "\<exists>result s'. oc_main env s = ((result, None), s') \<and> res_Status result = StatusCompleted
    \<and> oc_lifecycle s' = (if Terminal (oc_lifecycle s) then oc_lifecycle s else StatusCompleted)"
proof -
  obtain s1 where scan: "scan_loop (oe_line_ctx env) (oe_jerr env) (handle_record env) None 0 (scanner_tokens (oe_stdout env)) s = (None, s1)"
    and s1: "oc_lifecycle s1 = oc_lifecycle s" "oc_sawFinal s1"
    using scan_clean [where ctx = "oe_line_ctx env" and env = env, OF assms(1,2,5), of 0 s] assms(6) by blast
  obtain result err s' where fin: "finish_run env None s1 = ((result, err), s')" by (metis prod.exhaust)
  then have m: "oc_main env s = ((result, err), s')"
    using scan by (simp add: oc_main_def scanNativeRecords_def assms(4))
  note clean = finish_run_clean [OF assms(3,7,8) s1(2) fin]
  moreover have "err = None" using finish_run_outcome(2) [OF fin] clean(2) by simp
  ultimately show ?thesis using m s1(1) by (intro exI [of _ result] exI [of _ s']) simp
qed

text \<open>A run whose process writes one terminal record and exits with 0; its caller cancels it afterwards.\<close>

definition sample_line :: string where
  "sample_line =
     (let q = [CHR 0x22]
      in ''{'' @ q @ ''type'' @ q @ '':'' @ q @ ''step_finish'' @ q @ '','' @ q @ ''reason'' @ q @ '':'' @ q @ ''stop'' @ q @ ''}'')"

definition sample_oc_env :: oc_env where
  "sample_oc_env =
     \<lparr>oe_now = (\<lambda>n. int n), oe_room = (\<lambda>n. True), oe_deliver = (\<lambda>n. None), oe_line_ctx = (\<lambda>n. None), oe_end_ctx = None,
      oe_stdout = sample_line, oe_readErr = None, oe_stderr = [],
      oe_exit = \<lparr>pres_ExitCode = 0, pres_Err = None\<rparr>, oe_cancelErr = None,
      oe_tempErr = None, oe_db = None, oe_rates = None,
      oe_logs = (\<lambda>n. \<lparr>lv_xdg = [], lv_home = [], lv_dir = (\<lambda>d. None), lv_file = (\<lambda>f. None)\<rparr>),
      oe_rate = \<lparr>rle_now = 0, rle_parseSeconds = (\<lambda>s. None), rle_rfc1123 = (\<lambda>s. None), rle_rfc1123z = (\<lambda>s. None),
                 rle_parseDuration = (\<lambda>s. None), rle_sprint = (\<lambda>v. [])\<rparr>,
      oe_jerr = (\<lambda>s. EPlain ''invalid''), oe_durString = (\<lambda>d. [])\<rparr>"

definition sample_oc_run :: oc_run where
  "sample_oc_run =
     \<lparr>oc_id = ''r'', oc_req = zero_RunRequest, oc_context = zero_RuntimeContext, oc_started = 0, oc_finished = 0,
      oc_lifecycle = StatusStarting, oc_seq = 0, oc_sawFinal = False, oc_sawIdle = False, oc_sawOutput = False,
      oc_sessionID = [], oc_artifacts = [], oc_warnings = [], oc_usage = zero_Usage, oc_rateLimit = None,
      oc_liveRateLimitKey = [], oc_permissions = zero_PermissionMetadata, oc_nativeTypes = [], oc_categories = [],
      oc_postFinalDecodeErr = [], oc_finishReason = [], oc_terminalEvidence = [], oc_terminalOutput = [],
      oc_stderrBuffer = newLimitBuffer 65536, oc_tempDir = [], oc_logOffsets = [], oc_cleanup = None, oc_events = [],
      oc_cancels = 0, oc_ticks = 0, oc_locals = 0, oc_sends = 0, oc_queries = 0, oc_looks = 0\<rparr>"

lemma sample_lines:
  "scanner_tokens sample_line = [sample_line]" "scanner_error None sample_line = None"
proof -
  have "stream_lines sample_line = [sample_line]" by code_simp
  moreover have "length sample_line < 100" "drop_cr sample_line = sample_line" by code_simp+
  ultimately show "scanner_tokens sample_line = [sample_line]" "scanner_error None sample_line = None"
    by (simp_all add: scanner_tokens_def scanner_error_def max_line_def)
qed

lemma sample_category: "line_category (\<lambda>s. EPlain ''invalid'') sample_line = Some EventFinalResult"
  by code_simp

theorem clean_run_completes_witness:
  "\<exists>result s'. oc_main sample_oc_env sample_oc_run = ((result, None), s') \<and> res_Status result = StatusCompleted
    \<and> oc_lifecycle s' = StatusCompleted"
  using clean_run_completes [of sample_oc_env sample_oc_run]
  by (simp add: sample_oc_env_def sample_lines sample_category sample_oc_run_def)

theorem run_interleaving_safe_witness:
  "fresh_run sample_oc_run
   \<and> (let s' = oc_Cancel sample_oc_env (oc_Cancel sample_oc_env sample_oc_run)
      in oc_cancels s' = 1 \<and> length (oc_events s') = 1 \<and> distinct (map ev_ID (oc_events s'))
         \<and> terminal_count (oc_events s') \<le> 1)"
proof -
  let ?s = "oc_Cancel sample_oc_env (oc_Cancel sample_oc_env sample_oc_run)"
  have fresh: "fresh_run sample_oc_run" by (simp add: fresh_run_def sample_oc_run_def)
  have "oc_steps sample_oc_env ([], sample_oc_run) ([], ?s)"
    using rtranclp_trans [OF Cancel_steps Cancel_steps] .
  from run_interleaving_safe [OF fresh this] show ?thesis
    using fresh
    by (simp add: Let_def sample_oc_env_def sample_oc_run_def oc_Cancel_def oc_cleanup_once_def emitLifecycle_def
        lifecycle_event_def transitionLifecycle_def oc_now_def emit_local_def sendLocalEvent_def recordEventStats_def)
qed

end
