(* ===== verification/OpencodeStart.thy ===== *)
theory OpencodeStart
  imports OpencodeHealth OpencodeOutcome
begin

text \<open>
  Starting work with OpenCode (\<^verbatim>\<open>opencode/runtime.go\<close>, \<^verbatim>\<open>opencode/models.go\<close>,
  \<^verbatim>\<open>opencode/options.go\<close>): the capabilities of the adapter, the listing of models, the guards of
  \<open>StartRun\<close>, the command line and environment of the process, and the run handle. The state of a
  start is the counter of runs, the probes, the processes asked for and the directories removed.
\<close>

section \<open>Capabilities\<close>

definition oc_Capabilities :: Capabilities where
  "oc_Capabilities =
     (let yes = (\<lambda>c d. (c, \<lparr>cs_Supported = True, cs_Detail = d\<rparr>));
          no = (\<lambda>c d. (c, \<lparr>cs_Supported = False, cs_Detail = d\<rparr>));
          un = (\<lambda>c r. \<lparr>uc_Capability = c, uc_Reason = r\<rparr>)
      in \<lparr>caps_RuntimeKind = ''opencode'',
          caps_Features = Some
            [yes CapabilityStructuredEvents ''uses opencode run --format json'',
             yes CapabilityRawPayloads ''preserves native JSON lines as unsafe raw payloads'',
             yes CapabilityCancellation ''best-effort subprocess cancellation'',
             yes CapabilityArtifacts ''artifact references are projected when native events include them'',
             yes CapabilityUsage ''usage is projected when native events include token data'',
             yes CapabilityPermissions ''permission requests are surfaced and non-interactive OpenCode auto-rejects by default'',
             no CapabilitySessions ''full retained-session lifecycle is not supported'',
             yes CapabilitySessionContinue ''passes requested session id to opencode --session as best effort'',
             no CapabilitySessionFork ''forking retained sessions is not supported'',
             no CapabilitySessionReplace ''replacing retained sessions is not supported'',
             no CapabilitySessionRelease ''releasing retained sessions is not supported'',
             no CapabilityValidationEvents ''output validation is Sprint 7 scope'',
             yes CapabilityPromptCacheAdvisory
               ''validates and audits caller cache directives while OpenCode manages message-level provider caching'',
             no CapabilityPromptCacheNative ''OpenCode CLI does not expose caller-defined cache routing keys or byte breakpoints''],
          caps_Unsupported =
            [un CapabilitySessions ''full retained-session lifecycle is not supported'',
             un CapabilitySessionFork ''OpenCode adapter does not support session fork'',
             un CapabilitySessionReplace ''OpenCode adapter does not support session replace'',
             un CapabilitySessionRelease ''OpenCode adapter does not support session release'',
             un CapabilityValidationEvents ''validation and repair are owned by a later sprint'',
             un CapabilityPromptCacheNative ''OpenCode CLI does not expose caller-defined cache routing keys or byte breakpoints'']\<rparr>)"

section \<open>Models\<close>

definition maxModelListBytes :: nat where "maxModelListBytes = 512 * 1024"

text \<open>The lines of the listing, up to one that does not fit the buffer of the scanner.\<close>

definition listing_lines :: "string \<Rightarrow> string list" where
  "listing_lines s = map drop_cr (takeWhile (\<lambda>l. length l < 64 * 1024) (stream_lines s))"

text \<open>A line that is not a model is skipped; the provider is what is before the first slash.\<close>

definition listing_line :: "ProviderID \<Rightarrow> string \<Rightarrow> (ProviderID \<times> ModelID) option" where
  "listing_line requested raw =
     (let line = TrimSpace raw
      in if line = [] \<or> HasPrefix line ''{'' \<or> HasPrefix line ''['' \<or> CHR 0x20 \<in> set line \<or> CHR 0x09 \<in> set line then None
         else Some (case Cut (CHR ''/'') line of
                      Some (p # ps, rest) \<Rightarrow> (p # ps, rest)
                    | _ \<Rightarrow> (requested, line)))"

definition model_key :: "ProviderID \<times> ModelID \<Rightarrow> string" where
  "model_key m = fst m @ ''/'' @ snd m"

fun listing_loop :: "ProviderID \<Rightarrow> string list \<Rightarrow> string list \<Rightarrow> ModelInfo list" where
  "listing_loop requested seen [] = []"
| "listing_loop requested seen (line # lines) =
     (case listing_line requested line of
        None \<Rightarrow> listing_loop requested seen lines
      | Some m \<Rightarrow>
          if model_key m = ''/'' \<or> model_key m \<in> set seen then listing_loop requested seen lines
          else \<lparr>mi_Provider = fst m, mi_ID = snd m, mi_Name = []\<rparr> # listing_loop requested (model_key m # seen) lines)"

definition parseModelListing :: "string \<Rightarrow> ProviderID \<Rightarrow> ModelInfo list" where
  "parseModelListing s requested = listing_loop requested [] (listing_lines s)"

text \<open>
  A process of the listing: an error of its start, or its standard output with the error of the reader,
  its standard error, and its exit.
\<close>

datatype listing_start = ListingFailed go_error | ListingStarted string "go_error option" string processResult

definition ListModels ::
  "Runtime \<Rightarrow> (processSpec \<Rightarrow> listing_start) \<Rightarrow> ModelsRequest \<Rightarrow> SDKError + ModelInfo list" where
  "ListModels r start req =
     (let args = [''models''] @ (if TrimSpace (mq_Provider req) \<noteq> [] then [mq_Provider req] else [])
      in case start \<lparr>ps_Executable = rt_executable r, ps_Args = args, ps_Env = rt_env r, ps_WorkDir = mq_WorkDir req, ps_Stdin = []\<rparr> of
           ListingFailed e \<Rightarrow>
             Inl (NewError ErrorRuntimeUnavailable ''opencode models'' ''OpenCode model listing could not start'' (Some e) [])
         | ListingStarted stdout readErr stderr result \<Rightarrow>
             (let out = take maxModelListBytes stdout; err = take (nat (rt_stderrLimit r)) stderr
              in if readErr \<noteq> None
                 then Inl (NewError ErrorHealth ''opencode models'' ''OpenCode model listing output could not be read'' readErr [])
                 else if pres_Err result \<noteq> None \<or> pres_ExitCode result \<noteq> 0
                 then Inl (NewError ErrorRuntimeUnavailable ''opencode models'' ''OpenCode model listing failed'' (pres_Err result)
                        [WithDebugDetail (''exit_code='' @ itoa (pres_ExitCode result) @ '' stderr='' @ RedactString (TrimSpace err))])
                 else case parseModelListing out (mq_Provider req) of
                        [] \<Rightarrow> Inl (NewError ErrorModelUnavailable ''opencode models'' ''OpenCode reported no available models'' None
                                   [WithDebugDetail (RedactString out)])
                      | models \<Rightarrow> Inr models))"

section \<open>Guards\<close>

definition unsupportedSessionAction :: "Capability \<Rightarrow> string \<Rightarrow> SDKError" where
  "unsupportedSessionAction capability reason =
     NewError ErrorConfiguration ''opencode session'' reason None [WithDebugDetail capability]"

definition validateSessionRequest :: "RunRequest \<Rightarrow> SDKError option" where
  "validateSessionRequest req =
     (case req_SessionAction req of
        SessionActionFork \<Rightarrow> Some (unsupportedSessionAction CapabilitySessionFork ''OpenCode adapter does not support session fork'')
      | SessionActionReplace \<Rightarrow> Some (unsupportedSessionAction CapabilitySessionReplace ''OpenCode adapter does not support session replace'')
      | SessionActionRelease \<Rightarrow> Some (unsupportedSessionAction CapabilitySessionRelease ''OpenCode adapter does not support session release'')
      | SessionActionOther a \<Rightarrow> Some (unsupportedSessionAction CapabilitySessions (''unsupported session action '' @ go_quote a))
      | _ \<Rightarrow> None)"

definition validateProviderModelRequest :: "RunRequest \<Rightarrow> SDKError option" where
  "validateProviderModelRequest req =
     (let provider = TrimSpace (req_Provider req); model = TrimSpace (req_Model req);
          refuse = (\<lambda>d. Some (NewError ErrorConfiguration ''opencode model'' d None [WithProviderModel (req_Provider req) (req_Model req)]))
      in if CHR ''/'' \<in> set provider then refuse (''provider must not contain '' @ [CHR 0x27] @ ''/'' @ [CHR 0x27])
         else if length (filter (\<lambda>c. c = CHR ''/'') model) > 1 then refuse ''model must be either a model id or provider/model''
         else None)"

text \<open>The directive of the request, or the one its metadata carries.\<close>

definition cache_request :: "RunRequest \<Rightarrow> SDKError + RunRequest" where
  "cache_request req =
     (let check = (\<lambda>req'.
            case ValidatePromptCacheDirective (req_Prompt req') (req_PromptCache req') of
              Some e \<Rightarrow> Inl e
            | None \<Rightarrow>
                if pc_RequireNative (req_PromptCache req')
                then Inl (NewError ErrorConfiguration ''prompt cache directive''
                       ''OpenCode does not expose caller-defined cache routing keys or byte breakpoints'' None [])
                else Inr req')
      in if Enabled (req_PromptCache req) then check req
         else case PromptCacheDirectiveFromMetadata (req_Metadata req) of
                (directive, found, Some e) \<Rightarrow> Inl e
              | (directive, found, None) \<Rightarrow> check (if found then req\<lparr>req_PromptCache := directive\<rparr> else req))"

definition opencode_context :: "RunRequest \<Rightarrow> RuntimeContext" where
  "opencode_context req =
     zero_RuntimeContext\<lparr>ctx_RuntimeKind := ''opencode'', ctx_RuntimeName := ''opencode'', ctx_Provider := req_Provider req,
       ctx_Model := req_Model req\<rparr>"

definition requiredPreflight ::
  "Runtime \<Rightarrow> health_env \<Rightarrow> RunRequest \<Rightarrow> probe_state \<Rightarrow> SDKError option \<times> probe_state" where
  "requiredPreflight r env req s =
     (let required = (case req_RequireHealth req of None \<Rightarrow> [] | Some cs \<Rightarrow> cs)
      in if required = [] then (None, s)
         else case CheckHealth r env
                \<lparr>hq_Context = opencode_context req, hq_WorkDir = req_WorkDir req, hq_Provider = req_Provider req,
                 hq_Model = req_Model req, hq_Permissions = req_Permissions req, hq_Sandbox = req_Sandbox req,
                 hq_Timeout = req_Timeout req, hq_Metadata = req_Metadata req, hq_Checks = required,
                 hq_RequiredChecks = required, hq_IncludeRefresh = False\<rparr> s of
                ((report, Some e), s1) \<Rightarrow> (Some e, s1)
              | ((report, None), s1) \<Rightarrow> (RequiredHealthFailure report required, s1))"

section \<open>The process\<close>

text \<open>\<open>filepath.Base\<close>.\<close>

definition Base :: "string \<Rightarrow> string" where
  "Base p =
     (if p = [] then ''.''
      else let q = rev (dropWhile (\<lambda>c. c = CHR ''/'') (rev p)); b = last (Split (CHR ''/'') q)
           in if b = [] then ''/'' else b)"

definition run_args :: "Runtime \<Rightarrow> RunRequest \<Rightarrow> string list" where
  "run_args r req =
     (let model = (if req_Provider req \<noteq> [] \<and> \<not> HasPrefix (req_Model req) (req_Provider req @ ''/'')
                   then req_Provider req @ ''/'' @ req_Model req else req_Model req)
      in [''run'', ''--format'', ''json'']
         @ (if req_WorkDir req \<noteq> [] then [''--dir'', req_WorkDir req] else [])
         @ (if (req_Provider req \<noteq> [] \<or> req_Model req \<noteq> []) \<and> model \<noteq> [] then [''--model'', model] else [])
         @ (if req_SessionID req \<noteq> [] then [''--session'', req_SessionID req] else [])
         @ rt_extraArgs r)"

definition database_env :: "RunRequest \<Rightarrow> string list \<Rightarrow> SDKError + string list" where
  "database_env req env =
     (let path = TrimSpace (aget_or [] (entries (req_Metadata req)) MetadataDatabasePath)
      in if path = [] then Inr env
         else if \<not> IsAbs path \<or> Base (Clean path) \<noteq> ''opencode.db''
         then Inl (NewError ErrorConfiguration ''opencode database path''
                ''OpenCode database path must be an absolute path ending in opencode.db'' None [])
         else Inr (setEnvValue env ''OPENCODE_DB'' (Clean path)))"

definition run_env :: "(string \<Rightarrow> go_error) \<Rightarrow> Runtime \<Rightarrow> permissionTranslation \<Rightarrow> env_outcome" where
  "run_env jerr r permissions =
     (case mergeEnv jerr (rt_env r) (pt_config permissions) of
        EnvOk env \<Rightarrow>
          (case rt_snapshots r of None \<Rightarrow> EnvOk env | Some enabled \<Rightarrow> withSnapshotConfig jerr env enabled)
      | out \<Rightarrow> out)"

datatype spec_outcome = SpecOk processSpec string | SpecErr SDKError | SpecPanic

definition run_processSpec ::
  "(string \<Rightarrow> go_error) \<Rightarrow> temp_env \<Rightarrow> Runtime \<Rightarrow> RunRequest \<Rightarrow> permissionTranslation \<Rightarrow> spec_outcome" where
  "run_processSpec jerr temp r req permissions =
     (case run_env jerr r permissions of
        EnvPanic \<Rightarrow> SpecPanic
      | EnvErr e \<Rightarrow> SpecErr e
      | EnvOk env \<Rightarrow>
          (case database_env req env of
             Inl e \<Rightarrow> SpecErr e
           | Inr env' \<Rightarrow>
               (case createProcessTempDir temp (aget_or [] (entries (req_Metadata req)) MetadataTempRoot) of
                  Inl e \<Rightarrow> SpecErr e
                | Inr dir \<Rightarrow>
                    SpecOk \<lparr>ps_Executable = rt_executable r, ps_Args = run_args r req, ps_Env = temp_vars dir env',
                            ps_WorkDir = req_WorkDir req, ps_Stdin = req_Prompt req\<rparr> dir)))"

section \<open>Starting a run\<close>

record start_env =
  se_health :: health_env
  se_run :: oc_env
  se_temp :: temp_env
  se_logView :: log_view
  se_spawn :: "processSpec \<Rightarrow> go_error option"

record start_state =
  ss_probes :: probe_state
  ss_counter :: int
  ss_spawned :: "processSpec list"
  ss_removed :: "string list"

datatype start_outcome = StartOK oc_run | StartErr SDKError | StartPanic

text \<open>The handle of a run before its process: the first reading of the clock is its start.\<close>

definition new_run :: "Runtime \<Rightarrow> start_env \<Rightarrow> RunRequest \<Rightarrow> PermissionMetadata \<Rightarrow> RunID \<Rightarrow> oc_run" where
  "new_run r env req permissions rid =
     \<lparr>oc_id = rid, oc_req = req, oc_context = opencode_context req, oc_started = oe_now (se_run env) 0, oc_finished = 0,
      oc_lifecycle = StatusStarting, oc_seq = 0, oc_sawFinal = False, oc_sawIdle = False, oc_sawOutput = False,
      oc_sessionID = [], oc_artifacts = [], oc_warnings = [], oc_usage = zero_Usage, oc_rateLimit = None,
      oc_liveRateLimitKey = [], oc_permissions = permissions, oc_nativeTypes = [], oc_categories = [],
      oc_postFinalDecodeErr = [], oc_finishReason = [], oc_terminalEvidence = [], oc_terminalOutput = [],
      oc_stderrBuffer = newLimitBuffer (rt_stderrLimit r), oc_tempDir = [],
      oc_logOffsets = openCodeLogOffsets (se_logView env), oc_cleanup = None, oc_events = [],
      oc_cancels = 0, oc_ticks = 1, oc_locals = 0, oc_sends = 0, oc_queries = 0, oc_looks = 0\<rparr>"

text \<open>The part of \<open>StartRun\<close> after the guards.\<close>

definition launch ::
  "Runtime \<Rightarrow> start_env \<Rightarrow> RunRequest \<Rightarrow> permissionTranslation \<Rightarrow> start_state \<Rightarrow> start_outcome \<times> start_state" where
  "launch r env req permissions s =
     (let n = ss_counter s + 1; s1 = s\<lparr>ss_counter := n\<rparr>;
          handle = emitPermissionAudit (se_run env) ''policy_initialized''
                     (new_run r env req (pt_metadata permissions) (''opencode-'' @ itoa n))
      in case run_processSpec (oe_jerr (se_run env)) (se_temp env) r req permissions of
           SpecPanic \<Rightarrow> (StartPanic, s1)
         | SpecErr e \<Rightarrow> (StartErr e, s1)
         | SpecOk spec dir \<Rightarrow>
             (let s2 = s1\<lparr>ss_spawned := ss_spawned s1 @ [spec]\<rparr>
              in case se_spawn env spec of
                   Some e \<Rightarrow>
                     (StartErr (classifyStartError e),
                      if TrimSpace dir = [] then s2 else s2\<lparr>ss_removed := ss_removed s2 @ [dir]\<rparr>)
                 | None \<Rightarrow>
                     (StartOK (emitLifecycle (se_run env) StatusRunning ''process_started'' (handle\<lparr>oc_tempDir := dir\<rparr>)), s2)))"

definition oc_StartRun :: "Runtime \<Rightarrow> start_env \<Rightarrow> RunRequest \<Rightarrow> start_state \<Rightarrow> start_outcome \<times> start_state" where
  "oc_StartRun r env req0 s =
     (case cache_request req0 of
        Inl e \<Rightarrow> (StartErr e, s)
      | Inr req \<Rightarrow>
          (case validateSessionRequest req of
             Some e \<Rightarrow> (StartErr e, s)
           | None \<Rightarrow>
               (case validateProviderModelRequest req of
                  Some e \<Rightarrow> (StartErr e, s)
                | None \<Rightarrow>
                    (case requiredPreflight r (se_health env) req (ss_probes s) of
                       (Some e, probes) \<Rightarrow> (StartErr e, s\<lparr>ss_probes := probes\<rparr>)
                     | (None, probes) \<Rightarrow>
                         (case translatePermissions req of
                            Inl e \<Rightarrow> (StartErr e, s\<lparr>ss_probes := probes\<rparr>)
                          | Inr permissions \<Rightarrow> launch r env req permissions (s\<lparr>ss_probes := probes\<rparr>))))))"

text \<open>
  The environment a started run works in: the database and the rates are those of the runtime.
\<close>

definition started_env :: "Runtime \<Rightarrow> rates_env \<Rightarrow> start_env \<Rightarrow> oc_env" where
  "started_env r renv env =
     (se_run env)\<lparr>oe_db := rt_dbQuery r, oe_rates := map_option (\<lambda>store. fst (Ensure renv store)) (rt_rates r)\<rparr>"

section \<open>Environment variables of the process\<close>

definition assignments :: "string \<Rightarrow> string list \<Rightarrow> string list" where
  "assignments key env = filter (\<lambda>item. HasPrefix item (key @ ''='')) env"

lemma assignments_set [simp]: "assignments key (setEnvValue env key v) = [key @ ''='' @ v]"
  by (auto simp: assignments_def setEnvValue_def HasPrefix_def filter_empty_conv)

lemma prefix_key_eq: "prefix (k @ ''='') (k' @ ''='' @ v) \<Longrightarrow> CHR ''='' \<notin> set k \<Longrightarrow> CHR ''='' \<notin> set k' \<Longrightarrow> k = k'"
proof (induction k arbitrary: k')
  case Nil
  then show ?case by (cases k') auto
next
  case (Cons c k)
  then show ?case by (cases k') auto
qed

lemma assignments_set_other:
  assumes "CHR ''='' \<notin> set key" "CHR ''='' \<notin> set key'" "key \<noteq> key'"
  shows "assignments key (setEnvValue env key' v) = assignments key env"
proof -
  have "prefix (key @ ''='') (key' @ ''='' @ v) = False"
    using prefix_key_eq [of key key' v] assms by blast
  moreover have "\<not> (prefix (key @ ''='') item \<and> prefix (key' @ ''='') item)" for item
  proof
    assume both: "prefix (key @ ''='') item \<and> prefix (key' @ ''='') item"
    then obtain z where "item = key' @ ''='' @ z" by (auto simp: prefix_def)
    with both prefix_key_eq [of key key' z] assms show False by simp
  qed
  ultimately show ?thesis
    by (auto simp: assignments_def setEnvValue_def HasPrefix_def intro: filter_cong)
qed

text \<open>A value for the process is what the process sees, whatever it inherits.\<close>

lemma child_assignment:
  assumes "assignments key (ps_Env spec) = [v]"
  shows "last (assignments key (cmd_Env (exec_command environ spec))) = v"
proof -
  have "ps_Env spec \<noteq> []" using assms by (auto simp: assignments_def)
  with assms show ?thesis by (simp add: exec_command_def configureProcessGroup_def assignments_def)
qed

lemma temp_vars_set: "dir \<noteq> [] \<Longrightarrow> key \<in> {''TMPDIR'', ''TMP'', ''TEMP''} \<Longrightarrow> assignments key (temp_vars dir env) = [key @ ''='' @ dir]"
  by (auto simp: temp_vars_def assignments_set_other simp del: append.simps)

lemma temp_vars_other:
  "CHR ''='' \<notin> set key \<Longrightarrow> key \<notin> {''TMPDIR'', ''TMP'', ''TEMP''} \<Longrightarrow> assignments key (temp_vars dir env) = assignments key env"
  by (simp add: temp_vars_def assignments_set_other)

section \<open>A started run is new\<close>

lemma new_run_fresh: "fresh_run (new_run r env req permissions rid)"
  by (simp add: fresh_run_def new_run_def)

lemma emitPermissionAudit_keeps:
  "oc_req (emitPermissionAudit env reason s) = oc_req s" "oc_id (emitPermissionAudit env reason s) = oc_id s"
  "oc_lifecycle (emitPermissionAudit env reason s) = oc_lifecycle s"
  by (auto simp: emitPermissionAudit_def permission_event_def own_event_def nextSequence_def oc_now_def emit_local_def
      sendLocalEvent_def recordEventStats_def Let_def apfst_def map_prod_def split: option.splits prod.splits)

lemma emitLifecycle_started:
  "oc_lifecycle s = StatusStarting \<Longrightarrow> oc_lifecycle (emitLifecycle env StatusRunning reason s) = StatusRunning"
  "oc_req (emitLifecycle env to reason s) = oc_req s" "oc_id (emitLifecycle env to reason s) = oc_id s"
  "oc_tempDir (emitLifecycle env to reason s) = oc_tempDir s"
  by (auto simp: emitLifecycle_def lifecycle_event_def transitionLifecycle_def oc_now_def emit_local_def
      sendLocalEvent_def recordEventStats_def Let_def split: option.splits prod.splits)

lemma launch_inv:
  assumes "launch r env req permissions s = (StartOK h, s')"
  shows "oc_inv ([], h)"
proof -
  obtain dir where h: "h = emitLifecycle (se_run env) StatusRunning ''process_started''
      ((emitPermissionAudit (se_run env) ''policy_initialized''
         (new_run r env req (pt_metadata permissions) (''opencode-'' @ itoa (ss_counter s + 1))))\<lparr>oc_tempDir := dir\<rparr>)"
    using assms by (auto simp: launch_def Let_def split: spec_outcome.splits option.splits)
  let ?n = "new_run r env req (pt_metadata permissions) (''opencode-'' @ itoa (ss_counter s + 1))"
  let ?a = "emitPermissionAudit (se_run env) ''policy_initialized'' ?n"
  have 1: "oc_steps (se_run env) ([], ?n) ([], ?a)" by (rule emitPermissionAudit_steps)
  have 2: "oc_steps (se_run env) ([], ?a) ([], ?a\<lparr>oc_tempDir := dir\<rparr>)"
    by (rule core_steps) (simp add: same_core_def)
  have 3: "oc_steps (se_run env) ([], ?a\<lparr>oc_tempDir := dir\<rparr>) ([], h)"
    unfolding h by (rule emitLifecycle_steps) (simp add: run_targets_def)
  have "oc_steps (se_run env) ([], ?n) ([], h)" using rtranclp_trans [OF rtranclp_trans [OF 1 2] 3] .
  then show ?thesis using oc_steps_inv fresh_inv [OF new_run_fresh] by blast
qed

lemma StartRun_launch:
  assumes "oc_StartRun r env req s = (StartOK h, s')"
  obtains req' probes permissions where
    "cache_request req = Inr req'" "validateSessionRequest req' = None" "validateProviderModelRequest req' = None"
    "requiredPreflight r (se_health env) req' (ss_probes s) = (None, probes)"
    "translatePermissions req' = Inr permissions"
    "launch r env req' permissions (s\<lparr>ss_probes := probes\<rparr>) = (StartOK h, s')"
  using assms that unfolding oc_StartRun_def by (auto split: sum.splits option.splits prod.splits)

lemma processSpec_fields:
  assumes "run_processSpec jerr temp r req permissions = SpecOk spec dir"
  shows "ps_Stdin spec = req_Prompt req" "ps_Args spec = run_args r req" "ps_Executable spec = rt_executable r"
    "ps_WorkDir spec = req_WorkDir req" "TrimSpace dir \<noteq> [] \<Longrightarrow> assignments ''TMPDIR'' (ps_Env spec) = [''TMPDIR='' @ dir]"
proof -
  obtain env where "spec = \<lparr>ps_Executable = rt_executable r, ps_Args = run_args r req, ps_Env = temp_vars dir env,
      ps_WorkDir = req_WorkDir req, ps_Stdin = req_Prompt req\<rparr>"
    using assms by (auto simp: run_processSpec_def split: env_outcome.splits sum.splits)
  moreover have "TrimSpace [] = []" by code_simp
  then have empty: "TrimSpace dir \<noteq> [] \<Longrightarrow> dir \<noteq> []" by auto
  ultimately show "ps_Stdin spec = req_Prompt req" "ps_Args spec = run_args r req" "ps_Executable spec = rt_executable r"
    "ps_WorkDir spec = req_WorkDir req" "TrimSpace dir \<noteq> [] \<Longrightarrow> assignments ''TMPDIR'' (ps_Env spec) = [''TMPDIR='' @ dir]"
    using temp_vars_set [of dir "''TMPDIR''" env] empty by auto
qed

section \<open>Model listings\<close>

lemma listing_loop_keys:
  "distinct (map (\<lambda>m. model_key (mi_Provider m, mi_ID m)) (listing_loop requested seen lines))
   \<and> (\<lambda>m. model_key (mi_Provider m, mi_ID m)) ` set (listing_loop requested seen lines) =
       {k \<in> model_key ` set (List.map_filter (listing_line requested) lines). k \<noteq> ''/'' \<and> k \<notin> set seen}
   \<and> (\<forall>m \<in> set (listing_loop requested seen lines). (mi_Provider m, mi_ID m) \<in> set (List.map_filter (listing_line requested) lines))"
proof (induction requested seen lines rule: listing_loop.induct)
  case (2 requested seen line lines)
  show ?case
  proof (cases "listing_line requested line")
    case None
    with 2 show ?thesis by (simp add: List.map_filter_simps)
  next
    case (Some m)
    show ?thesis
    proof (cases "model_key m = ''/'' \<or> model_key m \<in> set seen")
      case True
      with 2(2) [OF Some] Some show ?thesis by (auto simp: List.map_filter_simps)
    next
      case False
      note IH = 2(3) [OF Some False]
      have key: "model_key (fst m, snd m) = model_key m" by simp
      have "model_key m \<notin> (\<lambda>m. model_key (mi_Provider m, mi_ID m)) ` set (listing_loop requested (model_key m # seen) lines)"
        using IH by auto
      with IH Some False key show ?thesis by (auto simp: List.map_filter_simps)
    qed
  qed
qed (simp add: List.map_filter_simps)

section \<open>Properties\<close>


text \<open>
  C9. From the return of \<open>StartRun\<close>, however the goroutines of the run interleave, its events have
  different identifiers, at most one of them ends the lifecycle, and the process is cancelled at most
  once.
\<close>

theorem started_run_safe:
  assumes "oc_StartRun r env req s = (StartOK h, s')" and "oc_steps oenv ([], h) (ps, t)"
  shows "distinct (map ev_ID (oc_events t)) \<and> terminal_count (oc_events t) \<le> 1 \<and> oc_cancels t \<le> 1"
proof -
  obtain req' probes permissions where "launch r env req' permissions (s\<lparr>ss_probes := probes\<rparr>) = (StartOK h, s')"
    using assms(1) by (rule StartRun_launch)
  then have "oc_inv ([], h)" by (rule launch_inv)
  with assms(2) have "oc_inv (ps, t)" by (rule oc_steps_inv)
  then show ?thesis by (auto simp: oc_inv_def terminal_count_def split: if_splits)
qed

text \<open>A runtime with its defaults, and an environment in which the process starts.\<close>

definition sample_start_env :: start_env where
  "sample_start_env =
     \<lparr>se_health = \<lparr>he_now = (\<lambda>n. 0), he_start = (\<lambda>n spec. ProbeStarted [] [] \<lparr>pres_ExitCode = 0, pres_Err = None\<rparr>),
                    he_ctx = (\<lambda>n. None), he_stat = (\<lambda>p. Inr True),
                    he_temp = \<lparr>te_mkdirAll = (\<lambda>d. None), te_mkdirTemp = (\<lambda>d. Inr d), te_chmod = (\<lambda>d. None)\<rparr>\<rparr>,
      se_run = sample_oc_env, se_temp = \<lparr>te_mkdirAll = (\<lambda>d. None), te_mkdirTemp = (\<lambda>d. Inr d), te_chmod = (\<lambda>d. None)\<rparr>,
      se_logView = \<lparr>lv_xdg = [], lv_home = [], lv_dir = (\<lambda>d. None), lv_file = (\<lambda>f. None)\<rparr>, se_spawn = (\<lambda>spec. None)\<rparr>"

definition sample_start_state :: start_state where
  "sample_start_state = \<lparr>ss_probes = \<lparr>pb_ticks = 0, pb_starts = []\<rparr>, ss_counter = 0, ss_spawned = [], ss_removed = []\<rparr>"

abbreviation sample_Runtime :: Runtime where
  "sample_Runtime \<equiv> NewRuntime (\<lambda>n exe env args. (None, [])) (\<lambda>n. None) []"

theorem started_run_safe_witness:
  "case oc_StartRun sample_Runtime sample_start_env zero_RunRequest sample_start_state of
     (StartOK h, s') \<Rightarrow>
       (let t = oc_Cancel sample_oc_env (oc_Cancel sample_oc_env h)
        in distinct (map ev_ID (oc_events t)) \<and> terminal_count (oc_events t) \<le> 1 \<and> oc_cancels t \<le> 1)
   | _ \<Rightarrow> False"
proof -
  let ?start = "oc_StartRun sample_Runtime sample_start_env zero_RunRequest sample_start_state"
  have "case fst ?start of StartOK h \<Rightarrow> True | _ \<Rightarrow> False" by code_simp
  then obtain h s' where h: "?start = (StartOK h, s')" by (cases ?start) (auto split: start_outcome.splits)
  have "oc_steps sample_oc_env ([], h) ([], oc_Cancel sample_oc_env (oc_Cancel sample_oc_env h))"
    using rtranclp_trans [OF Cancel_steps Cancel_steps] .
  from started_run_safe [OF h this] show ?thesis by (simp add: h Let_def)
qed

text \<open>
  C36. The environment of the process: a database path of the request is absolute, names an
  \<^verbatim>\<open>opencode.db\<close> and is the only value of its variable; the temporary directory is the only value
  of its three variables; the process sees these values whatever it inherits; and the configuration that carries the permission policy is passed on as
  it was merged. The prompt is the input of the process and not on its command line.
\<close>

theorem process_environment:
  "case run_processSpec jerr temp r req permissions of
     SpecOk spec dir \<Rightarrow>
       (let path = TrimSpace (aget_or [] (entries (req_Metadata req)) MetadataDatabasePath); env = ps_Env spec
        in (if path = [] then True
            else IsAbs path \<and> Base (Clean path) = ''opencode.db''
                 \<and> assignments ''OPENCODE_DB'' env = [''OPENCODE_DB='' @ Clean path])
           \<and> (if dir = [] then True
              else assignments ''TMPDIR'' env = [''TMPDIR='' @ dir] \<and> assignments ''TMP'' env = [''TMP='' @ dir]
                   \<and> assignments ''TEMP'' env = [''TEMP='' @ dir])
           \<and> (case run_env jerr r permissions of
                EnvOk base \<Rightarrow> assignments ''OPENCODE_CONFIG_CONTENT'' env = assignments ''OPENCODE_CONFIG_CONTENT'' base
              | _ \<Rightarrow> False)
           \<and> (if dir = [] then True
              else last (assignments ''TMPDIR'' (cmd_Env (exec_command environ spec))) = ''TMPDIR='' @ dir)
           \<and> (if path = [] then True
              else last (assignments ''OPENCODE_DB'' (cmd_Env (exec_command environ spec))) = ''OPENCODE_DB='' @ Clean path)
           \<and> ps_Args spec = run_args r req \<and> ps_Stdin spec = req_Prompt req)
   | _ \<Rightarrow> True"
proof (cases "run_processSpec jerr temp r req permissions")
  case (SpecOk spec dir)
  then obtain base env where base: "run_env jerr r permissions = EnvOk base" and db: "database_env req base = Inr env"
    and spec: "spec = \<lparr>ps_Executable = rt_executable r, ps_Args = run_args r req, ps_Env = temp_vars dir env,
      ps_WorkDir = req_WorkDir req, ps_Stdin = req_Prompt req\<rparr>"
    by (auto simp: run_processSpec_def split: env_outcome.splits sum.splits)
  let ?path = "TrimSpace (aget_or [] (entries (req_Metadata req)) MetadataDatabasePath)"
  have path: "if ?path = [] then env = base
      else IsAbs ?path \<and> Base (Clean ?path) = ''opencode.db'' \<and> env = setEnvValue base ''OPENCODE_DB'' (Clean ?path)"
    using db by (auto simp: database_env_def Let_def split: if_splits)
  have "assignments ''OPENCODE_CONFIG_CONTENT'' env = assignments ''OPENCODE_CONFIG_CONTENT'' base"
    using path by (simp add: assignments_set_other split: if_splits)
  moreover have "?path \<noteq> [] \<Longrightarrow> assignments ''OPENCODE_DB'' env = [''OPENCODE_DB='' @ Clean ?path]"
    using path assignments_set [of "''OPENCODE_DB''" base "Clean ?path"] by simp
  moreover have "dir \<noteq> [] \<Longrightarrow> last (assignments ''TMPDIR'' (cmd_Env (exec_command environ spec))) = ''TMPDIR='' @ dir"
    using temp_vars_set [of dir "''TMPDIR''" env] by (intro child_assignment) (simp add: spec)
  moreover have "?path \<noteq> [] \<Longrightarrow> last (assignments ''OPENCODE_DB'' (cmd_Env (exec_command environ spec))) = ''OPENCODE_DB='' @ Clean ?path"
    using path assignments_set [of "''OPENCODE_DB''" base "Clean ?path"]
    by (intro child_assignment) (simp add: spec temp_vars_other)
  ultimately show ?thesis
    using path temp_vars_set [of dir _ env] base by (simp add: SpecOk spec temp_vars_other Let_def)
qed simp_all

text \<open>
  A model listing is read exactly: no two models have the same reference, every model is a line of
  the listing, and every line that is a model is listed.
\<close>

theorem model_listing_exact:
  "let models = parseModelListing s requested; refs = List.map_filter (listing_line requested) (listing_lines s)
   in distinct (map (\<lambda>m. model_key (mi_Provider m, mi_ID m)) models)
      \<and> set (map (\<lambda>m. (mi_Provider m, mi_ID m)) models) \<subseteq> set refs
      \<and> set (map (\<lambda>m. model_key (mi_Provider m, mi_ID m)) models) = set (map model_key refs) - {''/''}"
  using listing_loop_keys [of requested "[]" "listing_lines s"]
  by (auto simp: parseModelListing_def Let_def)

section \<open>Corner cases\<close>

text \<open>A request with a provider and no model passes the provider and a slash as the model.\<close>

lemma provider_without_model:
  "run_args r (zero_RunRequest\<lparr>req_Provider := ''anthropic''\<rparr>) = [''run'', ''--format'', ''json'', ''--model'', ''anthropic/''] @ rt_extraArgs r"
  by (simp add: run_args_def zero_RunRequest_def HasPrefix_def)

text \<open>Without a needle of two bytes the window of a probe is its whole output, whatever the limit of the sample.\<close>

lemma probe_window_unbounded: "m \<le> 1 \<Longrightarrow> next_tail m window = window"
  by (simp add: next_tail_def)

end
