(* ===== verification/Stack.thy ===== *)
theory Stack
  imports Wrappers OpencodeStart
begin

text \<open>
  The OpenCode adapter under the wrappers: a policy runner over validating runtimes over the adapter. Whatever the
  wrappers make of a request, through retries, fallbacks, repairs and fresh sessions, every process that is
  started has the permission configuration of the caller's policy in its environment.
\<close>

section \<open>The permissions of every process\<close>

text \<open>
  A process carries a permission policy when the configuration in its environment is the one the adapter makes of
  that policy, whatever else the request asks for.
\<close>

definition policy_request :: "PermissionPolicy option \<Rightarrow> RunRequest" where
  "policy_request policy = zero_RunRequest\<lparr>req_PermissionPolicy := policy\<rparr>"

definition carries_policy :: "(string \<Rightarrow> go_error) \<Rightarrow> Runtime \<Rightarrow> PermissionPolicy option \<Rightarrow> processSpec \<Rightarrow> bool" where
  "carries_policy jerr r policy spec \<longleftrightarrow>
     (case translatePermissions (policy_request policy) of
        Inl e \<Rightarrow> False
      | Inr permissions \<Rightarrow>
          (case run_env jerr r permissions of
             EnvOk base \<Rightarrow> assignments ''OPENCODE_CONFIG_CONTENT'' (ps_Env spec) = assignments ''OPENCODE_CONFIG_CONTENT'' base
           | _ \<Rightarrow> False))"

definition spawned_by :: "start_state \<Rightarrow> start_state \<Rightarrow> processSpec list" where
  "spawned_by s s' = drop (length (ss_spawned s)) (ss_spawned s')"

lemma translate_tools_config:
  "map_sum (\<lambda>e. e) fst (translate_tools b ts explicit config md) = map_sum (\<lambda>e. e) fst (translate_tools b ts explicit config md')"
proof (induction ts arbitrary: b explicit config md md')
  case (Cons tool ts)
  obtain name action where t: "tool = (name, action)" by fastforce
  show ?case
    unfolding t translate_tools.simps Let_def
    by (auto simp del: translate_tools.simps split: option.split intro: Cons.IH)
qed simp

lemma translate_rules_config: "fst (translate_rules rs config md) = fst (translate_rules rs config md')"
  by (induction rs config md arbitrary: md' rule: translate_rules.induct) auto

lemma translation_of_policy:
  assumes "translatePermissions q = Inr t"
  obtains t' where "translatePermissions (policy_request (req_PermissionPolicy q)) = Inr t'" "pt_config t' = pt_config t"
proof (cases "req_PermissionPolicy q")
  case None
  with assms that show thesis
    by (auto simp: translatePermissions_def policy_request_def)
next
  case (Some p)
  let ?md = "\<lambda>m. if pp_Default p \<noteq> PermissionActionDefault
      then add_support \<lparr>pfs_Feature = ''default'', pfs_Enforcement = PermissionEnforcementNative,
             pfs_Reason = ''expanded to OpenCode native tool permissions''\<rparr>
             (zero_PermissionMetadata\<lparr>pm_Mode := m, pm_Policy := policy_Summary p, pm_PolicyID := pps_ID (policy_Summary p)\<rparr>)
      else zero_PermissionMetadata\<lparr>pm_Mode := m, pm_Policy := policy_Summary p, pm_PolicyID := pps_ID (policy_Summary p)\<rparr>"
  let ?tools = "\<lambda>m. translate_tools (pp_UnsupportedBehavior p) (entries (pp_Tools p)) [] (default_config p) (?md m)"
  have eq: "translatePermissions x =
      (case ValidatePermissionPolicy (Some p) of
         Some err \<Rightarrow> Inl err
       | None \<Rightarrow> (case ?tools (req_Permissions x) of
           Inl err \<Rightarrow> Inl err
         | Inr (config, md3) \<Rightarrow>
             (let (config', md4) = translate_rules (pp_PathRules p) config md3
              in Inr \<lparr>pt_config = (if config' = [] then None else Some config'), pt_metadata = md4\<rparr>)))"
    if "req_PermissionPolicy x = Some p" for x
    using that unfolding translatePermissions_def Let_def by simp
  obtain config md where tools: "?tools (req_Permissions q) = Inr (config, md)" "ValidatePermissionPolicy (Some p) = None"
    and t: "pt_config t = (let c = fst (translate_rules (pp_PathRules p) config md) in if c = [] then None else Some c)"
    using assms eq [OF Some] by (auto simp: Let_def split: option.splits sum.splits prod.splits)
  let ?z = "policy_request (req_PermissionPolicy q)"
  have z: "req_PermissionPolicy ?z = Some p" using Some by (simp add: policy_request_def)
  have "map_sum (\<lambda>e. e) fst (?tools (req_Permissions ?z)) = Inr config"
    using translate_tools_config [of _ _ _ _ "?md (req_Permissions ?z)" "?md (req_Permissions q)"] tools(1) by simp
  then obtain md' where "?tools (req_Permissions ?z) = Inr (config, md')" by (cases "?tools (req_Permissions ?z)") auto
  then show thesis
    using that eq [OF z] tools(2) t translate_rules_config [of "pp_PathRules p" config md' md]
    by (auto simp: Let_def case_prod_beta)
qed

lemma cache_request_policy: "cache_request q = Inr q' \<Longrightarrow> req_PermissionPolicy q' = req_PermissionPolicy q"
  by (auto simp: cache_request_def Let_def split: option.splits if_splits prod.splits)

lemma spec_carries_policy:
  assumes "run_processSpec jerr temp r q permissions = SpecOk spec dir" and "translatePermissions q = Inr permissions"
  shows "carries_policy jerr r (req_PermissionPolicy q) spec"
proof -
  from assms(1) obtain base env where base: "run_env jerr r permissions = EnvOk base" and db: "database_env q base = Inr env"
    and spec: "ps_Env spec = temp_vars dir env"
    by (auto simp: run_processSpec_def split: env_outcome.splits sum.splits)
  have "env = base \<or> (\<exists>v. env = setEnvValue base ''OPENCODE_DB'' v)"
    using db by (auto simp: database_env_def Let_def split: if_splits)
  then have "assignments ''OPENCODE_CONFIG_CONTENT'' env = assignments ''OPENCODE_CONFIG_CONTENT'' base"
    by (auto simp: assignments_set_other)
  moreover obtain t' where "translatePermissions (policy_request (req_PermissionPolicy q)) = Inr t'" "pt_config t' = pt_config permissions"
    using translation_of_policy [OF assms(2)] .
  ultimately show ?thesis using base spec by (simp add: carries_policy_def run_env_def temp_vars_other)
qed

lemma StartRun_carries_policy:
  assumes "oc_StartRun r env q s = (out, s')"
  shows "list_all (carries_policy (oe_jerr (se_run env)) r (req_PermissionPolicy q)) (spawned_by s s')"
proof -
  have "list_all (carries_policy (oe_jerr (se_run env)) r (req_PermissionPolicy q)) (spawned_by s u)"
    if "launch r env q' permissions (s\<lparr>ss_probes := probes\<rparr>) = (out, u)" "cache_request q = Inr q'"
      "translatePermissions q' = Inr permissions" for q' permissions probes out u
    using that spec_carries_policy [of _ _ r q' permissions] cache_request_policy [OF that(2)]
    by (auto simp: launch_def spawned_by_def Let_def split: spec_outcome.splits option.splits if_splits)
  then show ?thesis
    using assms by (auto simp: oc_StartRun_def spawned_by_def split: sum.splits option.splits prod.splits)
qed

section \<open>The stack\<close>

text \<open>
  The adapter as the runtime below the wrappers: the start at observations \<open>t\<close> and \<open>u\<close> has its own environment and
  state, and \<open>finish\<close> is how the run goes on from what \<open>StartRun\<close> returned. The watched adapter
  refuses a start whose process does not carry the policy.
\<close>

definition opencode_base ::
  "(RuntimeRef \<Rightarrow> Runtime) \<Rightarrow> (nat \<Rightarrow> nat \<Rightarrow> start_env) \<Rightarrow> (nat \<Rightarrow> nat \<Rightarrow> start_state)
     \<Rightarrow> (nat \<Rightarrow> nat \<Rightarrow> OpencodeStart.start_outcome \<Rightarrow> Model.start_outcome)
     \<Rightarrow> nat \<Rightarrow> nat \<Rightarrow> RuntimeRef \<Rightarrow> RunRequest \<Rightarrow> Model.start_outcome" where
  "opencode_base runtimes envs states finish t u rt q =
     finish t u (fst (oc_StartRun (runtimes rt) (envs t u) q (states t u)))"

definition watched_base ::
  "PermissionPolicy option \<Rightarrow> go_error \<Rightarrow> (RuntimeRef \<Rightarrow> Runtime) \<Rightarrow> (nat \<Rightarrow> nat \<Rightarrow> start_env) \<Rightarrow> (nat \<Rightarrow> nat \<Rightarrow> start_state)
     \<Rightarrow> (nat \<Rightarrow> nat \<Rightarrow> OpencodeStart.start_outcome \<Rightarrow> Model.start_outcome)
     \<Rightarrow> nat \<Rightarrow> nat \<Rightarrow> RuntimeRef \<Rightarrow> RunRequest \<Rightarrow> Model.start_outcome" where
  "watched_base policy refusal runtimes envs states finish t u rt q =
     (let (out, s') = oc_StartRun (runtimes rt) (envs t u) q (states t u)
      in if list_all (carries_policy (oe_jerr (se_run (envs t u))) (runtimes rt) policy) (spawned_by (states t u) s')
         then finish t u out else Inl refusal)"

lemma watched_base_same:
  "req_PermissionPolicy q = policy \<Longrightarrow>
     watched_base policy refusal runtimes envs states finish t u rt q = opencode_base runtimes envs states finish t u rt q"
  using StartRun_carries_policy [of "runtimes rt" "envs t u" q "states t u"]
  by (auto simp: watched_base_def opencode_base_def split: prod.splits)


text \<open>The run of a request without a policy, its processes watched for one.\<close>

definition sample_outcome :: "OpencodeStart.start_outcome \<Rightarrow> Model.start_outcome" where
  "sample_outcome out =
     (case out of
        StartOK h \<Rightarrow> Inr \<lparr>out_ID = oc_id h, out_Events = oc_events h,
          out_Result = zero_RunResult\<lparr>res_RunID := oc_id h, res_Status := StatusCompleted\<rparr>, out_WaitErr = None\<rparr>
      | StartErr e \<Rightarrow> Inl (ESDK e)
      | StartPanic \<Rightarrow> Inl (EPlain ''panic''))"


end
