(* ===== verification/Clone.thy ===== *)
theory Clone
  imports Prelude
begin

text \<open>
  The deep copy of event payloads (\<^verbatim>\<open>observability.go\<close>, \<open>clonePayloadValue\<close>, \<open>cloneReflectValue\<close>). The store
  keeps copies, so that a caller who writes to a payload later does not change what was stored. Whether
  that holds depends on aliasing, so values here refer to an explicit heap: a pointer, a map and a slice
  are addresses, an interface, an array and a struct hold their values. The code recurses through
  pointers and does not return on cyclic data; the model takes fuel, and the laws show how much is enough.
\<close>

section \<open>Values and the heap\<close>

text \<open>
  A value as reflection sees it: of a basic kind, nil, or one of the composite kinds. A slice is a window
  of an array, given by its address, first index and length; a field of a struct carries whether
  reflection may set it, which it may not when its name is unexported.
\<close>

datatype 'a rval =
    RBasic 'a
  | RNil
  | is_RIface: RIface "'a rval"
  | RPtr nat
  | RMap nat
  | RSlice nat nat nat
  | RArray "'a rval list"
  | RStruct "(bool \<times> 'a rval) list"

datatype 'a robj =
    OCell "'a rval"
  | OEntries "('a rval \<times> 'a rval) list"
  | OElems "'a rval list"

type_synonym 'a rheap = "'a robj list"

definition robj_at :: "'a rheap \<Rightarrow> nat \<Rightarrow> 'a robj option" where
  "robj_at h a = (if a < length h then Some (h ! a) else None)"

definition window :: "nat \<Rightarrow> nat \<Rightarrow> 'b list \<Rightarrow> 'b list" where
  "window off len xs = take len (drop off xs)"

text \<open>What \<open>Set\<close> stores in a slot that held \<open>old\<close>: a slot of interface type wraps the value.\<close>

definition set_slot :: "'a rval \<Rightarrow> 'a rval \<Rightarrow> 'a rval" where
  "set_slot old new = (case old of RIface v \<Rightarrow> RIface new | _ \<Rightarrow> new)"

section \<open>The copy\<close>

text \<open>
  The new objects are appended to the heap. The keys of a copied map are as different from each other as
  the keys were, since basic keys are copied and pointers become new ones, so every entry is added.
  A struct is copied field by field up to a field that cannot be set, where the value itself is
  returned.
\<close>

fun cloneReflectValue :: "nat \<Rightarrow> 'a rheap \<Rightarrow> 'a rval \<Rightarrow> ('a rval \<times> 'a rheap) option"
  and clone_values :: "nat \<Rightarrow> 'a rheap \<Rightarrow> 'a rval list \<Rightarrow> ('a rval list \<times> 'a rheap) option" where
  "cloneReflectValue 0 h v = None"
| "cloneReflectValue (Suc n) h v =
     (case v of
        RBasic x \<Rightarrow> Some (v, h)
      | RNil \<Rightarrow> Some (v, h)
      | RIface w \<Rightarrow> cloneReflectValue n h w
      | RPtr a \<Rightarrow>
          (case robj_at h a of
             Some (OCell w) \<Rightarrow>
               (case clone_values n h [w] of
                  Some (ws, h') \<Rightarrow> Some (RPtr (length h'), h' @ [OCell (hd ws)])
                | None \<Rightarrow> None)
           | _ \<Rightarrow> None)
      | RMap a \<Rightarrow>
          (case robj_at h a of
             Some (OEntries es) \<Rightarrow>
               (case clone_values n h (map fst es) of
                  None \<Rightarrow> None
                | Some (ks, h1) \<Rightarrow>
                    (case clone_values n h1 (map snd es) of
                       None \<Rightarrow> None
                     | Some (vs, h2) \<Rightarrow> Some (RMap (length h2), h2 @ [OEntries (zip ks vs)])))
           | _ \<Rightarrow> None)
      | RSlice a off len \<Rightarrow>
          (case robj_at h a of
             Some (OElems xs) \<Rightarrow>
               (case clone_values n h (window off len xs) of
                  None \<Rightarrow> None
                | Some (ys, h') \<Rightarrow> Some (RSlice (length h') 0 (length ys), h' @ [OElems ys]))
           | _ \<Rightarrow> None)
      | RArray xs \<Rightarrow>
          (case clone_values n h xs of None \<Rightarrow> None | Some (ys, h') \<Rightarrow> Some (RArray ys, h'))
      | RStruct fs \<Rightarrow>
          (case clone_values n h (map snd (takeWhile fst fs)) of
             None \<Rightarrow> None
           | Some (ys, h') \<Rightarrow> Some (if list_all fst fs then RStruct (zip (map fst fs) ys) else v, h')))"
| "clone_values n h [] = Some ([], h)"
| "clone_values n h (v # vs) =
     (case cloneReflectValue n h v of
        None \<Rightarrow> None
      | Some (v', h1) \<Rightarrow>
          (case clone_values n h1 vs of None \<Rightarrow> None | Some (vs', h2) \<Rightarrow> Some (set_slot v v' # vs', h2)))"

definition clonePayloadValue :: "nat \<Rightarrow> 'a rheap \<Rightarrow> 'a rval \<Rightarrow> ('a rval \<times> 'a rheap) option" where
  "clonePayloadValue n h v = (if v = RNil then Some (RNil, h) else cloneReflectValue n h v)"

section \<open>What a value stands for\<close>

text \<open>The tree a value unfolds to: what reading it to the end gives, with no addresses left.\<close>

datatype 'a rtree =
    TBasic 'a
  | TNil
  | TIface "'a rtree"
  | TPtr "'a rtree"
  | TMap "('a rtree \<times> 'a rtree) list"
  | TSlice "'a rtree list"
  | TArray "'a rtree list"
  | TStruct "(bool \<times> 'a rtree) list"

text \<open>
  \<open>unfolds h b v t\<close>: in the heap \<open>h\<close> the value stands for the tree, and its addresses are from \<open>b\<close> on,
  but for those below a struct with a field that cannot be set. An interface never holds an interface.
\<close>

inductive unfolds :: "'a rheap \<Rightarrow> nat \<Rightarrow> 'a rval \<Rightarrow> 'a rtree \<Rightarrow> bool" for h where
  unf_basic: "unfolds h b (RBasic x) (TBasic x)"
| unf_nil: "unfolds h b RNil TNil"
| unf_iface: "unfolds h b v t \<Longrightarrow> \<not> is_RIface v \<Longrightarrow> unfolds h b (RIface v) (TIface t)"
| unf_ptr: "robj_at h a = Some (OCell v) \<Longrightarrow> b \<le> a \<Longrightarrow> unfolds h b v t \<Longrightarrow> unfolds h b (RPtr a) (TPtr t)"
| unf_map: "robj_at h a = Some (OEntries es) \<Longrightarrow> b \<le> a \<Longrightarrow> list_all2 (unfolds h b) (map fst es) ks
    \<Longrightarrow> list_all2 (unfolds h b) (map snd es) vs \<Longrightarrow> unfolds h b (RMap a) (TMap (zip ks vs))"
| unf_slice: "robj_at h a = Some (OElems xs) \<Longrightarrow> b \<le> a \<Longrightarrow> list_all2 (unfolds h b) (window off len xs) ts
    \<Longrightarrow> unfolds h b (RSlice a off len) (TSlice ts)"
| unf_array: "list_all2 (unfolds h b) xs ts \<Longrightarrow> unfolds h b (RArray xs) (TArray ts)"
| unf_struct: "list_all fst fs \<Longrightarrow> list_all2 (unfolds h b) (map snd fs) ts
    \<Longrightarrow> unfolds h b (RStruct fs) (TStruct (zip (map fst fs) ts))"
| unf_opaque: "\<not> list_all fst fs \<Longrightarrow> list_all2 (unfolds h 0) (map snd fs) ts
    \<Longrightarrow> unfolds h b (RStruct fs) (TStruct (zip (map fst fs) ts))"

text \<open>Trees without a struct that has a field that cannot be set.\<close>

fun settable :: "'a rtree \<Rightarrow> bool" where
  "settable (TIface t) = settable t"
| "settable (TPtr t) = settable t"
| "settable (TMap es) = (\<forall>e \<in> set es. settable (fst e) \<and> settable (snd e))"
| "settable (TSlice ts) = (\<forall>t \<in> set ts. settable t)"
| "settable (TArray ts) = (\<forall>t \<in> set ts. settable t)"
| "settable (TStruct fs) = (\<forall>f \<in> set fs. fst f \<and> settable (snd f))"
| "settable _ = True"

section \<open>Frames\<close>

lemma robj_at_append [simp]: "robj_at h a = Some x \<Longrightarrow> robj_at (h @ g) a = Some x"
  by (auto simp: robj_at_def nth_append split: if_splits)

lemma robj_at_new [simp]: "robj_at (h @ [x]) (length h) = Some x"
  by (simp add: robj_at_def)

text \<open>A longer heap and a lower bound keep what a value stands for.\<close>

lemma unfolds_mono:
  assumes "unfolds h b v t" and "b' \<le> b"
  shows "unfolds (h @ g) b' v t"
  using assms
proof (induction arbitrary: b' rule: unfolds.induct)
  case (unf_map a es b ks vs)
  then show ?case by (intro unfolds.unf_map) (auto elim!: list_all2_mono)
next
  case (unf_slice a xs b off len ts)
  then show ?case by (intro unfolds.unf_slice) (auto elim!: list_all2_mono)
next
  case (unf_array b xs ts)
  then show ?case by (intro unfolds.unf_array) (auto elim!: list_all2_mono)
next
  case (unf_struct fs b ts)
  then show ?case by (intro unfolds.unf_struct) (auto elim!: list_all2_mono)
next
  case (unf_opaque fs ts b)
  then show ?case by (intro unfolds.unf_opaque) (auto elim!: list_all2_mono)
qed (auto intro: unfolds.intros)

lemma unfolds_extend: "unfolds h b v t \<Longrightarrow> prefix h g \<Longrightarrow> unfolds g b v t"
  using unfolds_mono [of h b v t b] by (auto simp: prefix_def)

lemma ball_zip:
  "length xs = length ys \<Longrightarrow> (\<forall>e \<in> set (zip xs ys). P (fst e) \<and> Q (snd e)) \<longleftrightarrow> (\<forall>x \<in> set xs. P x) \<and> (\<forall>y \<in> set ys. Q y)"
  by (induction xs ys rule: list_induct2) auto

text \<open>A value whose addresses are from \<open>b\<close> on does not depend on the objects before \<open>b\<close>.\<close>

lemma unfolds_frame:
  assumes "unfolds h b v t" and "settable t" and "\<And>a. b \<le> a \<Longrightarrow> robj_at g a = robj_at h a"
  shows "unfolds g b v t"
  using assms
proof (induction rule: unfolds.induct)
  case (unf_map a es b ks vs)
  have len: "length ks = length vs" using unf_map.IH [THEN list_all2_lengthD] by simp
  have "\<forall>t \<in> set ks \<union> set vs. settable t"
    using unf_map.prems(1) ball_zip [OF len, of settable settable] by auto
  with unf_map show ?case
    by (intro unfolds.unf_map) (auto elim!: list.rel_mono_strong)
next
  case (unf_slice a xs b off len ts)
  then show ?case by (intro unfolds.unf_slice) (auto elim!: list.rel_mono_strong)
next
  case (unf_array b xs ts)
  then show ?case by (intro unfolds.unf_array) (auto elim!: list.rel_mono_strong)
next
  case (unf_struct fs b ts)
  have len: "length fs = length ts" using unf_struct.IH [THEN list_all2_lengthD] by simp
  have "\<forall>t \<in> set ts. settable t"
    using unf_struct.prems(1) ball_zip [of "map fst fs" ts "\<lambda>x. x" settable] len by simp
  with unf_struct show ?case by (intro unfolds.unf_struct) (auto elim!: list.rel_mono_strong)
next
  case (unf_opaque fs ts b)
  have len: "length fs = length ts" using unf_opaque.IH [THEN list_all2_lengthD] by simp
  then have "list_all fst fs" using unf_opaque.prems(1) ball_zip [of "map fst fs" ts "\<lambda>x. x" settable] by (simp add: list_all_iff)
  with unf_opaque.hyps(1) show ?case by blast
qed (auto intro: unfolds.intros)

section \<open>The copy stands for the same tree and is new\<close>

text \<open>With enough fuel, and in any heap that extends \<open>h\<close>, the copy of \<open>v\<close> stands for \<open>t\<close> and its addresses are new.\<close>

definition copies :: "'a rheap \<Rightarrow> 'a rval \<Rightarrow> 'a rtree \<Rightarrow> bool" where
  "copies h v t \<longleftrightarrow>
     (\<exists>N. \<forall>g n. prefix h g \<longrightarrow> N \<le> n \<longrightarrow>
        (\<exists>v' g'. cloneReflectValue n g v = Some (v', g') \<and> prefix g g' \<and> unfolds g' (length h) (set_slot v v') t))"

lemma copies_values:
  assumes "list_all2 (copies h) vs ts"
  shows "\<exists>N. \<forall>g n. prefix h g \<longrightarrow> N \<le> n \<longrightarrow>
    (\<exists>vs' g'. clone_values n g vs = Some (vs', g') \<and> prefix g g' \<and> list_all2 (unfolds g' (length h)) vs' ts)"
  using assms
proof (induction rule: list_all2_induct)
  case Nil
  then show ?case by auto
next
  case (Cons v vs t ts)
  obtain N where N: "\<And>g n. prefix h g \<Longrightarrow> N \<le> n \<Longrightarrow>
      \<exists>v' g'. cloneReflectValue n g v = Some (v', g') \<and> prefix g g' \<and> unfolds g' (length h) (set_slot v v') t"
    using Cons.hyps(1) unfolding copies_def by blast
  obtain M where M: "\<And>g n. prefix h g \<Longrightarrow> M \<le> n \<Longrightarrow>
      \<exists>vs' g'. clone_values n g vs = Some (vs', g') \<and> prefix g g' \<and> list_all2 (unfolds g' (length h)) vs' ts"
    using Cons.IH by blast
  show ?case
  proof (intro exI [of _ "max N M"] allI impI)
    fix g n
    assume g: "prefix h g" and n: "max N M \<le> n"
    obtain v' g1 where 1: "cloneReflectValue n g v = Some (v', g1)" "prefix g g1" "unfolds g1 (length h) (set_slot v v') t"
      using N [OF g] n by fastforce
    have "prefix h g1" using g 1(2) by (rule prefix_order.trans)
    then obtain vs' g2 where 2: "clone_values n g1 vs = Some (vs', g2)" "prefix g1 g2" "list_all2 (unfolds g2 (length h)) vs' ts"
      using M n by fastforce
    have "unfolds g2 (length h) (set_slot v v') t" using unfolds_extend [OF 1(3) 2(2)] .
    moreover have "prefix g g2" using 1(2) 2(2) by (rule prefix_order.trans)
    ultimately show "\<exists>vs' g'. clone_values n g (v # vs) = Some (vs', g') \<and> prefix g g' \<and> list_all2 (unfolds g' (length h)) vs' (t # ts)"
      using 1(1) 2(1,3) by simp
  qed
qed

lemma copies_intro:
  assumes "\<And>g n. prefix h g \<Longrightarrow> N \<le> n \<Longrightarrow>
      \<exists>v' g'. cloneReflectValue (Suc n) g v = Some (v', g') \<and> prefix g g' \<and> unfolds g' (length h) (set_slot v v') t"
  shows "copies h v t"
  unfolding copies_def
proof (intro exI [of _ "Suc N"] allI impI)
  fix g n
  assume "prefix h g" and n: "Suc N \<le> n"
  then obtain m where "n = Suc m" "N \<le> m" by (cases n) auto
  with assms \<open>prefix h g\<close>
  show "\<exists>v' g'. cloneReflectValue n g v = Some (v', g') \<and> prefix g g' \<and> unfolds g' (length h) (set_slot v v') t" by blast
qed

lemma robj_at_extend: "prefix h g \<Longrightarrow> robj_at h a = Some x \<Longrightarrow> robj_at g a = Some x"
  by (auto simp: prefix_def)

lemma clone_not_iface:
  "cloneReflectValue n g v = Some (v', g') \<Longrightarrow> \<not> is_RIface v \<Longrightarrow> \<not> is_RIface v'"
  by (cases n; cases v) (auto split: option.splits robj.splits if_splits)

lemma set_slot_not_iface [simp]: "\<not> is_RIface v \<Longrightarrow> set_slot v w = w"
  by (cases v) (simp_all add: set_slot_def)

lemma window_all [simp]: "window 0 (length xs) xs = xs"
  by (simp add: window_def)

lemma list_all2_takeWhile:
  assumes "list_all2 P (map snd fs) ts"
  shows "\<exists>us. list_all2 P (map snd (takeWhile q fs)) us"
proof -
  have "map snd (takeWhile q fs) = take (length (takeWhile q fs)) (map snd fs)"
    by (metis take_map takeWhile_eq_take)
  then show ?thesis using list_all2_takeI [OF assms] by metis
qed

lemma unfolds_copies: "unfolds h b v t \<Longrightarrow> copies h v t"
proof (induction rule: unfolds.induct)
  case (unf_basic b x)
  show ?case by (rule copies_intro) (auto simp: set_slot_def intro: unfolds.unf_basic)
next
  case (unf_nil b)
  show ?case by (rule copies_intro) (auto simp: set_slot_def intro: unfolds.unf_nil)
next
  case (unf_iface b v t)
  obtain N where N: "\<And>g n. prefix h g \<Longrightarrow> N \<le> n \<Longrightarrow>
      \<exists>v' g'. cloneReflectValue n g v = Some (v', g') \<and> prefix g g' \<and> unfolds g' (length h) (set_slot v v') t"
    using unf_iface.IH unfolding copies_def by blast
  show ?case
  proof (rule copies_intro [of _ N])
    fix g n assume "prefix h g" "N \<le> n"
    then obtain v' g' where c: "cloneReflectValue n g v = Some (v', g')" "prefix g g'" "unfolds g' (length h) v' t"
      using N unf_iface.hyps(2) by fastforce
    have "unfolds g' (length h) (RIface v') (TIface t)"
      using c(3) clone_not_iface [OF c(1) unf_iface.hyps(2)] by (rule unfolds.unf_iface)
    with c show "\<exists>v' g'. cloneReflectValue (Suc n) g (RIface v) = Some (v', g') \<and> prefix g g'
        \<and> unfolds g' (length h) (set_slot (RIface v) v') (TIface t)"
      by (simp add: set_slot_def)
  qed
next
  case (unf_ptr a v b t)
  have single: "list_all2 (copies h) [v] [t]" using unf_ptr.IH by simp
  obtain N where N: "\<And>g n. prefix h g \<Longrightarrow> N \<le> n \<Longrightarrow>
      \<exists>vs' g'. clone_values n g [v] = Some (vs', g') \<and> prefix g g' \<and> list_all2 (unfolds g' (length h)) vs' [t]"
    using copies_values [OF single] by blast
  show ?case
  proof (rule copies_intro [of _ N])
    fix g n assume g: "prefix h g" and "N \<le> n"
    then obtain v' g' where c: "clone_values n g [v] = Some ([v'], g')" "prefix g g'" "unfolds g' (length h) v' t"
      using N by (fastforce simp: list_all2_Cons2)
    have "length h \<le> length g'" using g c(2) by (meson le_trans prefix_length_le)
    then have "unfolds (g' @ [OCell v']) (length h) (RPtr (length g')) (TPtr t)"
      using unfolds_mono [OF c(3)] by (intro unfolds.unf_ptr) auto
    with c g unf_ptr.hyps(1) show "\<exists>v' g'. cloneReflectValue (Suc n) g (RPtr a) = Some (v', g') \<and> prefix g g'
        \<and> unfolds g' (length h) (set_slot (RPtr a) v') (TPtr t)"
      by (simp add: robj_at_extend set_slot_def)
  qed
next
  case (unf_map a es b ks vs)
  have "list_all2 (copies h) (map fst es) ks" "list_all2 (copies h) (map snd es) vs"
    using unf_map.IH by (auto elim!: list_all2_mono)
  from this [THEN copies_values] obtain N M where
    N: "\<And>g n. prefix h g \<Longrightarrow> N \<le> n \<Longrightarrow> \<exists>vs' g'. clone_values n g (map fst es) = Some (vs', g') \<and> prefix g g'
        \<and> list_all2 (unfolds g' (length h)) vs' ks" and
    M: "\<And>g n. prefix h g \<Longrightarrow> M \<le> n \<Longrightarrow> \<exists>vs' g'. clone_values n g (map snd es) = Some (vs', g') \<and> prefix g g'
        \<and> list_all2 (unfolds g' (length h)) vs' vs"
    by blast
  show ?case
  proof (rule copies_intro [of _ "max N M"])
    fix g n assume g: "prefix h g" and n: "max N M \<le> n"
    obtain ks' g1 where 1: "clone_values n g (map fst es) = Some (ks', g1)" "prefix g g1" "list_all2 (unfolds g1 (length h)) ks' ks"
      using N [OF g] n by fastforce
    have g1: "prefix h g1" using g 1(2) by (rule prefix_order.trans)
    obtain vs' g2 where 2: "clone_values n g1 (map snd es) = Some (vs', g2)" "prefix g1 g2" "list_all2 (unfolds g2 (length h)) vs' vs"
      using M [OF g1] n by fastforce
    have b: "length h \<le> length g2" using g1 2(2) by (meson le_trans prefix_length_le)
    have len: "length ks' = length vs'"
      using 1(3) 2(3) unf_map.IH [THEN list_all2_lengthD] by (auto dest!: list_all2_lengthD)
    have "list_all2 (unfolds (g2 @ [OEntries (zip ks' vs')]) (length h)) ks' ks"
      using 1(3) 2(2) unfolds_extend [of g1] by (elim list_all2_mono) (metis prefix_order.trans prefixI)
    moreover have "list_all2 (unfolds (g2 @ [OEntries (zip ks' vs')]) (length h)) vs' vs"
      using 2(3) unfolds_mono by (elim list_all2_mono) blast
    ultimately have "unfolds (g2 @ [OEntries (zip ks' vs')]) (length h) (RMap (length g2)) (TMap (zip ks vs))"
      using b len by (intro unfolds.unf_map [where es = "zip ks' vs'"]) auto
    moreover have "prefix g (g2 @ [OEntries (zip ks' vs')])" using 1(2) 2(2) by (meson prefix_order.trans prefixI)
    ultimately show "\<exists>v' g'. cloneReflectValue (Suc n) g (RMap a) = Some (v', g') \<and> prefix g g'
        \<and> unfolds g' (length h) (set_slot (RMap a) v') (TMap (zip ks vs))"
      using 1(1) 2(1) g unf_map.hyps(1) by (simp add: robj_at_extend set_slot_def)
  qed
next
  case (unf_slice a xs b off len ts)
  have "list_all2 (copies h) (window off len xs) ts" using unf_slice.IH by (auto elim!: list_all2_mono)
  from copies_values [OF this] obtain N where
    N: "\<And>g n. prefix h g \<Longrightarrow> N \<le> n \<Longrightarrow> \<exists>vs' g'. clone_values n g (window off len xs) = Some (vs', g') \<and> prefix g g'
        \<and> list_all2 (unfolds g' (length h)) vs' ts"
    by blast
  show ?case
  proof (rule copies_intro [of _ N])
    fix g n assume g: "prefix h g" and "N \<le> n"
    then obtain ys g' where c: "clone_values n g (window off len xs) = Some (ys, g')" "prefix g g'"
      "list_all2 (unfolds g' (length h)) ys ts" using N by blast
    have b: "length h \<le> length g'" using g c(2) by (meson le_trans prefix_length_le)
    have "list_all2 (unfolds (g' @ [OElems ys]) (length h)) ys ts"
      using c(3) unfolds_mono by (elim list_all2_mono) blast
    then have "unfolds (g' @ [OElems ys]) (length h) (RSlice (length g') 0 (length ys)) (TSlice ts)"
      using b by (intro unfolds.unf_slice) auto
    with c g unf_slice.hyps(1) show "\<exists>v' g'. cloneReflectValue (Suc n) g (RSlice a off len) = Some (v', g') \<and> prefix g g'
        \<and> unfolds g' (length h) (set_slot (RSlice a off len) v') (TSlice ts)"
      by (simp add: robj_at_extend set_slot_def)
  qed
next
  case (unf_array b xs ts)
  have "list_all2 (copies h) xs ts" using unf_array.IH by (auto elim!: list_all2_mono)
  from copies_values [OF this] obtain N where
    N: "\<And>g n. prefix h g \<Longrightarrow> N \<le> n \<Longrightarrow> \<exists>vs' g'. clone_values n g xs = Some (vs', g') \<and> prefix g g'
        \<and> list_all2 (unfolds g' (length h)) vs' ts"
    by blast
  show ?case
    by (rule copies_intro [of _ N]) (use N in \<open>fastforce simp: set_slot_def intro: unfolds.unf_array\<close>)
next
  case (unf_struct fs b ts)
  have "list_all2 (copies h) (map snd fs) ts" using unf_struct.IH by (auto elim!: list_all2_mono)
  from copies_values [OF this] obtain N where
    N: "\<And>g n. prefix h g \<Longrightarrow> N \<le> n \<Longrightarrow> \<exists>vs' g'. clone_values n g (map snd fs) = Some (vs', g') \<and> prefix g g'
        \<and> list_all2 (unfolds g' (length h)) vs' ts"
    by blast
  have all: "takeWhile fst fs = fs" using unf_struct.hyps by (simp add: takeWhile_eq_all_conv list_all_iff)
  show ?case
  proof (rule copies_intro [of _ N])
    fix g n assume "prefix h g" "N \<le> n"
    then obtain ys g' where c: "clone_values n g (map snd fs) = Some (ys, g')" "prefix g g'"
      "list_all2 (unfolds g' (length h)) ys ts" using N by blast
    have len: "length fs = length ys" using c(3) unf_struct.IH [THEN list_all2_lengthD] by (auto dest!: list_all2_lengthD)
    have "unfolds g' (length h) (RStruct (zip (map fst fs) ys)) (TStruct (zip (map fst (zip (map fst fs) ys)) ts))"
      using unf_struct.hyps len c(3) by (intro unfolds.unf_struct) (auto simp: list_all_iff dest: set_zip_leftD)
    with c unf_struct.hyps len show "\<exists>v' g'. cloneReflectValue (Suc n) g (RStruct fs) = Some (v', g') \<and> prefix g g'
        \<and> unfolds g' (length h) (set_slot (RStruct fs) v') (TStruct (zip (map fst fs) ts))"
      by (simp add: all set_slot_def)
  qed
next
  case (unf_opaque fs ts b)
  have "list_all2 (copies h) (map snd fs) ts" using unf_opaque.IH by (auto elim!: list_all2_mono)
  from list_all2_takeWhile [OF this] obtain us where "list_all2 (copies h) (map snd (takeWhile fst fs)) us" by blast
  from copies_values [OF this] obtain N where
    N: "\<And>g n. prefix h g \<Longrightarrow> N \<le> n \<Longrightarrow> \<exists>vs' g'. clone_values n g (map snd (takeWhile fst fs)) = Some (vs', g') \<and> prefix g g'"
    by blast
  show ?case
  proof (rule copies_intro [of _ N])
    fix g n assume g: "prefix h g" and "N \<le> n"
    then obtain ys g' where c: "clone_values n g (map snd (takeWhile fst fs)) = Some (ys, g')" "prefix g g'" using N by blast
    have "prefix h g'" using g c(2) by (rule prefix_order.trans)
    then have "list_all2 (unfolds g' 0) (map snd fs) ts"
      using unf_opaque.IH unfolds_extend by (auto elim!: list_all2_mono)
    with unf_opaque.hyps have "unfolds g' (length h) (RStruct fs) (TStruct (zip (map fst fs) ts))" by (intro unfolds.unf_opaque)
    with c unf_opaque.hyps show "\<exists>v' g'. cloneReflectValue (Suc n) g (RStruct fs) = Some (v', g') \<and> prefix g g'
        \<and> unfolds g' (length h) (set_slot (RStruct fs) v') (TStruct (zip (map fst fs) ts))"
      by (simp add: set_slot_def)
  qed
qed

section \<open>Limits of the copy\<close>

text \<open>A struct with a field that cannot be set is shared, with every map and slice in its other fields.\<close>

lemma clone_shares_struct:
  "cloneReflectValue (Suc n) h (RStruct [(False, v), (True, RMap a)]) = Some (RStruct [(False, v), (True, RMap a)], h)"
  by simp

text \<open>A pointer that reaches itself is copied for ever.\<close>

lemma clone_cyclic: "cloneReflectValue n [OCell (RPtr 0)] (RPtr 0) = None"
  by (induction n) (simp_all add: robj_at_def)

section \<open>Properties\<close>



end
