(* ===== verification/Testkit.thy ===== *)
theory Testkit
  imports Decoder JsonScan Model
begin

text \<open>
  The fakes of \<^verbatim>\<open>internal/testkit\<close>: the runtime that plays a script of events
  (\<^verbatim>\<open>fake_runtime.go\<close>), the records of a fixture (\<^verbatim>\<open>fixture.go\<close>) and the lifecycle read off them
  (\<^verbatim>\<open>fake_lifecycle.go\<close>). A fake run
  has two parties, the goroutine of \<open>play\<close> and any number of calls of \<open>Cancel\<close>; they are the step relation
  \<open>fake_step\<close>, whose steps are the stretches between two points where the other party can act.
\<close>

section \<open>The records of a fixture\<close>

record EventRecord =
  er_Position :: int
  er_Raw :: string
  er_Type :: string
  er_Payload :: anymap
  er_Err :: "go_error option"

text \<open>A line is decoded into a struct of a string and a map; a nil map is the empty one in the end.\<close>

definition fixture_fields :: "(string \<times> anymap) field list" where
  "fixture_fields =
     [(''type'', \<lambda>d v. map_option (\<lambda>t. (t, snd d)) (decode_string (fst d) v)),
      (''payload'', \<lambda>d v. map_option (Pair (fst d)) (decode_map (\<lambda>r. map_option gval_of_json (json_of_raw r)) (snd d) v))]"

definition fixture_record :: "(string \<Rightarrow> go_error) \<Rightarrow> int \<Rightarrow> string \<Rightarrow> EventRecord" where
  "fixture_record jerr pos raw =
     (case json_decode (decode_struct fixture_fields) ([], []) raw of
        None \<Rightarrow> \<lparr>er_Position = pos, er_Raw = raw, er_Type = [], er_Payload = [],
                 er_Err = Some (EWrap (''decode fixture event '' @ itoa pos @ '': '' @ error_text (jerr raw)) (jerr raw))\<rparr>
      | Some d \<Rightarrow> \<lparr>er_Position = pos, er_Raw = raw, er_Type = fst d, er_Payload = snd d, er_Err = None\<rparr>)"

text \<open>A \<open>bufio.Scanner\<close> with its default limit of 64 KiB; \<open>read_err\<close> is how the reader ends.\<close>

definition LoadJSONL :: "(string \<Rightarrow> go_error) \<Rightarrow> go_error option \<Rightarrow> string \<Rightarrow> EventRecord list \<times> go_error option" where
  "LoadJSONL jerr read_err input =
     (let ls = stream_lines input; fits = (\<lambda>l. length l < 64 * 1024); tokens = map drop_cr (takeWhile fits ls)
      in (map (\<lambda>(i, raw). fixture_record jerr (int i + 1) raw) (enumerate 0 tokens),
          if list_all fits ls then read_err else Some (EPlain ''bufio.Scanner: token too long'')))"

section \<open>The lifecycle of a fixture\<close>

datatype fake_status = FakeStarting | FakeRunning | FakeCompleted | FakeFailed

fun fake_lifecycle :: "fake_status list \<Rightarrow> EventRecord list \<Rightarrow> fake_status list \<times> go_error option" where
  "fake_lifecycle states [] = (states @ [FakeFailed], Some (EPlain ''fake lifecycle ended without completion''))"
| "fake_lifecycle states (r # rs) =
     (if er_Err r \<noteq> None then (states @ [FakeFailed], er_Err r)
      else if er_Type r = ''run.started'' then fake_lifecycle (states @ [FakeRunning]) rs
      else if er_Type r = ''run.completed'' then (states @ [FakeCompleted], None)
      else if er_Type r = ''run.failed''
      then (states @ [FakeFailed], Some (EPlain (''fake lifecycle failed at event '' @ itoa (er_Position r))))
      else fake_lifecycle states rs)"

definition RunFakeLifecycle :: "EventRecord list \<Rightarrow> fake_status list \<times> go_error option" where
  "RunFakeLifecycle records = fake_lifecycle [FakeStarting] records"

section \<open>The fake runtime\<close>

record FakeRuntime =
  fr_Kind :: RuntimeKind
  fr_Provider :: ProviderID
  fr_Model :: ModelID
  fr_Script :: "Event list"
  fr_Err :: "SDKError option"

definition fake_runtimeKind :: "FakeRuntime \<Rightarrow> RuntimeKind" where
  "fake_runtimeKind f = (if fr_Kind f = [] then ''fake'' else fr_Kind f)"

definition fake_Capabilities :: "FakeRuntime \<Rightarrow> Capabilities" where
  "fake_Capabilities f =
     (let yes = (\<lambda>c d. (c, \<lparr>cs_Supported = True, cs_Detail = d\<rparr>))
      in \<lparr>caps_RuntimeKind = fake_runtimeKind f,
          caps_Features = Some
            [yes CapabilitySessions ''fake retained session metadata'',
             yes CapabilityCancellation ''fake cancellation state'',
             yes CapabilityStructuredEvents ''deterministic canonical events'',
             yes CapabilityRawPayloads ''raw fixture payload preservation'',
             yes CapabilityArtifacts ''artifact references only'',
             (CapabilityPermissions, \<lparr>cs_Supported = False, cs_Detail = ''permission policy is deferred''\<rparr>),
             yes CapabilityUsage ''placeholder usage metadata'',
             yes CapabilityValidationEvents ''validation category only''],
          caps_Unsupported = [\<lparr>uc_Capability = CapabilityPermissions, uc_Reason = ''deferred to permission sprint''\<rparr>]\<rparr>)"

text \<open>
  Where \<open>play\<close> is: before the event of an index, sending it, or returned with its channels closed.
  The context of the run is a field here; \<open>fk_marked\<close> is a call of \<open>Cancel\<close> between its two
  parts, and \<open>fk_cancel\<close> that the channel of the cancellation is closed.
\<close>

datatype fake_pc = AtHead | Sending Event | Ended

record fakeRun =
  fk_id :: RunID
  fk_sessionID :: SessionID
  fk_turnID :: TurnID
  fk_context :: RuntimeContext
  fk_script :: "Event list"
  fk_err :: "SDKError option"
  fk_events :: "Event list"
  fk_marked :: bool
  fk_cancel :: bool
  fk_start :: gtime
  fk_finish :: gtime
  fk_status :: RunStatus
  fk_artifacts :: "ArtifactRef list"
  fk_usage :: Usage
  fk_ctx :: "ctx_error option"
  fk_index :: nat
  fk_pc :: fake_pc

fun unsupported_required :: "Capabilities \<Rightarrow> Capability list \<Rightarrow> Capability option" where
  "unsupported_required caps [] = None"
| "unsupported_required caps (c # cs) = (if \<not> Supports caps c then Some c else unsupported_required caps cs)"

definition fake_StartRun :: "FakeRuntime \<Rightarrow> RunRequest \<Rightarrow> gtime \<Rightarrow> SDKError + fakeRun" where
  "fake_StartRun f req now =
     (case unsupported_required (fake_Capabilities f) (case req_RequireCaps req of None \<Rightarrow> [] | Some cs \<Rightarrow> cs) of
        Some c \<Rightarrow> Inl (NewError ErrorConfiguration ''fake.StartRun'' (''unsupported capability '' @ c) None [])
      | None \<Rightarrow>
          Inr \<lparr>fk_id = ''fake-run-1'',
               fk_sessionID = (if req_SessionID req = [] \<and> req_WantSession req then ''fake-session-1'' else req_SessionID req),
               fk_turnID = (if req_TurnID req = [] then ''fake-turn-1'' else req_TurnID req),
               fk_context = zero_RuntimeContext\<lparr>ctx_RuntimeKind := fake_runtimeKind f, ctx_RuntimeName := ''fake'',
                 ctx_Provider := fr_Provider f, ctx_Model := fr_Model f\<rparr>,
               fk_script = fr_Script f, fk_err = fr_Err f, fk_events = [], fk_marked = False, fk_cancel = False,
               fk_start = now, fk_finish = 0, fk_status = NoStatus, fk_artifacts = [], fk_usage = zero_Usage,
               fk_ctx = None, fk_index = 0, fk_pc = AtHead\<rparr>)"

section \<open>The run\<close>

definition coerceRunStatus :: "gval \<Rightarrow> RunStatus option" where
  "coerceRunStatus value =
     (let status = (case value of GRunStatus st \<Rightarrow> Some st | GString s \<Rightarrow> Some (status_of s) | _ \<Rightarrow> None)
      in case status of
           None \<Rightarrow> None
         | Some st \<Rightarrow> if st \<in> {StatusStarting, StatusRunning, StatusCompleted, StatusFailed, StatusCancelled} then Some st else None)"

definition fake_observe :: "Event \<Rightarrow> fakeRun \<Rightarrow> fakeRun" where
  "fake_observe event r =
     (let r1 = (if Kind event = EventLifecycle \<and> \<not> Terminal (fk_status r) \<and> fk_err r = None
                then r\<lparr>fk_status := (case coerceRunStatus (gget (entries (ev_Payload event)) ''state'') of
                                        Some st \<Rightarrow> st | None \<Rightarrow> fk_status r)\<rparr>
                else r);
          r2 = (if Kind event = EventArtifact
                then r1\<lparr>fk_artifacts := fk_artifacts r1 @
                       (case gget (entries (ev_Payload event)) ''artifact'' of GArtifact a \<Rightarrow> [a] | _ \<Rightarrow> [])\<rparr>
                else r1);
          r3 = (if Kind event = EventUsage
                then r2\<lparr>fk_usage := (case gget (entries (ev_Payload event)) ''usage'' of GUsage u \<Rightarrow> u | _ \<Rightarrow> fk_usage r2)\<rparr>
                else r2)
      in if Kind event = EventFatalError \<and> fk_err r3 = None
         then r3\<lparr>fk_status := StatusFailed,
                 fk_err := Some (NewError ErrorRuntimeExit ''fake.play'' ''fake fatal event'' None [])\<rparr>
         else r3)"

definition markCancelled :: "go_error option \<Rightarrow> gtime \<Rightarrow> fakeRun \<Rightarrow> fakeRun" where
  "markCancelled cause now r =
     r\<lparr>fk_status := StatusCancelled, fk_finish := now,
       fk_err := Some (NewError ErrorCancellation ''fake.play'' ''context cancelled'' cause []), fk_pc := Ended\<rparr>"

text \<open>The event \<open>play\<close> sends for the event at an index of the script.\<close>

definition fake_event :: "fakeRun \<Rightarrow> nat \<Rightarrow> Event \<Rightarrow> Event" where
  "fake_event r i event =
     event\<lparr>ev_ID := ''fake-event-'' @ itoa (int i + 1), ev_RunID := fk_id r, ev_SessionID := fk_sessionID r,
           ev_Payload := Some (aput ''context'' (GContext (fk_context r))
             (aput ''turn_id'' (GString (fk_turnID r)) (entries (ev_Payload event)))),
           ev_Time := (if time_IsZero (ev_Time event) then fk_start r + int i * 1000000 else ev_Time event)\<rparr>"

definition fake_finish :: "gtime \<Rightarrow> fakeRun \<Rightarrow> fakeRun" where
  "fake_finish now r =
     r\<lparr>fk_status := (if fk_status r = NoStatus then StatusCompleted else fk_status r), fk_finish := now, fk_pc := Ended\<rparr>"

text \<open>\<open>Cancel\<close> up to the unlock of the mutex; then it closes the channel, once.\<close>

definition cancel_mark :: "fakeRun \<Rightarrow> fakeRun" where
  "cancel_mark r =
     (if Terminal (fk_status r) then r
      else r\<lparr>fk_status := StatusCancelled,
             fk_err := Some (NewError ErrorCancellation ''fake.Cancel'' ''run cancelled'' None []), fk_marked := True\<rparr>)"

inductive fake_step :: "fakeRun \<Rightarrow> fakeRun \<Rightarrow> bool" where
  context_ends: "fk_ctx r = None \<Longrightarrow> fake_step r (r\<lparr>fk_ctx := Some e\<rparr>)"
| call_cancel: "fake_step r (cancel_mark r)"
| close_cancel: "fk_marked r \<Longrightarrow> fake_step r (r\<lparr>fk_cancel := True\<rparr>)"
| play_context: "fk_pc r \<noteq> Ended \<Longrightarrow> fk_index r < length (fk_script r) \<Longrightarrow> fk_ctx r = Some e
    \<Longrightarrow> fake_step r (markCancelled (Some (ctx_go_error e)) now r)"
| play_cancel: "fk_pc r \<noteq> Ended \<Longrightarrow> fk_index r < length (fk_script r) \<Longrightarrow> fk_cancel r
    \<Longrightarrow> fake_step r (markCancelled (map_option ESDK (fk_err r)) now r)"
| play_next: "fk_pc r = AtHead \<Longrightarrow> fk_index r < length (fk_script r) \<Longrightarrow> fk_ctx r = None \<Longrightarrow> \<not> fk_cancel r
    \<Longrightarrow> event = fake_event r (fk_index r) (fk_script r ! fk_index r)
    \<Longrightarrow> fake_step r ((fake_observe event r)\<lparr>fk_pc := Sending event\<rparr>)"
| play_send: "fk_pc r = Sending event
    \<Longrightarrow> fake_step r (r\<lparr>fk_events := fk_events r @ [event], fk_index := Suc (fk_index r), fk_pc := AtHead\<rparr>)"
| play_finish: "fk_pc r = AtHead \<Longrightarrow> fk_index r = length (fk_script r) \<Longrightarrow> fake_step r (fake_finish now r)"

abbreviation fake_steps :: "fakeRun \<Rightarrow> fakeRun \<Rightarrow> bool" where
  "fake_steps \<equiv> fake_step\<^sup>*\<^sup>*"

text \<open>\<open>Wait\<close>: \<open>None\<close> while it blocks; \<open>pick\<close> resolves a \<open>select\<close> with both cases ready.\<close>

definition fake_Wait :: "ctx_error option \<Rightarrow> bool \<Rightarrow> fakeRun \<Rightarrow> (RunResult \<times> SDKError option) option" where
  "fake_Wait ctxErr pick r =
     (if ctxErr \<noteq> None \<and> (pick \<or> fk_pc r \<noteq> Ended)
      then Some (zero_RunResult, Some (NewError ErrorTimeout ''fake.Wait'' ''wait context ended'' (map_option ctx_go_error ctxErr) []))
      else if fk_pc r \<noteq> Ended then None
      else Some
        (zero_RunResult\<lparr>res_RunID := fk_id r, res_SessionID := fk_sessionID r, res_TurnID := fk_turnID r,
           res_Status := fk_status r, res_StartedAt := fk_start r, res_FinishedAt := fk_finish r,
           res_Artifacts := fk_artifacts r, res_Usage := fk_usage r, res_Err := fk_err r,
           res_Metadata := zero_RunMetadata\<lparr>md_Context := fk_context r, md_Status := fk_status r,
             md_StartedAt := fk_start r, md_FinishedAt := fk_finish r,
             md_Duration := time_sub (fk_finish r) (fk_start r),
             md_Session := zero_SessionMetadata\<lparr>ses_ID := fk_sessionID r, ses_Retained := (fk_sessionID r \<noteq> [])\<rparr>,
             md_Artifacts := fk_artifacts r, md_Usage := fk_usage r,
             md_Errors := (case fk_err r of Some e \<Rightarrow> [e] | None \<Rightarrow> [])\<rparr>\<rparr>, fk_err r))"

section \<open>Laws\<close>

text \<open>One record for every line that fits, in order, numbered from one, with the line as it was.\<close>

lemma fixture_record_line: "er_Raw (fixture_record jerr pos raw) = raw" "er_Position (fixture_record jerr pos raw) = pos"
  by (simp_all add: fixture_record_def split: option.splits)

lemma LoadJSONL_lines:
  assumes "LoadJSONL jerr read_err input = (rs, err)"
  shows "map er_Raw rs = map drop_cr (takeWhile (\<lambda>l. length l < 64 * 1024) (stream_lines input))"
    and "map er_Position rs = map (\<lambda>i. int i + 1) [0..<length rs]"
  using assms
  by (auto simp: LoadJSONL_def Let_def fixture_record_line nth_enumerate_eq intro!: nth_equalityI)

text \<open>A line with a type and no payload is read as that type.\<close>

lemma fixture_record_type:
  "fixture_record jerr pos (json_object [(''type'', json_string t)])
   = \<lparr>er_Position = pos, er_Raw = json_object [(''type'', json_string t)], er_Type = utf8_coerce t, er_Payload = [], er_Err = None\<rparr>"
proof -
  have "utf8_valid ''type''" by code_simp
  then have "scans (Suc 0) (json_object [(''type'', json_string t)]) (RObj [(''type'', RStr (json_body t) (utf8_coerce t))])"
    using scans_object [of "[(''type'', json_string t, RStr (json_body t) (utf8_coerce t))]" 0] scans_string [of t] by simp
  then have "json_scan (json_object [(''type'', json_string t)]) = Some (RObj [(''type'', RStr (json_body t) (utf8_coerce t))])"
    by (rule json_scan_text) (simp add: max_depth_def)
  then show ?thesis by (simp add: fixture_record_def json_decode_def store_member_def fixture_fields_def)
qed

text \<open>A fixture completes exactly when a record says so before any record fails.\<close>

definition fake_quiet :: "EventRecord \<Rightarrow> bool" where
  "fake_quiet r \<longleftrightarrow> er_Err r = None \<and> er_Type r \<noteq> ''run.completed'' \<and> er_Type r \<noteq> ''run.failed''"

definition fake_end :: "fake_status list \<Rightarrow> EventRecord list \<Rightarrow> fake_status list \<times> go_error option" where
  "fake_end states rest =
     (case rest of
        [] \<Rightarrow> (states @ [FakeFailed], Some (EPlain ''fake lifecycle ended without completion''))
      | r # _ \<Rightarrow>
          if er_Err r = None \<and> er_Type r = ''run.completed'' then (states @ [FakeCompleted], None)
          else (states @ [FakeFailed],
                if er_Err r = None then Some (EPlain (''fake lifecycle failed at event '' @ itoa (er_Position r)))
                else er_Err r))"

lemma fake_lifecycle_exact:
  "fake_lifecycle states records =
     fake_end (states @ replicate (length (filter (\<lambda>r. er_Type r = ''run.started'') (takeWhile fake_quiet records))) FakeRunning)
       (dropWhile fake_quiet records)"
proof (induction records arbitrary: states)
  case (Cons r rs)
  show ?case
  proof (cases "fake_quiet r")
    case True
    then have "fake_lifecycle states (r # rs) =
        fake_lifecycle (states @ (if er_Type r = ''run.started'' then [FakeRunning] else [])) rs"
      by (simp add: fake_quiet_def)
    then show ?thesis
      using True by (cases "er_Type r = ''run.started''") (simp_all add: Cons.IH del: fake_lifecycle.simps)
  next
    case False
    then have "er_Err r = None \<Longrightarrow> er_Type r \<noteq> ''run.completed'' \<Longrightarrow> er_Type r = ''run.failed''"
      by (auto simp: fake_quiet_def)
    with False show ?thesis by (auto simp: fake_end_def)
  qed
qed (simp add: fake_end_def)

text \<open>The parties keep the identity of the run, and a cancellation that was marked stays.\<close>

definition fake_inv :: "fakeRun \<Rightarrow> fakeRun \<Rightarrow> bool" where
  "fake_inv r0 r \<longleftrightarrow>
     fk_id r = fk_id r0 \<and> fk_sessionID r = fk_sessionID r0 \<and> fk_turnID r = fk_turnID r0 \<and> fk_context r = fk_context r0
     \<and> fk_start r = fk_start r0 \<and> fk_script r = fk_script r0
     \<and> fk_index r \<le> length (fk_script r0)
     \<and> fk_events r = map (\<lambda>i. fake_event r0 i (fk_script r0 ! i)) [0..<fk_index r]
     \<and> (case fk_pc r of
          Sending e \<Rightarrow> fk_index r < length (fk_script r0) \<and> e = fake_event r0 (fk_index r) (fk_script r0 ! fk_index r)
        | Ended \<Rightarrow> fk_index r = length (fk_script r0) \<or> fk_status r = StatusCancelled
        | AtHead \<Rightarrow> True)
     \<and> (fk_marked r \<longrightarrow> fk_status r = StatusCancelled \<and> fk_err r \<noteq> None) \<and> (fk_cancel r \<longrightarrow> fk_marked r)"

lemma fake_observe_keeps [simp]:
  "fk_id (fake_observe e r) = fk_id r" "fk_sessionID (fake_observe e r) = fk_sessionID r"
  "fk_turnID (fake_observe e r) = fk_turnID r" "fk_context (fake_observe e r) = fk_context r"
  "fk_start (fake_observe e r) = fk_start r" "fk_script (fake_observe e r) = fk_script r"
  "fk_index (fake_observe e r) = fk_index r" "fk_events (fake_observe e r) = fk_events r"
  "fk_marked (fake_observe e r) = fk_marked r" "fk_cancel (fake_observe e r) = fk_cancel r"
  by (simp_all add: fake_observe_def Let_def)

lemma fake_observe_cancelled:
  assumes "fk_status r = StatusCancelled" and "fk_err r \<noteq> None"
  shows "fk_status (fake_observe e r) = StatusCancelled \<and> fk_err (fake_observe e r) \<noteq> None"
  using assms by (simp add: fake_observe_def Let_def)

lemma fake_event_same:
  assumes "fk_id r = fk_id r0" "fk_sessionID r = fk_sessionID r0" "fk_turnID r = fk_turnID r0" "fk_context r = fk_context r0"
    "fk_start r = fk_start r0"
  shows "fake_event r i e = fake_event r0 i e"
  using assms by (simp add: fake_event_def)

lemma fake_step_inv:
  assumes "fake_step r r'" and "fake_inv r0 r"
  shows "fake_inv r0 r'"
  using assms
proof (induction rule: fake_step.induct)
  case (call_cancel r)
  then show ?case by (auto simp: fake_inv_def cancel_mark_def split: fake_pc.splits)
next
  case (play_next r event)
  then have "event = fake_event r0 (fk_index r) (fk_script r0 ! fk_index r)"
    using fake_event_same [of r r0] by (simp add: fake_inv_def)
  with play_next fake_observe_cancelled [of r event] show ?case by (auto simp: fake_inv_def)
qed (auto simp: fake_inv_def markCancelled_def fake_finish_def split: fake_pc.splits)

lemma fake_start_inv: "fake_StartRun f req now = Inr r \<Longrightarrow> fake_inv r r"
  by (auto simp: fake_StartRun_def fake_inv_def split: option.splits)

text \<open>
  However \<open>play\<close>, calls of \<open>Cancel\<close> and the end of the context interleave, a fake run delivers the events of its
  script in order and numbered from one, all of them unless it was cancelled, and a run that was cancelled
  before its status was final ends cancelled with an error.
\<close>

lemma fake_run_contract:
  assumes "fake_StartRun f req now = Inr r0" and "fake_steps r0 r"
  shows "fk_events r = map (\<lambda>i. fake_event r0 i (fr_Script f ! i)) [0..<fk_index r] \<and> fk_index r \<le> length (fr_Script f)
    \<and> (fk_pc r = Ended \<and> fk_status r \<noteq> StatusCancelled \<longrightarrow> fk_index r = length (fr_Script f))
    \<and> (fk_marked r \<longrightarrow> fk_status r = StatusCancelled \<and> fk_err r \<noteq> None)"
proof -
  have "fake_inv r0 r"
    using assms(2) fake_start_inv [OF assms(1)] by (induction rule: rtranclp_induct) (auto intro: fake_step_inv)
  moreover have "fk_script r0 = fr_Script f" using assms(1) by (auto simp: fake_StartRun_def split: option.splits)
  ultimately show ?thesis by (auto simp: fake_inv_def)
qed

text \<open>\<open>play\<close> is never stuck while a reader takes the events, and each of its steps brings it nearer to its end.\<close>

definition fake_left :: "fakeRun \<Rightarrow> nat" where
  "fake_left r = (case fk_pc r of Ended \<Rightarrow> 0 | AtHead \<Rightarrow> 2 * (length (fk_script r) - fk_index r) + 1
                  | Sending e \<Rightarrow> 2 * (length (fk_script r) - fk_index r))"

lemma fake_play_progress:
  assumes "fake_inv r0 r" and "fk_pc r \<noteq> Ended"
  shows "\<exists>r'. fake_step r r' \<and> fake_left r' < fake_left r"
proof (cases "fk_pc r")
  case AtHead
  show ?thesis
  proof (cases "fk_index r = length (fk_script r)")
    case True
    with AtHead show ?thesis using fake_step.play_finish [of r 0] by (auto simp: fake_left_def fake_finish_def)
  next
    case False
    with assms(1) have more: "fk_index r < length (fk_script r)" by (simp add: fake_inv_def)
    consider e where "fk_ctx r = Some e" | "fk_cancel r" | "fk_ctx r = None" "\<not> fk_cancel r" by auto
    then show ?thesis
    proof cases
      case 1
      with AtHead more show ?thesis
        using fake_step.play_context [of r _ 0] by (auto simp: fake_left_def markCancelled_def)
    next
      case 2
      with AtHead more show ?thesis
        using fake_step.play_cancel [of r 0] by (auto simp: fake_left_def markCancelled_def)
    next
      case 3
      with AtHead more show ?thesis
        using fake_step.play_next [of r] by (fastforce simp: fake_left_def)
    qed
  qed
next
  case (Sending e)
  with assms(1) show ?thesis using fake_step.play_send [of r e] by (auto simp: fake_left_def fake_inv_def)
qed (use assms(2) in simp)

text \<open>A runtime with an error of its own and a silent script ends completed, with the error in the result.\<close>

lemma fake_error_completed:
  "fk_status r = NoStatus \<Longrightarrow> fk_err (fake_finish now r) = fk_err r \<and> fk_status (fake_finish now r) = StatusCompleted"
  by (simp add: fake_finish_def)

text \<open>A script whose last lifecycle event is not final ends with a status that is not.\<close>

lemma fake_status_open: "fk_status r = StatusRunning \<Longrightarrow> \<not> Terminal (fk_status (fake_finish now r))"
  by (simp add: fake_finish_def)

end
