(* ===== verification/Spec2Isabelle.thy ===== *)
theory Spec2Isabelle
  imports Stack Cache Config Health OpencodePermissions Clone Testkit
begin

text \<open>
  Verification of \<^verbatim>\<open>agentwrap\<close>, a Go SDK that runs coding agents behind one interface.

  \<^bold>\<open>The program.\<close> A \<open>Runtime\<close> starts a \<open>Run\<close> for a \<open>RunRequest\<close>; a run delivers events while it works
  and one \<open>RunResult\<close> at the end. The package \<^verbatim>\<open>opencode\<close> is the adapter that drives the OpenCode
  command line: it checks a request, starts a process, decodes its output line by line, projects the
  records to events, and decides the outcome from what it saw, how the process exited and what the
  database of OpenCode holds. Three wrappers add behaviour to any runtime: \<open>PolicyRunner\<close> retries and
  falls back, \<open>ValidatingRuntime\<close> checks the output and repairs it, \<open>ObservingRuntime\<close> records a run in
  a store and hands its events to sinks. Around them are permission policies, layered configuration,
  health reports, prompt cache directives, price tables and the redaction of credentials.

  \<^bold>\<open>Theories and the code they model\<close> (paths under \<^verbatim>\<open>src/\<close>).
  \<^item> \<open>Prelude\<close>, \<open>Encoding\<close>, \<open>Strconv\<close>, \<open>Json\<close>, \<open>Float64\<close>, \<open>JsonLaws\<close>, \<open>JsonNested\<close>, \<open>GoTime\<close>, \<open>JsonScan\<close>,
    \<open>Utf8\<close>: what the
    program uses of the Go language and its standard library: strings as bytes, maps as association lists in
    iteration order, times and durations, hexadecimal, SHA-256, \<^verbatim>\<open>strconv\<close>, RFC 3339 dates, and \<^verbatim>\<open>encoding/json\<close> into
    \<open>any\<close> and into structs. Shown: every \<open>float64\<close> is written with at most 17 digits and read back as it
    was, a date and a document read back as they were written, decoding into \<open>any\<close> is scanning and then converting, and what
    was decoded is valid UTF-8 that can be written and decoded again.
  \<^item> \<open>Values\<close>, \<open>Errors\<close>, \<open>Redact\<close>, \<open>Model\<close>, \<open>EventStream\<close>: \<^verbatim>\<open>ids.go, lifecycle.go, errors.go, redact.go,
    events.go, lifecycle_events.go, runtime.go, metadata.go\<close>. Structs are records, string enumerations are
    datatypes with a constructor for other values, \<open>any\<close> is the datatype \<open>gval\<close>, an \<open>error\<close> is a
    \<open>go_error\<close>. The locale \<open>event_sender\<close> is what the event streams of two wrappers have in common.
  \<^item> \<open>Policy\<close>, \<open>PolicyRun\<close>, \<open>PolicyLaws\<close>: \<^verbatim>\<open>policy.go\<close>. \<open>BasicPolicy\<close>, the loop of \<open>policyRun.execute\<close> with
    its attempts, decisions, waits and forwarded events; the locale \<open>bounded_policy\<close> is the contract a
    policy needs for the loop to end, interpreted by \<open>BasicPolicy\<close>. Shown: a run ends within the attempts the
    policy allows, its report is consistent, no event is lost silently, refusals are never retried.
  \<^item> \<open>Validation\<close>, \<open>ValidationRun\<close>, \<open>ValidationLaws\<close>: \<^verbatim>\<open>validation.go\<close>. The validators, the aggregation of
    checks, the repair loop. Shown: a pass succeeds exactly when no required check fails, it fails closed, a
    run ends within its repairs, and no repair has more permissions than the request.
  \<^item> \<open>Store\<close>, \<open>Observe\<close>, \<open>ObserveLaws\<close>: \<^verbatim>\<open>observability.go\<close>. The memory store and its eviction, the observing
    run. Shown: the store's invariant in every reachable state, what it keeps, that a live stream loses
    only what it counts, and that the records of a run in the store are numbered and redacted.
  \<^item> \<open>Clone\<close>: the deep copy of payloads by reflection in \<^verbatim>\<open>observability.go\<close>, over an explicit heap, since what it
    promises is about aliasing. Shown: the copy stands for the same tree and no write to what existed before
    reaches it, which is why the other theories may take payloads as values.
  \<^item> \<open>Wrappers\<close>: the composition of the wrappers, with the methods by which they only pass a question on. Shown: what a
    stack of any wrappers over an adapter answers; a policy runner over validating runtimes ends and, through all
    retries, fallbacks and repairs, hands down only requests with the caller's permission policy.
  \<^item> \<open>Stack\<close>: the OpenCode adapter under the wrappers. Shown: every process that such a run starts has in its
    environment exactly the permission configuration the adapter makes of the caller's policy.
  \<^item> \<open>Permissions\<close>, \<open>OpencodePermissions\<close>: \<^verbatim>\<open>permissions.go, opencode/permissions.go\<close>. Shown: exactly the
    well-formed policies are accepted; the configuration the process reads back states what the policy does.
  \<^item> \<open>Config\<close>, \<open>Health\<close>, \<open>Cache\<close>, \<open>Pricing\<close>: \<^verbatim>\<open>config.go, health.go, cache.go, pricing.go\<close>. Shown: precedence and
    provenance of every field, the required checks of a preflight, directives against the bytes of the
    prompt, the rate table and the store of rates, whose snapshot file, as JSON text, is read back by another store.
  \<^item> \<open>RateLimit\<close>, \<open>Decoder\<close>, \<open>Projector\<close>: \<^verbatim>\<open>opencode/rate_limit.go, opencode/decoder.go, opencode/projector.go\<close>.
    Shown: what is classified as a rate limit, which lines are decoded, what a record becomes.
  \<^item> \<open>OpencodeDB\<close>, \<open>Process\<close>, \<open>OpencodeRun\<close>, \<open>OpencodeRunLaws\<close>, \<open>OpencodeOutcome\<close>: \<^verbatim>\<open>opencode/runtime.go\<close> (the run),
    \<^verbatim>\<open>opencode/process.go, opencode/process_linux.go\<close> and its variants. The run handle is the record \<open>oc_run\<close>; \<open>oc_main\<close> is \<open>run.run\<close>, \<open>oc_Cancel\<close>,
    \<open>cancelOnContextDone\<close> and \<open>watchLogRateLimits\<close> are the other goroutines. The relation \<open>oc_step\<close> is the
    abstract specification of their interleaving (number an event, deliver or drop it, clean up once,
    change the rest), and the code is shown to refine it. Shown: identifiers of events differ and one
    event at most ends the lifecycle in every interleaving; one consistent outcome whatever happens; a
    clean run completes; the database answer is summed exactly; session identifiers are SQL literals; only
    the process group is signalled.
  \<^item> \<open>Testkit\<close>: \<^verbatim>\<open>internal/testkit\<close>. The fake runtime as a step relation of its player and its cancellations, the
    loading of a fixture and its lifecycle. Shown: the events delivered are a numbered prefix of the script in every
    interleaving, a cancellation stays, and the player is never stuck.
  \<^item> \<open>OpencodeHealth\<close>, \<open>OpencodeStart\<close>: \<^verbatim>\<open>opencode/options.go, opencode/health.go, opencode/models.go\<close> and \<open>StartRun\<close>
    of \<^verbatim>\<open>opencode/runtime.go\<close>. Shown: the windowed scan of a probe equals a search of its whole output, a
    health check starts no work, \<open>StartRun\<close> starts one process and only behind its guards, and the variables
    of that process.

  \<^bold>\<open>The outside world.\<close> The clock, contexts, channels, processes, files, HTTP, sinks and wrapped runtimes are
  environment records (\<open>policy_env\<close>, \<open>vrun_env\<close>, \<open>valid_env\<close>, \<open>observe_env\<close>, \<open>oc_env\<close>, \<open>process_env\<close>,
  \<open>health_env\<close>, \<open>start_env\<close>, \<open>rates_env\<close>, \<open>rate_env\<close>): functions from how often something was asked to the answer. A theorem for every
  environment holds for every schedule and every failure of what is outside. Parsers of the standard
  library that are not modelled (dates with a named zone, durations and decimal fractions in headers) are fields of
  these records; theorems name what they need of them, and the witnesses instantiate them.

  \<^bold>\<open>Bounds and fuel.\<close> The loop of the policy runner takes fuel, because a policy may retry for ever; that it ends
  under \<open>BasicPolicy\<close>, with fuel for the attempts the policy allows on every target, is a theorem. The repair
  loop recurses on the remaining repairs, the search in nested values on the depth the code limits (5
  levels). The JSON decoder counts calls up to the length of its input, and its laws show that the
  count is never what stops it; documents nested in strings are measured by their quotes.
  The limits of the code are kept: 96 KiB of answer, 256 KiB of log, 16 MiB lines, 64 KiB lines of a model
  listing, the bytes and events of the store.

  \<^bold>\<open>Choices.\<close> Integers of the code whose overflow matters are wrapped (token sums, retry delays); sequence
  numbers and counters are unbounded. \<open>float64\<close> values are rationals rounded as the format does, without
  signed zero and not-a-number. Case folding is that of ASCII, with the two extra characters that fold to
  ASCII letters in the redaction patterns and in the names of JSON fields. A Go map is visited in the order of its list,
  and theorems hold for every list; where the order decides a result, a lemma says so
  (\<open>rates_depend_on_order\<close>). A nil dereference or a write to a nil map is an outcome of its own.

  \<^bold>\<open>Not modelled.\<close> The operating system below \<open>execProcessRunner.Start\<close> and \<open>execProcess.Wait\<close> (pipes, the process
  itself), HTTP and file operations, which are the answers of environments; the options that install test
  doubles; the wording of errors of the standard library.
\<close>

section \<open>The adapter under the wrappers\<close>

text \<open>
  Over the OpenCode adapter a validating runtime reports validation events both as supported and in
  the list of what is not.
\<close>

lemma capabilities_contradict:
  "let caps = fst (stack_Capabilities [Validating_wrapper \<lparr>vrt_Runtime = Some 0, vrt_Spec = spec\<rparr>]
                     \<lparr>ad_Capabilities = (oc_Capabilities, None), ad_ListModels = None\<rparr>)
   in Supports caps CapabilityValidationEvents \<and> CapabilityValidationEvents \<in> uc_Capability ` set (caps_Unsupported caps)"
  by (simp add: validating_Capabilities_def oc_Capabilities_def Supports_def aget_or_def Let_def)

end
